(* ===== verification/Prelude.thy ===== *)
theory Prelude
  imports Main "HOL-Library.Word" "HOL-Library.Multiset" "HOL-Library.AList"
begin

text \<open>
  Shared vocabulary of the development: the Go types every component uses (bytes, addresses,
  the machine integers, errors, association-list maps), the lemma collections the component
  proofs draw on, and the generic facts about lists and maps that are not in the library.

  \<^item> \<open>int64\<close> values are \<open>int\<close> with the two's complement wrap-around written out by \<open>wrap64\<close>
    wherever the source computes with them; \<open>uint64\<close> is \<open>64 word\<close>, \<open>uint256\<close> is
    \<open>256 word\<close>, \<open>big.Int\<close> is \<open>int\<close>.
  \<^item> Go's integer division and remainder truncate towards zero: \<open>go_div\<close>, \<open>go_rem\<close>.
  \<^item> An operation that can fail returns \<open>goerror + 'a\<close>. \<open>Errorf\<close> is \<open>fmt.Errorf\<close>, \<open>Wrapf\<close>
    is \<open>fmt.Errorf\<close> with \<open>%w\<close>, and \<open>Panic\<close> is a run-time panic.
  \<^item> A Go map is an association list; the order of the list is the order in which a
    \<open>range\<close> loop happens to visit the map, and every statement quantifies over it.
\<close>

unbundle bit_operations_syntax

named_theorems go_simps \<open>rewrite rules for the Go primitives\<close>
named_theorems inv_rules \<open>preservation of component invariants\<close>

section \<open>Types\<close>

type_synonym byte = "8 word"
type_synonym bytes = "byte list"
type_synonym address = bytes
type_synonym gotime = int
type_synonym ('k, 'v) gomap = "('k \<times> 'v) list"

datatype goerror = Errorf string | Wrapf string goerror | Panic string

type_synonym 'a result = "goerror + 'a"

section \<open>Results\<close>

definition wrap_err :: "string \<Rightarrow> 'a result \<Rightarrow> 'a result" where
  "wrap_err msg r = (case r of Inl e \<Rightarrow> Inl (Wrapf msg e) | Inr x \<Rightarrow> Inr x)"

definition is_ok :: "'a result \<Rightarrow> bool" where
  "is_ok r \<longleftrightarrow> (case r of Inl _ \<Rightarrow> False | Inr _ \<Rightarrow> True)"

fun mapM_res :: "('a \<Rightarrow> 'b result) \<Rightarrow> 'a list \<Rightarrow> 'b list result" where
  "mapM_res f [] = Inr []"
| "mapM_res f (x # xs) =
     (case f x of Inl e \<Rightarrow> Inl e
      | Inr y \<Rightarrow> (case mapM_res f xs of Inl e \<Rightarrow> Inl e | Inr ys \<Rightarrow> Inr (y # ys)))"

lemma wrap_err_simps [simp]:
  "wrap_err msg (Inl e) = Inl (Wrapf msg e)" "wrap_err msg (Inr x) = Inr x"
  by (simp_all add: wrap_err_def)

lemma is_ok_wrap_err [simp]: "is_ok (wrap_err msg r) = is_ok r"
  by (cases r) (simp_all add: is_ok_def)

lemma wrap_err_Inr_iff [simp]: "wrap_err msg r = Inr x \<longleftrightarrow> r = Inr x"
  by (cases r) auto

lemma is_ok_simps [simp]: "is_ok (Inl e) = False" "is_ok (Inr x) = True"
  by (simp_all add: is_ok_def)

lemma is_ok_iff: "is_ok r \<longleftrightarrow> (\<exists>x. r = Inr x)"
  by (cases r) auto

lemma mapM_res_Inr_iff:
  "mapM_res f xs = Inr ys \<longleftrightarrow> list_all2 (\<lambda>x y. f x = Inr y) xs ys"
proof (induction xs arbitrary: ys)
  case Nil
  then show ?case by auto
next
  case (Cons x xs)
  then show ?case
    by (cases ys) (auto split: sum.splits, metis Cons.IH Inr_inject)
qed

lemma mapM_res_length: "mapM_res f xs = Inr ys \<Longrightarrow> length ys = length xs"
  by (auto simp: mapM_res_Inr_iff list_all2_lengthD)

lemma mapM_res_total: "(\<And>x. x \<in> set xs \<Longrightarrow> f x = Inr (g x)) \<Longrightarrow> mapM_res f xs = Inr (map g xs)"
  by (induction xs) auto

section \<open>Machine integers\<close>

definition wrap64 :: "int \<Rightarrow> int" where
  "wrap64 x = (x + 2 ^ 63) mod 2 ^ 64 - 2 ^ 63"

definition in_int64 :: "int \<Rightarrow> bool" where
  "in_int64 x \<longleftrightarrow> - (2 ^ 63) \<le> x \<and> x < 2 ^ 63"

definition go_div :: "int \<Rightarrow> int \<Rightarrow> int" where
  "go_div a b = sgn a * sgn b * (\<bar>a\<bar> div \<bar>b\<bar>)"

definition go_rem :: "int \<Rightarrow> int \<Rightarrow> int" where
  "go_rem a b = a - b * go_div a b"

lemma wrap64_id [simp]: "in_int64 x \<Longrightarrow> wrap64 x = x"
  by (simp add: in_int64_def wrap64_def)

lemma in_int64_wrap64 [simp]: "in_int64 (wrap64 x)"
proof -
  have "0 \<le> (x + 2 ^ 63) mod 2 ^ 64" "(x + 2 ^ 63) mod 2 ^ 64 < 2 ^ 64"
    by simp_all
  then show ?thesis by (simp add: in_int64_def wrap64_def)
qed

lemma wrap64_0 [simp]: "wrap64 0 = 0"
  by (simp add: in_int64_def)

lemma go_div_nonneg: "0 \<le> a \<Longrightarrow> 0 < b \<Longrightarrow> go_div a b = a div b"
  by (cases "a = 0") (auto simp: go_div_def)

lemma go_rem_nonneg: "0 \<le> a \<Longrightarrow> 0 < b \<Longrightarrow> go_rem a b = a mod b"
  by (simp add: go_rem_def go_div_nonneg minus_mult_div_eq_mod)

lemma go_rem_bounds: "0 \<le> a \<Longrightarrow> 0 < b \<Longrightarrow> 0 \<le> go_rem a b \<and> go_rem a b < b"
  by (simp add: go_rem_nonneg)

lemma sint_small: "uint w < 2 ^ 63 \<Longrightarrow> sint w = uint w" for w :: "64 word"
  by (simp add: sint_uint signed_take_bit_int_eq_self_iff order_trans [OF _ uint_ge_0])

text \<open>\<open>binary.BigEndian\<close>: the bytes of a slice read most significant first.\<close>

definition big_endian :: "bytes \<Rightarrow> nat" where
  "big_endian bs = fold (\<lambda>b acc. acc * 256 + unat b) bs 0"

lemma big_endian_snoc: "big_endian (bs @ [b]) = big_endian bs * 256 + unat b"
  by (simp add: big_endian_def)

lemma big_endian_less: "big_endian bs < 256 ^ length bs"
proof (induction bs rule: rev_induct)
  case Nil
  then show ?case by (simp add: big_endian_def)
next
  case (snoc b bs)
  have "unat b < 256" using unsigned_less [of b, where ?'a = nat] by simp
  with snoc show ?case by (simp add: big_endian_snoc)
qed

section \<open>Lists and maps\<close>

lemma mset_partition_filter: "mset (filter P xs) + mset (filter (\<lambda>x. \<not> P x) xs) = mset xs"
  by (induction xs) auto

lemma fold_append_snoc: "fold (\<lambda>x acc. acc @ [f x]) xs acc0 = acc0 @ map f xs"
  by (induction xs arbitrary: acc0) auto

lemma AList_update_lookup [go_simps]:
  "map_of (AList.update k v m) k' = (if k' = k then Some v else map_of m k')"
  by (simp add: update_conv')

lemma AList_delete_lookup [go_simps]:
  "map_of (AList.delete k m) k' = (if k' = k then None else map_of m k')"
  by (simp add: delete_conv')

lemma distinct_AList_update [simp, intro]:
  "distinct (map fst m) \<Longrightarrow> distinct (map fst (AList.update k v m))"
  by (rule distinct_update)

lemma fst_set_AList_update: "fst ` set (AList.update k v m) = insert k (fst ` set m)"
  by (simp add: dom_update)

lemma map_of_rev_distinct: "distinct (map fst m) \<Longrightarrow> map_of (rev m) = map_of m"
  by (subst map_of_inject_set) (simp_all add: rev_map [symmetric])

definition map_get :: "('k, 'v) gomap \<Rightarrow> 'k \<Rightarrow> 'v \<Rightarrow> 'v" where
  "map_get m k zero = (case map_of m k of None \<Rightarrow> zero | Some v \<Rightarrow> v)"

lemma update_set_cases: "x \<in> set (AList.update k v m) \<Longrightarrow> x = (k, v) \<or> x \<in> set m"
  by (induction m) (auto split: if_splits)

lemma map_get_update [go_simps]:
  "map_get (AList.update k v m) k' z = (if k' = k then v else map_get m k' z)"
  by (simp add: map_get_def AList_update_lookup)

end
