(* ===== verification/Heap_PQ.thy ===== *)
theory Heap_PQ
  imports Prelude
begin

text \<open>
  \<open>consensus/pbft/basicstructs/pq.go\<close>: the generic priority queue, on top of the binary heap of
  the standard library's \<open>container/heap\<close> (\<open>up\<close>, \<open>down\<close>, \<open>Init\<close>, \<open>Push\<close>, \<open>Pop\<close>), whose index
  arithmetic is modelled as it runs on the slice. \<open>PopItem\<close> on an empty queue panics.
  The interface of a priority queue is the locale \<open>pqueue\<close>; the heap interprets it for every
  \<open>lss\<close> that is a strict weak order. The client lemmas of the locale describe draining.
\<close>

section \<open>container/heap on a slice\<close>

type_synonym 'a less_fn = "'a \<Rightarrow> 'a \<Rightarrow> bool"

definition heap_Swap :: "'a list \<Rightarrow> nat \<Rightarrow> nat \<Rightarrow> 'a list" where
  "heap_Swap xs i j = xs[i := xs ! j, j := xs ! i]"

definition parent :: "nat \<Rightarrow> nat" where
  "parent j = (j - 1) div 2"

function heap_up :: "'a less_fn \<Rightarrow> 'a list \<Rightarrow> nat \<Rightarrow> 'a list" where
  "heap_up lss xs j =
     (if parent j = j \<or> \<not> lss (xs ! j) (xs ! parent j) then xs
      else heap_up lss (heap_Swap xs (parent j) j) (parent j))"
  by pat_completeness auto
termination
  by (relation "measure (\<lambda>(lss, xs, j). j)") (auto simp: parent_def)

definition min_child :: "'a less_fn \<Rightarrow> 'a list \<Rightarrow> nat \<Rightarrow> nat \<Rightarrow> nat" where
  "min_child lss xs i n =
     (if 2 * i + 2 < n \<and> lss (xs ! (2 * i + 2)) (xs ! (2 * i + 1)) then 2 * i + 2 else 2 * i + 1)"

function heap_down :: "'a less_fn \<Rightarrow> 'a list \<Rightarrow> nat \<Rightarrow> nat \<Rightarrow> 'a list" where
  "heap_down lss xs i n =
     (if 2 * i + 1 \<ge> n then xs
      else if \<not> lss (xs ! min_child lss xs i n) (xs ! i) then xs
      else heap_down lss (heap_Swap xs i (min_child lss xs i n)) (min_child lss xs i n) n)"
  by pat_completeness auto
termination
  by (relation "measure (\<lambda>(lss, xs, i, n). n - i)") (auto simp: min_child_def)

declare heap_up.simps [simp del] heap_down.simps [simp del]

definition heap_Init :: "'a less_fn \<Rightarrow> 'a list \<Rightarrow> 'a list" where
  "heap_Init lss xs =
     fold (\<lambda>i ys. heap_down lss ys i (length xs)) (rev [0 ..< length xs div 2]) xs"

definition heap_Push :: "'a less_fn \<Rightarrow> 'a list \<Rightarrow> 'a \<Rightarrow> 'a list" where
  "heap_Push lss xs x = heap_up lss (xs @ [x]) (length xs)"

definition heap_Pop :: "'a less_fn \<Rightarrow> 'a list \<Rightarrow> ('a \<times> 'a list) result" where
  "heap_Pop lss xs =
     (if xs = [] then Inl (Panic ''index out of range'')
      else let n = length xs - 1;
               ys = heap_down lss (heap_Swap xs 0 n) 0 n
           in Inr (ys ! n, take n ys))"

section \<open>The priority queue\<close>

record 'a priority_queue =
  items :: "'a list"
  pq_less :: "'a less_fn"

definition NewPQ :: "'a less_fn \<Rightarrow> 'a priority_queue" where
  "NewPQ lss = \<lparr>items = heap_Init lss [], pq_less = lss\<rparr>"

definition PQ_Len :: "'a priority_queue \<Rightarrow> nat" where
  "PQ_Len pq = length (items pq)"

definition PushItem :: "'a \<Rightarrow> 'a priority_queue \<Rightarrow> 'a priority_queue" where
  "PushItem x pq = pq\<lparr>items := heap_Push (pq_less pq) (items pq) x\<rparr>"

definition PopItem :: "'a priority_queue \<Rightarrow> ('a \<times> 'a priority_queue) result" where
  "PopItem pq =
     (case heap_Pop (pq_less pq) (items pq) of Inl e \<Rightarrow> Inl e
      | Inr (x, xs) \<Rightarrow> Inr (x, pq\<lparr>items := xs\<rparr>))"

section \<open>Order and heap invariant\<close>

text \<open>The order a comparison function must be for the heap to work: a strict weak order.\<close>

definition weak_order :: "'a less_fn \<Rightarrow> bool" where
  "weak_order lss \<longleftrightarrow>
     (\<forall>a b. lss a b \<longrightarrow> \<not> lss b a) \<and>
     (\<forall>a b c. \<not> lss b a \<longrightarrow> \<not> lss c b \<longrightarrow> \<not> lss c a)"

definition is_heap :: "'a less_fn \<Rightarrow> 'a list \<Rightarrow> bool" where
  "is_heap lss xs \<longleftrightarrow> (\<forall>j<length xs. 0 < j \<longrightarrow> \<not> lss (xs ! j) (xs ! parent j))"

text \<open>A heap up to the node \<open>k\<close>, which may be smaller than its ancestors.\<close>

definition up_inv :: "'a less_fn \<Rightarrow> 'a list \<Rightarrow> nat \<Rightarrow> bool" where
  "up_inv lss xs k \<longleftrightarrow>
     (\<forall>j<length xs. 0 < j \<longrightarrow> j \<noteq> k \<longrightarrow> \<not> lss (xs ! j) (xs ! parent j)) \<and>
     (0 < k \<longrightarrow> (\<forall>j<length xs. 0 < j \<longrightarrow> parent j = k \<longrightarrow> \<not> lss (xs ! j) (xs ! parent k)))"

text \<open>The first \<open>n\<close> elements are a heap up to the node \<open>k\<close>, which may be larger than its children.\<close>

definition down_inv :: "'a less_fn \<Rightarrow> 'a list \<Rightarrow> nat \<Rightarrow> nat \<Rightarrow> bool" where
  "down_inv lss xs n k \<longleftrightarrow>
     (\<forall>j<n. 0 < j \<longrightarrow> parent j \<noteq> k \<longrightarrow> \<not> lss (xs ! j) (xs ! parent j)) \<and>
     (0 < k \<longrightarrow> (\<forall>j<n. 0 < j \<longrightarrow> parent j = k \<longrightarrow> \<not> lss (xs ! j) (xs ! parent k)))"

lemma weak_orderD:
  assumes "weak_order lss"
  shows weak_order_asym: "lss a b \<Longrightarrow> \<not> lss b a"
    and weak_order_trans: "\<not> lss b a \<Longrightarrow> \<not> lss c b \<Longrightarrow> \<not> lss c a"
  using assms unfolding weak_order_def by blast+

lemma weak_order_key: "weak_order (\<lambda>a b. f a < (f b :: 'k::linorder))"
  by (auto simp: weak_order_def)

lemma parent_less [simp]: "0 < j \<Longrightarrow> parent j < j"
  by (simp add: parent_def)

lemma parent_bound [simp]: "0 < j \<Longrightarrow> j < n \<Longrightarrow> parent j < n"
  using parent_less [of j] less_trans by blast

lemma parent_neq_beyond: "0 < j \<Longrightarrow> j \<le> n \<Longrightarrow> parent j \<noteq> n"
  using parent_less [of j] by linarith

lemma parent_0 [simp]: "parent 0 = 0"
  by (simp add: parent_def)

lemma parent_fix: "parent j = j \<longleftrightarrow> j = 0"
  by (auto simp: parent_def)

lemma parent_eq_iff: "0 < j \<Longrightarrow> parent j = i \<longleftrightarrow> j = 2 * i + 1 \<or> j = 2 * i + 2"
  by (auto simp: parent_def)

lemma length_heap_Swap [simp]: "length (heap_Swap xs i j) = length xs"
  by (simp add: heap_Swap_def)

lemma mset_heap_Swap:
  "i < length xs \<Longrightarrow> j < length xs \<Longrightarrow> mset (heap_Swap xs i j) = mset xs"
  by (simp add: heap_Swap_def mset_swap)

lemma nth_heap_Swap:
  assumes "i < length xs" "j < length xs" "k < length xs"
  shows "heap_Swap xs i j ! k = (if k = j then xs ! i else if k = i then xs ! j else xs ! k)"
  using assms by (auto simp: heap_Swap_def nth_list_update)

section \<open>Sifting up\<close>

lemma heap_up_length [simp]: "length (heap_up lss xs j) = length xs"
  by (induction lss xs j rule: heap_up.induct) (subst heap_up.simps, simp)

lemma heap_up_mset: "j < length xs \<Longrightarrow> mset (heap_up lss xs j) = mset xs"
proof (induction lss xs j rule: heap_up.induct)
  case (1 lss xs j)
  show ?case
  proof (cases "parent j = j \<or> \<not> lss (xs ! j) (xs ! parent j)")
    case True
    then show ?thesis by (subst heap_up.simps) simp
  next
    case False
    then have "parent j < length xs" using "1.prems" by (auto simp: parent_fix)
    with "1.IH" [OF False] False "1.prems" show ?thesis
      by (subst heap_up.simps) (simp add: mset_heap_Swap)
  qed
qed

lemma up_inv_step:
  assumes lss: "weak_order lss" and inv: "up_inv lss xs k" and k: "k < length xs" "0 < k"
    and lt: "lss (xs ! k) (xs ! parent k)"
  shows "up_inv lss (heap_Swap xs (parent k) k) (parent k)"
proof -
  let ?p = "parent k" and ?ys = "heap_Swap xs (parent k) k"
  have p: "?p < k" "?p < length xs" using k by auto
  have nth: "?ys ! m = (if m = k then xs ! ?p else if m = ?p then xs ! k else xs ! m)"
    if "m < length xs" for m
    using that p k by (simp add: nth_heap_Swap)
  have above: "\<not> lss (xs ! j) (xs ! parent j)" if "j < length xs" "0 < j" "j \<noteq> k" for j
    using inv that by (simp add: up_inv_def)
  have below: "\<not> lss (xs ! j) (xs ! ?p)" if "j < length xs" "0 < j" "parent j = k" for j
    using inv that k by (simp add: up_inv_def)
  have sib: "\<not> lss (xs ! j) (xs ! k)" if "j < length xs" "0 < j" "j \<noteq> k" "parent j = ?p" for j
    using weak_order_trans [OF lss weak_order_asym [OF lss lt]] above [OF that(1-3)] that(4) by simp
  have "\<not> lss (?ys ! j) (?ys ! parent j)" if j: "j < length xs" "0 < j" "j \<noteq> ?p" for j
  proof -
    have pj: "parent j < j" "parent j < length xs" using j by auto
    consider "j = k" | "j \<noteq> k" "parent j = k" | "j \<noteq> k" "parent j = ?p" "parent j \<noteq> k"
      | "j \<noteq> k" "parent j \<noteq> k" "parent j \<noteq> ?p" by blast
    then show ?thesis
      by cases (use j pj p in \<open>simp_all add: nth above below sib weak_order_asym [OF lss lt]\<close>)
  qed
  moreover have "\<not> lss (?ys ! j) (?ys ! parent ?p)"
    if j: "j < length xs" "0 < j" "parent j = ?p" and "0 < ?p" for j
  proof -
    have pp: "parent ?p < ?p" using \<open>0 < ?p\<close> by simp
    have pp': "\<not> lss (xs ! ?p) (xs ! parent ?p)" using above [of ?p] p \<open>0 < ?p\<close> by simp
    show ?thesis
    proof (cases "j = k")
      case True
      have "parent ?p \<noteq> k" using pp p by linarith
      with True pp pp' p k show ?thesis by (simp add: nth)
    next
      case False
      have "\<not> lss (xs ! j) (xs ! ?p)" using above [of j] j False by simp
      moreover have "j \<noteq> ?p" using parent_less [OF j(2)] j(3) by auto
      ultimately show ?thesis using weak_order_trans [OF lss pp'] pp p j False by (simp add: nth)
    qed
  qed
  ultimately show ?thesis by (simp add: up_inv_def)
qed

lemma heap_up_is_heap:
  "weak_order lss \<Longrightarrow> up_inv lss xs k \<Longrightarrow> k < length xs \<Longrightarrow> is_heap lss (heap_up lss xs k)"
proof (induction lss xs k rule: heap_up.induct)
  case (1 lss xs k)
  show ?case
  proof (cases "parent k = k \<or> \<not> lss (xs ! k) (xs ! parent k)")
    case True
    then have "is_heap lss xs"
      using "1.prems" unfolding is_heap_def up_inv_def by (metis parent_fix less_irrefl)
    with True show ?thesis by (subst heap_up.simps) simp
  next
    case False
    then have "0 < k" by (auto simp: parent_fix)
    then have "up_inv lss (heap_Swap xs (parent k) k) (parent k)"
      using up_inv_step "1.prems" False by blast
    moreover have "parent k < length xs" using "1.prems" parent_less [OF \<open>0 < k\<close>] by simp
    ultimately show ?thesis using "1.IH" [OF False] "1.prems" False
      by (subst heap_up.simps) simp
  qed
qed

section \<open>Sifting down\<close>

lemma min_child_cases: "min_child lss xs i n = 2 * i + 1 \<or> min_child lss xs i n = 2 * i + 2"
  by (simp add: min_child_def)

lemma min_child_less: "2 * i + 1 < n \<Longrightarrow> min_child lss xs i n < n"
  by (auto simp: min_child_def)

lemma min_child_parent [simp]: "parent (min_child lss xs i n) = i"
  by (simp add: min_child_def parent_def)

lemma min_child_gt: "i < min_child lss xs i n"
  by (simp add: min_child_def)

lemma min_child_min:
  assumes "weak_order lss" "j < n" "0 < j" "parent j = i"
  shows "\<not> lss (xs ! j) (xs ! min_child lss xs i n)"
  using assms weak_order_asym [OF assms(1)]
  by (auto simp: min_child_def parent_eq_iff)

lemma heap_down_length [simp]: "length (heap_down lss xs i n) = length xs"
  by (induction lss xs i n rule: heap_down.induct) (subst heap_down.simps, simp)

lemma heap_down_mset:
  "n \<le> length xs \<Longrightarrow> mset (heap_down lss xs i n) = mset xs"
proof (induction lss xs i n rule: heap_down.induct)
  case (1 lss xs i n)
  then show ?case
    using min_child_less [of i n lss xs] min_child_gt [of i lss xs n]
    by (subst heap_down.simps) (auto simp: mset_heap_Swap)
qed

lemma heap_down_beyond:
  "n \<le> length xs \<Longrightarrow> drop n (heap_down lss xs i n) = drop n xs"
proof (induction lss xs i n rule: heap_down.induct)
  case (1 lss xs i n)
  have "drop n (heap_Swap xs i (min_child lss xs i n)) = drop n xs" if "2 * i + 1 < n"
    using min_child_less [OF that, of lss xs] that by (simp add: heap_Swap_def)
  with "1" show ?case by (subst heap_down.simps) auto
qed

lemma down_inv_step:
  assumes lss: "weak_order lss" and inv: "down_inv lss xs n i" and n: "n \<le> length xs" "2 * i + 1 < n"
    and lt: "lss (xs ! min_child lss xs i n) (xs ! i)"
  shows "down_inv lss (heap_Swap xs i (min_child lss xs i n)) n (min_child lss xs i n)"
proof -
  let ?c = "min_child lss xs i n" and ?ys = "heap_Swap xs i (min_child lss xs i n)"
  have c: "i < ?c" "?c < n" using n min_child_gt min_child_less by auto
  have nth: "?ys ! m = (if m = ?c then xs ! i else if m = i then xs ! ?c else xs ! m)"
    if "m < n" for m
    using that c n by (simp add: nth_heap_Swap)
  have above: "\<not> lss (xs ! j) (xs ! parent j)" if "j < n" "0 < j" "parent j \<noteq> i" for j
    using inv that by (simp add: down_inv_def)
  have grand: "\<not> lss (xs ! ?c) (xs ! parent i)" if "0 < i"
    using inv that c by (auto simp: down_inv_def)
  have "\<not> lss (?ys ! j) (?ys ! parent j)" if j: "j < n" "0 < j" "parent j \<noteq> ?c" for j
  proof -
    have pj: "parent j < j" "parent j < n" using j by auto
    consider "j = ?c" | "j \<noteq> ?c" "parent j = i" | "j = i" | "j \<noteq> ?c" "j \<noteq> i" "parent j \<noteq> i" by blast
    then show ?thesis
    proof cases
      case 1
      with c show ?thesis by (simp add: nth weak_order_asym [OF lss lt])
    next
      case 2
      then have "j \<noteq> i" using pj by auto
      with 2 c j show ?thesis by (simp add: nth min_child_min [OF lss])
    next
      case 3
      then have "parent j \<noteq> i" using pj by auto
      with 3 j c pj grand show ?thesis by (simp add: nth)
    next
      case 4
      with j pj above show ?thesis by (simp add: nth)
    qed
  qed
  moreover have "\<not> lss (?ys ! j) (?ys ! parent ?c)" if j: "j < n" "0 < j" "parent j = ?c" for j
  proof -
    have "?c < j" using parent_less [OF j(2)] j(3) by simp
    with c have "j \<noteq> ?c" "j \<noteq> i" "parent j \<noteq> i" using j by auto
    with above [of j] j c show ?thesis by (simp add: nth)
  qed
  ultimately show ?thesis by (simp add: down_inv_def)
qed

lemma heap_down_ordered:
  "weak_order lss \<Longrightarrow> down_inv lss xs n i \<Longrightarrow> n \<le> length xs \<Longrightarrow>
   is_heap lss (take n (heap_down lss xs i n))"
proof (induction lss xs i n rule: heap_down.induct)
  case (1 lss xs i n)
  have stop: "is_heap lss (take n xs)"
    if kids: "\<And>j. j < n \<Longrightarrow> 0 < j \<Longrightarrow> parent j = i \<Longrightarrow> \<not> lss (xs ! j) (xs ! i)"
  proof -
    have "\<not> lss (xs ! j) (xs ! parent j)" if "j < n" "0 < j" for j
      using kids [OF that] "1.prems"(2) that by (cases "parent j = i") (auto simp: down_inv_def)
    then show ?thesis by (auto simp: is_heap_def)
  qed
  show ?case
  proof (cases "2 * i + 1 \<ge> n")
    case True
    then have "is_heap lss (take n xs)" by (intro stop) (auto simp: parent_eq_iff)
    with True show ?thesis by (subst heap_down.simps) simp
  next
    case False
    then have lt: "2 * i + 1 < n" by simp
    show ?thesis
    proof (cases "lss (xs ! min_child lss xs i n) (xs ! i)")
      case True
      with "1.IH" [OF False] down_inv_step [OF "1.prems" lt True] "1.prems" False
      show ?thesis by (subst heap_down.simps) simp
    next
      case no: False
      have "is_heap lss (take n xs)"
        using weak_order_trans [OF "1.prems"(1) no] min_child_min [OF "1.prems"(1)] by (intro stop) blast
      with False no show ?thesis by (subst heap_down.simps) simp
    qed
  qed
qed

section \<open>Push and Pop\<close>

lemma heap_root_min:
  assumes "weak_order lss" "is_heap lss xs"
  shows "j < length xs \<Longrightarrow> \<not> lss (xs ! j) (xs ! 0)"
proof (induction j rule: less_induct)
  case (less j)
  show ?case
  proof (cases "j = 0")
    case True
    then show ?thesis using weak_order_asym [OF assms(1), of "xs ! 0" "xs ! 0"] by auto
  next
    case False
    then have p: "parent j < j" by simp
    with less have "\<not> lss (xs ! parent j) (xs ! 0)" by simp
    moreover have "\<not> lss (xs ! j) (xs ! parent j)"
      using assms(2) less.prems False by (simp add: is_heap_def)
    ultimately show ?thesis by (rule weak_order_trans [OF assms(1)])
  qed
qed

lemma heap_Push_mset: "mset (heap_Push lss xs x) = add_mset x (mset xs)"
  by (simp add: heap_Push_def heap_up_mset)

lemma heap_Push_is_heap:
  assumes "weak_order lss" "is_heap lss xs"
  shows "is_heap lss (heap_Push lss xs x)"
proof -
  have "up_inv lss (xs @ [x]) (length xs)"
  proof -
    have "\<not> lss ((xs @ [x]) ! j) ((xs @ [x]) ! parent j)"
      if "j < length (xs @ [x])" "0 < j" "j \<noteq> length xs" for j
      using that assms(2) by (auto simp: is_heap_def nth_append)
    moreover have "parent j \<noteq> length xs" if "j < length (xs @ [x])" "0 < j" for j
      using that by (intro parent_neq_beyond) auto
    ultimately show ?thesis by (simp add: up_inv_def)
  qed
  then show ?thesis by (simp add: heap_Push_def heap_up_is_heap [OF assms(1)])
qed

lemma heap_Pop_spec:
  assumes lss: "weak_order lss" and heap: "is_heap lss xs" and ne: "xs \<noteq> []"
  shows "\<exists>ys. heap_Pop lss xs = Inr (xs ! 0, ys) \<and> mset xs = add_mset (xs ! 0) (mset ys) \<and> is_heap lss ys"
proof -
  let ?n = "length xs - 1"
  let ?sw = "heap_Swap xs 0 ?n"
  let ?ys = "heap_down lss ?sw 0 ?n"
  have n: "?n < length xs" "0 < length xs" using ne by auto
  have last: "?ys ! ?n = xs ! 0"
  proof -
    have "drop ?n ?ys = drop ?n ?sw" by (rule heap_down_beyond) (simp add: n)
    then have "drop ?n ?ys ! 0 = drop ?n ?sw ! 0" by simp
    with n show ?thesis by (simp add: nth_heap_Swap)
  qed
  have keep: "?sw ! j = xs ! j" if "0 < j" "j < ?n" for j
    using that n by (simp add: nth_heap_Swap)
  have "\<not> lss (?sw ! j) (?sw ! parent j)" if j: "j < ?n" "0 < j" "parent j \<noteq> 0" for j
  proof -
    have "parent j < ?n" using j by simp
    with j keep have "?sw ! j = xs ! j" "?sw ! parent j = xs ! parent j" by auto
    with heap j show ?thesis by (simp add: is_heap_def)
  qed
  then have "down_inv lss ?sw ?n 0" by (simp add: down_inv_def)
  then have heap': "is_heap lss (take ?n ?ys)"
    using lss n by (intro heap_down_ordered) auto
  have "?ys = take ?n ?ys @ [?ys ! ?n]"
    using take_Suc_conv_app_nth [of ?n ?ys] n by simp
  with last have "?ys = take ?n ?ys @ [xs ! 0]" by simp
  from arg_cong [OF this, of mset] have "mset ?ys = add_mset (xs ! 0) (mset (take ?n ?ys))"
    by simp
  moreover have "mset ?ys = mset xs"
    using n by (simp add: heap_down_mset mset_heap_Swap)
  ultimately show ?thesis using heap' ne last by (auto simp: heap_Pop_def Let_def)
qed

section \<open>The interface of a priority queue\<close>

text \<open>\<open>n\<close> calls of \<open>pop\<close> in a row.\<close>

fun pq_drain :: "('q \<Rightarrow> ('a \<times> 'q) result) \<Rightarrow> nat \<Rightarrow> 'q \<Rightarrow> ('a list \<times> 'q) result" where
  "pq_drain pop 0 q = Inr ([], q)"
| "pq_drain pop (Suc n) q =
     (case pop q of Inl e \<Rightarrow> Inl e
      | Inr (x, q1) \<Rightarrow>
        (case pq_drain pop n q1 of Inl e \<Rightarrow> Inl e | Inr (xs, q2) \<Rightarrow> Inr (x # xs, q2)))"

lemma pq_drain_length: "pq_drain pop n q = Inr (xs, q') \<Longrightarrow> length xs = n"
  by (induction n arbitrary: q xs) (auto split: sum.splits prod.splits)

locale pqueue =
  fixes empty :: 'q
    and push :: "'a \<Rightarrow> 'q \<Rightarrow> 'q"
    and pop :: "'q \<Rightarrow> ('a \<times> 'q) result"
    and lss :: "'a \<Rightarrow> 'a \<Rightarrow> bool"
    and contents :: "'q \<Rightarrow> 'a multiset"
    and wf :: "'q \<Rightarrow> bool"
  assumes lss: "weak_order lss"
    and wf_empty: "wf empty"
    and contents_empty: "contents empty = {#}"
    and push_wf: "wf q \<Longrightarrow> wf (push x q)"
    and push_contents: "wf q \<Longrightarrow> contents (push x q) = add_mset x (contents q)"
    and pop_wf: "wf q \<Longrightarrow> pop q = Inr (x, q') \<Longrightarrow> wf q'"
    and pop_contents: "wf q \<Longrightarrow> pop q = Inr (x, q') \<Longrightarrow> contents q = add_mset x (contents q')"
    and pop_min: "wf q \<Longrightarrow> pop q = Inr (x, q') \<Longrightarrow> y \<in># contents q \<Longrightarrow> \<not> lss y x"
    and pop_total: "wf q \<Longrightarrow> contents q \<noteq> {#} \<Longrightarrow> \<exists>x q'. pop q = Inr (x, q')"
begin

lemma push_all_wf: "wf q \<Longrightarrow> wf (fold push xs q)"
  by (induction xs arbitrary: q) (auto intro: push_wf)

lemma push_all_contents: "wf q \<Longrightarrow> contents (fold push xs q) = mset xs + contents q"
  by (induction xs arbitrary: q) (auto simp: push_wf push_contents)

lemma drain_total: "wf q \<Longrightarrow> n \<le> size (contents q) \<Longrightarrow> \<exists>xs q'. pq_drain pop n q = Inr (xs, q')"
proof (induction n arbitrary: q)
  case (Suc n)
  then have "contents q \<noteq> {#}" by auto
  then obtain x q1 where pop: "pop q = Inr (x, q1)" using pop_total Suc.prems by blast
  have "n \<le> size (contents q1)" using pop_contents [OF Suc.prems(1) pop] Suc.prems(2) by simp
  then obtain xs q' where "pq_drain pop n q1 = Inr (xs, q')"
    using Suc.IH pop_wf [OF Suc.prems(1) pop] by blast
  with pop show ?case by simp
qed simp

lemma drain_sorted:
  "wf q \<Longrightarrow> pq_drain pop n q = Inr (xs, q') \<Longrightarrow>
   contents q = mset xs + contents q' \<and> sorted_wrt (\<lambda>a b. \<not> lss b a) xs \<and>
   (\<forall>x\<in>set xs. \<forall>y. y \<in># contents q' \<longrightarrow> \<not> lss y x)"
proof (induction n arbitrary: q xs)
  case (Suc n)
  then obtain x q1 ys where pop: "pop q = Inr (x, q1)" and rest: "pq_drain pop n q1 = Inr (ys, q')"
    and xs: "xs = x # ys" by (auto split: sum.splits prod.splits)
  note c = pop_contents [OF Suc.prems(1) pop]
  note IH = Suc.IH [OF pop_wf [OF Suc.prems(1) pop] rest]
  have "\<not> lss y x" if "y \<in># contents q1" for y
    using pop_min [OF Suc.prems(1) pop, of y] that c by simp
  with IH c xs show ?case by auto
qed simp

end

definition pq_wf :: "'a less_fn \<Rightarrow> 'a priority_queue \<Rightarrow> bool" where
  "pq_wf lss pq \<longleftrightarrow> weak_order lss \<and> pq_less pq = lss \<and> is_heap lss (items pq)"

definition pq_contents :: "'a priority_queue \<Rightarrow> 'a multiset" where
  "pq_contents pq = mset (items pq)"

lemma pq_wf_PushItem [inv_rules]: "pq_wf lss pq \<Longrightarrow> pq_wf lss (PushItem x pq)"
  by (simp add: pq_wf_def PushItem_def heap_Push_is_heap)

lemma pq_contents_PushItem: "pq_contents (PushItem x pq) = add_mset x (pq_contents pq)"
  by (simp add: pq_contents_def PushItem_def heap_Push_mset)

lemma PopItem_spec:
  assumes "pq_wf lss pq" "PQ_Len pq > 0"
  shows "\<exists>x pq'. PopItem pq = Inr (x, pq') \<and> pq_wf lss pq' \<and>
    pq_contents pq = add_mset x (pq_contents pq') \<and> (\<forall>y. y \<in># pq_contents pq \<longrightarrow> \<not> lss y x)"
proof -
  let ?xs = "items pq"
  have wf: "weak_order lss" "pq_less pq = lss" "is_heap lss ?xs" and ne: "?xs \<noteq> []"
    using assms by (auto simp: pq_wf_def PQ_Len_def)
  obtain ys where ys: "heap_Pop lss ?xs = Inr (?xs ! 0, ys)"
    "mset ?xs = add_mset (?xs ! 0) (mset ys)" "is_heap lss ys"
    using heap_Pop_spec [OF wf(1,3) ne] by blast
  have "\<not> lss y (?xs ! 0)" if "y \<in># pq_contents pq" for y
    using that heap_root_min [OF wf(1,3)] by (auto simp: pq_contents_def in_set_conv_nth)
  with ys wf show ?thesis
    by (intro exI [of _ "?xs ! 0"] exI [of _ "pq\<lparr>items := ys\<rparr>"])
      (simp add: PopItem_def pq_wf_def pq_contents_def)
qed

lemma PopItem_Inr:
  assumes "pq_wf lss pq" "PopItem pq = Inr (x, pq')"
  shows "pq_wf lss pq' \<and> pq_contents pq = add_mset x (pq_contents pq') \<and>
    (\<forall>y. y \<in># pq_contents pq \<longrightarrow> \<not> lss y x)"
proof -
  have "PQ_Len pq > 0"
    using assms(2) by (auto simp: PQ_Len_def PopItem_def heap_Pop_def split: if_splits)
  from PopItem_spec [OF assms(1) this] assms(2) show ?thesis by auto
qed

interpretation heap_pq: pqueue "NewPQ (\<lambda>a b. f a < f b)" PushItem PopItem
    "\<lambda>a b. f a < f b" pq_contents "pq_wf (\<lambda>a b. f a < f b)" for f :: "'a \<Rightarrow> 'k::linorder"
proof unfold_locales
  let ?lss = "\<lambda>a b. f a < f b"
  show "weak_order ?lss" by (rule weak_order_key)
  show "pq_wf ?lss (NewPQ ?lss)"
    by (simp add: pq_wf_def NewPQ_def heap_Init_def is_heap_def weak_order_key)
  show "pq_contents (NewPQ ?lss) = {#}" by (simp add: pq_contents_def NewPQ_def heap_Init_def)
  show "pq_wf ?lss q \<Longrightarrow> pq_wf ?lss (PushItem x q)" for q x by (rule pq_wf_PushItem)
  show "pq_contents (PushItem x q) = add_mset x (pq_contents q)" for q x
    by (rule pq_contents_PushItem)
  show "pq_wf ?lss q'" "pq_contents q = add_mset x (pq_contents q')" "y \<in># pq_contents q \<Longrightarrow> \<not> ?lss y x"
    if "pq_wf ?lss q" "PopItem q = Inr (x, q')" for q x q' y
    using PopItem_Inr [OF that] by simp_all
  show "\<exists>x q'. PopItem q = Inr (x, q')" if "pq_wf ?lss q" "pq_contents q \<noteq> {#}" for q
  proof -
    have "PQ_Len q > 0" using that(2) by (simp add: PQ_Len_def pq_contents_def)
    from PopItem_spec [OF that(1) this] show ?thesis by auto
  qed
qed

end
