(* ===== verification/Bloom_Filter.thy ===== *)
theory Bloom_Filter
  imports Prelude
begin

text \<open>
  \<open>pkg/core/bloom\<close>: the Bloom filter over the hashes of a block's transactions. The bit set is
  the third-party package \<open>bitset\<close>; it is the parameter \<open>bitset_api\<close>, and \<open>bitset_ok\<close> states
  the documented behaviour the code relies on. The three hash functions are a parameter too.
  The lemmas show that \<open>Add\<close> never forgets a set bit and that the filter has no false
  negatives; a filter of length zero panics on the remainder by its length.
\<close>

section \<open>Parameters\<close>

record 'b bitset_api =
  bs_New :: "64 word \<Rightarrow> 'b"
  bs_Set :: "'b \<Rightarrow> 64 word \<Rightarrow> 'b"
  bs_Test :: "'b \<Rightarrow> 64 word \<Rightarrow> bool"
  bs_Len :: "'b \<Rightarrow> 64 word"
  bs_Equal :: "'b \<Rightarrow> 'b \<Rightarrow> bool"

record hash_api =
  h_sha256 :: "bytes \<Rightarrow> bytes"
  h_sha512 :: "bytes \<Rightarrow> bytes"
  h_sha1 :: "bytes \<Rightarrow> bytes"

definition bitset_ok :: "'b bitset_api \<Rightarrow> bool" where
  "bitset_ok bs \<longleftrightarrow>
     (\<forall>b i j. i < bs_Len bs b \<longrightarrow> (bs_Test bs (bs_Set bs b i) j \<longleftrightarrow> j = i \<or> bs_Test bs b j))
   \<and> (\<forall>b i. i < bs_Len bs b \<longrightarrow> bs_Len bs (bs_Set bs b i) = bs_Len bs b)
   \<and> (\<forall>n. bs_Len bs (bs_New bs n) = n)
   \<and> (\<forall>n i. \<not> bs_Test bs (bs_New bs n) i)
   \<and> (\<forall>b. bs_Equal bs b b)"

section \<open>The filter\<close>

definition maxBitsetLen :: int where "maxBitsetLen = 2 ^ 24"

record 'b bloom_filter =
  B :: 'b
  FilterHashFs :: "string list"

record bloom_cfg =
  BitsetLen :: int
  FilterHashFunc :: "string list"

definition filterFuncRegistry :: "hash_api \<Rightarrow> string \<Rightarrow> (bytes \<Rightarrow> bytes) option" where
  "filterFuncRegistry hs s =
     (if s = ''sha256'' then Some (h_sha256 hs)
      else if s = ''sha512'' then Some (h_sha512 hs)
      else if s = ''sha1'' then Some (h_sha1 hs)
      else None)"

definition defaultFilterFs :: "hash_api \<Rightarrow> (bytes \<Rightarrow> bytes) list" where
  "defaultFilterFs hs = [h_sha256 hs, h_sha512 hs, h_sha1 hs]"

definition NewFilter :: "'b bitset_api \<Rightarrow> bloom_cfg \<Rightarrow> 'b bloom_filter result" where
  "NewFilter bs cfg =
     (if BitsetLen cfg > maxBitsetLen then Inl (Errorf ''length of Bitset must be <= maxBitsetLen'')
      else Inr \<lparr>B = bs_New bs (of_int (BitsetLen cfg)), FilterHashFs = FilterHashFunc cfg\<rparr>)"

fun getFilterHashFs_loop ::
  "hash_api \<Rightarrow> (bytes \<Rightarrow> bytes) list \<Rightarrow> string list \<Rightarrow> (bytes \<Rightarrow> bytes) list" where
  "getFilterHashFs_loop hs acc [] = acc"
| "getFilterHashFs_loop hs acc (s # ss) =
     (case filterFuncRegistry hs s of
        Some h \<Rightarrow> getFilterHashFs_loop hs (acc @ [h]) ss
      | None \<Rightarrow> defaultFilterFs hs)"

definition getFilterHashFs :: "hash_api \<Rightarrow> 'b bloom_filter \<Rightarrow> (bytes \<Rightarrow> bytes) list" where
  "getFilterHashFs hs f = getFilterHashFs_loop hs [] (FilterHashFs f)"

definition byte2uint :: "bytes \<Rightarrow> 64 word" where
  "byte2uint b =
     (let b' = (if length b < 8 then replicate (8 - length b) 0 @ b else b)
      in of_nat (big_endian (drop (length b' - 8) b')))"

text \<open>The bit a hash function selects; Go's \<open>%\<close> panics when the bit set is empty.\<close>

definition bit_index :: "'b bitset_api \<Rightarrow> 'b \<Rightarrow> (bytes \<Rightarrow> bytes) \<Rightarrow> bytes \<Rightarrow> 64 word result" where
  "bit_index bs b h e =
     (if bs_Len bs b = 0 then Inl (Panic ''integer divide by zero'')
      else Inr (byte2uint (h e) mod bs_Len bs b))"

fun Add_hashes :: "'b bitset_api \<Rightarrow> (bytes \<Rightarrow> bytes) list \<Rightarrow> bytes \<Rightarrow> 'b \<Rightarrow> 'b result" where
  "Add_hashes bs [] e b = Inr b"
| "Add_hashes bs (h # hs) e b =
     (case bit_index bs b h e of Inl x \<Rightarrow> Inl x | Inr i \<Rightarrow> Add_hashes bs hs e (bs_Set bs b i))"

fun Add_elements :: "'b bitset_api \<Rightarrow> (bytes \<Rightarrow> bytes) list \<Rightarrow> bytes list \<Rightarrow> 'b \<Rightarrow> 'b result" where
  "Add_elements bs hs [] b = Inr b"
| "Add_elements bs hs (e # es) b =
     (case Add_hashes bs hs e b of Inl x \<Rightarrow> Inl x | Inr b' \<Rightarrow> Add_elements bs hs es b')"

definition Filter_Add ::
  "'b bitset_api \<Rightarrow> hash_api \<Rightarrow> 'b bloom_filter \<Rightarrow> bytes list \<Rightarrow> 'b bloom_filter result" where
  "Filter_Add bs hs f elements =
     (case Add_elements bs (getFilterHashFs hs f) elements (B f) of
        Inl x \<Rightarrow> Inl x | Inr b \<Rightarrow> Inr (f\<lparr>B := b\<rparr>))"

fun Contains_hashes :: "'b bitset_api \<Rightarrow> (bytes \<Rightarrow> bytes) list \<Rightarrow> bytes \<Rightarrow> 'b \<Rightarrow> bool result" where
  "Contains_hashes bs [] e b = Inr True"
| "Contains_hashes bs (h # hs) e b =
     (case bit_index bs b h e of Inl x \<Rightarrow> Inl x
      | Inr i \<Rightarrow> if \<not> bs_Test bs b i then Inr False else Contains_hashes bs hs e b)"

definition Filter_Contains ::
  "'b bitset_api \<Rightarrow> hash_api \<Rightarrow> 'b bloom_filter \<Rightarrow> bytes \<Rightarrow> bool result" where
  "Filter_Contains bs hs f hash = Contains_hashes bs (getFilterHashFs hs f) hash (B f)"

definition Filter_Equal :: "'b bitset_api \<Rightarrow> 'b bloom_filter \<Rightarrow> 'b bloom_filter \<Rightarrow> bool" where
  "Filter_Equal bs f g = bs_Equal bs (B f) (B g)"

section \<open>Lemmas\<close>

lemma bitset_okD:
  assumes "bitset_ok bs"
  shows bitset_Test_Set:
      "i < bs_Len bs b \<Longrightarrow> bs_Test bs (bs_Set bs b i) j \<longleftrightarrow> j = i \<or> bs_Test bs b j"
    and bitset_Len_Set: "i < bs_Len bs b \<Longrightarrow> bs_Len bs (bs_Set bs b i) = bs_Len bs b"
    and bitset_Len_New: "bs_Len bs (bs_New bs n) = n"
    and bitset_Test_New: "\<not> bs_Test bs (bs_New bs n) i"
    and bitset_Equal_refl: "bs_Equal bs b b"
  using assms unfolding bitset_ok_def by blast+

lemma bit_index_less: "bit_index bs b h e = Inr i \<Longrightarrow> i < bs_Len bs b"
  by (auto simp: bit_index_def word_mod_less_divisor word_gt_0 split: if_splits)

lemma Add_hashes_mono:
  assumes "bitset_ok bs" "Add_hashes bs hs e b = Inr b'"
  shows "bs_Len bs b' = bs_Len bs b \<and> (bs_Test bs b j \<longrightarrow> bs_Test bs b' j)"
  using assms(2)
proof (induction hs arbitrary: b)
  case Nil
  then show ?case by simp
next
  case (Cons h hs)
  then obtain i where i: "bit_index bs b h e = Inr i"
    and rest: "Add_hashes bs hs e (bs_Set bs b i) = Inr b'"
    by (auto split: sum.splits)
  note less = bit_index_less [OF i]
  from Cons.IH [OF rest] show ?case
    by (simp add: bitset_Len_Set [OF assms(1) less] bitset_Test_Set [OF assms(1) less])
qed

lemma Add_elements_mono:
  assumes "bitset_ok bs" "Add_elements bs hs es b = Inr b'"
  shows "bs_Len bs b' = bs_Len bs b \<and> (bs_Test bs b j \<longrightarrow> bs_Test bs b' j)"
  using assms(2)
proof (induction es arbitrary: b)
  case (Cons e es)
  then obtain b1 where "Add_hashes bs hs e b = Inr b1" "Add_elements bs hs es b1 = Inr b'"
    by (auto split: sum.splits)
  with Cons.IH Add_hashes_mono [OF assms(1)] show ?case by metis
qed simp

lemma Contains_hashes_mono:
  assumes "Contains_hashes bs hs e b = Inr True" "bs_Len bs b' = bs_Len bs b"
    "\<And>j. bs_Test bs b j \<Longrightarrow> bs_Test bs b' j"
  shows "Contains_hashes bs hs e b' = Inr True"
  using assms by (induction hs) (auto simp: bit_index_def split: sum.splits if_splits)

lemma Add_hashes_Contains:
  assumes "bitset_ok bs" "Add_hashes bs hs e b = Inr b'"
  shows "Contains_hashes bs hs e b' = Inr True"
  using assms(2)
proof (induction hs arbitrary: b)
  case (Cons h hs)
  then obtain i where i: "bit_index bs b h e = Inr i"
    and rest: "Add_hashes bs hs e (bs_Set bs b i) = Inr b'"
    by (auto split: sum.splits)
  note less = bit_index_less [OF i]
  have len: "bs_Len bs b' = bs_Len bs b" and set_i: "bs_Test bs b' i"
    using Add_hashes_mono [OF assms(1) rest, of i]
    by (simp_all add: bitset_Len_Set [OF assms(1) less] bitset_Test_Set [OF assms(1) less])
  have "bit_index bs b' h e = Inr i" using i len by (simp add: bit_index_def split: if_splits)
  with set_i Cons.IH [OF rest] show ?case by simp
qed simp

lemma Add_elements_Contains:
  assumes "bitset_ok bs" "Add_elements bs hs es b = Inr b'" "e \<in> set es"
  shows "Contains_hashes bs hs e b' = Inr True"
  using assms(2,3)
proof (induction es arbitrary: b)
  case (Cons x es)
  then obtain b1 where b1: "Add_hashes bs hs x b = Inr b1" "Add_elements bs hs es b1 = Inr b'"
    by (auto split: sum.splits)
  show ?case
  proof (cases "e = x")
    case True
    with Add_hashes_Contains [OF assms(1) b1(1)] Add_elements_mono [OF assms(1) b1(2)]
    show ?thesis by (auto intro: Contains_hashes_mono)
  next
    case False
    with Cons b1 show ?thesis by auto
  qed
qed simp

lemma Add_elements_total:
  assumes "bitset_ok bs" "bs_Len bs b \<noteq> 0"
  shows "\<exists>b'. Add_elements bs hs es b = Inr b'"
proof -
  have hashes: "\<exists>b'. Add_hashes bs hs e b = Inr b' \<and> bs_Len bs b' \<noteq> 0"
    if "bs_Len bs b \<noteq> 0" for e b and hs :: "(bytes \<Rightarrow> bytes) list"
    using that
  proof (induction hs arbitrary: b)
    case (Cons h hs)
    then obtain i where i: "bit_index bs b h e = Inr i" by (auto simp: bit_index_def)
    have "bs_Len bs (bs_Set bs b i) \<noteq> 0"
      using bitset_Len_Set [OF assms(1) bit_index_less [OF i]] Cons.prems by simp
    from Cons.IH [OF this] i show ?case by simp
  qed simp
  from assms(2) show ?thesis
  proof (induction es arbitrary: b)
    case (Cons e es)
    obtain b1 where "Add_hashes bs hs e b = Inr b1" "bs_Len bs b1 \<noteq> 0"
      using hashes [OF Cons.prems] by blast
    with Cons.IH show ?case by fastforce
  qed simp
qed

end
