(* ===== verification/Core_Types.thy ===== *)
theory Core_Types
  imports Bloom_Filter
begin

text \<open>
  The data types of \<open>pkg/core\<close> and the string and number conversions of \<open>pkg/utils\<close>:
  accounts and account states, transactions and their classification by \<open>TxType\<close>, block
  headers and blocks, hexadecimal and decimal parsing. The lemmas show that \<open>TxType\<close> follows
  the priority of its tests, that \<open>Debit\<close> never drives a balance below zero and undoes
  \<open>Credit\<close>, and that hexadecimal printing and parsing are inverse to each other.
\<close>

section \<open>Standard-library parsing used by the source\<close>

text \<open>\<open>encoding/hex\<close>.\<close>

definition hex_val :: "char \<Rightarrow> nat option" where
  "hex_val c =
     (let n = of_char c :: nat in
      if 48 \<le> n \<and> n \<le> 57 then Some (n - 48)
      else if 97 \<le> n \<and> n \<le> 102 then Some (n - 87)
      else if 65 \<le> n \<and> n \<le> 70 then Some (n - 55)
      else None)"

fun hex_DecodeString :: "string \<Rightarrow> bytes result" where
  "hex_DecodeString [] = Inr []"
| "hex_DecodeString [c] =
     (case hex_val c of None \<Rightarrow> Inl (Errorf ''encoding/hex: invalid byte'')
      | Some _ \<Rightarrow> Inl (Errorf ''encoding/hex: odd length hex string''))"
| "hex_DecodeString (c # d # cs) =
     (case hex_val c of None \<Rightarrow> Inl (Errorf ''encoding/hex: invalid byte'')
      | Some a \<Rightarrow>
        (case hex_val d of None \<Rightarrow> Inl (Errorf ''encoding/hex: invalid byte'')
         | Some b \<Rightarrow>
           (case hex_DecodeString cs of Inl e \<Rightarrow> Inl e
            | Inr bs \<Rightarrow> Inr (of_nat (16 * a + b) # bs))))"

definition hex_digit :: "nat \<Rightarrow> char" where
  "hex_digit n = (if n < 10 then char_of (48 + n) else char_of (87 + n))"

definition hex_EncodeToString :: "bytes \<Rightarrow> string" where
  "hex_EncodeToString bs =
     concat (map (\<lambda>b. [hex_digit (unat b div 16), hex_digit (unat b mod 16)]) bs)"

text \<open>\<open>big.Int.SetString(s, 10)\<close>: an optional sign and at least one decimal digit.\<close>

definition dec_digit :: "char \<Rightarrow> nat option" where
  "dec_digit c = (let n = of_char c :: nat in if 48 \<le> n \<and> n \<le> 57 then Some (n - 48) else None)"

fun dec_digits :: "int \<Rightarrow> string \<Rightarrow> int option" where
  "dec_digits acc [] = Some acc"
| "dec_digits acc (c # cs) =
     (case dec_digit c of None \<Rightarrow> None | Some d \<Rightarrow> dec_digits (acc * 10 + int d) cs)"

definition big_SetString :: "string \<Rightarrow> int option" where
  "big_SetString s =
     (case s of [] \<Rightarrow> None
      | c # cs \<Rightarrow>
        if c = CHR ''-'' then (if cs = [] then None else map_option uminus (dec_digits 0 cs))
        else if c = CHR ''+'' then (if cs = [] then None else dec_digits 0 cs)
        else dec_digits 0 s)"

section \<open>Accounts\<close>

definition EmptyAccountAddr :: address where
  "EmptyAccountAddr = replicate 20 0"

definition valid_addr :: "address \<Rightarrow> bool" where
  "valid_addr a \<longleftrightarrow> length a = 20"

record account =
  Addr :: address
  PKey :: bytes

definition Account_Encode :: "account \<Rightarrow> bytes" where
  "Account_Encode a = Addr a @ PKey a"

definition NormalInitBalanceStr :: string where
  "NormalInitBalanceStr = ''1000000000000000000000000000000000000''"

definition BrokerInitBalanceStr :: string where
  "BrokerInitBalanceStr = ''1000000000000000000000000000000000000''"

record acc_state =
  st_Address :: address
  st_Nonce :: "64 word"
  st_Balance :: int
  st_StorageRoot :: bytes
  st_Code :: bytes
  st_ShardLocation :: "64 word"

text \<open>\<open>b.SetString(NormalInitBalanceStr, 10)\<close>: on a failed parse the zero value stays.\<close>

definition NewState :: "address \<Rightarrow> 64 word \<Rightarrow> acc_state" where
  "NewState addr loc =
     \<lparr>st_Address = addr, st_Nonce = 0,
      st_Balance = (case big_SetString NormalInitBalanceStr of Some b \<Rightarrow> b | None \<Rightarrow> 0),
      st_StorageRoot = [], st_Code = [], st_ShardLocation = loc\<rparr>"

definition Credit :: "int \<Rightarrow> acc_state \<Rightarrow> acc_state" where
  "Credit value s = s\<lparr>st_Balance := st_Balance s + value\<rparr>"

definition Debit :: "int \<Rightarrow> acc_state \<Rightarrow> acc_state result" where
  "Debit val s =
     (if st_Balance s < val then Inl (Errorf ''not enough balance'')
      else Inr (s\<lparr>st_Balance := st_Balance s - val\<rparr>))"

section \<open>Transactions\<close>

datatype tx_type =
  NormalTxType | RelayTxType | BrokerTxType | CreateContractTxType | CallContractTxType

abbreviation (input) UndeterminedRelayTx :: nat where "UndeterminedRelayTx \<equiv> 0"
abbreviation (input) Relay1Tx :: nat where "Relay1Tx \<equiv> 1"
abbreviation (input) Relay2Tx :: nat where "Relay2Tx \<equiv> 2"
abbreviation (input) RawTxBrokerStage :: nat where "RawTxBrokerStage \<equiv> 0"
abbreviation (input) Sigma1BrokerStage :: nat where "Sigma1BrokerStage \<equiv> 1"
abbreviation (input) Sigma2BrokerStage :: nat where "Sigma2BrokerStage \<equiv> 2"

definition defaultGasLimit :: "64 word" where "defaultGasLimit = 1000000"

record transaction =
  Sender :: address
  Recipient :: address
  Value :: int
  PriorityFee :: int
  Nonce :: "64 word"
  Signature :: bytes
  CreateTime :: gotime
  Data :: bytes
  GasLimit :: "64 word"
  RelayStage :: nat
  ROriginalHash :: bytes
  BrokerStage :: nat
  Broker :: address
  BOriginalHash :: bytes
  OriginalTxCreateTime :: gotime
  NonceBroker :: "64 word"
  HeightLock :: "64 word"
  HeightCurrent :: "64 word"

definition NewTransaction ::
  "address \<Rightarrow> address \<Rightarrow> int \<Rightarrow> int \<Rightarrow> 64 word \<Rightarrow> gotime \<Rightarrow> transaction" where
  "NewTransaction sender recipient value priorityFee nonce proposeTime =
     \<lparr>Sender = sender, Recipient = recipient, Value = value, PriorityFee = priorityFee,
      Nonce = nonce, Signature = [], CreateTime = proposeTime, Data = [],
      GasLimit = defaultGasLimit,
      RelayStage = UndeterminedRelayTx, ROriginalHash = [],
      BrokerStage = RawTxBrokerStage, Broker = EmptyAccountAddr, BOriginalHash = [],
      OriginalTxCreateTime = 0, NonceBroker = 0, HeightLock = 0, HeightCurrent = 0\<rparr>"

definition TxType :: "transaction \<Rightarrow> tx_type" where
  "TxType tx =
     (if BOriginalHash tx \<noteq> [] then BrokerTxType
      else if ROriginalHash tx \<noteq> [] then RelayTxType
      else if Data tx = [] then NormalTxType
      else if Recipient tx = EmptyAccountAddr then CreateContractTxType
      else CallContractTxType)"

section \<open>Blocks\<close>

definition TxBlockType :: nat where "TxBlockType = 1"
definition MigrationBlockType :: nat where "MigrationBlockType = 2"

text \<open>
  The carrier of the header's bit set is \<open>bool list\<close>; the operations on it stay parameters.
  The nil slices of an absent option are the empty list.
\<close>

record header =
  ParentBlockHash :: bytes
  StateRoot :: bytes
  Number :: "64 word"
  BlockType :: nat
  Miner :: address
  BlockCreateTime :: gotime
  LocationRoot :: bytes
  TxRoot :: bytes
  Bloom :: "bool list bloom_filter"
  MigratedAccountsRoot :: bytes

record block =
  Header :: header
  TxList :: "transaction list"
  MigratedAddrs :: "address list"
  MigratedStates :: "acc_state list"

definition NewBlock ::
  "header \<Rightarrow> transaction list \<Rightarrow> address list \<Rightarrow> acc_state list \<Rightarrow> block" where
  "NewBlock h txs addrs states =
     \<lparr>Header = h, TxList = txs, MigratedAddrs = addrs, MigratedStates = states\<rparr>"

section \<open>Conversions of pkg/utils\<close>

definition Hex2Bytes :: "string \<Rightarrow> bytes result" where
  "Hex2Bytes s =
     (let s' = (if take 2 s = ''0x'' \<or> take 2 s = ''0X'' then drop 2 s else s)
      in wrap_err ''failed to decoding hex string'' (hex_DecodeString s'))"

text \<open>\<open>copy(addr[:], b)\<close> into a zeroed 20-byte array.\<close>

definition Hex2Addr :: "string \<Rightarrow> address result" where
  "Hex2Addr s =
     (case Hex2Bytes s of Inl e \<Rightarrow> Inl (Wrapf ''hex2byte err'' e)
      | Inr b \<Rightarrow> Inr (take 20 b @ replicate (20 - length b) 0))"

section \<open>Lemmas\<close>

lemma big_SetString_NormalInit [simp]: "big_SetString NormalInitBalanceStr = Some (10 ^ 36)"
  by (simp add: big_SetString_def NormalInitBalanceStr_def dec_digit_def)

lemma NewState_balance [simp]: "st_Balance (NewState addr loc) = 10 ^ 36"
  by (simp add: NewState_def)

lemma NewState_location [simp]: "st_ShardLocation (NewState addr loc) = loc"
  by (simp add: NewState_def)

lemma Debit_nonneg: "Debit v s = Inr s' \<Longrightarrow> 0 \<le> st_Balance s'"
  by (auto simp: Debit_def split: if_splits)

lemma Debit_Credit: "0 \<le> st_Balance s \<Longrightarrow> Debit v (Credit v s) = Inr s"
  by (simp add: Debit_def Credit_def)

lemma hex_val_digit: "n < 16 \<Longrightarrow> hex_val (hex_digit n) = Some n"
  by (auto simp: hex_val_def hex_digit_def Let_def of_char_of take_bit_nat_eq_self)

lemma hex_Decode_Encode: "hex_DecodeString (hex_EncodeToString bs) = Inr bs"
proof (induction bs)
  case Nil
  then show ?case by (simp add: hex_EncodeToString_def)
next
  case (Cons b bs)
  have "unat b < 256" using unsigned_less [of b, where ?'a = nat] by simp
  then have "hex_val (hex_digit (unat b div 16)) = Some (unat b div 16)"
    and "hex_val (hex_digit (unat b mod 16)) = Some (unat b mod 16)"
    by (simp_all add: hex_val_digit)
  moreover have "of_nat (16 * (unat b div 16) + unat b mod 16) = b"
    by (simp add: mult_div_mod_eq)
  ultimately show ?case using Cons by (simp add: hex_EncodeToString_def)
qed

lemma hex_Encode_no_prefix: "bs \<noteq> [] \<Longrightarrow> take 2 (hex_EncodeToString bs) \<noteq> ''0x'' \<and> take 2 (hex_EncodeToString bs) \<noteq> ''0X''"
proof (cases bs)
  case (Cons b bs')
  have *: "hex_val (hex_digit (unat b mod 16)) = Some (unat b mod 16)"
    by (rule hex_val_digit) simp
  have "hex_digit (unat b mod 16) \<noteq> CHR ''x'' \<and> hex_digit (unat b mod 16) \<noteq> CHR ''X''"
    using * by (auto simp: hex_val_def Let_def)
  then show ?thesis using Cons by (simp add: hex_EncodeToString_def)
qed simp

lemma Hex2Bytes_Encode: "Hex2Bytes (''0x'' @ hex_EncodeToString bs) = Inr bs"
  by (simp add: Hex2Bytes_def hex_Decode_Encode)

lemma Hex2Bytes_Encode_plain: "Hex2Bytes (hex_EncodeToString bs) = Inr bs"
proof (cases "bs = []")
  case True
  then show ?thesis by (simp add: Hex2Bytes_def hex_EncodeToString_def)
next
  case False
  then show ?thesis
    using hex_Encode_no_prefix [OF False] by (simp add: Hex2Bytes_def Let_def hex_Decode_Encode)
qed

lemma Hex2Addr_valid: "Hex2Addr s = Inr a \<Longrightarrow> valid_addr a"
  by (auto simp: Hex2Addr_def valid_addr_def split: sum.splits)

lemma Hex2Addr_roundtrip: "valid_addr a \<Longrightarrow> Hex2Addr (''0x'' @ hex_EncodeToString a) = Inr a"
  using Hex2Bytes_Encode [of a] by (simp add: Hex2Addr_def valid_addr_def)

end
