(* ===== verification/Network.thy ===== *)
theory Network
  imports Core_Types
begin

text \<open>
  \<open>pkg/nodetopo\<close> (the shard/node topology), \<open>pkg/message\<close> (the message structs, their type
  strings, \<open>WrapMsg\<close>, the sender function), \<open>pkg/network\<close> (the connection handler) and
  \<open>pkg/network/clientconnrpc\<close> (the direct gRPC connection with its bounded buffer).

  A node's sends are collected in an outbox of destination and wrapped message. The order of
  the outbox is one order in which the goroutines of a broadcast may run. \<open>encoding/gob\<close> is
  the parameter \<open>gob_api\<close> with one decoder per message struct; \<open>gob_ok\<close> states its documented
  round trip. The payload type is a type variable.
\<close>

section \<open>Topology\<close>

record node_info =
  NodeID :: int
  ShardID :: int

definition SupervisorShardID :: int where "SupervisorShardID = 0x7fffffff"

record topo_getter =
  leaders :: "(int, node_info) gomap"
  shard2nodes :: "(int, node_info list) gomap"

definition NewTopoGetter ::
  "(int, node_info) gomap \<Rightarrow> (int, node_info list) gomap \<Rightarrow> topo_getter" where
  "NewTopoGetter l s = \<lparr>leaders = l, shard2nodes = s\<rparr>"

definition topo_add_node :: "int \<Rightarrow> int \<Rightarrow> topo_getter \<Rightarrow> topo_getter" where
  "topo_add_node shard node t =
     (let info = \<lparr>NodeID = node, ShardID = shard\<rparr>;
          t' = t\<lparr>shard2nodes := AList.update shard (map_get (shard2nodes t) shard [] @ [info]) (shard2nodes t)\<rparr>
      in if node = 0 then t'\<lparr>leaders := AList.update shard info (leaders t')\<rparr> else t')"

definition SetTopoGetter :: "(int, (int, string) gomap) gomap \<Rightarrow> topo_getter \<Rightarrow> topo_getter" where
  "SetTopoGetter infoSet t =
     (let t0 = t\<lparr>leaders := [], shard2nodes := []\<rparr>;
          t1 = fold (\<lambda>(shard, shardInfo). fold (\<lambda>(node, _). topo_add_node shard node) shardInfo) infoSet t0;
          sup = \<lparr>NodeID = 0, ShardID = SupervisorShardID\<rparr>
      in t1\<lparr>leaders := AList.update SupervisorShardID sup (leaders t1),
            shard2nodes := AList.update SupervisorShardID
              (map_get (shard2nodes t1) SupervisorShardID [] @ [sup]) (shard2nodes t1)\<rparr>)"

definition GetSupervisor :: "topo_getter \<Rightarrow> node_info result" where
  "GetSupervisor t =
     (case map_of (leaders t) SupervisorShardID of Some l \<Rightarrow> Inr l
      | None \<Rightarrow> Inl (Errorf ''no supervisor found''))"

definition GetNodesInShard :: "topo_getter \<Rightarrow> int \<Rightarrow> node_info list result" where
  "GetNodesInShard t shardID =
     (case map_of (shard2nodes t) shardID of Some v \<Rightarrow> Inr v
      | None \<Rightarrow> Inl (Errorf ''shard not found''))"

definition GetLeader :: "topo_getter \<Rightarrow> int \<Rightarrow> node_info result" where
  "GetLeader t shardID =
     (case map_of (leaders t) shardID of Some v \<Rightarrow> Inr v
      | None \<Rightarrow> Inl (Errorf ''shard not found''))"

definition ChangeLeader :: "int \<Rightarrow> node_info \<Rightarrow> topo_getter \<Rightarrow> topo_getter result" where
  "ChangeLeader shardID info t =
     (case map_of (leaders t) shardID of None \<Rightarrow> Inl (Errorf ''shard not found'')
      | Some _ \<Rightarrow> Inr (t\<lparr>leaders := AList.update shardID info (leaders t)\<rparr>))"

definition GetAllLeaders :: "topo_getter \<Rightarrow> node_info list" where
  "GetAllLeaders t = filter (\<lambda>v. ShardID v \<noteq> SupervisorShardID) (map snd (leaders t))"

section \<open>Messages\<close>

record proposal =
  Block :: block

record preprepare_msg =
  pp_P :: proposal
  pp_Digest :: bytes
  pp_Seq :: int
  pp_View :: int
  pp_ShardID :: int
  pp_NodeID :: int

record prepare_msg =
  p_Digest :: bytes
  p_Seq :: int
  p_View :: int
  p_ShardID :: int
  p_NodeID :: int

record commit_msg =
  c_Digest :: bytes
  c_Seq :: int
  c_View :: int
  c_ShardID :: int
  c_NodeID :: int

record catchup_req_msg =
  cq_StartBlockHeight :: int
  cq_ShardID :: int
  cq_NodeID :: int

record catchup_resp_msg =
  cr_Proposals :: "proposal list"
  cr_NextSeq :: int
  cr_NextView :: int
  cr_ShardID :: int
  cr_NodeID :: int

record receive_txs_msg =
  rt_Txs :: "transaction list"

record relay_block_info_msg =
  ri_InnerShardTxs :: "transaction list"
  ri_Relay1Txs :: "transaction list"
  ri_Relay2Txs :: "transaction list"
  ri_Epoch :: int
  ri_BlockProposeTime :: gotime
  ri_BlockCommitTime :: gotime
  ri_ShardID :: int

record broker_block_info_msg =
  bi_InnerShardTxs :: "transaction list"
  bi_Broker1Txs :: "transaction list"
  bi_Broker2Txs :: "transaction list"
  bi_Relay1Txs :: "transaction list"
  bi_Relay2Txs :: "transaction list"
  bi_Epoch :: int
  bi_BlockProposeTime :: gotime
  bi_BlockCommitTime :: gotime
  bi_ShardID :: int

record broker_clpa_tx_send_again_msg =
  sa_Txs :: "transaction list"

record clpa_repartition_start_msg =
  rs_Epoch :: int
  rs_ModifiedMap :: "(address, int) gomap"

record account_migration_msg =
  am_SrcShard :: int
  am_DestShard :: int
  am_Epoch :: int
  am_AccountStates :: "(address, acc_state) gomap"

text \<open>The argument of \<open>WrapMsg\<close> has type \<open>any\<close>; \<open>OtherMsg\<close> is any type it does not know.\<close>

datatype msg =
    StopConsensusMsg
  | PreprepareMsg preprepare_msg
  | PrepareMsg prepare_msg
  | CommitMsg commit_msg
  | ReceiveTxsMsg receive_txs_msg
  | CatchupReqMsg catchup_req_msg
  | CatchupRespMsg catchup_resp_msg
  | RelayBlockInfoMsg relay_block_info_msg
  | BrokerBlockInfoMsg broker_block_info_msg
  | BrokerCLPATxSendAgainMsg broker_clpa_tx_send_again_msg
  | CLPARepartitionStartMsg clpa_repartition_start_msg
  | AccountMigrationMsg account_migration_msg
  | OtherMsg string

abbreviation (input) "StopConsensusMessageType \<equiv> ''StopConsensus''"
abbreviation (input) "PreprepareMessageType \<equiv> ''Preprepare''"
abbreviation (input) "PrepareMessageType \<equiv> ''Prepare''"
abbreviation (input) "CommitMessageType \<equiv> ''Commit''"
abbreviation (input) "ReceiveTxsMessageType \<equiv> ''ReceiveTxs''"
abbreviation (input) "CatchupReqMessageType \<equiv> ''CatchupReq''"
abbreviation (input) "CatchupRespMessageType \<equiv> ''CatchupResp''"
abbreviation (input) "RelayBlockInfoMessageType \<equiv> ''RelayBlockInfo''"
abbreviation (input) "BrokerBlockInfoMessageType \<equiv> ''BrokerBlockInfo''"
abbreviation (input) "BrokerCLPATxSendAgainMessageType \<equiv> ''BrokerCLPATxSendAgain''"
abbreviation (input) "CLPARepartitionStartMessageType \<equiv> ''CLPARepartitionStart''"
abbreviation (input) "AccountMigrationMessageType \<equiv> ''AccountMigration''"

definition getMsgType :: "msg \<Rightarrow> string result" where
  "getMsgType m =
     (case m of
        StopConsensusMsg \<Rightarrow> Inr StopConsensusMessageType
      | PreprepareMsg _ \<Rightarrow> Inr PreprepareMessageType
      | PrepareMsg _ \<Rightarrow> Inr PrepareMessageType
      | CommitMsg _ \<Rightarrow> Inr CommitMessageType
      | ReceiveTxsMsg _ \<Rightarrow> Inr ReceiveTxsMessageType
      | CatchupReqMsg _ \<Rightarrow> Inr CatchupReqMessageType
      | CatchupRespMsg _ \<Rightarrow> Inr CatchupRespMessageType
      | RelayBlockInfoMsg _ \<Rightarrow> Inr RelayBlockInfoMessageType
      | BrokerBlockInfoMsg _ \<Rightarrow> Inr BrokerBlockInfoMessageType
      | BrokerCLPATxSendAgainMsg _ \<Rightarrow> Inr BrokerCLPATxSendAgainMessageType
      | CLPARepartitionStartMsg _ \<Rightarrow> Inr CLPARepartitionStartMessageType
      | AccountMigrationMsg _ \<Rightarrow> Inr AccountMigrationMessageType
      | OtherMsg t \<Rightarrow> Inl (Errorf ''unknown msg type''))"

record 'p gob_api =
  g_enc :: "msg \<Rightarrow> 'p result"
  g_dec_Preprepare :: "'p \<Rightarrow> preprepare_msg result"
  g_dec_Prepare :: "'p \<Rightarrow> prepare_msg result"
  g_dec_Commit :: "'p \<Rightarrow> commit_msg result"
  g_dec_ReceiveTxs :: "'p \<Rightarrow> receive_txs_msg result"
  g_dec_CatchupReq :: "'p \<Rightarrow> catchup_req_msg result"
  g_dec_CatchupResp :: "'p \<Rightarrow> catchup_resp_msg result"
  g_dec_RelayBlockInfo :: "'p \<Rightarrow> relay_block_info_msg result"
  g_dec_BrokerBlockInfo :: "'p \<Rightarrow> broker_block_info_msg result"
  g_dec_SendAgain :: "'p \<Rightarrow> broker_clpa_tx_send_again_msg result"
  g_dec_RepartitionStart :: "'p \<Rightarrow> clpa_repartition_start_msg result"
  g_dec_AccountMigration :: "'p \<Rightarrow> account_migration_msg result"

definition gob_ok :: "'p gob_api \<Rightarrow> bool" where
  "gob_ok g \<longleftrightarrow>
     (\<forall>m p. g_enc g (PreprepareMsg m) = Inr p \<longrightarrow> g_dec_Preprepare g p = Inr m) \<and>
     (\<forall>m p. g_enc g (PrepareMsg m) = Inr p \<longrightarrow> g_dec_Prepare g p = Inr m) \<and>
     (\<forall>m p. g_enc g (CommitMsg m) = Inr p \<longrightarrow> g_dec_Commit g p = Inr m) \<and>
     (\<forall>m p. g_enc g (ReceiveTxsMsg m) = Inr p \<longrightarrow> g_dec_ReceiveTxs g p = Inr m) \<and>
     (\<forall>m p. g_enc g (CatchupReqMsg m) = Inr p \<longrightarrow> g_dec_CatchupReq g p = Inr m) \<and>
     (\<forall>m p. g_enc g (CatchupRespMsg m) = Inr p \<longrightarrow> g_dec_CatchupResp g p = Inr m) \<and>
     (\<forall>m p. g_enc g (RelayBlockInfoMsg m) = Inr p \<longrightarrow> g_dec_RelayBlockInfo g p = Inr m) \<and>
     (\<forall>m p. g_enc g (BrokerBlockInfoMsg m) = Inr p \<longrightarrow> g_dec_BrokerBlockInfo g p = Inr m) \<and>
     (\<forall>m p. g_enc g (BrokerCLPATxSendAgainMsg m) = Inr p \<longrightarrow> g_dec_SendAgain g p = Inr m) \<and>
     (\<forall>m p. g_enc g (CLPARepartitionStartMsg m) = Inr p \<longrightarrow> g_dec_RepartitionStart g p = Inr m) \<and>
     (\<forall>m p. g_enc g (AccountMigrationMsg m) = Inr p \<longrightarrow> g_dec_AccountMigration g p = Inr m)"

record 'p wrapped_msg =
  MsgType :: string
  Payload :: 'p

definition WrapMsg :: "'p gob_api \<Rightarrow> msg \<Rightarrow> 'p wrapped_msg result" where
  "WrapMsg g m =
     (case getMsgType m of Inl e \<Rightarrow> Inl (Wrapf ''getMsgType failed'' e)
      | Inr t \<Rightarrow>
        (case g_enc g m of Inl e \<Rightarrow> Inl (Wrapf ''encoder failed'' e)
         | Inr b \<Rightarrow> Inr \<lparr>MsgType = t, Payload = b\<rparr>))"

definition WrapProposal :: "block \<Rightarrow> proposal" where
  "WrapProposal b = \<lparr>Block = b\<rparr>"

section \<open>Sending\<close>

type_synonym 'p outbox = "(node_info \<times> 'p wrapped_msg) list"

definition SendMsg2Dest :: "node_info \<Rightarrow> 'p wrapped_msg \<Rightarrow> 'p outbox \<Rightarrow> 'p outbox" where
  "SendMsg2Dest dest m out = out @ [(dest, m)]"

definition MSendDifferentMessages ::
  "(node_info, 'p wrapped_msg) gomap \<Rightarrow> 'p outbox \<Rightarrow> 'p outbox" where
  "MSendDifferentMessages node2Msg out = fold (\<lambda>(node, m). SendMsg2Dest node m) node2Msg out"

definition GroupBroadcastMessage ::
  "node_info list \<Rightarrow> 'p wrapped_msg \<Rightarrow> 'p outbox \<Rightarrow> 'p outbox" where
  "GroupBroadcastMessage grp m out = fold (\<lambda>node. SendMsg2Dest node m) grp out"

text \<open>The loop of \<open>SendWrappedTxs2Shards\<close>, with its index and the map \<open>node2Msg\<close>.\<close>

fun sendTxs_loop ::
  "'p gob_api \<Rightarrow> topo_getter \<Rightarrow> int \<Rightarrow> (node_info, 'p wrapped_msg) gomap \<Rightarrow> transaction list list \<Rightarrow>
   (node_info, 'p wrapped_msg) gomap result" where
  "sendTxs_loop g t i m [] = Inr m"
| "sendTxs_loop g t i m (txs # rest) =
     (if txs = [] then sendTxs_loop g t (i + 1) m rest
      else (case GetLeader t i of Inl e \<Rightarrow> Inl (Wrapf ''GetLeader failed'' e)
            | Inr l \<Rightarrow>
              (case WrapMsg g (ReceiveTxsMsg \<lparr>rt_Txs = txs\<rparr>) of
                 Inl e \<Rightarrow> Inl (Wrapf ''WrapMsg failed'' e)
               | Inr w \<Rightarrow> sendTxs_loop g t (i + 1) (AList.update l w m) rest)))"

definition SendWrappedTxs2Shards ::
  "'p gob_api \<Rightarrow> topo_getter \<Rightarrow> transaction list list \<Rightarrow> 'p outbox \<Rightarrow> 'p outbox result" where
  "SendWrappedTxs2Shards g t txs out =
     (case sendTxs_loop g t 0 [] txs of Inl e \<Rightarrow> Inl e
      | Inr node2Msg \<Rightarrow> Inr (MSendDifferentMessages node2Msg out))"

section \<open>The direct connection\<close>

definition msgBufferSize :: nat where "msgBufferSize = 2 ^ 20"

text \<open>
  \<open>RPCConn\<close>: the channel \<open>msgBuffer\<close> as a list bounded by its capacity, the pool of clients as
  the list of destinations that have one, and the requests handed to gRPC. gRPC itself
  (\<open>NewClient\<close> and the remote call) is the parameter \<open>grpc_api\<close>.
\<close>

record 'p grpc_api =
  rpc_NewClient :: "string \<Rightarrow> unit result"
  rpc_HandleMessage :: "node_info \<Rightarrow> node_info \<Rightarrow> 'p wrapped_msg \<Rightarrow> unit result"

record 'p rpc_conn =
  me :: node_info
  info2Host :: "(node_info, string) gomap"
  msgBuffer :: "'p wrapped_msg list"
  clientPool :: "node_info list"
  requests :: "'p outbox"

definition NewRPCConn :: "node_info \<Rightarrow> (node_info, string) gomap \<Rightarrow> 'p rpc_conn" where
  "NewRPCConn self hosts =
     \<lparr>me = self, info2Host = hosts, msgBuffer = [], clientPool = [], requests = []\<rparr>"

definition add2LocalBuffer :: "'p wrapped_msg \<Rightarrow> 'p rpc_conn \<Rightarrow> 'p rpc_conn result" where
  "add2LocalBuffer m r =
     (if length (msgBuffer r) < msgBufferSize then Inr (r\<lparr>msgBuffer := msgBuffer r @ [m]\<rparr>)
      else Inl (Errorf ''message buffer is full or closed''))"

definition HandleMessage :: "'p wrapped_msg \<Rightarrow> 'p rpc_conn \<Rightarrow> 'p rpc_conn result" where
  "HandleMessage m r = wrap_err ''add message to buffer failed'' (add2LocalBuffer m r)"

definition DrainMsgBuffer :: "'p rpc_conn \<Rightarrow> 'p wrapped_msg list \<times> 'p rpc_conn" where
  "DrainMsgBuffer r = (msgBuffer r, r\<lparr>msgBuffer := []\<rparr>)"

definition sendMessage ::
  "'p grpc_api \<Rightarrow> node_info \<Rightarrow> 'p wrapped_msg \<Rightarrow> 'p rpc_conn \<Rightarrow> unit result \<times> 'p rpc_conn" where
  "sendMessage rpc dest m r =
     (if me r = dest then
        (case add2LocalBuffer m r of Inl e \<Rightarrow> (Inl e, r) | Inr r' \<Rightarrow> (Inr (), r'))
      else
        (case map_of (info2Host r) dest of
           None \<Rightarrow> (Inl (Errorf ''node not exist in the p2p connection''), r)
         | Some host \<Rightarrow>
           (case (if dest \<in> set (clientPool r) then Inr r
                  else case rpc_NewClient rpc host of
                         Inl e \<Rightarrow> Inl (Wrapf ''gRPC client fail to connect'' e)
                       | Inr _ \<Rightarrow> Inr (r\<lparr>clientPool := dest # clientPool r\<rparr>)) of
              Inl e \<Rightarrow> (Inl e, r)
            | Inr r1 \<Rightarrow>
              (let r2 = r1\<lparr>requests := requests r1 @ [(dest, m)]\<rparr>
               in (case rpc_HandleMessage rpc (me r) dest m of
                     Inl e \<Rightarrow> (Inl (Wrapf ''gRPC client fail to send message'' e), r2)
                   | Inr _ \<Rightarrow> (Inr (), r2))))))"

definition RPC_SendMsg2Dest ::
  "'p grpc_api \<Rightarrow> node_info \<Rightarrow> 'p wrapped_msg \<Rightarrow> 'p rpc_conn \<Rightarrow> 'p rpc_conn" where
  "RPC_SendMsg2Dest rpc dest m r = snd (sendMessage rpc dest m r)"

section \<open>Lemmas: topology\<close>

lemma topo_add_node_leader [go_simps]:
  "map_of (leaders (topo_add_node shard node t)) s =
    (if node = 0 \<and> s = shard then Some \<lparr>NodeID = 0, ShardID = shard\<rparr> else map_of (leaders t) s)"
  by (auto simp: topo_add_node_def Let_def go_simps)

lemma topo_add_node_nodes [go_simps]:
  "map_get (shard2nodes (topo_add_node shard node t)) s [] =
    map_get (shard2nodes t) s [] @ (if s = shard then [\<lparr>NodeID = node, ShardID = shard\<rparr>] else [])"
  by (auto simp: topo_add_node_def Let_def go_simps)

lemma topo_fold_nodes:
  "map_get (shard2nodes (fold (\<lambda>(node, _). topo_add_node shard node) ns t)) s [] =
    map_get (shard2nodes t) s [] @
    (if s = shard then map (\<lambda>(n, _). \<lparr>NodeID = n, ShardID = shard\<rparr>) ns else [])"
  by (induction ns arbitrary: t) (auto simp: go_simps)

lemma topo_fold_leader:
  "map_of (leaders (fold (\<lambda>(node, _). topo_add_node shard node) ns t)) s =
    (if s = shard \<and> 0 \<in> fst ` set ns then Some \<lparr>NodeID = 0, ShardID = shard\<rparr> else map_of (leaders t) s)"
  by (induction ns arbitrary: t) (auto simp: go_simps)

lemma topo_fold_all_nodes:
  "distinct (map fst info) \<Longrightarrow>
   map_get (shard2nodes (fold (\<lambda>(shard, ns). fold (\<lambda>(node, _). topo_add_node shard node) ns) info t)) s [] =
    map_get (shard2nodes t) s [] @
    (case map_of info s of None \<Rightarrow> [] | Some ns \<Rightarrow> map (\<lambda>(n, _). \<lparr>NodeID = n, ShardID = s\<rparr>) ns)"
proof (induction info arbitrary: t)
  case (Cons a info)
  have "map_of info (fst a) = None" using Cons.prems by (auto simp: map_of_eq_None_iff)
  with Cons show ?case by (cases a) (auto simp: topo_fold_nodes split: option.splits)
qed simp

lemma topo_fold_all_leader:
  "distinct (map fst info) \<Longrightarrow>
   map_of (leaders (fold (\<lambda>(shard, ns). fold (\<lambda>(node, _). topo_add_node shard node) ns) info t)) s =
    (case map_of info s of
       Some ns \<Rightarrow> if 0 \<in> fst ` set ns then Some \<lparr>NodeID = 0, ShardID = s\<rparr> else map_of (leaders t) s
     | None \<Rightarrow> map_of (leaders t) s)"
proof (induction info arbitrary: t)
  case (Cons a info)
  have "map_of info (fst a) = None" using Cons.prems by (auto simp: map_of_eq_None_iff)
  with Cons show ?case by (cases a) (auto simp: topo_fold_leader split: option.splits)
qed simp

lemma SetTopoGetter_leader:
  assumes "distinct (map fst info)" "map_of info s = Some ns" "0 \<in> fst ` set ns" "s \<noteq> SupervisorShardID"
  shows "GetLeader (SetTopoGetter info t) s = Inr \<lparr>NodeID = 0, ShardID = s\<rparr>"
  using assms by (simp add: GetLeader_def SetTopoGetter_def Let_def go_simps topo_fold_all_leader)

lemma SetTopoGetter_nodes:
  assumes "distinct (map fst info)" "map_of info s = Some ns" "ns \<noteq> []" "s \<noteq> SupervisorShardID"
  shows "GetNodesInShard (SetTopoGetter info t) s = Inr (map (\<lambda>(n, _). \<lparr>NodeID = n, ShardID = s\<rparr>) ns)"
proof -
  have "map_get (shard2nodes (SetTopoGetter info t)) s [] = map (\<lambda>(n, _). \<lparr>NodeID = n, ShardID = s\<rparr>) ns"
    using assms by (simp add: SetTopoGetter_def Let_def go_simps topo_fold_all_nodes) (simp add: map_get_def)
  with assms(3) show ?thesis by (auto simp: map_get_def GetNodesInShard_def split: option.splits)
qed

lemma SetTopoGetter_supervisor:
  "GetSupervisor (SetTopoGetter info t) = Inr \<lparr>NodeID = 0, ShardID = SupervisorShardID\<rparr>"
  by (simp add: GetSupervisor_def SetTopoGetter_def Let_def go_simps)

text \<open>
  The interface \<open>NodeMapper\<close> as its clients (consensus nodes and committees) use it: a shard that
  has been configured keeps having a leader and its nodes whatever leader changes follow.
\<close>

locale node_mapper =
  fixes leader :: "'t \<Rightarrow> int \<Rightarrow> node_info result"
    and change :: "int \<Rightarrow> node_info \<Rightarrow> 't \<Rightarrow> 't result"
    and nodes :: "'t \<Rightarrow> int \<Rightarrow> node_info list result"
  assumes change_leader: "change s i t = Inr t' \<Longrightarrow> leader t' s' = (if s' = s then Inr i else leader t s')"
    and change_nodes: "change s i t = Inr t' \<Longrightarrow> nodes t' = nodes t"
    and change_ok: "is_ok (leader t s) \<Longrightarrow> is_ok (change s i t)"
    and change_err: "\<not> is_ok (leader t s) \<Longrightarrow> \<not> is_ok (change s i t)"
begin

text \<open>A sequence of leader changes, where a failing call leaves the topology as it was.\<close>

definition change_all :: "(int \<times> node_info) list \<Rightarrow> 't \<Rightarrow> 't" where
  "change_all cs t = fold (\<lambda>(s, i) t. case change s i t of Inl _ \<Rightarrow> t | Inr t' \<Rightarrow> t') cs t"

lemma change_all_known: "is_ok (leader (change_all cs t) s) \<longleftrightarrow> is_ok (leader t s)"
proof (induction cs arbitrary: t)
  case (Cons c cs)
  obtain s' i where c: "c = (s', i)" by (cases c)
  show ?case
  proof (cases "change s' i t")
    case (Inr t')
    have "is_ok (leader t' s) \<longleftrightarrow> is_ok (leader t s)"
      using change_leader [OF Inr, of s] change_err [of t s' i] Inr by auto
    with Cons.IH [of t'] Inr c show ?thesis by (simp add: change_all_def)
  qed (use Cons.IH c in \<open>simp add: change_all_def\<close>)
qed (simp add: change_all_def)

lemma change_all_nodes: "nodes (change_all cs t) = nodes t"
proof (induction cs arbitrary: t)
  case (Cons c cs)
  then show ?case
    by (cases c) (auto simp: change_all_def change_nodes split: sum.splits)
qed (simp add: change_all_def)

end

interpretation topo: node_mapper GetLeader ChangeLeader GetNodesInShard
  by unfold_locales
    (auto simp: GetLeader_def ChangeLeader_def GetNodesInShard_def fun_eq_iff go_simps split: option.splits if_splits)

section \<open>Lemmas: messages\<close>

lemma WrapMsg_type: "WrapMsg g m = Inr w \<Longrightarrow> getMsgType m = Inr (MsgType w)"
  by (auto simp: WrapMsg_def split: sum.splits)

lemma WrapMsg_payload: "WrapMsg g m = Inr w \<Longrightarrow> g_enc g m = Inr (Payload w)"
  by (auto simp: WrapMsg_def split: sum.splits)

text \<open>The type string determines the struct, so a receiver decodes into the type that was sent.\<close>

lemma getMsgType_PreprepareD: "getMsgType m = Inr PreprepareMessageType \<Longrightarrow> \<exists>x. m = PreprepareMsg x"
  by (cases m) (auto simp: getMsgType_def)

lemma getMsgType_PrepareD: "getMsgType m = Inr PrepareMessageType \<Longrightarrow> \<exists>x. m = PrepareMsg x"
  by (cases m) (auto simp: getMsgType_def)

lemma getMsgType_CommitD: "getMsgType m = Inr CommitMessageType \<Longrightarrow> \<exists>x. m = CommitMsg x"
  by (cases m) (auto simp: getMsgType_def)

lemma GroupBroadcastMessage_out:
  "GroupBroadcastMessage grp m out = out @ map (\<lambda>n. (n, m)) grp"
  by (induction grp arbitrary: out) (auto simp: GroupBroadcastMessage_def SendMsg2Dest_def)

lemma MSendDifferentMessages_out: "MSendDifferentMessages node2Msg out = out @ node2Msg"
  by (induction node2Msg arbitrary: out) (auto simp: MSendDifferentMessages_def SendMsg2Dest_def)

section \<open>Lemmas: the buffer of a connection\<close>

datatype 'p conn_op = Deliver "'p wrapped_msg" | Drain

fun conn_run ::
  "('p wrapped_msg \<Rightarrow> 'c \<Rightarrow> 'c result) \<Rightarrow> ('c \<Rightarrow> 'p wrapped_msg list \<times> 'c) \<Rightarrow> 'p conn_op list \<Rightarrow> 'c \<Rightarrow>
   'p wrapped_msg list \<times> 'p wrapped_msg list \<times> 'c" where
  "conn_run deliver drain [] c = ([], [], c)"
| "conn_run deliver drain (Deliver m # ops) c =
     (case deliver m c of
        Inl _ \<Rightarrow> conn_run deliver drain ops c
      | Inr c1 \<Rightarrow> (case conn_run deliver drain ops c1 of (acc, out, c2) \<Rightarrow> (m # acc, out, c2)))"
| "conn_run deliver drain (Drain # ops) c =
     (case drain c of (ms, c1) \<Rightarrow>
        (case conn_run deliver drain ops c1 of (acc, out, c2) \<Rightarrow> (acc, ms @ out, c2)))"

text \<open>
  The interface \<open>P2PConn\<close> seen by a node: a delivery that is accepted is appended to the buffer,
  and draining returns the buffer and empties it. \<open>conn_run\<close> returns the accepted messages, the
  drained messages and the connection.
\<close>

locale p2p_conn =
  fixes deliver :: "'p wrapped_msg \<Rightarrow> 'c \<Rightarrow> 'c result"
    and drain :: "'c \<Rightarrow> 'p wrapped_msg list \<times> 'c"
    and buffer :: "'c \<Rightarrow> 'p wrapped_msg list"
  assumes deliver_buffer: "deliver m c = Inr c' \<Longrightarrow> buffer c' = buffer c @ [m]"
    and drain_all: "fst (drain c) = buffer c"
    and drain_empty: "buffer (snd (drain c)) = []"
begin

lemma run_no_loss:
  "conn_run deliver drain ops c = (acc, out, c') \<Longrightarrow> out @ buffer c' = buffer c @ acc"
proof (induction ops arbitrary: c acc out)
  case (Cons op ops)
  show ?case
  proof (cases op)
    case (Deliver m)
    with Cons.prems Cons.IH show ?thesis
      by (auto split: sum.splits prod.splits dest: deliver_buffer)
  next
    case Drain
    obtain ms c1 where d: "drain c = (ms, c1)" by (cases "drain c")
    with drain_all [of c] drain_empty [of c] have "ms = buffer c" "buffer c1 = []" by auto
    with Cons.prems Cons.IH [of c1] d Drain show ?thesis by (auto split: prod.splits)
  qed
qed simp

end

interpretation rpc: p2p_conn HandleMessage DrainMsgBuffer msgBuffer
  by unfold_locales (auto simp: HandleMessage_def add2LocalBuffer_def DrainMsgBuffer_def split: if_splits)

lemma HandleMessage_bound:
  "length (msgBuffer r) \<le> msgBufferSize \<Longrightarrow> HandleMessage m r = Inr r' \<Longrightarrow> length (msgBuffer r') \<le> msgBufferSize"
  by (auto simp: HandleMessage_def add2LocalBuffer_def split: if_splits)

text \<open>A send to oneself goes to the own buffer; a send to another node reaches gRPC exactly once.\<close>

lemma sendMessage_cases:
  assumes "sendMessage rpc dest m r = (Inr (), r')"
  shows "if dest = me r then msgBuffer r' = msgBuffer r @ [m] \<and> requests r' = requests r
         else msgBuffer r' = msgBuffer r \<and> requests r' = requests r @ [(dest, m)]"
  using assms
  by (auto simp: sendMessage_def add2LocalBuffer_def Let_def split: if_splits sum.splits option.splits)

end
