(* ===== verification/Msg_Pool.thy ===== *)
theory Msg_Pool
  imports Heap_PQ Network
begin

text \<open>
  \<open>consensus/pbft/basicstructs\<close>: the pair of view and sequence number with its \<open>Compare\<close>, and the
  message pool, three priority queues ordered by it. \<open>view_seq\<close> is made an instance of the
  library's linear orders through \<open>Compare\<close>, so that the heap's interpretation applies to the
  three queues. The lemmas show that a read takes exactly the messages up to the bound, in
  order, and leaves exactly the later ones.
\<close>

section \<open>View and sequence numbers\<close>

datatype view_seq = ViewSeq (View: int) (Seq: int)

definition Compare :: "view_seq \<Rightarrow> view_seq \<Rightarrow> int" where
  "Compare v other =
     (if View v \<noteq> View other then (if View v < View other then - 1 else 1)
      else if Seq v \<noteq> Seq other then (if Seq v < Seq other then - 1 else 1)
      else 0)"

instantiation view_seq :: linorder
begin

definition less_view_seq :: "view_seq \<Rightarrow> view_seq \<Rightarrow> bool" where
  "less_view_seq v w \<longleftrightarrow> Compare v w = - 1"

definition less_eq_view_seq :: "view_seq \<Rightarrow> view_seq \<Rightarrow> bool" where
  "less_eq_view_seq v w \<longleftrightarrow> Compare v w \<noteq> 1"

instance
proof
  fix u v w :: view_seq
  show "(v < w) = (v \<le> w \<and> \<not> w \<le> v)"
    by (auto simp: less_view_seq_def less_eq_view_seq_def Compare_def)
  show "v \<le> v" by (simp add: less_eq_view_seq_def Compare_def)
  show "u \<le> v \<Longrightarrow> v \<le> w \<Longrightarrow> u \<le> w"
    by (auto simp: less_eq_view_seq_def Compare_def split: if_splits)
  show "v \<le> w \<Longrightarrow> w \<le> v \<Longrightarrow> v = w"
    by (cases v; cases w) (auto simp: less_eq_view_seq_def Compare_def split: if_splits)
  show "v \<le> w \<or> w \<le> v" by (auto simp: less_eq_view_seq_def Compare_def)
qed

end

lemma Compare_less [simp]: "Compare v w = - 1 \<longleftrightarrow> v < w"
  by (simp add: less_view_seq_def)

lemma Compare_eq [simp]: "Compare v w = 0 \<longleftrightarrow> v = w"
  by (cases v; cases w) (simp add: Compare_def)

lemma Compare_greater [simp]: "Compare v w > 0 \<longleftrightarrow> w < v" "Compare v w = 1 \<longleftrightarrow> w < v"
  by (auto simp: less_view_seq_def Compare_def)

lemma less_ViewSeq: "ViewSeq a b < ViewSeq c d \<longleftrightarrow> a < c \<or> a = c \<and> b < d"
  by (auto simp: less_view_seq_def Compare_def)

section \<open>The pool\<close>

definition pp_ViewSeq :: "preprepare_msg \<Rightarrow> view_seq" where
  "pp_ViewSeq m = ViewSeq (pp_View m) (pp_Seq m)"

definition p_ViewSeq :: "prepare_msg \<Rightarrow> view_seq" where
  "p_ViewSeq m = ViewSeq (p_View m) (p_Seq m)"

definition c_ViewSeq :: "commit_msg \<Rightarrow> view_seq" where
  "c_ViewSeq m = ViewSeq (c_View m) (c_Seq m)"

definition PreprepareMsgLess :: "preprepare_msg less_fn" where
  "PreprepareMsgLess = (\<lambda>a b. Compare (pp_ViewSeq a) (pp_ViewSeq b) = - 1)"

definition PrepareMsgLess :: "prepare_msg less_fn" where
  "PrepareMsgLess = (\<lambda>a b. Compare (p_ViewSeq a) (p_ViewSeq b) = - 1)"

definition CommitMsgLess :: "commit_msg less_fn" where
  "CommitMsgLess = (\<lambda>a b. Compare (c_ViewSeq a) (c_ViewSeq b) = - 1)"

record msg_pool =
  preprepares :: "preprepare_msg priority_queue"
  prepares :: "prepare_msg priority_queue"
  commits :: "commit_msg priority_queue"

definition NewMsgPool :: msg_pool where
  "NewMsgPool =
     \<lparr>preprepares = NewPQ PreprepareMsgLess, prepares = NewPQ PrepareMsgLess,
      commits = NewPQ CommitMsgLess\<rparr>"

lemma PopItem_Len: "PopItem pq = Inr (x, pq') \<Longrightarrow> PQ_Len pq = Suc (PQ_Len pq')"
  by (auto simp: PopItem_def heap_Pop_def PQ_Len_def Let_def split: if_splits sum.splits)

lemma PopItem_ok: "PQ_Len pq \<noteq> 0 \<Longrightarrow> \<exists>x pq'. PopItem pq = Inr (x, pq')"
  by (simp add: PopItem_def heap_Pop_def PQ_Len_def Let_def)

text \<open>
  The loop of the three \<open>Read\<close> methods. \<open>PopItem\<close> fails on an empty queue only
  (\<open>PopItem_ok\<close>), so its error branch is never taken.
\<close>

function read_loop ::
  "('m \<Rightarrow> view_seq) \<Rightarrow> view_seq \<Rightarrow> 'm list \<Rightarrow> 'm priority_queue \<Rightarrow> 'm list \<times> 'm priority_queue" where
  "read_loop vs bound ret pq =
     (if PQ_Len pq = 0 then (ret, pq)
      else (case PopItem pq of
              Inl _ \<Rightarrow> (ret, pq)
            | Inr (hd_msg, pq') \<Rightarrow>
                if Compare bound (vs hd_msg) = - 1 then (ret, PushItem hd_msg pq')
                else read_loop vs bound (ret @ [hd_msg]) pq'))"
  by pat_completeness auto
termination
  by (relation "measure (\<lambda>(vs, bound, ret, pq). PQ_Len pq)") (auto dest: PopItem_Len)

declare read_loop.simps [simp del]

definition ReadPreprepareMsg :: "view_seq \<Rightarrow> msg_pool \<Rightarrow> preprepare_msg list \<times> msg_pool" where
  "ReadPreprepareMsg bound m =
     (case read_loop pp_ViewSeq bound [] (preprepares m) of (ret, q) \<Rightarrow> (ret, m\<lparr>preprepares := q\<rparr>))"

definition ReadPrepareMsg :: "view_seq \<Rightarrow> msg_pool \<Rightarrow> prepare_msg list \<times> msg_pool" where
  "ReadPrepareMsg bound m =
     (case read_loop p_ViewSeq bound [] (prepares m) of (ret, q) \<Rightarrow> (ret, m\<lparr>prepares := q\<rparr>))"

definition ReadCommitMsg :: "view_seq \<Rightarrow> msg_pool \<Rightarrow> commit_msg list \<times> msg_pool" where
  "ReadCommitMsg bound m =
     (case read_loop c_ViewSeq bound [] (commits m) of (ret, q) \<Rightarrow> (ret, m\<lparr>commits := q\<rparr>))"

definition PushPreprepareMsg :: "preprepare_msg \<Rightarrow> msg_pool \<Rightarrow> msg_pool" where
  "PushPreprepareMsg x m = m\<lparr>preprepares := PushItem x (preprepares m)\<rparr>"

definition PushPrepareMsg :: "prepare_msg \<Rightarrow> msg_pool \<Rightarrow> msg_pool" where
  "PushPrepareMsg x m = m\<lparr>prepares := PushItem x (prepares m)\<rparr>"

definition PushCommitMsg :: "commit_msg \<Rightarrow> msg_pool \<Rightarrow> msg_pool" where
  "PushCommitMsg x m = m\<lparr>commits := PushItem x (commits m)\<rparr>"

section \<open>Reading\<close>

abbreviation vs_wf :: "('m \<Rightarrow> view_seq) \<Rightarrow> 'm priority_queue \<Rightarrow> bool" where
  "vs_wf vs \<equiv> pq_wf (\<lambda>a b. vs a < vs b)"

definition pool_ok :: "msg_pool \<Rightarrow> bool" where
  "pool_ok m \<longleftrightarrow> vs_wf pp_ViewSeq (preprepares m) \<and> vs_wf p_ViewSeq (prepares m) \<and> vs_wf c_ViewSeq (commits m)"

lemma pool_ok_New [inv_rules]: "pool_ok NewMsgPool"
  using heap_pq.wf_empty [of pp_ViewSeq] heap_pq.wf_empty [of p_ViewSeq] heap_pq.wf_empty [of c_ViewSeq]
  by (simp add: pool_ok_def NewMsgPool_def PreprepareMsgLess_def PrepareMsgLess_def CommitMsgLess_def)

lemma pool_ok_Push [inv_rules]:
  "pool_ok m \<Longrightarrow> pool_ok (PushPreprepareMsg x m)"
  "pool_ok m \<Longrightarrow> pool_ok (PushPrepareMsg y m)"
  "pool_ok m \<Longrightarrow> pool_ok (PushCommitMsg z m)"
  by (simp_all add: pool_ok_def PushPreprepareMsg_def PushPrepareMsg_def PushCommitMsg_def pq_wf_PushItem)

text \<open>The contents of the three queues, and the abstract specification of a read.\<close>

lemma read_loop_spec:
  assumes "vs_wf vs pq" "read_loop vs bound ret pq = (out, pq')"
    "sorted (map vs ret)" "\<forall>x\<in>set ret. \<forall>y. y \<in># pq_contents pq \<longrightarrow> vs x \<le> vs y"
    "\<forall>x\<in>set ret. vs x \<le> bound"
  shows "vs_wf vs pq' \<and> mset out + pq_contents pq' = mset ret + pq_contents pq \<and>
    sorted (map vs out) \<and> (\<forall>x\<in>set out. vs x \<le> bound) \<and> (\<forall>y. y \<in># pq_contents pq' \<longrightarrow> bound < vs y)"
  using assms
proof (induction vs bound ret pq arbitrary: out rule: read_loop.induct)
  case (1 vs bound ret pq)
  show ?case
  proof (cases "PQ_Len pq = 0")
    case True
    then have "out = ret" "pq' = pq" "pq_contents pq = {#}"
      using "1.prems"(2) by (auto simp: read_loop.simps PQ_Len_def pq_contents_def)
    with "1.prems" show ?thesis by simp
  next
    case False
    then obtain hd_msg pq1 where pop: "PopItem pq = Inr (hd_msg, pq1)" using PopItem_ok by blast
    note wf1 = heap_pq.pop_wf [OF "1.prems"(1) pop] and c = heap_pq.pop_contents [OF "1.prems"(1) pop]
      and low = heap_pq.pop_min [OF "1.prems"(1) pop]
    show ?thesis
    proof (cases "bound < vs hd_msg")
      case True
      then have "out = ret" "pq' = PushItem hd_msg pq1"
        using "1.prems"(2) False pop by (auto simp: read_loop.simps [of vs bound ret pq])
      with "1.prems" True c low wf1 show ?thesis
        by (auto simp: pq_wf_PushItem pq_contents_PushItem not_less intro: less_le_trans)
    next
      case le: False
      then have rest: "read_loop vs bound (ret @ [hd_msg]) pq1 = (out, pq')"
        using "1.prems"(2) False pop by (simp add: read_loop.simps [of vs bound ret pq])
      have "sorted (map vs (ret @ [hd_msg]))"
        using "1.prems"(3,4) c by (auto simp: sorted_append)
      moreover have "\<forall>x\<in>set (ret @ [hd_msg]). \<forall>y. y \<in># pq_contents pq1 \<longrightarrow> vs x \<le> vs y"
        using "1.prems"(4) c low by (auto simp: not_less)
      ultimately have "vs_wf vs pq' \<and> mset out + pq_contents pq' = mset (ret @ [hd_msg]) + pq_contents pq1 \<and>
          sorted (map vs out) \<and> (\<forall>x\<in>set out. vs x \<le> bound) \<and> (\<forall>y. y \<in># pq_contents pq' \<longrightarrow> bound < vs y)"
        using "1.IH" [OF False pop refl] le rest wf1 "1.prems"(5) by (simp add: not_less)
      with c show ?thesis by simp
    qed
  qed
qed

lemma read_loop_filter:
  assumes "vs_wf vs pq" "read_loop vs bound [] pq = (out, pq')"
  shows "vs_wf vs pq' \<and> sorted (map vs out) \<and>
    mset out = filter_mset (\<lambda>m. vs m \<le> bound) (pq_contents pq) \<and>
    pq_contents pq' = filter_mset (\<lambda>m. bound < vs m) (pq_contents pq)"
proof -
  have spec: "vs_wf vs pq'" "mset out + pq_contents pq' = pq_contents pq" "sorted (map vs out)"
    "\<forall>x\<in>set out. vs x \<le> bound" "\<forall>y. y \<in># pq_contents pq' \<longrightarrow> bound < vs y"
    using read_loop_spec [OF assms] by simp_all
  have out: "filter_mset (\<lambda>m. vs m \<le> bound) (mset out) = mset out"
    "filter_mset (\<lambda>m. bound < vs m) (mset out) = {#}"
    using spec(4) by (auto simp: filter_mset_eq_conv not_less)
  have rest: "filter_mset (\<lambda>m. vs m \<le> bound) (pq_contents pq') = {#}"
    "filter_mset (\<lambda>m. bound < vs m) (pq_contents pq') = pq_contents pq'"
    using spec(5) by (auto simp: filter_mset_eq_conv not_le)
  from spec out rest show ?thesis by (simp flip: spec(2))
qed

end
