(* ===== verification/Config.thy ===== *)
theory Config
  imports Network
begin

text \<open>
  \<open>config\<close> and \<open>cmd/loadnetwork\<close>: the configuration records, loading them, the local parameters
  of a process, and building or checking the topology at start-up. Reading the file and the
  JSON and YAML decoders are parameters. The lemmas show that both halves of a loaded
  configuration carry the global system section, that the topology of the direct network holds
  exactly the configured nodes of the table, and that a topology that passes the readiness check
  has a leader and the configured number of nodes in every shard.
\<close>

section \<open>Configuration records\<close>

abbreviation (input) "StaticRelayConsensus \<equiv> ''static_relay''"
abbreviation (input) "StaticBrokerConsensus \<equiv> ''static_broker''"
abbreviation (input) "CLPARelayConsensus \<equiv> ''clpa_relay''"
abbreviation (input) "CLPABrokerConsensus \<equiv> ''clpa_broker''"
abbreviation (input) "DirectConnMode \<equiv> ''direct''"
abbreviation (input) "LibP2PConnMode \<equiv> ''libp2p''"

record log_cfg =
  LogDir :: string
  LogLevel :: string

record system_cfg =
  ShardNum :: int
  NodeNum :: int
  ConsensusType :: string
  BlockSizeLimit :: int
  sys_Log :: log_cfg

record supervisor_cfg =
  sv_Sys :: system_cfg
  TxNumber :: int
  TxInjectionSpeed :: int
  ResultOutputDir :: string
  EpochDuration :: int
  TxSourceType :: string
  TxSourceFile :: string
  ExcludeContractTxs :: bool
  BrokerFilePath :: string
  BrokerNum :: int

record storage_cfg =
  BlockStorageType :: string
  TrieStorageType :: string
  BoltFilePathDir :: string
  IsMemoryDB :: bool
  LevelFilePathDir :: string
  OldStateRoot :: string

record consensus_node_cfg =
  cn_Sys :: system_cfg
  cn_Bloom :: bloom_cfg
  cn_Storage :: storage_cfg
  cn_ChainID :: int
  VMStateDir :: string
  TxPoolType :: string
  BlockInterval :: int
  BlockRecordDir :: string

record libp2p_conn_cfg =
  BootstrapKeyFp :: string
  BootstrapPeer :: string
  BootstrapIP :: string
  BootstrapPort :: int

record network_cfg =
  Bandwidth :: int
  Latency :: int
  CommunicationMode :: string
  LibP2PCfg :: libp2p_conn_cfg

record config =
  GlobalSys :: system_cfg
  ConsensusNodeCfg :: consensus_node_cfg
  SupervisorCfg :: supervisor_cfg
  NetworkCfg :: network_cfg

record local_params =
  lp_NodeID :: int
  lp_ShardID :: int
  WalletAddr :: address

section \<open>Loading\<close>

text \<open>\<open>filepath.Ext\<close>: the suffix from the last dot of the last path element, or nothing.\<close>

definition path_ext :: "string \<Rightarrow> string" where
  "path_ext path =
     (let base = takeWhile (\<lambda>c. c \<noteq> CHR ''/'') (rev path);
          suffix = takeWhile (\<lambda>c. c \<noteq> CHR ''.'') base
      in if length suffix = length base then [] else CHR ''.'' # rev suffix)"

definition LoadConfig ::
  "(string \<Rightarrow> bytes result) \<Rightarrow> (bytes \<Rightarrow> config result) \<Rightarrow> (bytes \<Rightarrow> config result) \<Rightarrow> string \<Rightarrow>
   config result" where
  "LoadConfig readFile json_Unmarshal yaml_Unmarshal path =
     (case readFile path of Inl e \<Rightarrow> Inl (Wrapf ''read file'' e)
      | Inr data \<Rightarrow>
        (case (if path_ext path = ''.json'' then wrap_err ''json unmarshal'' (json_Unmarshal data)
               else if path_ext path = ''.yaml'' \<or> path_ext path = ''.yml''
                    then wrap_err ''yaml unmarshal'' (yaml_Unmarshal data)
               else Inl (Errorf ''unsupported cfg type'')) of
           Inl e \<Rightarrow> Inl e
         | Inr cfg \<Rightarrow>
             (let cfg1 = cfg\<lparr>SupervisorCfg := (SupervisorCfg cfg)\<lparr>sv_Sys := GlobalSys cfg\<rparr>\<rparr>
              in Inr (cfg1\<lparr>ConsensusNodeCfg := (ConsensusNodeCfg cfg1)\<lparr>cn_Sys := GlobalSys cfg\<rparr>\<rparr>))))"

definition LoadLocalParams :: "int \<Rightarrow> int \<Rightarrow> string \<Rightarrow> local_params result" where
  "LoadLocalParams localNodeID localShardID accountAddr =
     (case Hex2Addr accountAddr of Inl e \<Rightarrow> Inl (Wrapf ''load wallet address'' e)
      | Inr walletAddr \<Rightarrow>
        if localNodeID < 0 \<or> localShardID < 0 then Inl (Errorf ''invalid local params'')
        else Inr \<lparr>lp_NodeID = localNodeID, lp_ShardID = localShardID, WalletAddr = walletAddr\<rparr>)"

section \<open>The network at start-up\<close>

text \<open>\<open>readIpTableFromFile\<close> after reading and decoding the table.\<close>

definition ip_shard :: "system_cfg \<Rightarrow> int \<Rightarrow> (int, string) gomap \<Rightarrow> (node_info, string) gomap \<Rightarrow>
    (node_info, string) gomap" where
  "ip_shard cfg shardID shardInfoMap ret =
     fold (\<lambda>(nodeID, ip) ret.
             if nodeID \<ge> NodeNum cfg \<or> nodeID < 0 then ret
             else AList.update \<lparr>NodeID = nodeID, ShardID = shardID\<rparr> ip ret) shardInfoMap ret"

definition readIpTableFromFile ::
  "bytes result \<Rightarrow> (bytes \<Rightarrow> (int, (int, string) gomap) gomap result) \<Rightarrow> system_cfg \<Rightarrow>
   (node_info, string) gomap result" where
  "readIpTableFromFile file json_Unmarshal cfg =
     (case wrap_err ''readIpTableFromFile'' file of Inl e \<Rightarrow> Inl e
      | Inr data \<Rightarrow>
        (case wrap_err ''readIpTableFromFile'' (json_Unmarshal data) of Inl e \<Rightarrow> Inl e
         | Inr ipMap \<Rightarrow>
             Inr (fold (\<lambda>(shardID, shardInfoMap) ret.
               if shardID \<noteq> SupervisorShardID \<and> (shardID \<ge> ShardNum cfg \<or> shardID < 0) then ret
               else ip_shard cfg shardID shardInfoMap ret) ipMap [])))"

definition direct_add :: "node_info \<Rightarrow> topo_getter \<Rightarrow> topo_getter" where
  "direct_add node t =
     (let t' = t\<lparr>shard2nodes := AList.update (ShardID node)
                   (map_get (shard2nodes t) (ShardID node) [] @ [node]) (shard2nodes t)\<rparr>
      in if NodeID node = 0 then t'\<lparr>leaders := AList.update (ShardID node) node (leaders t')\<rparr> else t')"

definition loadDirectNetwork ::
  "bytes result \<Rightarrow> (bytes \<Rightarrow> (int, (int, string) gomap) gomap result) \<Rightarrow> system_cfg \<Rightarrow> local_params \<Rightarrow>
   ('p rpc_conn \<times> topo_getter) result" where
  "loadDirectNetwork file json_Unmarshal cfg lp =
     (case readIpTableFromFile file json_Unmarshal cfg of
        Inl e \<Rightarrow> Inl (Wrapf ''read ip table from the file failed'' e)
      | Inr hosts \<Rightarrow>
          Inr (NewRPCConn \<lparr>NodeID = lp_NodeID lp, ShardID = lp_ShardID lp\<rparr> hosts,
               fold direct_add (map fst hosts) (NewTopoGetter [] [])))"

fun ready_loop :: "topo_getter \<Rightarrow> int \<Rightarrow> int list \<Rightarrow> unit result" where
  "ready_loop t n [] = Inr ()"
| "ready_loop t n (s # ss) =
     (case GetLeader t s of Inl e \<Rightarrow> Inl (Wrapf ''failed to get leader of shard'' e)
      | Inr _ \<Rightarrow>
        (case GetNodesInShard t s of Inl e \<Rightarrow> Inl (Wrapf ''failed to get nodes in shard'' e)
         | Inr ns \<Rightarrow>
           if int (length ns) \<noteq> n then Inl (Wrapf ''actual node number'' (Errorf ''node mapper is not ready''))
           else ready_loop t n ss))"

definition checkNodeMapperReady :: "topo_getter \<Rightarrow> system_cfg \<Rightarrow> unit result" where
  "checkNodeMapperReady t cfg =
     (if int (length (GetAllLeaders t)) \<noteq> ShardNum cfg
      then Inl (Wrapf ''actual leader number'' (Errorf ''node mapper is not ready''))
      else ready_loop t (NodeNum cfg) (map int [0 ..< nat (ShardNum cfg)]))"

section \<open>Lemmas\<close>

lemma LoadConfig_sys:
  "LoadConfig rf js ym path = Inr cfg \<Longrightarrow>
   sv_Sys (SupervisorCfg cfg) = GlobalSys cfg \<and> cn_Sys (ConsensusNodeCfg cfg) = GlobalSys cfg"
  by (auto simp: LoadConfig_def Let_def split: sum.splits if_splits)

lemma LoadLocalParams_ok:
  "LoadLocalParams n s a = Inr lp \<Longrightarrow> 0 \<le> lp_NodeID lp \<and> 0 \<le> lp_ShardID lp \<and> valid_addr (WalletAddr lp)"
  by (auto simp: LoadLocalParams_def dest: Hex2Addr_valid split: sum.splits if_splits)

lemma ready_loop_ok:
  "ready_loop t n ss = Inr () \<Longrightarrow> s \<in> set ss \<Longrightarrow>
   is_ok (GetLeader t s) \<and> (\<exists>ns. GetNodesInShard t s = Inr ns \<and> int (length ns) = n)"
  by (induction ss) (auto split: sum.splits if_splits)

lemma checkNodeMapperReady_ok:
  assumes "checkNodeMapperReady t cfg = Inr ()" "0 \<le> s" "s < ShardNum cfg"
  shows "is_ok (GetLeader t s) \<and> (\<exists>ns. GetNodesInShard t s = Inr ns \<and> int (length ns) = NodeNum cfg)"
proof (rule ready_loop_ok)
  show "ready_loop t (NodeNum cfg) (map int [0 ..< nat (ShardNum cfg)]) = Inr ()"
    using assms(1) by (simp add: checkNodeMapperReady_def split: if_splits)
  show "s \<in> set (map int [0 ..< nat (ShardNum cfg)])"
    using assms(2,3) by (auto simp: image_iff intro!: bexI [of _ "nat s"])
qed

lemma ip_shard_keys:
  "fst ` set (ip_shard cfg s m ret) =
    fst ` set ret \<union> {\<lparr>NodeID = n, ShardID = s\<rparr> | n. n \<in> fst ` set m \<and> 0 \<le> n \<and> n < NodeNum cfg}"
proof (induction m arbitrary: ret)
  case (Cons a m)
  obtain n ip where a: "a = (n, ip)" by (cases a)
  have step: "ip_shard cfg s (a # m) ret =
      ip_shard cfg s m (if n \<ge> NodeNum cfg \<or> n < 0 then ret else AList.update \<lparr>NodeID = n, ShardID = s\<rparr> ip ret)"
    by (simp add: ip_shard_def a)
  show ?case
    unfolding step Cons.IH by (cases "n \<ge> NodeNum cfg \<or> n < 0") (auto simp: fst_set_AList_update a)
qed (simp add: ip_shard_def)

lemma direct_add_nodes:
  "map_get (shard2nodes (fold direct_add ns t)) s [] =
    map_get (shard2nodes t) s [] @ filter (\<lambda>n. ShardID n = s) ns"
  by (induction ns arbitrary: t) (auto simp: direct_add_def Let_def go_simps)

lemma direct_add_leader:
  "map_of (leaders (fold direct_add ns t)) s =
    (case filter (\<lambda>n. ShardID n = s \<and> NodeID n = 0) (rev ns) of [] \<Rightarrow> map_of (leaders t) s | n # _ \<Rightarrow> Some n)"
proof (induction ns rule: rev_induct)
  case (snoc n ns)
  then show ?case by (auto simp: direct_add_def Let_def go_simps)
qed simp

end
