(* ===== verification/Pbft_Meta.thy ===== *)
theory Pbft_Meta
  imports Msg_Pool Config
begin

text \<open>
  \<open>consensus/pbft/pbftmeta.go\<close>: the metadata of a PBFT replica, \<open>curateMsg\<close> (which counts the valid
  messages of the pool), \<open>step2Next\<close> (the stage machine) and the catch-up bookkeeping.
  \<open>prepareSet\<close> and \<open>commitSet\<close> are duplicate-free lists of nodes. The lemmas show what a
  counted vote is, that no later vote is dropped, and what each stage transition requires.
\<close>

section \<open>The metadata\<close>

abbreviation (input) initialLeader :: int where "initialLeader \<equiv> 0"
abbreviation (input) stagePreprepare :: int where "stagePreprepare \<equiv> 0"
abbreviation (input) stagePrepare :: int where "stagePrepare \<equiv> 1"
abbreviation (input) stageCommit :: int where "stageCommit \<equiv> 2"
abbreviation (input) stageNewView :: int where "stageNewView \<equiv> 3"
abbreviation (input) stageViewChange :: int where "stageViewChange \<equiv> 4"
abbreviation (input) catchUpThreshold :: int where "catchUpThreshold \<equiv> 5"

record consensus_meta =
  cfg :: consensus_node_cfg
  lp :: local_params
  f :: int
  leader :: int
  closed :: bool
  msgPool :: msg_pool
  proposed :: bool
  curViewSeq :: view_seq
  stage :: int
  curPreprepare :: "preprepare_msg option"
  lastProposal :: "proposal option"
  lastProposeTime :: gotime
  prepareSet :: "node_info list"
  commitSet :: "node_info list"
  latestViewSeq :: view_seq
  catchupStarted :: bool

definition newConsensusMeta ::
  "consensus_node_cfg \<Rightarrow> local_params \<Rightarrow> gotime \<Rightarrow> consensus_meta" where
  "newConsensusMeta cf l now =
     \<lparr>cfg = cf, lp = l, f = go_div (wrap64 (NodeNum (cn_Sys cf) - 1)) 3, leader = initialLeader,
      closed = False, msgPool = NewMsgPool, proposed = False, curViewSeq = ViewSeq 0 0,
      stage = stagePreprepare, curPreprepare = None, lastProposal = None, lastProposeTime = now,
      prepareSet = [], commitSet = [], latestViewSeq = ViewSeq 0 0, catchupStarted = False\<rparr>"

text \<open>The first loop of \<open>curateMsg\<close>: the first preprepare of this round that names the leader.\<close>

fun pick_preprepare :: "view_seq \<Rightarrow> int \<Rightarrow> preprepare_msg list \<Rightarrow> preprepare_msg option" where
  "pick_preprepare cur ldr [] = None"
| "pick_preprepare cur ldr (m # ms) =
     (if Compare cur (pp_ViewSeq m) \<noteq> 0 \<or> pp_NodeID m \<noteq> ldr then pick_preprepare cur ldr ms
      else Some m)"

fun count_prepares :: "view_seq \<Rightarrow> bytes \<Rightarrow> prepare_msg list \<Rightarrow> node_info list \<Rightarrow> node_info list" where
  "count_prepares cur digest [] s = s"
| "count_prepares cur digest (m # ms) s =
     (if Compare cur (p_ViewSeq m) \<noteq> 0 \<or> p_Digest m \<noteq> digest then count_prepares cur digest ms s
      else count_prepares cur digest ms
             (List.insert \<lparr>NodeID = p_NodeID m, ShardID = p_ShardID m\<rparr> s))"

fun count_commits :: "view_seq \<Rightarrow> bytes \<Rightarrow> commit_msg list \<Rightarrow> node_info list \<Rightarrow> node_info list" where
  "count_commits cur digest [] s = s"
| "count_commits cur digest (m # ms) s =
     (if Compare cur (c_ViewSeq m) \<noteq> 0 \<or> c_Digest m \<noteq> digest then count_commits cur digest ms s
      else count_commits cur digest ms
             (List.insert \<lparr>NodeID = c_NodeID m, ShardID = c_ShardID m\<rparr> s))"

definition curate_preprepare :: "consensus_meta \<Rightarrow> consensus_meta" where
  "curate_preprepare c =
     (case curPreprepare c of Some _ \<Rightarrow> c
      | None \<Rightarrow>
        (case ReadPreprepareMsg (curViewSeq c) (msgPool c) of (ms, pool) \<Rightarrow>
           c\<lparr>msgPool := pool, curPreprepare := pick_preprepare (curViewSeq c) (leader c) ms\<rparr>))"

definition curateMsg :: "consensus_meta \<Rightarrow> consensus_meta" where
  "curateMsg c0 =
     (let c = curate_preprepare c0 in
      case curPreprepare c of None \<Rightarrow> c
      | Some pp \<Rightarrow>
        (case ReadPrepareMsg (curViewSeq c) (msgPool c) of (ps, pool1) \<Rightarrow>
           (let c1 = c\<lparr>msgPool := pool1,
                       prepareSet := count_prepares (curViewSeq c) (pp_Digest pp) ps (prepareSet c)\<rparr>
            in (case ReadCommitMsg (curViewSeq c1) (msgPool c1) of (cs, pool2) \<Rightarrow>
                  c1\<lparr>msgPool := pool2,
                     commitSet := count_commits (curViewSeq c1) (pp_Digest pp) cs (commitSet c1)\<rparr>))))"

text \<open>
  \<open>step2Next\<close> returns the old and the new stage. In the commit stage the code dereferences
  \<open>curPreprepare\<close>, which panics when it is nil.
\<close>

definition quorum :: "consensus_meta \<Rightarrow> int" where
  "quorum c = wrap64 (2 * f c + 1)"

definition step2Next :: "consensus_meta \<Rightarrow> (int \<times> int) result \<times> consensus_meta" where
  "step2Next c =
     (if stage c = stagePreprepare then
        (if curPreprepare c = None then (Inr (stagePreprepare, stagePreprepare), c)
         else (Inr (stagePreprepare, stagePrepare), c\<lparr>stage := stagePrepare\<rparr>))
      else if stage c = stagePrepare then
        (if int (length (prepareSet c)) < quorum c then (Inr (stagePrepare, stagePrepare), c)
         else (Inr (stagePrepare, stageCommit), c\<lparr>stage := stageCommit\<rparr>))
      else if stage c = stageCommit then
        (if int (length (commitSet c)) < quorum c then (Inr (stageCommit, stageCommit), c)
         else (case curPreprepare c of
                 None \<Rightarrow> (Inl (Panic ''nil pointer dereference''), c\<lparr>stage := stagePreprepare\<rparr>)
               | Some pp \<Rightarrow>
                   (Inr (stageCommit, stagePreprepare),
                    c\<lparr>stage := stagePreprepare, lastProposal := Some (pp_P pp), curPreprepare := None,
                      prepareSet := [], commitSet := [], proposed := False,
                      curViewSeq := ViewSeq (View (curViewSeq c)) (wrap64 (Seq (curViewSeq c) + 1))\<rparr>)))
      else (Inl (Errorf ''invalid stage''), c))"

definition updateLatestViewSeq :: "int \<Rightarrow> int \<Rightarrow> consensus_meta \<Rightarrow> consensus_meta" where
  "updateLatestViewSeq view seqn c =
     (let vs = ViewSeq view seqn in
      if Compare (latestViewSeq c) vs = - 1 then c\<lparr>latestViewSeq := vs\<rparr> else c)"

definition catchupReady :: "consensus_meta \<Rightarrow> bool" where
  "catchupReady c =
     (if catchupStarted c then False
      else View (latestViewSeq c) = View (curViewSeq c) \<and>
           Seq (latestViewSeq c) \<ge> wrap64 (Seq (curViewSeq c) + catchUpThreshold))"

definition catchupOverAndReset :: "view_seq \<Rightarrow> consensus_meta \<Rightarrow> consensus_meta" where
  "catchupOverAndReset vs c =
     c\<lparr>catchupStarted := False, curViewSeq := vs, stage := stagePreprepare, lastProposal := None,
       curPreprepare := None, prepareSet := [], commitSet := [], proposed := False\<rparr>"

section \<open>Invariant\<close>

text \<open>
  A replica outside the preprepare stage holds a preprepare of the current round from the
  leader; the vote sets are duplicate free and empty while no preprepare is held.
\<close>

definition meta_inv :: "consensus_meta \<Rightarrow> bool" where
  "meta_inv c \<longleftrightarrow>
     pool_ok (msgPool c) \<and> stage c \<in> {stagePreprepare, stagePrepare, stageCommit} \<and>
     distinct (prepareSet c) \<and> distinct (commitSet c) \<and>
     (case curPreprepare c of
        None \<Rightarrow> stage c = stagePreprepare \<and> prepareSet c = [] \<and> commitSet c = []
      | Some pp \<Rightarrow> pp_ViewSeq pp = curViewSeq c \<and> pp_NodeID pp = leader c)"

lemma pick_preprepare_Some:
  "pick_preprepare cur ldr ms = Some m \<Longrightarrow> m \<in> set ms \<and> pp_ViewSeq m = cur \<and> pp_NodeID m = ldr"
  by (induction ms) (auto split: if_splits)

lemma pick_preprepare_None:
  "pick_preprepare cur ldr ms = None \<longleftrightarrow> (\<forall>m\<in>set ms. pp_ViewSeq m = cur \<longrightarrow> pp_NodeID m \<noteq> ldr)"
  by (induction ms) auto

lemma count_prepares_set:
  "set (count_prepares cur d ms s) =
    set s \<union> {\<lparr>NodeID = p_NodeID m, ShardID = p_ShardID m\<rparr> | m. m \<in> set ms \<and> p_ViewSeq m = cur \<and> p_Digest m = d}"
  by (induction ms arbitrary: s) auto

lemma count_commits_set:
  "set (count_commits cur d ms s) =
    set s \<union> {\<lparr>NodeID = c_NodeID m, ShardID = c_ShardID m\<rparr> | m. m \<in> set ms \<and> c_ViewSeq m = cur \<and> c_Digest m = d}"
  by (induction ms arbitrary: s) auto

lemma count_distinct [simp]:
  "distinct s \<Longrightarrow> distinct (count_prepares cur d ps s)"
  "distinct s \<Longrightarrow> distinct (count_commits cur d cs s)"
  by (induction ps arbitrary: s, auto) (induction cs arbitrary: s, auto)

lemma newConsensusMeta_inv [inv_rules]: "meta_inv (newConsensusMeta cf l now)"
  by (simp add: meta_inv_def newConsensusMeta_def pool_ok_New)

lemma read_preprepare_ok:
  "pool_ok m \<Longrightarrow> ReadPreprepareMsg bound m = (ret, m') \<Longrightarrow>
   pool_ok m' \<and> mset ret = filter_mset (\<lambda>x. pp_ViewSeq x \<le> bound) (pq_contents (preprepares m)) \<and>
   pq_contents (preprepares m') = filter_mset (\<lambda>x. bound < pp_ViewSeq x) (pq_contents (preprepares m)) \<and>
   prepares m' = prepares m \<and> commits m' = commits m"
  using read_loop_filter [of pp_ViewSeq "preprepares m" bound]
  by (auto simp: ReadPreprepareMsg_def pool_ok_def split: prod.splits)

lemma read_prepare_ok:
  "pool_ok m \<Longrightarrow> ReadPrepareMsg bound m = (ret, m') \<Longrightarrow>
   pool_ok m' \<and> mset ret = filter_mset (\<lambda>x. p_ViewSeq x \<le> bound) (pq_contents (prepares m)) \<and>
   pq_contents (prepares m') = filter_mset (\<lambda>x. bound < p_ViewSeq x) (pq_contents (prepares m)) \<and>
   preprepares m' = preprepares m \<and> commits m' = commits m"
  using read_loop_filter [of p_ViewSeq "prepares m" bound]
  by (auto simp: ReadPrepareMsg_def pool_ok_def split: prod.splits)

lemma read_commit_ok:
  "pool_ok m \<Longrightarrow> ReadCommitMsg bound m = (ret, m') \<Longrightarrow>
   pool_ok m' \<and> mset ret = filter_mset (\<lambda>x. c_ViewSeq x \<le> bound) (pq_contents (commits m)) \<and>
   pq_contents (commits m') = filter_mset (\<lambda>x. bound < c_ViewSeq x) (pq_contents (commits m)) \<and>
   preprepares m' = preprepares m \<and> prepares m' = prepares m"
  using read_loop_filter [of c_ViewSeq "commits m" bound]
  by (auto simp: ReadCommitMsg_def pool_ok_def split: prod.splits)

text \<open>The fields \<open>curateMsg\<close> leaves alone.\<close>

lemma curate_preprepare_frame [simp]:
  "cfg (curate_preprepare c) = cfg c" "lp (curate_preprepare c) = lp c" "f (curate_preprepare c) = f c"
  "leader (curate_preprepare c) = leader c" "curViewSeq (curate_preprepare c) = curViewSeq c"
  "stage (curate_preprepare c) = stage c" "prepareSet (curate_preprepare c) = prepareSet c"
  "commitSet (curate_preprepare c) = commitSet c" "closed (curate_preprepare c) = closed c"
  by (simp_all add: curate_preprepare_def split: option.splits prod.splits)

lemma curateMsg_frame [simp]:
  "cfg (curateMsg c) = cfg c" "lp (curateMsg c) = lp c" "f (curateMsg c) = f c"
  "leader (curateMsg c) = leader c" "curViewSeq (curateMsg c) = curViewSeq c"
  "stage (curateMsg c) = stage c" "closed (curateMsg c) = closed c"
  by (simp_all add: curateMsg_def Let_def split: option.splits prod.splits)

lemma curate_preprepare_inv:
  assumes "meta_inv c"
  shows "meta_inv (curate_preprepare c)"
proof (cases "curPreprepare c")
  case None
  obtain ms pool where rd: "ReadPreprepareMsg (curViewSeq c) (msgPool c) = (ms, pool)" by fastforce
  have "pool_ok pool" using read_preprepare_ok [OF _ rd] assms by (simp add: meta_inv_def)
  with assms None rd show ?thesis
    by (auto simp: meta_inv_def curate_preprepare_def split: option.splits dest: pick_preprepare_Some)
qed (use assms in \<open>simp add: curate_preprepare_def\<close>)

lemma curate_preprepare_pool:
  assumes "meta_inv c"
  shows "prepares (msgPool (curate_preprepare c)) = prepares (msgPool c)"
    "commits (msgPool (curate_preprepare c)) = commits (msgPool c)"
proof -
  obtain ms pool where rd: "ReadPreprepareMsg (curViewSeq c) (msgPool c) = (ms, pool)" by fastforce
  have "prepares pool = prepares (msgPool c) \<and> commits pool = commits (msgPool c)"
    using read_preprepare_ok [OF _ rd] assms by (simp add: meta_inv_def)
  with rd show "prepares (msgPool (curate_preprepare c)) = prepares (msgPool c)"
    "commits (msgPool (curate_preprepare c)) = commits (msgPool c)"
    by (simp_all add: curate_preprepare_def split: option.splits)
qed

text \<open>
  One call of \<open>curateMsg\<close> once the preprepare \<open>pp\<close> of the round is held: the new votes are those of the
  pool that match the round and the digest of \<open>pp\<close>, and exactly the later messages stay.
\<close>

lemma curateMsg_votes:
  assumes inv: "meta_inv c" and pp: "curPreprepare (curateMsg c) = Some pp"
  shows "set (prepareSet (curateMsg c)) = set (prepareSet c) \<union>
      {\<lparr>NodeID = p_NodeID m, ShardID = p_ShardID m\<rparr> | m. m \<in># pq_contents (prepares (msgPool c)) \<and>
         p_ViewSeq m = curViewSeq c \<and> p_Digest m = pp_Digest pp}"
    "set (commitSet (curateMsg c)) = set (commitSet c) \<union>
      {\<lparr>NodeID = c_NodeID m, ShardID = c_ShardID m\<rparr> | m. m \<in># pq_contents (commits (msgPool c)) \<and>
         c_ViewSeq m = curViewSeq c \<and> c_Digest m = pp_Digest pp}"
    "pq_contents (prepares (msgPool (curateMsg c))) =
      filter_mset (\<lambda>m. curViewSeq c < p_ViewSeq m) (pq_contents (prepares (msgPool c)))"
    "pq_contents (commits (msgPool (curateMsg c))) =
      filter_mset (\<lambda>m. curViewSeq c < c_ViewSeq m) (pq_contents (commits (msgPool c)))"
    "meta_inv (curateMsg c)" "curPreprepare (curate_preprepare c) = Some pp"
proof -
  let ?c = "curate_preprepare c"
  have inv': "meta_inv ?c" by (rule curate_preprepare_inv [OF inv])
  have pp': "curPreprepare ?c = Some pp"
    using pp by (auto simp: curateMsg_def Let_def split: option.splits prod.splits)
  obtain ps pool1 where r1: "ReadPrepareMsg (curViewSeq c) (msgPool ?c) = (ps, pool1)" by fastforce
  obtain cs pool2 where r2: "ReadCommitMsg (curViewSeq c) pool1 = (cs, pool2)" by fastforce
  have ok: "pool_ok (msgPool ?c)" using inv' by (simp add: meta_inv_def)
  note p1 = read_prepare_ok [OF ok r1, unfolded curate_preprepare_pool [OF inv]]
  note p2 = read_commit_ok [OF conjunct1 [OF p1] r2]
  have ps: "m \<in> set ps \<longleftrightarrow> m \<in># pq_contents (prepares (msgPool c)) \<and> p_ViewSeq m \<le> curViewSeq c" for m
    using arg_cong [OF p1 [THEN conjunct2, THEN conjunct1], of set_mset] by auto
  have cs: "m \<in> set cs \<longleftrightarrow> m \<in># pq_contents (commits (msgPool c)) \<and> c_ViewSeq m \<le> curViewSeq c" for m
    using arg_cong [OF p2 [THEN conjunct2, THEN conjunct1], of set_mset] p1 by auto
  have eq: "curateMsg c = ?c\<lparr>msgPool := pool2,
      prepareSet := count_prepares (curViewSeq c) (pp_Digest pp) ps (prepareSet c),
      commitSet := count_commits (curViewSeq c) (pp_Digest pp) cs (commitSet c)\<rparr>"
    using pp' r1 r2 by (simp add: curateMsg_def Let_def)
  show "set (prepareSet (curateMsg c)) = set (prepareSet c) \<union>
      {\<lparr>NodeID = p_NodeID m, ShardID = p_ShardID m\<rparr> | m. m \<in># pq_contents (prepares (msgPool c)) \<and>
         p_ViewSeq m = curViewSeq c \<and> p_Digest m = pp_Digest pp}"
    by (auto simp: eq count_prepares_set ps)
  show "set (commitSet (curateMsg c)) = set (commitSet c) \<union>
      {\<lparr>NodeID = c_NodeID m, ShardID = c_ShardID m\<rparr> | m. m \<in># pq_contents (commits (msgPool c)) \<and>
         c_ViewSeq m = curViewSeq c \<and> c_Digest m = pp_Digest pp}"
    by (auto simp: eq count_commits_set cs)
  show "pq_contents (prepares (msgPool (curateMsg c))) =
      filter_mset (\<lambda>m. curViewSeq c < p_ViewSeq m) (pq_contents (prepares (msgPool c)))"
    "pq_contents (commits (msgPool (curateMsg c))) =
      filter_mset (\<lambda>m. curViewSeq c < c_ViewSeq m) (pq_contents (commits (msgPool c)))"
    using p1 p2 by (simp_all add: eq)
  have "pool_ok pool2" using p2 by simp
  with inv' pp' show "meta_inv (curateMsg c)" by (simp add: eq meta_inv_def)
  show "curPreprepare ?c = Some pp" by (rule pp')
qed

text \<open>While no preprepare is held, no vote is read from the pool, hence none is lost.\<close>

lemma curateMsg_waiting:
  assumes "meta_inv c" "curPreprepare (curateMsg c) = None"
  shows "prepares (msgPool (curateMsg c)) = prepares (msgPool c)"
    "commits (msgPool (curateMsg c)) = commits (msgPool c)"
    "meta_inv (curateMsg c)" "curateMsg c = curate_preprepare c"
proof -
  have eq: "curateMsg c = curate_preprepare c"
    using assms(2) by (auto simp: curateMsg_def Let_def split: option.splits prod.splits)
  show "prepares (msgPool (curateMsg c)) = prepares (msgPool c)"
    "commits (msgPool (curateMsg c)) = commits (msgPool c)"
    "meta_inv (curateMsg c)"
    by (simp_all add: eq curate_preprepare_pool [OF assms(1)] curate_preprepare_inv [OF assms(1)])
  show "curateMsg c = curate_preprepare c" by (rule eq)
qed

lemma curateMsg_inv [inv_rules]: "meta_inv c \<Longrightarrow> meta_inv (curateMsg c)"
  using curateMsg_votes(5) curateMsg_waiting(3) by (cases "curPreprepare (curateMsg c)") blast+

section \<open>Stage transitions\<close>

lemma step2Next_inv [inv_rules]: "meta_inv c \<Longrightarrow> meta_inv (snd (step2Next c))"
  by (auto simp: step2Next_def meta_inv_def split: option.splits)

lemma step2Next_total: "meta_inv c \<Longrightarrow> \<exists>old new. fst (step2Next c) = Inr (old, new) \<and> old = stage c"
  by (auto simp: step2Next_def meta_inv_def split: option.splits)

lemma step2Next_commit:
  assumes "meta_inv c" "step2Next c = (Inr (stageCommit, stagePreprepare), c')"
  shows "\<exists>pp. curPreprepare c = Some pp \<and> pp_ViewSeq pp = curViewSeq c \<and> lastProposal c' = Some (pp_P pp) \<and>
    int (length (commitSet c)) \<ge> quorum c \<and> stage c = stageCommit \<and>
    curViewSeq c' = ViewSeq (View (curViewSeq c)) (wrap64 (Seq (curViewSeq c) + 1))"
  using assms by (auto simp: step2Next_def meta_inv_def split: if_splits option.splits)

lemma updateLatestViewSeq_inv [inv_rules]: "meta_inv c \<Longrightarrow> meta_inv (updateLatestViewSeq v s c)"
  by (auto simp: updateLatestViewSeq_def meta_inv_def Let_def split: option.splits)

lemma updateLatestViewSeq_max: "latestViewSeq (updateLatestViewSeq v s c) = max (latestViewSeq c) (ViewSeq v s)"
  by (auto simp: updateLatestViewSeq_def Let_def max_def)

lemma catchupOverAndReset_inv [inv_rules]: "meta_inv c \<Longrightarrow> meta_inv (catchupOverAndReset vs c)"
  by (simp add: catchupOverAndReset_def meta_inv_def)

lemma quorum_value:
  assumes "0 < NodeNum (cn_Sys cf)" "in_int64 (NodeNum (cn_Sys cf))"
  shows "f (newConsensusMeta cf l now) = (NodeNum (cn_Sys cf) - 1) div 3"
    "quorum (newConsensusMeta cf l now) = 2 * ((NodeNum (cn_Sys cf) - 1) div 3) + 1"
proof -
  let ?n = "NodeNum (cn_Sys cf)"
  have "in_int64 (?n - 1)" using assms by (simp add: in_int64_def)
  then show f: "f (newConsensusMeta cf l now) = (?n - 1) div 3"
    using assms(1) by (simp add: newConsensusMeta_def go_div_nonneg)
  have "in_int64 (2 * ((?n - 1) div 3) + 1)"
    using assms by (auto simp: in_int64_def)
  then show "quorum (newConsensusMeta cf l now) = 2 * ((?n - 1) div 3) + 1"
    by (simp add: quorum_def f)
qed

end
