(* ===== verification/Tx_Execute.thy ===== *)
theory Tx_Execute
  imports Core_Types
begin

text \<open>
  \<open>pkg/vm\<close>, \<open>pkg/chain/txexecute.go\<close> and \<open>pkg/chain/stateio.go\<close>: execution of the five kinds of
  transactions on geth's \<open>StateDB\<close>, and reading and writing account states.

  geth (\<open>StateDB\<close>, the EVM, the state database) and \<open>uint256\<close> are the parameter \<open>vm_api\<close>;
  \<open>statedb_ok\<close> states their documented behaviour. An operation returns its result together with
  the state, because the source mutates the state before it reports an error.
  The lemmas show that every transfer conserves the sum of the effective balances, where an
  account that does not exist yet counts with the initial balance it is going to be given.
\<close>

section \<open>Parameters\<close>

record block_ctx =
  Coinbase :: address
  CtxBlockNumber :: "64 word"
  CtxTime :: gotime
  CtxGasLimit :: "64 word"

record ('s, 'd) vm_api =
  db_Exist :: "'s \<Rightarrow> address \<Rightarrow> bool"
  db_GetBalance :: "'s \<Rightarrow> address \<Rightarrow> 256 word"
  db_SetBalance :: "'s \<Rightarrow> address \<Rightarrow> 256 word \<Rightarrow> 's"
  db_AddBalance :: "'s \<Rightarrow> address \<Rightarrow> 256 word \<Rightarrow> 's"
  db_SubBalance :: "'s \<Rightarrow> address \<Rightarrow> 256 word \<Rightarrow> 's"
  db_GetNonce :: "'s \<Rightarrow> address \<Rightarrow> 64 word"
  db_SetNonce :: "'s \<Rightarrow> address \<Rightarrow> 64 word \<Rightarrow> 's"
  db_CanTransfer :: "'s \<Rightarrow> address \<Rightarrow> 256 word \<Rightarrow> bool"
  u_FromBig :: "int \<Rightarrow> 256 word \<times> bool"
  u_FromDecimal :: "string \<Rightarrow> 256 word"
  evm_Create :: "block_ctx \<Rightarrow> address \<Rightarrow> bytes \<Rightarrow> 64 word \<Rightarrow> 256 word \<Rightarrow> 's \<Rightarrow> (address \<times> 64 word) result \<times> 's"
  evm_Call :: "block_ctx \<Rightarrow> address \<Rightarrow> address \<Rightarrow> bytes \<Rightarrow> 64 word \<Rightarrow> 256 word \<Rightarrow> 's \<Rightarrow> (bytes \<times> 64 word) result \<times> 's"
  state_New :: "bytes \<Rightarrow> 'd \<Rightarrow> 's result"
  state_IntermediateRoot :: "'s \<Rightarrow> bytes"
  state_Commit :: "64 word \<Rightarrow> 's \<Rightarrow> 'd \<Rightarrow> (bytes \<times> 'd) result"
  trieDB_Commit :: "bytes \<Rightarrow> 'd \<Rightarrow> 'd result"

definition statedb_ok :: "('s, 'd) vm_api \<Rightarrow> bool" where
  "statedb_ok v \<longleftrightarrow>
     (\<forall>s a x b. db_GetBalance v (db_SetBalance v s a x) b = (if b = a then x else db_GetBalance v s b)) \<and>
     (\<forall>s a x b. db_GetBalance v (db_AddBalance v s a x) b =
        (if b = a then db_GetBalance v s a + x else db_GetBalance v s b)) \<and>
     (\<forall>s a x b. db_GetBalance v (db_SubBalance v s a x) b =
        (if b = a then db_GetBalance v s a - x else db_GetBalance v s b)) \<and>
     (\<forall>s a x b. db_GetBalance v (db_SetNonce v s a x) b = db_GetBalance v s b) \<and>
     (\<forall>s a x b. db_GetNonce v (db_SetNonce v s a x) b = (if b = a then x else db_GetNonce v s b)) \<and>
     (\<forall>s a x b. db_GetNonce v (db_SetBalance v s a x) b = db_GetNonce v s b) \<and>
     (\<forall>s a x b. db_Exist v (db_SetBalance v s a x) b \<longleftrightarrow> b = a \<or> db_Exist v s b) \<and>
     (\<forall>s a x b. db_Exist v (db_AddBalance v s a x) b \<longleftrightarrow> b = a \<or> db_Exist v s b) \<and>
     (\<forall>s a x b. db_Exist v (db_SubBalance v s a x) b \<longleftrightarrow> b = a \<or> db_Exist v s b) \<and>
     (\<forall>s a x b. db_Exist v (db_SetNonce v s a x) b \<longleftrightarrow> b = a \<or> db_Exist v s b) \<and>
     (\<forall>s a x. db_CanTransfer v s a x \<longleftrightarrow> x \<le> db_GetBalance v s a) \<and>
     (\<forall>b. 0 \<le> b \<longrightarrow> b < 2 ^ 256 \<longrightarrow> u_FromBig v b = (of_int b, False)) \<and>
     (\<forall>b. 2 ^ 256 \<le> b \<longrightarrow> snd (u_FromBig v b))"

section \<open>pkg/utils/bigtransfer.go and pkg/vm\<close>

definition BigToUInt256 :: "('s, 'd) vm_api \<Rightarrow> int \<Rightarrow> 256 word result" where
  "BigToUInt256 v b =
     (if b < 0 then Inl (Errorf ''the input big int is a negative number'')
      else (case u_FromBig v b of (u, overflow) \<Rightarrow>
              if overflow then Inl (Errorf ''call FromBig overflow'') else Inr u))"

definition NewExecutor :: "('s, 'd) vm_api \<Rightarrow> 'd \<Rightarrow> bytes \<Rightarrow> 's result" where
  "NewExecutor v store root = wrap_err ''failed to new a state database'' (state_New v root store)"

definition DeployContract ::
  "('s, 'd) vm_api \<Rightarrow> block_ctx \<Rightarrow> transaction \<Rightarrow> 's \<Rightarrow> (address \<times> 64 word) result \<times> 's" where
  "DeployContract v ctx tx s =
     (if TxType tx \<noteq> CreateContractTxType then (Inl (Errorf ''not a create contract tx''), s)
      else (case BigToUInt256 v (Value tx) of
              Inl e \<Rightarrow> (Inl (Wrapf ''failed to convert value to uint256'' e), s)
            | Inr uValue \<Rightarrow>
              (case evm_Create v ctx (Sender tx) (Data tx) (GasLimit tx) uValue s of
                 (Inl e, s') \<Rightarrow> (Inl (Wrapf ''failed to create contract'' e), s')
               | (Inr r, s') \<Rightarrow> (Inr r, s'))))"

definition CallContract ::
  "('s, 'd) vm_api \<Rightarrow> block_ctx \<Rightarrow> transaction \<Rightarrow> 's \<Rightarrow> (bytes \<times> 64 word) result \<times> 's" where
  "CallContract v ctx tx s =
     (if TxType tx \<noteq> CallContractTxType then (Inl (Errorf ''not a call contract tx''), s)
      else (case BigToUInt256 v (Value tx) of
              Inl e \<Rightarrow> (Inl (Wrapf ''failed to convert value to uint256'' e), s)
            | Inr uValue \<Rightarrow> evm_Call v ctx (Sender tx) (Recipient tx) (Data tx) (GasLimit tx) uValue s))"

definition Executor_Commit :: "('s, 'd) vm_api \<Rightarrow> 64 word \<Rightarrow> 's \<Rightarrow> 'd \<Rightarrow> (bytes \<times> 'd) result" where
  "Executor_Commit v blockNumber s store = state_Commit v blockNumber s store"

section \<open>pkg/chain/txexecute.go\<close>

definition blockNumBias :: "64 word" where "blockNumBias = 20000000"
definition blockGasLimit :: "64 word" where "blockGasLimit = 1000000000000"

definition normalInitBalance :: "('s, 'd) vm_api \<Rightarrow> 256 word" where
  "normalInitBalance v = u_FromDecimal v NormalInitBalanceStr"

definition brokerInitBalance :: "('s, 'd) vm_api \<Rightarrow> 256 word" where
  "brokerInitBalance v = u_FromDecimal v BrokerInitBalanceStr"

definition getBlockCtxByBlock :: "block \<Rightarrow> block_ctx" where
  "getBlockCtxByBlock b =
     \<lparr>Coinbase = Miner (Header b), CtxBlockNumber = Number (Header b) + blockNumBias,
      CtxTime = BlockCreateTime (Header b), CtxGasLimit = blockGasLimit\<rparr>"

definition setInitBalanceIfNotExist :: "('s, 'd) vm_api \<Rightarrow> address list \<Rightarrow> 's \<Rightarrow> 's" where
  "setInitBalanceIfNotExist v addrs s =
     fold (\<lambda>a s. if \<not> db_Exist v s a then db_SetBalance v s a (normalInitBalance v) else s) addrs s"

definition setBrokerInitBalanceIfNotExist :: "('s, 'd) vm_api \<Rightarrow> address list \<Rightarrow> 's \<Rightarrow> 's" where
  "setBrokerInitBalanceIfNotExist v addrs s =
     fold (\<lambda>a s. if \<not> db_Exist v s a then db_SetBalance v s a (brokerInitBalance v) else s) addrs s"

definition normalTxExecute :: "('s, 'd) vm_api \<Rightarrow> transaction \<Rightarrow> 's \<Rightarrow> unit result \<times> 's" where
  "normalTxExecute v tx s =
     (case BigToUInt256 v (Value tx) of
        Inl e \<Rightarrow> (Inl (Wrapf ''convert value to uint256 failed'' e), s)
      | Inr uVal \<Rightarrow>
        (let s1 = setInitBalanceIfNotExist v [Sender tx, Recipient tx] s in
         if \<not> db_CanTransfer v s1 (Sender tx) uVal
         then (Inl (Errorf ''transfer failed: the balance is not enough''), s1)
         else let s2 = db_SubBalance v s1 (Sender tx) uVal;
                  s3 = db_AddBalance v s2 (Recipient tx) uVal
              in (Inr (), s3)))"

text \<open>\<open>addrLoc[a]\<close> of a Go map: the zero value for an absent key.\<close>

definition relayTxExecute ::
  "('s, 'd) vm_api \<Rightarrow> (address, int) gomap \<Rightarrow> int \<Rightarrow> transaction \<Rightarrow> 's \<Rightarrow> unit result \<times> 's" where
  "relayTxExecute v addrLoc shard tx s =
     (case BigToUInt256 v (Value tx) of
        Inl e \<Rightarrow> (Inl (Wrapf ''convert value to uint256 failed'' e), s)
      | Inr uVal \<Rightarrow>
        if RelayStage tx = Relay1Tx then
          (if map_get addrLoc (Sender tx) 0 \<noteq> shard then (Inr (), s)
           else let s1 = setInitBalanceIfNotExist v [Sender tx] s in
                if \<not> db_CanTransfer v s1 (Sender tx) uVal
                then (Inl (Errorf ''transfer failed: the balance is not enough''), s1)
                else (Inr (), db_SubBalance v s1 (Sender tx) uVal))
        else if RelayStage tx = Relay2Tx then
          (if map_get addrLoc (Recipient tx) 0 \<noteq> shard then (Inr (), s)
           else let s1 = setInitBalanceIfNotExist v [Recipient tx] s
                in (Inr (), db_AddBalance v s1 (Recipient tx) uVal))
        else (Inl (Errorf ''unknown relay transaction type''), s))"

definition brokerTxExecute ::
  "('s, 'd) vm_api \<Rightarrow> (address, int) gomap \<Rightarrow> int \<Rightarrow> transaction \<Rightarrow> 's \<Rightarrow> unit result \<times> 's" where
  "brokerTxExecute v addrLoc shard tx s =
     (case BigToUInt256 v (Value tx) of
        Inl e \<Rightarrow> (Inl (Wrapf ''convert value to uint256 failed'' e), s)
      | Inr uVal \<Rightarrow>
        if BrokerStage tx = Sigma1BrokerStage then
          (if map_get addrLoc (Sender tx) 0 \<noteq> shard then (Inr (), s)
           else let s1 = setInitBalanceIfNotExist v [Sender tx] s;
                    s2 = setBrokerInitBalanceIfNotExist v [Broker tx] s1
                in if \<not> db_CanTransfer v s2 (Sender tx) uVal
                   then (Inl (Errorf ''transfer failed: the balance is not enough''), s2)
                   else let s3 = db_SubBalance v s2 (Sender tx) uVal
                        in (Inr (), db_AddBalance v s3 (Broker tx) uVal))
        else if BrokerStage tx = Sigma2BrokerStage then
          (if map_get addrLoc (Recipient tx) 0 \<noteq> shard then (Inr (), s)
           else let s1 = setInitBalanceIfNotExist v [Recipient tx] s;
                    s2 = setBrokerInitBalanceIfNotExist v [Broker tx] s1;
                    s3 = db_SubBalance v s2 (Broker tx) uVal
                in (Inr (), db_AddBalance v s3 (Recipient tx) uVal))
        else (Inl (Errorf ''unknown broker transaction type''), s))"

section \<open>pkg/chain/stateio.go\<close>

definition readStateFromVMExecutor :: "('s, 'd) vm_api \<Rightarrow> address \<Rightarrow> 's \<Rightarrow> 64 word \<Rightarrow> acc_state" where
  "readStateFromVMExecutor v addr s location =
     (if \<not> db_Exist v s addr then NewState addr location
      else \<lparr>st_Address = addr, st_Nonce = db_GetNonce v s addr,
            st_Balance = uint (db_GetBalance v s addr),
            st_StorageRoot = [], st_Code = [], st_ShardLocation = location\<rparr>)"

definition setMigratedStates2VMTrie ::
  "('s, 'd) vm_api \<Rightarrow> address \<Rightarrow> acc_state \<Rightarrow> 's \<Rightarrow> unit result \<times> 's" where
  "setMigratedStates2VMTrie v addr st s =
     (case BigToUInt256 v (st_Balance st) of
        Inl e \<Rightarrow> (Inl (Wrapf ''big to string err'' e), s)
      | Inr b \<Rightarrow> (Inr (), db_SetNonce v (db_SetBalance v s addr b) addr (st_Nonce st)))"

section \<open>Lemmas\<close>

lemma statedb_okD:
  assumes "statedb_ok v"
  shows bal_Set: "db_GetBalance v (db_SetBalance v s a x) b = (if b = a then x else db_GetBalance v s b)"
    and bal_Add: "db_GetBalance v (db_AddBalance v s a x) b = (if b = a then db_GetBalance v s a + x else db_GetBalance v s b)"
    and bal_Sub: "db_GetBalance v (db_SubBalance v s a x) b = (if b = a then db_GetBalance v s a - x else db_GetBalance v s b)"
    and bal_SetNonce: "db_GetBalance v (db_SetNonce v s a n) b = db_GetBalance v s b"
    and nonce_SetNonce: "db_GetNonce v (db_SetNonce v s a n) b = (if b = a then n else db_GetNonce v s b)"
    and nonce_SetBalance: "db_GetNonce v (db_SetBalance v s a x) b = db_GetNonce v s b"
    and ex_Set: "db_Exist v (db_SetBalance v s a x) b \<longleftrightarrow> b = a \<or> db_Exist v s b"
    and ex_Add: "db_Exist v (db_AddBalance v s a x) b \<longleftrightarrow> b = a \<or> db_Exist v s b"
    and ex_Sub: "db_Exist v (db_SubBalance v s a x) b \<longleftrightarrow> b = a \<or> db_Exist v s b"
    and ex_SetNonce: "db_Exist v (db_SetNonce v s a n) b \<longleftrightarrow> b = a \<or> db_Exist v s b"
    and can_transfer: "db_CanTransfer v s a x \<longleftrightarrow> x \<le> db_GetBalance v s a"
    and from_big: "0 \<le> i \<Longrightarrow> i < 2 ^ 256 \<Longrightarrow> u_FromBig v i = (of_int i, False)"
    and from_big_overflow: "2 ^ 256 \<le> i \<Longrightarrow> snd (u_FromBig v i)"
  using assms by (simp_all add: statedb_ok_def)

lemma BigToUInt256_Inr:
  assumes "statedb_ok v"
  shows "BigToUInt256 v b = Inr u \<longleftrightarrow> 0 \<le> b \<and> b < 2 ^ 256 \<and> u = of_int b"
proof (cases "b < 2 ^ 256")
  case True
  then show ?thesis using from_big [OF assms, of b] by (auto simp: BigToUInt256_def)
next
  case False
  then show ?thesis
    using from_big_overflow [OF assms, of b] by (auto simp: BigToUInt256_def split: prod.splits)
qed

lemma BigToUInt256_uint:
  "statedb_ok v \<Longrightarrow> BigToUInt256 v b = Inr u \<Longrightarrow> uint u = b"
  by (simp add: BigToUInt256_Inr uint_word_of_int_eq take_bit_int_eq_self)

section \<open>Effective balances\<close>

definition eff :: "('s, 'd) vm_api \<Rightarrow> 's \<Rightarrow> address \<Rightarrow> int" where
  "eff v s a = (if db_Exist v s a then uint (db_GetBalance v s a) else uint (normalInitBalance v))"

definition total :: "('s, 'd) vm_api \<Rightarrow> address set \<Rightarrow> 's \<Rightarrow> int" where
  "total v A s = (\<Sum>a\<in>A. eff v s a)"

lemma brokerInit_eq: "brokerInitBalance v = normalInitBalance v"
  by (simp add: brokerInitBalance_def normalInitBalance_def BrokerInitBalanceStr_def NormalInitBalanceStr_def)

lemma setBroker_eq: "setBrokerInitBalanceIfNotExist v addrs s = setInitBalanceIfNotExist v addrs s"
  unfolding setBrokerInitBalanceIfNotExist_def setInitBalanceIfNotExist_def brokerInit_eq ..

lemma setInit_exist:
  "statedb_ok v \<Longrightarrow> db_Exist v (setInitBalanceIfNotExist v addrs s) a \<longleftrightarrow> a \<in> set addrs \<or> db_Exist v s a"
  by (induction addrs arbitrary: s) (auto simp: setInitBalanceIfNotExist_def ex_Set)

lemma setInit_eff:
  "statedb_ok v \<Longrightarrow> eff v (setInitBalanceIfNotExist v addrs s) a = eff v s a"
  by (induction addrs arbitrary: s) (auto simp: setInitBalanceIfNotExist_def eff_def ex_Set bal_Set)

lemma eff_Sub:
  assumes "statedb_ok v" "db_Exist v s a" "x \<le> db_GetBalance v s a"
  shows "eff v (db_SubBalance v s a x) b = eff v s b - (if b = a then uint x else 0)"
proof -
  have "uint (db_GetBalance v s a - x) = uint (db_GetBalance v s a) - uint x"
    using assms(3) by (simp add: uint_minus_simple_alt word_le_def)
  with assms show ?thesis by (auto simp: eff_def ex_Sub bal_Sub)
qed

lemma eff_Add:
  assumes "statedb_ok v" "db_Exist v s a" "eff v s a + uint x < 2 ^ 256"
  shows "eff v (db_AddBalance v s a x) b = eff v s b + (if b = a then uint x else 0)"
proof -
  have "uint (db_GetBalance v s a + x) = uint (db_GetBalance v s a) + uint x"
    using assms uint_add_lem [of "db_GetBalance v s a" x] by (simp add: eff_def)
  with assms show ?thesis by (auto simp: eff_def ex_Add bal_Add)
qed

lemma eff_transfer:
  assumes ok: "statedb_ok v" and ex: "db_Exist v s a" "db_Exist v s b" and le: "x \<le> db_GetBalance v s a"
    and room: "a \<noteq> b \<Longrightarrow> eff v s b + uint x < 2 ^ 256"
  shows "eff v (db_AddBalance v (db_SubBalance v s a x) b x) c =
    eff v s c - (if c = a then uint x else 0) + (if c = b then uint x else 0)"
proof -
  let ?s1 = "db_SubBalance v s a x"
  have "eff v ?s1 b + uint x < 2 ^ 256"
    using room uint_lt2p [of "db_GetBalance v s a"] ex eff_Sub [OF ok ex(1) le, of b]
    by (cases "a = b") (simp_all add: eff_def [of v s])
  with ex show ?thesis
    by (simp add: eff_Add [OF ok] ex_Sub [OF ok] eff_Sub [OF ok ex(1) le])
qed

lemma total_shift:
  assumes "finite A" "\<And>c. eff v s' c = eff v s c - (if c = a then x else 0) + (if c = b then x else 0)"
  shows "total v A s' = total v A s - (if a \<in> A then x else 0) + (if b \<in> A then x else 0)"
  using assms by (simp add: total_def sum.distrib sum_subtractf)

text \<open>A transfer between accounts of one shard, as the normal, sigma-1 and sigma-2 branches do it.\<close>

lemma normalTxExecute_Inr:
  assumes ok: "statedb_ok v" and run: "normalTxExecute v tx s = (Inr (), s')"
  shows "\<exists>u s1. BigToUInt256 v (Value tx) = Inr u \<and> s1 = setInitBalanceIfNotExist v [Sender tx, Recipient tx] s \<and>
    db_Exist v s1 (Sender tx) \<and> db_Exist v s1 (Recipient tx) \<and> u \<le> db_GetBalance v s1 (Sender tx) \<and>
    s' = db_AddBalance v (db_SubBalance v s1 (Sender tx) u) (Recipient tx) u"
  using run
  by (auto simp: normalTxExecute_def Let_def can_transfer [OF ok] setInit_exist [OF ok] split: sum.splits if_splits)

lemma normalTxExecute_covered:
  assumes ok: "statedb_ok v" and run: "normalTxExecute v tx s = (Inr (), s')"
  shows "0 \<le> Value tx \<and> Value tx \<le> eff v s (Sender tx)"
proof -
  obtain u s1 where u: "BigToUInt256 v (Value tx) = Inr u" and s1: "s1 = setInitBalanceIfNotExist v [Sender tx, Recipient tx] s"
    and ex: "db_Exist v s1 (Sender tx)" and le: "u \<le> db_GetBalance v s1 (Sender tx)"
    using normalTxExecute_Inr [OF ok run] by blast
  have "eff v s (Sender tx) = eff v s1 (Sender tx)" unfolding s1 by (rule setInit_eff [OF ok, symmetric])
  with ex le show ?thesis by (simp add: eff_def word_le_def flip: BigToUInt256_uint [OF ok u])
qed

lemma normalTxExecute_eff:
  assumes ok: "statedb_ok v" and run: "normalTxExecute v tx s = (Inr (), s')"
    and room: "Sender tx \<noteq> Recipient tx \<Longrightarrow> eff v s (Recipient tx) + Value tx < 2 ^ 256"
  shows "eff v s' c = eff v s c - (if c = Sender tx then Value tx else 0) + (if c = Recipient tx then Value tx else 0)"
proof -
  obtain u s1 where u: "BigToUInt256 v (Value tx) = Inr u" and s1: "s1 = setInitBalanceIfNotExist v [Sender tx, Recipient tx] s"
    and ex: "db_Exist v s1 (Sender tx)" "db_Exist v s1 (Recipient tx)" and le: "u \<le> db_GetBalance v s1 (Sender tx)"
    and s': "s' = db_AddBalance v (db_SubBalance v s1 (Sender tx) u) (Recipient tx) u"
    using normalTxExecute_Inr [OF ok run] by blast
  have same: "eff v s1 x = eff v s x" for x unfolding s1 by (rule setInit_eff [OF ok])
  show ?thesis
    using eff_transfer [OF ok ex le, of c] room by (simp add: s' same BigToUInt256_uint [OF ok u])
qed

lemma relay1_eff:
  assumes ok: "statedb_ok v" and run: "relayTxExecute v loc shard tx s = (Inr (), s')"
    and stage: "RelayStage tx = Relay1Tx" "map_get loc (Sender tx) 0 = shard"
  shows "eff v s' c = eff v s c - (if c = Sender tx then Value tx else 0)"
    and "0 \<le> Value tx \<and> Value tx \<le> eff v s (Sender tx)"
proof -
  obtain u where u: "BigToUInt256 v (Value tx) = Inr u"
    using run by (auto simp: relayTxExecute_def split: sum.splits)
  note uv = BigToUInt256_uint [OF ok u]
  let ?s1 = "setInitBalanceIfNotExist v [Sender tx] s"
  have ex: "db_Exist v ?s1 (Sender tx)" by (simp add: setInit_exist [OF ok])
  have le: "u \<le> db_GetBalance v ?s1 (Sender tx)" and s': "s' = db_SubBalance v ?s1 (Sender tx) u"
    using run u stage by (auto simp: relayTxExecute_def Let_def can_transfer [OF ok] split: if_splits)
  show "eff v s' c = eff v s c - (if c = Sender tx then Value tx else 0)"
    by (simp add: s' eff_Sub [OF ok ex le] setInit_eff [OF ok] uv)
  show "0 \<le> Value tx \<and> Value tx \<le> eff v s (Sender tx)"
    using le ex setInit_eff [OF ok, of "[Sender tx]" s "Sender tx"]
    by (simp add: eff_def word_le_def flip: uv)
qed

lemma relay2_eff:
  assumes ok: "statedb_ok v" and run: "relayTxExecute v loc shard tx s = (Inr (), s')"
    and stage: "RelayStage tx = Relay2Tx" "map_get loc (Recipient tx) 0 = shard"
    and room: "eff v s (Recipient tx) + Value tx < 2 ^ 256"
  shows "eff v s' c = eff v s c + (if c = Recipient tx then Value tx else 0)"
proof -
  obtain u where u: "BigToUInt256 v (Value tx) = Inr u"
    using run by (auto simp: relayTxExecute_def split: sum.splits)
  note uv = BigToUInt256_uint [OF ok u]
  let ?s1 = "setInitBalanceIfNotExist v [Recipient tx] s"
  have ex: "db_Exist v ?s1 (Recipient tx)" by (simp add: setInit_exist [OF ok])
  have s': "s' = db_AddBalance v ?s1 (Recipient tx) u"
    using run u stage by (auto simp: relayTxExecute_def Let_def)
  show ?thesis
    using room by (simp add: s' eff_Add [OF ok ex] setInit_eff [OF ok] uv)
qed

lemma broker1_eff:
  assumes ok: "statedb_ok v" and run: "brokerTxExecute v loc shard tx s = (Inr (), s')"
    and stage: "BrokerStage tx = Sigma1BrokerStage" "map_get loc (Sender tx) 0 = shard"
    and room: "Sender tx \<noteq> Broker tx \<Longrightarrow> eff v s (Broker tx) + Value tx < 2 ^ 256"
  shows "eff v s' c = eff v s c - (if c = Sender tx then Value tx else 0) + (if c = Broker tx then Value tx else 0)"
proof -
  obtain u where u: "BigToUInt256 v (Value tx) = Inr u"
    using run by (auto simp: brokerTxExecute_def split: sum.splits)
  note uv = BigToUInt256_uint [OF ok u]
  let ?s1 = "setInitBalanceIfNotExist v [Broker tx] (setInitBalanceIfNotExist v [Sender tx] s)"
  have ex: "db_Exist v ?s1 (Sender tx)" "db_Exist v ?s1 (Broker tx)"
    by (simp_all add: setInit_exist [OF ok])
  have le: "u \<le> db_GetBalance v ?s1 (Sender tx)" and s': "s' = db_AddBalance v (db_SubBalance v ?s1 (Sender tx) u) (Broker tx) u"
    using run u stage by (auto simp: brokerTxExecute_def Let_def setBroker_eq can_transfer [OF ok] split: if_splits)
  show ?thesis
    using eff_transfer [OF ok ex le, of c] room by (simp add: s' setInit_eff [OF ok] uv)
qed

text \<open>
  The sigma-2 branch has no \<open>CanTransfer\<close> test on the broker: the transfer is exact only when the
  broker's balance covers the value.
\<close>

lemma broker2_eff:
  assumes ok: "statedb_ok v" and run: "brokerTxExecute v loc shard tx s = (Inr (), s')"
    and stage: "BrokerStage tx = Sigma2BrokerStage" "map_get loc (Recipient tx) 0 = shard"
    and cover: "Value tx \<le> eff v s (Broker tx)"
    and room: "Broker tx \<noteq> Recipient tx \<Longrightarrow> eff v s (Recipient tx) + Value tx < 2 ^ 256"
  shows "eff v s' c = eff v s c - (if c = Broker tx then Value tx else 0) + (if c = Recipient tx then Value tx else 0)"
proof -
  obtain u where u: "BigToUInt256 v (Value tx) = Inr u"
    using run by (auto simp: brokerTxExecute_def split: sum.splits)
  note uv = BigToUInt256_uint [OF ok u]
  let ?s1 = "setInitBalanceIfNotExist v [Broker tx] (setInitBalanceIfNotExist v [Recipient tx] s)"
  have ex: "db_Exist v ?s1 (Broker tx)" "db_Exist v ?s1 (Recipient tx)"
    by (simp_all add: setInit_exist [OF ok])
  have "eff v ?s1 (Broker tx) = eff v s (Broker tx)" by (simp add: setInit_eff [OF ok])
  then have le: "u \<le> db_GetBalance v ?s1 (Broker tx)"
    using cover ex(1) by (simp add: eff_def word_le_def uv)
  have s': "s' = db_AddBalance v (db_SubBalance v ?s1 (Broker tx) u) (Recipient tx) u"
    using run u stage by (auto simp: brokerTxExecute_def Let_def setBroker_eq)
  show ?thesis
    using eff_transfer [OF ok ex le, of c] room by (simp add: s' setInit_eff [OF ok] uv)
qed

section \<open>Migrated states\<close>

text \<open>A state written by one shard is what the next read returns.\<close>

lemma migrated_state_roundtrip:
  assumes ok: "statedb_ok v" and "0 \<le> st_Balance st" "st_Balance st < 2 ^ 256"
    and "setMigratedStates2VMTrie v a st s = (Inr (), s')"
  shows "readStateFromVMExecutor v a s' loc =
    \<lparr>st_Address = a, st_Nonce = st_Nonce st, st_Balance = st_Balance st, st_StorageRoot = [], st_Code = [],
     st_ShardLocation = loc\<rparr>"
proof -
  obtain u where u: "BigToUInt256 v (st_Balance st) = Inr u"
    using assms(4) by (auto simp: setMigratedStates2VMTrie_def split: sum.splits)
  note uv = BigToUInt256_uint [OF ok u]
  have "s' = db_SetNonce v (db_SetBalance v s a u) a (st_Nonce st)"
    using assms(4) u by (simp add: setMigratedStates2VMTrie_def)
  then show ?thesis
    by (simp add: readStateFromVMExecutor_def ex_SetNonce [OF ok] nonce_SetNonce [OF ok]
      bal_SetNonce [OF ok] bal_Set [OF ok] uv)
qed

end
