(* ===== verification/Paths.thy ===== *)
theory Paths
  imports Core_Types
begin

text \<open>
  Decimal printing (\<open>%d\<close>) and the parts of \<open>path/filepath\<close> that the source uses on Unix: \<open>Clean\<close>, \<open>Join\<close> and
  \<open>Dir\<close>. The lemmas show that printing an integer and parsing it again gives the integer, that cleaning a path twice is
  cleaning it once, and that the files of two different nodes never have the same path.
\<close>

section \<open>Decimal printing\<close>

fun dec_nat :: "nat \<Rightarrow> string" where
  "dec_nat n = (if n < 10 then [char_of (48 + n)] else dec_nat (n div 10) @ [char_of (48 + n mod 10)])"

declare dec_nat.simps [simp del]

definition Sprintf_d :: "int \<Rightarrow> string" where
  "Sprintf_d i = (if i < 0 then CHR ''-'' # dec_nat (nat (- i)) else dec_nat (nat i))"

lemma dec_digit_char: "d < 10 \<Longrightarrow> dec_digit (char_of (48 + d)) = Some d"
  by (simp add: dec_digit_def of_char_of take_bit_nat_eq_self)

lemma dec_digits_append:
  "dec_digits acc (xs @ ys) = (case dec_digits acc xs of None \<Rightarrow> None | Some a \<Rightarrow> dec_digits a ys)"
  by (induction xs arbitrary: acc) (auto split: option.splits)

lemma dec_digits_nat: "dec_digits 0 (dec_nat n) = Some (int n)"
proof (induction n rule: dec_nat.induct)
  case (1 n)
  show ?case
  proof (cases "n < 10")
    case True
    then show ?thesis using dec_digit_char [of n] by (simp add: dec_nat.simps [of n])
  next
    case False
    then have "dec_digits 0 (dec_nat n) = Some (int (n div 10) * 10 + int (n mod 10))"
      using 1 dec_digit_char [of "n mod 10"] by (simp add: dec_nat.simps [of n] dec_digits_append)
    moreover have "int (n div 10) * 10 + int (n mod 10) = int n" by presburger
    ultimately show ?thesis by simp
  qed
qed

lemma dec_digit_sign: "dec_digit c = Some d \<Longrightarrow> c \<noteq> CHR ''-'' \<and> c \<noteq> CHR ''+''"
  by (auto simp: dec_digit_def)

lemma dec_nat_hd: "\<exists>c cs. dec_nat n = c # cs \<and> c \<noteq> CHR ''-'' \<and> c \<noteq> CHR ''+''"
proof (induction n rule: dec_nat.induct)
  case (1 n)
  show ?case
  proof (cases "n < 10")
    case True
    have d: "dec_digit (char_of (48 + n)) = Some n" using True by (rule dec_digit_char)
    then show ?thesis using True dec_digit_sign [OF d] by (simp add: dec_nat.simps [of n])
  next
    case False
    then show ?thesis using 1 by (auto simp: dec_nat.simps [of n])
  qed
qed

lemma big_SetString_Sprintf: "big_SetString (Sprintf_d i) = Some i"
proof -
  obtain c cs where c: "dec_nat (nat \<bar>i\<bar>) = c # cs" "c \<noteq> CHR ''-''" "c \<noteq> CHR ''+''"
    using dec_nat_hd by blast
  have d: "dec_digits 0 (c # cs) = Some \<bar>i\<bar>" using dec_digits_nat [of "nat \<bar>i\<bar>"] c by simp
  show ?thesis
  proof (cases "i < 0")
    case True
    then have "Sprintf_d i = CHR ''-'' # c # cs" using c by (simp add: Sprintf_d_def)
    with d True show ?thesis by (simp add: big_SetString_def del: dec_digits.simps)
  next
    case False
    then have "Sprintf_d i = c # cs" using c by (simp add: Sprintf_d_def)
    with d c False show ?thesis by (simp add: big_SetString_def del: dec_digits.simps)
  qed
qed

section \<open>File paths\<close>

definition string_bytes :: "string \<Rightarrow> bytes" where "string_bytes = map of_char"

fun split_slash :: "string \<Rightarrow> string list" where
  "split_slash [] = [[]]"
| "split_slash (c # cs) =
     (if c = CHR ''/'' then [] # split_slash cs
      else (case split_slash cs of [] \<Rightarrow> [[c]] | x # xs \<Rightarrow> (c # x) # xs))"

fun join_slash :: "string list \<Rightarrow> string" where
  "join_slash [] = []"
| "join_slash [x] = x"
| "join_slash (x # xs) = x @ CHR ''/'' # join_slash xs"

text \<open>
  \<open>Clean\<close> drops empty elements and \<open>.\<close>, and lets \<open>..\<close> remove the element before it; at the root \<open>..\<close> is dropped,
  elsewhere it is kept. The elements found so far are kept in reverse order.
\<close>

definition clean_step :: "bool \<Rightarrow> string \<Rightarrow> string list \<Rightarrow> string list" where
  "clean_step rooted x st =
     (if x = [] \<or> x = ''.'' then st
      else if x = ''..'' then
        (case st of [] \<Rightarrow> if rooted then [] else [''..'']
         | y # ys \<Rightarrow> if y = ''..'' then ''..'' # st else ys)
      else x # st)"

definition path_rooted :: "string \<Rightarrow> bool" where
  "path_rooted p \<longleftrightarrow> (case p of [] \<Rightarrow> False | c # _ \<Rightarrow> c = CHR ''/'')"

definition clean_elems :: "string \<Rightarrow> string list" where
  "clean_elems p = rev (fold (clean_step (path_rooted p)) (split_slash p) [])"

definition path_Clean :: "string \<Rightarrow> string" where
  "path_Clean p =
     (let q = (if path_rooted p then ''/'' else []) @ join_slash (clean_elems p) in if q = [] then ''.'' else q)"

text \<open>\<open>Join\<close> of two elements: empty ones are ignored, and joining nothing gives the empty string.\<close>

definition path_Join :: "string \<Rightarrow> string \<Rightarrow> string" where
  "path_Join d f =
     (if d = [] \<and> f = [] then []
      else path_Clean (if d = [] then f else if f = [] then d else d @ CHR ''/'' # f))"

definition path_Dir :: "string \<Rightarrow> string" where
  "path_Dir p = path_Clean (rev (dropWhile (\<lambda>c. c \<noteq> CHR ''/'') (rev p)))"

section \<open>Lemmas\<close>

lemma Sprintf_d_inject: "Sprintf_d i = Sprintf_d j \<longleftrightarrow> i = j"
  by (metis big_SetString_Sprintf option.inject)

lemma split_slash_nonempty [simp]: "split_slash s \<noteq> []"
  by (induction s) (auto split: list.splits)

lemma split_slash_append: "split_slash (s @ CHR ''/'' # t) = split_slash s @ split_slash t"
  by (induction s) (auto split: list.splits)

lemma split_slash_plain: "CHR ''/'' \<notin> set s \<Longrightarrow> split_slash s = [s]"
  by (induction s) auto

lemma split_slash_elems: "x \<in> set (split_slash s) \<Longrightarrow> CHR ''/'' \<notin> set x"
  by (induction s arbitrary: x) (auto split: list.splits if_splits)

lemma split_join: "xs \<noteq> [] \<Longrightarrow> \<forall>x \<in> set xs. CHR ''/'' \<notin> set x \<Longrightarrow> split_slash (join_slash xs) = xs"
  by (induction xs rule: join_slash.induct) (simp_all add: split_slash_plain split_slash_append)

text \<open>Elements without special meaning are kept by \<open>Clean\<close>.\<close>

definition plain_elem :: "string \<Rightarrow> bool" where
  "plain_elem x \<longleftrightarrow> x \<noteq> [] \<and> x \<noteq> ''.'' \<and> x \<noteq> ''..'' \<and> CHR ''/'' \<notin> set x"

lemma clean_step_plain [simp]: "plain_elem x \<Longrightarrow> clean_step r x st = x # st"
  by (simp add: clean_step_def plain_elem_def)

lemma fold_clean_plain: "\<forall>x \<in> set xs. plain_elem x \<Longrightarrow> fold (clean_step r) xs st = rev xs @ st"
  by (induction xs arbitrary: st) simp_all

lemma join_split: "join_slash (split_slash s) = s"
proof (induction s)
  case (Cons c s)
  obtain x xs where x: "split_slash s = x # xs" using split_slash_nonempty by (meson neq_Nil_conv)
  with Cons show ?case by (cases xs) auto
qed simp

lemma clean_step_elems: "set (clean_step r x st) \<subseteq> insert ''..'' (insert x (set st))"
  by (auto simp: clean_step_def split: list.splits if_splits)

lemma fold_clean_elems: "set (fold (clean_step r) xs st) \<subseteq> insert ''..'' (set xs \<union> set st)"
proof (induction xs arbitrary: st)
  case (Cons x xs)
  then show ?case using clean_step_elems [of r x st] by fastforce
qed auto

lemma clean_elems_plain: "x \<in> set (clean_elems p) \<Longrightarrow> CHR ''/'' \<notin> set x"
  using fold_clean_elems [of "path_rooted p" "split_slash p" "[]"]
  by (auto simp: clean_elems_def dest: split_slash_elems)

text \<open>A relative or rooted path of plain elements only.\<close>

definition plain_path :: "string \<Rightarrow> string list \<Rightarrow> bool" where
  "plain_path f es \<longleftrightarrow> es \<noteq> [] \<and> (\<forall>e \<in> set es. plain_elem e) \<and> split_slash f = (if path_rooted f then [[]] else []) @ es"

lemma plain_path_eq: "plain_path f es \<Longrightarrow> plain_path g es \<Longrightarrow> path_rooted f = path_rooted g \<Longrightarrow> f = g"
  by (metis plain_path_def join_split)

lemma clean_elems_Join:
  assumes f: "plain_path f es"
  shows "path_Join d f = path_Clean (if d = [] then f else d @ CHR ''/'' # f)"
    "clean_elems (if d = [] then f else d @ CHR ''/'' # f) = (if d = [] then [] else clean_elems d) @ es"
proof -
  have "f \<noteq> []"
  proof
    assume "f = []"
    with f have "es = [[]]" "\<forall>e \<in> set es. plain_elem e" by (simp_all add: plain_path_def path_rooted_def)
    then show False by (simp add: plain_elem_def)
  qed
  then show "path_Join d f = path_Clean (if d = [] then f else d @ CHR ''/'' # f)" by (simp add: path_Join_def)
  have empty: "clean_step r [] st = st" for r st by (simp add: clean_step_def)
  have fold: "fold (clean_step r) (split_slash f) st = rev es @ st" for r st
    using f by (auto simp: plain_path_def fold_clean_plain empty)
  have "path_rooted (d @ CHR ''/'' # f) = path_rooted d" if "d \<noteq> []" using that by (cases d) (simp_all add: path_rooted_def)
  then show "clean_elems (if d = [] then f else d @ CHR ''/'' # f) = (if d = [] then [] else clean_elems d) @ es"
    by (simp add: clean_elems_def split_slash_append fold)
qed

lemma path_Clean_elems:
  assumes "clean_elems p = xs @ es" "es \<noteq> []" "\<forall>e \<in> set es. plain_elem e"
  shows "path_Clean p = (if path_rooted p then ''/'' else []) @ join_slash (xs @ es)" "split_slash (join_slash (xs @ es)) = xs @ es"
proof -
  show s: "split_slash (join_slash (xs @ es)) = xs @ es"
  proof (rule split_join)
    show "\<forall>x \<in> set (xs @ es). CHR ''/'' \<notin> set x" by (intro ballI clean_elems_plain [of _ p]) (simp add: assms(1))
  qed (simp add: assms(2))
  have "join_slash (xs @ es) \<noteq> []"
  proof
    assume "join_slash (xs @ es) = []"
    then have "xs @ es = [[]]" using s by simp
    then show False using assms(2,3) by (auto simp: append_eq_Cons_conv plain_elem_def)
  qed
  then show "path_Clean p = (if path_rooted p then ''/'' else []) @ join_slash (xs @ es)"
    by (simp add: path_Clean_def assms(1) Let_def)
qed

text \<open>In one directory, different plain paths stay different.\<close>

lemma path_Join_inject:
  assumes f: "plain_path f es" and g: "plain_path g es'" and r: "path_rooted f = path_rooted g"
    and eq: "path_Join d f = path_Join d g"
  shows "f = g"
proof -
  let ?p = "\<lambda>f. if d = [] then f else d @ CHR ''/'' # f" and ?b = "if d = [] then [] else clean_elems d"
  have pr: "path_rooted (?p f) = path_rooted (?p g)" using r by (cases d) (simp_all add: path_rooted_def)
  note cf = path_Clean_elems [OF clean_elems_Join(2) [OF f, of d]] and cg = path_Clean_elems [OF clean_elems_Join(2) [OF g, of d]]
  have pf: "es \<noteq> []" "\<forall>e \<in> set es. plain_elem e" "es' \<noteq> []" "\<forall>e \<in> set es'. plain_elem e"
    using f g by (simp_all add: plain_path_def)
  have "path_Clean (?p f) = path_Clean (?p g)" using eq clean_elems_Join(1) [OF f] clean_elems_Join(1) [OF g] by simp
  then have "join_slash (?b @ es) = join_slash (?b @ es')"
    unfolding cf(1) [OF pf(1,2)] cg(1) [OF pf(3,4)] pr by simp
  then have "?b @ es = ?b @ es'" using cf(2) [OF pf(1,2)] cg(2) [OF pf(3,4)] by metis
  then show ?thesis using plain_path_eq [OF f _ r] g by simp
qed

lemma append_mark_inject:
  "c \<notin> set a \<Longrightarrow> c \<notin> set b \<Longrightarrow> a @ c # x = b @ c # y \<longleftrightarrow> a = b \<and> x = y"
proof (induction a arbitrary: b)
  case Nil
  then show ?case by (cases b) auto
next
  case (Cons a1 a2)
  then show ?case by (cases b) auto
qed

lemma dec_nat_chars: "c \<in> set (dec_nat n) \<Longrightarrow> dec_digit c \<noteq> None"
proof (induction n rule: dec_nat.induct)
  case (1 n)
  show ?case
  proof (cases "n < 10")
    case True
    then show ?thesis using 1(2) dec_digit_char [of n] by (simp add: dec_nat.simps [of n])
  next
    case False
    then show ?thesis using 1 dec_digit_char [of "n mod 10"] by (auto simp: dec_nat.simps [of n])
  qed
qed

lemma Sprintf_d_chars: "c \<in> set (Sprintf_d i) \<Longrightarrow> c \<noteq> CHR ''/'' \<and> c \<noteq> CHR ''_''"
  using dec_nat_chars [of c] by (auto simp: Sprintf_d_def dec_digit_def split: if_splits)

text \<open>The names in which the shard and the node are printed around an underscore.\<close>

lemma node_name_inject:
  "pre @ Sprintf_d s @ CHR ''_'' # mid @ Sprintf_d n @ post = pre @ Sprintf_d s' @ CHR ''_'' # mid @ Sprintf_d n' @ post \<longleftrightarrow>
   s = s' \<and> n = n'"
proof -
  have no: "CHR ''_'' \<notin> set (Sprintf_d i)" for i using Sprintf_d_chars by blast
  show ?thesis by (simp add: append_mark_inject [OF no no] Sprintf_d_inject)
qed

end
