(* ===== verification/Storage.thy ===== *)
theory Storage
  imports Config Paths
begin

text \<open>
  \<open>pkg/storage/block/blot_db.go\<close> (the block store on bbolt) and \<open>pkg/storage/trie/eth_db.go\<close> (the
  location trie on geth's trie database). bbolt and geth's trie are the method tables
  \<open>bolt_api\<close> and \<open>trie_api\<close> that a store carries with it; \<open>bolt_ok\<close> and \<open>trie_ok\<close> state their
  documented behaviour. The interfaces \<open>block.Store\<close> and \<open>trie.Store\<close> are locales, interpreted on
  the two stores: a block that has been added is found again with its header and is the newest,
  a failed addition changes nothing, and a preview computes the root that a commit produces.
\<close>

section \<open>The block store\<close>

abbreviation (input) "bucketBlock \<equiv> ''block''"
abbreviation (input) "bucketBlockHeader \<equiv> ''block_header''"
abbreviation (input) "bucketNewestBlock \<equiv> ''newest_block''"

text \<open>The bytes of the string \<open>newest_block\<close>.\<close>

definition newestBlockKey :: bytes where
  "newestBlockKey = map (\<lambda>c. of_nat (of_char c)) ''newest_block''"

record 'db bolt_api =
  bk_Exists :: "'db \<Rightarrow> string \<Rightarrow> bool"
  bk_Create :: "'db \<Rightarrow> string \<Rightarrow> 'db result"
  bk_Put :: "'db \<Rightarrow> string \<Rightarrow> bytes \<Rightarrow> bytes \<Rightarrow> 'db result"
  bk_Get :: "'db \<Rightarrow> string \<Rightarrow> bytes \<Rightarrow> bytes option"
  bk_Commit :: "'db \<Rightarrow> 'db result"

definition bolt_ok :: "'db bolt_api \<Rightarrow> bool" where
  "bolt_ok a \<longleftrightarrow>
     (\<forall>db db' b k v b' k'. bk_Put a db b k v = Inr db' \<longrightarrow>
        bk_Get a db' b' k' = (if b' = b \<and> k' = k then Some v else bk_Get a db b' k')) \<and>
     (\<forall>db db' b k v b'. bk_Put a db b k v = Inr db' \<longrightarrow> bk_Exists a db' b' = bk_Exists a db b') \<and>
     (\<forall>db db' b b'. bk_Create a db b = Inr db' \<longrightarrow> bk_Exists a db' b' = (b' = b \<or> bk_Exists a db b')) \<and>
     (\<forall>db db'. bk_Commit a db = Inr db' \<longrightarrow> bk_Get a db' = bk_Get a db \<and> bk_Exists a db' = bk_Exists a db)"

record 'db bolt_store =
  bolt :: "'db bolt_api"
  bdb :: 'db

text \<open>\<open>db.Update\<close>: the closure runs on a transaction, which is rolled back on an error.\<close>

definition bolt_Update :: "('db \<Rightarrow> 'db result) \<Rightarrow> 'db bolt_store \<Rightarrow> unit result \<times> 'db bolt_store" where
  "bolt_Update fn b =
     (case fn (bdb b) of Inl e \<Rightarrow> (Inl e, b)
      | Inr db1 \<Rightarrow>
        (case bk_Commit (bolt b) db1 of Inl e \<Rightarrow> (Inl e, b)
         | Inr db2 \<Rightarrow> (Inr (), b\<lparr>bdb := db2\<rparr>)))"

definition put_in :: "'db bolt_api \<Rightarrow> string \<Rightarrow> bytes \<Rightarrow> bytes \<Rightarrow> 'db \<Rightarrow> 'db result" where
  "put_in a bucket k v db =
     (if \<not> bk_Exists a db bucket then Inl (Errorf (''fetch bucket failed: '' @ bucket))
      else wrap_err (''put err: '' @ bucket) (bk_Put a db bucket k v))"

definition get_in :: "'db bolt_store \<Rightarrow> string \<Rightarrow> bytes \<Rightarrow> bytes result" where
  "get_in b bucket k =
     (if \<not> bk_Exists (bolt b) (bdb b) bucket then Inl (Errorf (''fetch bucket failed: '' @ bucket))
      else (case bk_Get (bolt b) (bdb b) bucket k of
              None \<Rightarrow> Inl (Errorf (''get failed: '' @ bucket)) | Some v \<Rightarrow> Inr v))"

text \<open>
  \<open>NewBoltStore\<close> with the answers of \<open>os.MkdirAll\<close> and \<open>bbolt.Open\<close> for a path.
\<close>

definition boltDBFilePath :: "local_params \<Rightarrow> string" where
  "boltDBFilePath l = ''/shard_'' @ Sprintf_d (lp_ShardID l) @ ''_node_'' @ Sprintf_d (lp_NodeID l) @ ''/block.db''"

definition init_buckets :: "'db bolt_api \<Rightarrow> 'db \<Rightarrow> 'db result" where
  "init_buckets a db =
     (case bk_Create a db bucketBlock of Inl e \<Rightarrow> Inl (Wrapf ''create bucket'' e)
      | Inr d1 \<Rightarrow>
        (case bk_Create a d1 bucketBlockHeader of Inl e \<Rightarrow> Inl (Wrapf ''create bucket'' e)
         | Inr d2 \<Rightarrow> wrap_err ''create bucket'' (bk_Create a d2 bucketNewestBlock)))"

definition NewBoltStore ::
  "'db bolt_api \<Rightarrow> (string \<Rightarrow> unit result) \<Rightarrow> (string \<Rightarrow> 'db result) \<Rightarrow> storage_cfg \<Rightarrow> local_params \<Rightarrow> 'db bolt_store result" where
  "NewBoltStore a mkdirAll bbolt_Open cfg l =
     (let fp = path_Join (BoltFilePathDir cfg) (boltDBFilePath l) in
      case mkdirAll (path_Dir fp) of Inl e \<Rightarrow> Inl (Wrapf ''create bolt db dir'' e)
      | Inr _ \<Rightarrow>
        (case bbolt_Open fp of Inl e \<Rightarrow> Inl (Wrapf ''open bolt db err'' e)
         | Inr db \<Rightarrow>
           (case bolt_Update (init_buckets a) \<lparr>bolt = a, bdb = db\<rparr> of
              (Inl e, _) \<Rightarrow> Inl (Wrapf ''init db bucket err'' e)
            | (Inr _, b) \<Rightarrow> Inr b)))"

definition UpdateNewestBlockHash :: "bytes \<Rightarrow> 'db bolt_store \<Rightarrow> unit result \<times> 'db bolt_store" where
  "UpdateNewestBlockHash h b = bolt_Update (put_in (bolt b) bucketNewestBlock newestBlockKey h) b"

definition GetNewestBlockHash :: "'db bolt_store \<Rightarrow> bytes result" where
  "GetNewestBlockHash b = get_in b bucketNewestBlock newestBlockKey"

definition AddBlockHeader :: "bytes \<Rightarrow> bytes \<Rightarrow> 'db bolt_store \<Rightarrow> unit result \<times> 'db bolt_store" where
  "AddBlockHeader h hdr b =
     bolt_Update (\<lambda>db.
       case put_in (bolt b) bucketBlockHeader h hdr db of Inl e \<Rightarrow> Inl e
       | Inr d1 \<Rightarrow> put_in (bolt b) bucketNewestBlock newestBlockKey h d1) b"

definition GetBlockHeaderByHash :: "'db bolt_store \<Rightarrow> bytes \<Rightarrow> bytes result" where
  "GetBlockHeaderByHash b h = get_in b bucketBlockHeader h"

definition Store_AddBlock ::
  "bytes \<Rightarrow> bytes \<Rightarrow> bytes \<Rightarrow> 'db bolt_store \<Rightarrow> unit result \<times> 'db bolt_store" where
  "Store_AddBlock h blk hdr b =
     bolt_Update (\<lambda>db.
       case put_in (bolt b) bucketBlock h blk db of Inl e \<Rightarrow> Inl e
       | Inr d1 \<Rightarrow>
         (case put_in (bolt b) bucketBlockHeader h hdr d1 of Inl e \<Rightarrow> Inl e
          | Inr d2 \<Rightarrow> put_in (bolt b) bucketNewestBlock newestBlockKey h d2)) b"

definition GetBlockByHash :: "'db bolt_store \<Rightarrow> bytes \<Rightarrow> bytes result" where
  "GetBlockByHash b h = get_in b bucketBlock h"

definition bolt_wf :: "'db bolt_store \<Rightarrow> bool" where
  "bolt_wf b \<longleftrightarrow> bolt_ok (bolt b) \<and>
     (\<forall>k\<in>{bucketBlock, bucketBlockHeader, bucketNewestBlock}. bk_Exists (bolt b) (bdb b) k)"

lemma bolt_okD:
  assumes "bolt_ok a"
  shows bk_Get_Put: "bk_Put a db b k v = Inr db' \<Longrightarrow>
      bk_Get a db' b' k' = (if b' = b \<and> k' = k then Some v else bk_Get a db b' k')"
    and bk_Exists_Put: "bk_Put a db b k v = Inr db' \<Longrightarrow> bk_Exists a db' b' = bk_Exists a db b'"
    and bk_Exists_Create: "bk_Create a db b = Inr db' \<Longrightarrow> bk_Exists a db' b' = (b' = b \<or> bk_Exists a db b')"
    and bk_Commit_same: "bk_Commit a db = Inr db' \<Longrightarrow> bk_Get a db' = bk_Get a db \<and> bk_Exists a db' = bk_Exists a db"
  using assms unfolding bolt_ok_def by blast+

lemma put_in_Inr:
  assumes "bolt_ok a" "put_in a bucket k v db = Inr db'"
  shows "bk_Get a db' b' k' = (if b' = bucket \<and> k' = k then Some v else bk_Get a db b' k')"
    "bk_Exists a db' b' = bk_Exists a db b'"
  using assms bk_Get_Put [OF assms(1)] bk_Exists_Put [OF assms(1)]
  by (auto simp: put_in_def split: if_splits)

lemma bolt_Update_Inr:
  "bolt_Update fn b = (Inr (), b') \<Longrightarrow>
   \<exists>d1 d2. fn (bdb b) = Inr d1 \<and> bk_Commit (bolt b) d1 = Inr d2 \<and> b' = b\<lparr>bdb := d2\<rparr>"
  by (auto simp: bolt_Update_def split: sum.splits)

lemma bolt_Update_Inl: "bolt_Update fn b = (Inl e, b') \<Longrightarrow> b' = b"
  by (auto simp: bolt_Update_def split: sum.splits)

lemma Store_AddBlock_Inr:
  assumes wf: "bolt_wf b" and run: "Store_AddBlock h blk hdr b = (Inr (), b')"
  shows "bolt_wf b'" "GetBlockByHash b' k = (if k = h then Inr blk else GetBlockByHash b k)"
    "GetBlockHeaderByHash b' k = (if k = h then Inr hdr else GetBlockHeaderByHash b k)"
    "GetNewestBlockHash b' = Inr h"
proof -
  have ok: "bolt_ok (bolt b)" using wf by (simp add: bolt_wf_def)
  obtain d1 d2 d3 d4 where d:
    "put_in (bolt b) bucketBlock h blk (bdb b) = Inr d1"
    "put_in (bolt b) bucketBlockHeader h hdr d1 = Inr d2"
    "put_in (bolt b) bucketNewestBlock newestBlockKey h d2 = Inr d3"
    "bk_Commit (bolt b) d3 = Inr d4" and b': "b' = b\<lparr>bdb := d4\<rparr>"
    using bolt_Update_Inr [OF run [unfolded Store_AddBlock_def]] by (auto split: sum.splits)
  note step = put_in_Inr [OF ok d(1)] put_in_Inr [OF ok d(2)] put_in_Inr [OF ok d(3)] bk_Commit_same [OF ok d(4)]
  show "bolt_wf b'" using wf by (simp add: bolt_wf_def b' step)
  show "GetBlockByHash b' k = (if k = h then Inr blk else GetBlockByHash b k)"
    "GetBlockHeaderByHash b' k = (if k = h then Inr hdr else GetBlockHeaderByHash b k)"
    "GetNewestBlockHash b' = Inr h"
    using wf by (simp_all add: GetBlockByHash_def GetBlockHeaderByHash_def GetNewestBlockHash_def get_in_def
      b' step bolt_wf_def)
qed

text \<open>
  The interface \<open>block.Store\<close>. \<open>add_all\<close> is a run of additions that stops at the first error; what has
  been added before stays retrievable as long as the hashes are distinct.
\<close>

locale block_store =
  fixes add :: "bytes \<Rightarrow> bytes \<Rightarrow> bytes \<Rightarrow> 'b \<Rightarrow> unit result \<times> 'b"
    and get :: "'b \<Rightarrow> bytes \<Rightarrow> bytes result"
    and get_header :: "'b \<Rightarrow> bytes \<Rightarrow> bytes result"
    and newest :: "'b \<Rightarrow> bytes result"
    and wf :: "'b \<Rightarrow> bool"
  assumes add_wf: "wf b \<Longrightarrow> add h blk hdr b = (Inr (), b') \<Longrightarrow> wf b'"
    and add_get: "wf b \<Longrightarrow> add h blk hdr b = (Inr (), b') \<Longrightarrow> get b' k = (if k = h then Inr blk else get b k)"
    and add_header: "wf b \<Longrightarrow> add h blk hdr b = (Inr (), b') \<Longrightarrow>
      get_header b' k = (if k = h then Inr hdr else get_header b k)"
    and add_newest: "wf b \<Longrightarrow> add h blk hdr b = (Inr (), b') \<Longrightarrow> newest b' = Inr h"
    and add_atomic: "add h blk hdr b = (Inl e, b') \<Longrightarrow> b' = b"
begin

fun add_all :: "(bytes \<times> bytes \<times> bytes) list \<Rightarrow> 'b \<Rightarrow> unit result \<times> 'b" where
  "add_all [] b = (Inr (), b)"
| "add_all ((h, blk, hdr) # rest) b =
     (case add h blk hdr b of (Inl e, b1) \<Rightarrow> (Inl e, b1) | (Inr _, b1) \<Rightarrow> add_all rest b1)"

lemma add_all_get:
  "wf b \<Longrightarrow> add_all bs b = (Inr (), b') \<Longrightarrow> distinct (map fst bs) \<Longrightarrow>
   wf b' \<and> (\<forall>k. get b' k = (case map_of bs k of Some (blk, hdr) \<Rightarrow> Inr blk | None \<Rightarrow> get b k)) \<and>
   (bs \<noteq> [] \<longrightarrow> newest b' = Inr (fst (last bs)))"
proof (induction bs arbitrary: b)
  case (Cons x bs)
  obtain h blk hdr where x: "x = (h, blk, hdr)" by (cases x)
  obtain b1 where add: "add h blk hdr b = (Inr (), b1)" and rest: "add_all bs b1 = (Inr (), b')"
    using Cons.prems(2) x by (auto split: sum.splits prod.splits)
  have IH: "wf b'" "get b' k = (case map_of bs k of Some (blk, hdr) \<Rightarrow> Inr blk | None \<Rightarrow> get b1 k)"
    "bs \<noteq> [] \<Longrightarrow> newest b' = Inr (fst (last bs))" for k
    using Cons.IH [OF add_wf [OF Cons.prems(1) add] rest] Cons.prems(3) by auto
  have "map_of bs h = None" using Cons.prems(3) x by (simp add: map_of_eq_None_iff)
  moreover have "newest b' = Inr h" if "bs = []"
    using that rest add_newest [OF Cons.prems(1) add] by simp
  ultimately show ?case
    using IH x by (auto simp: add_get [OF Cons.prems(1) add] split: option.splits)
qed simp

end

interpretation bolt_block: block_store Store_AddBlock GetBlockByHash GetBlockHeaderByHash GetNewestBlockHash bolt_wf
proof unfold_locales
  fix b b' :: "'a bolt_store" and h blk hdr k e
  assume wf: "bolt_wf b" and run: "Store_AddBlock h blk hdr b = (Inr (), b')"
  show "bolt_wf b'" "GetBlockByHash b' k = (if k = h then Inr blk else GetBlockByHash b k)"
    "GetBlockHeaderByHash b' k = (if k = h then Inr hdr else GetBlockHeaderByHash b k)" "GetNewestBlockHash b' = Inr h"
    using Store_AddBlock_Inr [OF wf run] by simp_all
next
  fix b b' :: "'a bolt_store" and h blk hdr e
  show "Store_AddBlock h blk hdr b = (Inl e, b') \<Longrightarrow> b' = b"
    by (simp add: Store_AddBlock_def bolt_Update_Inl)
qed

lemma NewBoltStore_wf: "bolt_ok a \<Longrightarrow> NewBoltStore a mk op cfg l = Inr b \<Longrightarrow> bolt_wf b"
proof -
  assume ok: "bolt_ok a" and new: "NewBoltStore a mk op cfg l = Inr b"
  obtain db d1 d2 d3 d4 where d: "bk_Create a db bucketBlock = Inr d1" "bk_Create a d1 bucketBlockHeader = Inr d2"
    "bk_Create a d2 bucketNewestBlock = Inr d3" "bk_Commit a d3 = Inr d4" and b: "b = \<lparr>bolt = a, bdb = d4\<rparr>"
    using new by (auto simp: NewBoltStore_def init_buckets_def bolt_Update_def Let_def split: sum.splits prod.splits)
  show "bolt_wf b"
    using ok by (simp add: bolt_wf_def b bk_Commit_same [OF ok d(4)] bk_Exists_Create [OF ok d(3)]
      bk_Exists_Create [OF ok d(2)] bk_Exists_Create [OF ok d(1)])
qed

section \<open>The location trie\<close>

record ('t, 'n, 'td) trie_api =
  tr_New :: "bytes \<Rightarrow> 'td \<Rightarrow> 't result"
  tr_Update :: "'t \<Rightarrow> bytes \<Rightarrow> bytes \<Rightarrow> 't result"
  tr_Get :: "'t \<Rightarrow> bytes \<Rightarrow> bytes option result"
  tr_Hash :: "'t \<Rightarrow> bytes"
  tr_Commit :: "'t \<Rightarrow> bytes \<times> 'n option"
  td_Update :: "bytes \<Rightarrow> bytes \<Rightarrow> 'n \<Rightarrow> 'td \<Rightarrow> 'td result"
  td_Commit :: "bytes \<Rightarrow> 'td \<Rightarrow> 'td result"
  EmptyRootHash :: bytes
  BytesToHash :: "bytes \<Rightarrow> bytes"

record ('t, 'n, 'td) eth_trie_db =
  eth :: "('t, 'n, 'td) trie_api"
  trieDB :: 'td
  curStateRoot :: bytes

text \<open>\<open>keys[i]\<close>, \<open>values[i]\<close> for all \<open>i\<close>: the caller has checked that the lengths agree.\<close>

fun update_all :: "('t, 'n, 'td) trie_api \<Rightarrow> (bytes \<times> bytes) list \<Rightarrow> 't \<Rightarrow> 't result" where
  "update_all a [] t = Inr t"
| "update_all a ((k, v) # kvs) t =
     (case tr_Update a t k v of Inl e \<Rightarrow> Inl (Wrapf ''update trie db failed'' e)
      | Inr t1 \<Rightarrow> update_all a kvs t1)"

definition trie_ok :: "('t, 'n, 'td) trie_api \<Rightarrow> bool" where
  "trie_ok a \<longleftrightarrow>
     (\<forall>t t' k v k'. tr_Update a t k v = Inr t' \<longrightarrow>
        tr_Get a t' k' = (if k' = k then Inr (if v = [] then None else Some v) else tr_Get a t k')) \<and>
     (\<forall>t. fst (tr_Commit a t) = tr_Hash a t) \<and>
     (\<forall>r td t kvs t'. tr_New a r td = Inr t \<and> update_all a kvs t = Inr t' \<and> snd (tr_Commit a t') = None \<longrightarrow>
        tr_Hash a t' = r \<and> tr_Get a t' = tr_Get a t) \<and>
     (\<forall>t r old n td td1 td2. tr_Commit a t = (r, Some n) \<and> td_Update a r old n td = Inr td1 \<and>
        td_Commit a r td1 = Inr td2 \<longrightarrow> (\<exists>t2. tr_New a r td2 = Inr t2 \<and> tr_Get a t2 = tr_Get a t))"

text \<open>
  \<open>NewEthereumDefaultTrieDB\<close>: \<open>mem\<close> is a new trie database in memory, \<open>level_New\<close> opens one on the LevelDB of a path.
\<close>

definition levelDBFilePath :: "local_params \<Rightarrow> string" where
  "levelDBFilePath l = ''account_loc_shard_'' @ Sprintf_d (lp_ShardID l) @ ''_node_'' @ Sprintf_d (lp_NodeID l)"

definition NewEthereumDefaultTrieDB ::
  "('t, 'n, 'td) trie_api \<Rightarrow> 'td \<Rightarrow> (string \<Rightarrow> 'td result) \<Rightarrow> storage_cfg \<Rightarrow> local_params \<Rightarrow> ('t, 'n, 'td) eth_trie_db result" where
  "NewEthereumDefaultTrieDB a mem level_New cfg l =
     (case (if IsMemoryDB cfg then Inr mem
            else wrap_err ''failed to open level db'' (level_New (path_Join (LevelFilePathDir cfg) (levelDBFilePath l)))) of
        Inl e \<Rightarrow> Inl e
      | Inr td \<Rightarrow>
        if OldStateRoot cfg = [] then Inr \<lparr>eth = a, trieDB = td, curStateRoot = EmptyRootHash a\<rparr>
        else (let root = BytesToHash a (string_bytes (OldStateRoot cfg)) in
              case tr_New a root td of
                Inl e \<Rightarrow> Inl (Wrapf ''failed to create old eth trie'' e)
              | Inr _ \<Rightarrow> Inr \<lparr>eth = a, trieDB = td, curStateRoot = root\<rparr>))"

definition GetCurrentRoot :: "('t, 'n, 'td) eth_trie_db \<Rightarrow> bytes" where
  "GetCurrentRoot e = curStateRoot e"

text \<open>The common first half of the preview and the commit.\<close>

definition opened_updated :: "('t, 'n, 'td) eth_trie_db \<Rightarrow> bytes list \<Rightarrow> bytes list \<Rightarrow> 't result" where
  "opened_updated e keys vals =
     (if length keys \<noteq> length vals then Inl (Errorf ''bad input, len(keys) != len(values)'')
      else (case tr_New (eth e) (curStateRoot e) (trieDB e) of
              Inl x \<Rightarrow> Inl (Wrapf ''new trie failed'' x)
            | Inr t \<Rightarrow> update_all (eth e) (zip keys vals) t))"

definition MAddKeyValuesPreview :: "bytes list \<Rightarrow> bytes list \<Rightarrow> ('t, 'n, 'td) eth_trie_db \<Rightarrow> bytes result" where
  "MAddKeyValuesPreview keys vals e =
     (case opened_updated e keys vals of Inl x \<Rightarrow> Inl x | Inr t \<Rightarrow> Inr (tr_Hash (eth e) t))"

definition MAddKeyValuesAndCommit ::
  "bytes list \<Rightarrow> bytes list \<Rightarrow> ('t, 'n, 'td) eth_trie_db \<Rightarrow> bytes result \<times> ('t, 'n, 'td) eth_trie_db" where
  "MAddKeyValuesAndCommit keys vals e =
     (case opened_updated e keys vals of Inl x \<Rightarrow> (Inl x, e)
      | Inr t \<Rightarrow>
        (case tr_Commit (eth e) t of
           (newRoot, None) \<Rightarrow> (Inr (curStateRoot e), e)
         | (newRoot, Some nodeSet) \<Rightarrow>
             (case td_Update (eth e) newRoot (curStateRoot e) nodeSet (trieDB e) of
                Inl x \<Rightarrow> (Inl (Wrapf ''update trie db failed'' x), e)
              | Inr td1 \<Rightarrow>
                (let e1 = e\<lparr>trieDB := td1, curStateRoot := newRoot\<rparr>
                 in (case td_Commit (eth e) newRoot td1 of
                       Inl x \<Rightarrow> (Inl (Wrapf ''commit trie db failed'' x), e1)
                     | Inr td2 \<Rightarrow> (Inr newRoot, e1\<lparr>trieDB := td2\<rparr>))))))"

definition MGetValsByKeys :: "('t, 'n, 'td) eth_trie_db \<Rightarrow> bytes list \<Rightarrow> bytes option list result" where
  "MGetValsByKeys e keys =
     (case tr_New (eth e) (curStateRoot e) (trieDB e) of
        Inl x \<Rightarrow> Inl (Wrapf ''new trie failed'' x)
      | Inr t \<Rightarrow> mapM_res (\<lambda>k. wrap_err ''get trie failed'' (tr_Get (eth e) t k)) keys)"

definition SetStateRoot :: "bytes \<Rightarrow> ('t, 'n, 'td) eth_trie_db \<Rightarrow> unit result \<times> ('t, 'n, 'td) eth_trie_db" where
  "SetStateRoot root e =
     (case tr_New (eth e) root (trieDB e) of
        Inl x \<Rightarrow> (Inl (Wrapf ''new trie failed'' x), e)
      | Inr _ \<Rightarrow> (Inr (), e\<lparr>curStateRoot := root\<rparr>))"

definition trie_wf :: "('t, 'n, 'td) eth_trie_db \<Rightarrow> bool" where
  "trie_wf e \<longleftrightarrow> trie_ok (eth e) \<and> (\<exists>t. tr_New (eth e) (curStateRoot e) (trieDB e) = Inr t)"

lemma trie_okD:
  assumes "trie_ok a"
  shows tr_Get_Update: "tr_Update a t k v = Inr t' \<Longrightarrow>
      tr_Get a t' k' = (if k' = k then Inr (if v = [] then None else Some v) else tr_Get a t k')"
    and tr_Commit_Hash: "fst (tr_Commit a t) = tr_Hash a t"
    and tr_Commit_None: "tr_New a r td = Inr t \<Longrightarrow> update_all a kvs t = Inr t' \<Longrightarrow> snd (tr_Commit a t') = None \<Longrightarrow>
      tr_Hash a t' = r \<and> tr_Get a t' = tr_Get a t"
    and tr_Commit_reopen: "tr_Commit a t = (r, Some n) \<Longrightarrow> td_Update a r old n td = Inr td1 \<Longrightarrow>
      td_Commit a r td1 = Inr td2 \<Longrightarrow> \<exists>t2. tr_New a r td2 = Inr t2 \<and> tr_Get a t2 = tr_Get a t"
  using assms unfolding trie_ok_def by blast+

lemma update_all_get:
  assumes "trie_ok a"
  shows "update_all a kvs t = Inr t' \<Longrightarrow>
   tr_Get a t' k = (case map_of (rev kvs) k of Some v \<Rightarrow> Inr (if v = [] then None else Some v) | None \<Rightarrow> tr_Get a t k)"
proof (induction kvs arbitrary: t)
  case (Cons kv kvs)
  obtain k0 v0 where kv: "kv = (k0, v0)" by (cases kv)
  obtain t1 where t1: "tr_Update a t k0 v0 = Inr t1" "update_all a kvs t1 = Inr t'"
    using Cons.prems kv by (auto split: sum.splits)
  show ?case
    using Cons.IH [OF t1(2)] kv
    by (auto simp: tr_Get_Update [OF assms t1(1)] map_add_def split: option.splits)
qed simp

text \<open>The value a key has in the store: the abstraction of the location trie to a map.\<close>

definition trie_val :: "('t, 'n, 'td) eth_trie_db \<Rightarrow> bytes \<Rightarrow> bytes option result" where
  "trie_val e k = (case tr_New (eth e) (curStateRoot e) (trieDB e) of Inl x \<Rightarrow> Inl x | Inr t \<Rightarrow> tr_Get (eth e) t k)"

definition trie_bind :: "bytes list \<Rightarrow> bytes list \<Rightarrow> bytes \<Rightarrow> bytes option result \<Rightarrow> bytes option result" where
  "trie_bind keys vals k old =
     (case map_of (rev (zip keys vals)) k of Some v \<Rightarrow> Inr (if v = [] then None else Some v) | None \<Rightarrow> old)"

lemma MAddKeyValuesAndCommit_spec:
  assumes wf: "trie_wf e" and run: "MAddKeyValuesAndCommit keys vals e = (Inr root, e')"
  shows "trie_wf e' \<and> MAddKeyValuesPreview keys vals e = Inr root \<and> curStateRoot e' = root \<and> eth e' = eth e \<and>
    trie_val e' k = trie_bind keys vals k (trie_val e k)"
proof -
  have ok: "trie_ok (eth e)" using wf by (simp add: trie_wf_def)
  obtain t0 where t0: "tr_New (eth e) (curStateRoot e) (trieDB e) = Inr t0" using wf by (auto simp: trie_wf_def)
  obtain t where t: "opened_updated e keys vals = Inr t"
    using run by (auto simp: MAddKeyValuesAndCommit_def split: sum.splits)
  then have upd: "update_all (eth e) (zip keys vals) t0 = Inr t"
    using t0 by (auto simp: opened_updated_def split: if_splits)
  have old: "trie_val e k = tr_Get (eth e) t0 k" using t0 by (simp add: trie_val_def)
  have val: "tr_Get (eth e) t k = trie_bind keys vals k (trie_val e k)"
    unfolding old trie_bind_def by (rule update_all_get [OF ok upd])
  obtain r ns where c: "tr_Commit (eth e) t = (r, ns)" by fastforce
  have hash: "tr_Hash (eth e) t = r" using tr_Commit_Hash [OF ok, of t] c by simp
  have prev: "MAddKeyValuesPreview keys vals e = Inr r" using t hash by (simp add: MAddKeyValuesPreview_def)
  show ?thesis
  proof (cases ns)
    case None
    with c tr_Commit_None [OF ok t0 upd] have "tr_Hash (eth e) t = curStateRoot e" "tr_Get (eth e) t = tr_Get (eth e) t0"
      by auto
    moreover have "e' = e" "root = curStateRoot e" using run t c None by (auto simp: MAddKeyValuesAndCommit_def)
    ultimately show ?thesis using wf prev hash val old by simp
  next
    case (Some n)
    note run' = run [unfolded MAddKeyValuesAndCommit_def t sum.case c Some prod.case option.case Let_def]
    obtain td1 where td1: "td_Update (eth e) r (curStateRoot e) n (trieDB e) = Inr td1"
      using run' by (cases "td_Update (eth e) r (curStateRoot e) n (trieDB e)") simp_all
    obtain td2 where td2: "td_Commit (eth e) r td1 = Inr td2"
      using run' td1 by (cases "td_Commit (eth e) r td1") simp_all
    note td = td1 td2
    have e': "e\<lparr>curStateRoot := r, trieDB := td2\<rparr> = e'" "root = r" using run' by (auto simp: td1 td2)
    obtain t2 where "tr_New (eth e) r td2 = Inr t2" "tr_Get (eth e) t2 = tr_Get (eth e) t"
      using tr_Commit_reopen [OF ok c [unfolded Some] td] by blast
    then have "trie_wf e'" "trie_val e' k = tr_Get (eth e) t k"
      using ok by (simp_all add: trie_wf_def trie_val_def flip: e'(1))
    with prev val show ?thesis by (simp add: e'(2) flip: e'(1))
  qed
qed

lemma MGetValsByKeys_val:
  "MGetValsByKeys e keys = Inr vs \<Longrightarrow> list_all2 (\<lambda>k v. trie_val e k = Inr v) keys vs"
  by (auto simp: MGetValsByKeys_def trie_val_def mapM_res_Inr_iff split: sum.splits)

text \<open>
  The interface \<open>trie.Store\<close>: a map from keys to values with batch updates, previewed or committed.
  \<open>commit_all\<close> is a run of commits, as a chain performs them block by block.
\<close>

locale trie_store =
  fixes preview :: "bytes list \<Rightarrow> bytes list \<Rightarrow> 'e \<Rightarrow> bytes result"
    and commit :: "bytes list \<Rightarrow> bytes list \<Rightarrow> 'e \<Rightarrow> bytes result \<times> 'e"
    and val :: "'e \<Rightarrow> bytes \<Rightarrow> bytes option result"
    and wf :: "'e \<Rightarrow> bool"
  assumes commit_wf: "wf e \<Longrightarrow> commit ks vs e = (Inr r, e') \<Longrightarrow> wf e'"
    and commit_preview: "wf e \<Longrightarrow> commit ks vs e = (Inr r, e') \<Longrightarrow> preview ks vs e = Inr r"
    and commit_val: "wf e \<Longrightarrow> commit ks vs e = (Inr r, e') \<Longrightarrow>
      val e' k = trie_bind ks vs k (val e k)"
begin

fun commit_all :: "(bytes list \<times> bytes list) list \<Rightarrow> 'e \<Rightarrow> unit result \<times> 'e" where
  "commit_all [] e = (Inr (), e)"
| "commit_all ((ks, vs) # rest) e =
     (case commit ks vs e of (Inl x, e1) \<Rightarrow> (Inl x, e1) | (Inr _, e1) \<Rightarrow> commit_all rest e1)"

text \<open>The last binding of a key over all batches wins.\<close>

lemma commit_all_val:
  "wf e \<Longrightarrow> commit_all batches e = (Inr (), e') \<Longrightarrow>
   wf e' \<and> val e' k = (case map_of (rev (concat (map (\<lambda>(ks, vs). zip ks vs) batches))) k of
     Some v \<Rightarrow> Inr (if v = [] then None else Some v) | None \<Rightarrow> val e k)"
proof (induction batches arbitrary: e)
  case (Cons b batches)
  obtain ks vs where b: "b = (ks, vs)" by (cases b)
  obtain r e1 where c: "commit ks vs e = (Inr r, e1)" and rest: "commit_all batches e1 = (Inr (), e')"
    using Cons.prems(2) b by (auto split: sum.splits prod.splits)
  have "wf e1" by (rule commit_wf [OF Cons.prems(1) c])
  from Cons.IH [OF this rest] b show ?case
    by (auto simp: commit_val [OF Cons.prems(1) c] trie_bind_def map_add_def split: option.splits)
qed simp

end

interpretation loc_trie: trie_store MAddKeyValuesPreview MAddKeyValuesAndCommit trie_val trie_wf
  by unfold_locales (use MAddKeyValuesAndCommit_spec in blast)+

section \<open>Opening the stores of a node\<close>

text \<open>
  \<open>pkg/storage/vmstate\<close> and \<open>pkg/storage/storage.go\<close>. A state database over memory or over the LevelDB of a path, and the
  check that a snapshot can be made of it, are the answers of go-ethereum.
\<close>

record ('d, 'db, 't, 'n, 'td) open_api =
  vs_Memory :: 'd
  vs_Level :: "string \<Rightarrow> 'd result"
  vs_Snapshot :: "'d \<Rightarrow> unit result"
  op_MkdirAll :: "string \<Rightarrow> unit result"
  bbolt_Open :: "string \<Rightarrow> 'db result"
  op_bolt :: "'db bolt_api"
  td_Memory :: 'td
  td_Level :: "string \<Rightarrow> 'td result"
  op_trie :: "('t, 'n, 'td) trie_api"

definition vmStateDBFilePath :: "local_params \<Rightarrow> string" where
  "vmStateDBFilePath l = ''vm_state_shard_'' @ Sprintf_d (lp_ShardID l) @ ''_node_'' @ Sprintf_d (lp_NodeID l)"

definition NewStateStore :: "('d, 'db, 't, 'n, 'td) open_api \<Rightarrow> storage_cfg \<Rightarrow> local_params \<Rightarrow> 'd result" where
  "NewStateStore api cfg l =
     (case (if IsMemoryDB cfg then Inr (vs_Memory api)
            else wrap_err ''new StateStorage failed'' (vs_Level api (path_Join (LevelFilePathDir cfg) (vmStateDBFilePath l)))) of
        Inl e \<Rightarrow> Inl e
      | Inr d \<Rightarrow> (case vs_Snapshot api d of Inl e \<Rightarrow> Inl (Wrapf ''failed to new a snapshot'' e) | Inr _ \<Rightarrow> Inr d))"

text \<open>Both switches over the storage types have only a default branch.\<close>

definition NewStorage ::
  "('d, 'db, 't, 'n, 'td) open_api \<Rightarrow> storage_cfg \<Rightarrow> local_params \<Rightarrow> ('d \<times> 'db bolt_store \<times> ('t, 'n, 'td) eth_trie_db) result" where
  "NewStorage api cfg l =
     (case NewStateStore api cfg l of Inl e \<Rightarrow> Inl (Wrapf ''new vm trie db'' e)
      | Inr d \<Rightarrow>
        (case NewBoltStore (op_bolt api) (op_MkdirAll api) (bbolt_Open api) cfg l of
           Inl e \<Rightarrow> Inl (Wrapf ''new block bolt store'' e)
         | Inr bs \<Rightarrow>
           (case NewEthereumDefaultTrieDB (op_trie api) (td_Memory api) (td_Level api) cfg l of
              Inl e \<Rightarrow> Inl (Wrapf ''new loc trie storage'' e)
            | Inr lt \<Rightarrow> Inr (d, bs, lt))))"

text \<open>The stores of a new node are well-formed; the empty trie can always be opened.\<close>

lemma NewEthereumDefaultTrieDB_wf:
  assumes "trie_ok a" "\<And>td. is_ok (tr_New a (EmptyRootHash a) td)" "NewEthereumDefaultTrieDB a mem lvl cfg l = Inr e"
  shows "trie_wf e"
  using assms by (auto simp: NewEthereumDefaultTrieDB_def trie_wf_def Let_def is_ok_iff split: if_splits sum.splits)

lemma NewStorage_wf:
  assumes "bolt_ok (op_bolt api)" "trie_ok (op_trie api)" "\<And>td. is_ok (tr_New (op_trie api) (EmptyRootHash (op_trie api)) td)"
    and "NewStorage api cfg l = Inr (d, bs, lt)"
  shows "bolt_wf bs" "trie_wf lt" "eth lt = op_trie api"
proof -
  have "NewBoltStore (op_bolt api) (op_MkdirAll api) (bbolt_Open api) cfg l = Inr bs"
    and lt: "NewEthereumDefaultTrieDB (op_trie api) (td_Memory api) (td_Level api) cfg l = Inr lt"
    using assms(4) by (auto simp: NewStorage_def split: sum.splits)
  then show "bolt_wf bs" "trie_wf lt"
    using NewBoltStore_wf [OF assms(1)] NewEthereumDefaultTrieDB_wf [OF assms(2,3)] by blast+
  show "eth lt = op_trie api" using lt by (auto simp: NewEthereumDefaultTrieDB_def Let_def split: if_splits sum.splits)
qed

text \<open>Two nodes that share their directories never share a file.\<close>

lemma plain_elem_name: "CHR ''/'' \<notin> set s \<Longrightarrow> 2 < length s \<Longrightarrow> plain_elem s"
  by (auto simp: plain_elem_def)

lemma no_slash_d [simp]: "CHR ''/'' \<notin> set (Sprintf_d i)"
  using Sprintf_d_chars by blast

lemma plain_path_name: "CHR ''/'' \<notin> set s \<Longrightarrow> 2 < length s \<Longrightarrow> plain_path s [s] \<and> \<not> path_rooted s"
  by (cases s) (auto simp: plain_path_def path_rooted_def split_slash_plain plain_elem_name simp del: split_slash.simps)

lemma plain_path_bolt:
  "plain_path (boltDBFilePath l) [''shard_'' @ Sprintf_d (lp_ShardID l) @ ''_node_'' @ Sprintf_d (lp_NodeID l), ''block.db'']"
  "path_rooted (boltDBFilePath l)"
proof -
  let ?x = "''shard_'' @ Sprintf_d (lp_ShardID l) @ ''_node_'' @ Sprintf_d (lp_NodeID l)"
  have eq: "boltDBFilePath l = CHR ''/'' # (?x @ CHR ''/'' # ''block.db'')" by (simp add: boltDBFilePath_def)
  show r: "path_rooted (boltDBFilePath l)" by (simp add: eq path_rooted_def)
  have "split_slash (boltDBFilePath l) = [[], ?x, ''block.db'']"
    unfolding eq by (subst split_slash.simps(2)) (simp only: simp_thms if_True split_slash_append, subst split_slash_plain, simp, subst split_slash_plain, simp_all)
  moreover have "plain_elem ?x" "plain_elem ''block.db''" by (rule plain_elem_name; simp)+
  ultimately show "plain_path (boltDBFilePath l) [?x, ''block.db'']" using r by (simp add: plain_path_def)
qed

lemma node_files_distinct:
  "path_Join d (boltDBFilePath l) = path_Join d (boltDBFilePath l') \<Longrightarrow> lp_ShardID l = lp_ShardID l' \<and> lp_NodeID l = lp_NodeID l'"
  "path_Join d (levelDBFilePath l) = path_Join d (levelDBFilePath l') \<Longrightarrow> lp_ShardID l = lp_ShardID l' \<and> lp_NodeID l = lp_NodeID l'"
  "path_Join d (vmStateDBFilePath l) = path_Join d (vmStateDBFilePath l') \<Longrightarrow> lp_ShardID l = lp_ShardID l' \<and> lp_NodeID l = lp_NodeID l'"
proof -
  have b: "boltDBFilePath l = ''/shard_'' @ Sprintf_d (lp_ShardID l) @ CHR ''_'' # ''node_'' @ Sprintf_d (lp_NodeID l) @ ''/block.db''" for l
    by (simp add: boltDBFilePath_def)
  show "lp_ShardID l = lp_ShardID l' \<and> lp_NodeID l = lp_NodeID l'" if "path_Join d (boltDBFilePath l) = path_Join d (boltDBFilePath l')"
    using path_Join_inject [OF plain_path_bolt(1) plain_path_bolt(1) _ that] plain_path_bolt(2) unfolding b node_name_inject by blast
  have e: "levelDBFilePath l = ''account_loc_shard_'' @ Sprintf_d (lp_ShardID l) @ CHR ''_'' # ''node_'' @ Sprintf_d (lp_NodeID l) @ []" for l
    by (simp add: levelDBFilePath_def)
  have pe: "plain_path (levelDBFilePath l) [levelDBFilePath l] \<and> \<not> path_rooted (levelDBFilePath l)" for l
    by (rule plain_path_name) (simp_all add: levelDBFilePath_def)
  show "lp_ShardID l = lp_ShardID l' \<and> lp_NodeID l = lp_NodeID l'" if "path_Join d (levelDBFilePath l) = path_Join d (levelDBFilePath l')"
    using path_Join_inject [OF _ _ _ that] pe [of l] pe [of l'] unfolding e node_name_inject by blast
  have v: "vmStateDBFilePath l = ''vm_state_shard_'' @ Sprintf_d (lp_ShardID l) @ CHR ''_'' # ''node_'' @ Sprintf_d (lp_NodeID l) @ []" for l
    by (simp add: vmStateDBFilePath_def)
  have pv: "plain_path (vmStateDBFilePath l) [vmStateDBFilePath l] \<and> \<not> path_rooted (vmStateDBFilePath l)" for l
    by (rule plain_path_name) (simp_all add: vmStateDBFilePath_def)
  show "lp_ShardID l = lp_ShardID l' \<and> lp_NodeID l = lp_NodeID l'" if "path_Join d (vmStateDBFilePath l) = path_Join d (vmStateDBFilePath l')"
    using path_Join_inject [OF _ _ _ that] pv [of l] pv [of l'] unfolding v node_name_inject by blast
qed

end
