(* ===== verification/Chain.thy ===== *)
theory Chain
  imports Config Tx_Execute Storage
begin

text \<open>
  \<open>pkg/chain/chain.go\<close> with \<open>pkg/utils/mptrootcalc.go\<close> and \<open>pkg/partition/accountloc.go\<close>: the blockchain of one
  shard. A chain carries its stores, the current header and the method tables of the third-party
  code it uses: \<open>rlp\<close>, \<open>gob\<close> and the hash functions are the fields of \<open>codec\<close>. \<open>AddBlock\<close> returns the
  chain also when it fails, because it commits to the state database, the location trie and the
  block store one after the other.

  The lemmas show that a generated block passes validation, links to the current header and
  carries the state root and the location root that adding it produces; that \<open>AddBlock\<close> makes the
  block the head and keeps every other stored block; and that \<open>GetBlocksAfterHeight\<close> returns the
  blocks of the requested heights in order.
\<close>

section \<open>State\<close>

record 't codec =
  hdr_Encode :: "header \<Rightarrow> bytes result"
  sha256 :: "bytes \<Rightarrow> bytes"
  blk_Encode :: "block \<Rightarrow> bytes result"
  blk_Decode :: "bytes \<Rightarrow> block result"
  tx_Encode :: "transaction \<Rightarrow> bytes result"
  st_Encode :: "acc_state \<Rightarrow> bytes result"
  loc_Encode :: "64 word \<Rightarrow> bytes result"
  loc_Decode :: "bytes \<Rightarrow> 64 word result"
  prop_Encode :: "block \<Rightarrow> bytes result"
  mem_Trie :: 't
  bits :: "bool list bitset_api"
  hashes :: hash_api

record ('s, 'd, 'db, 't, 'n, 'td) chain =
  vmi :: "('s, 'd) vm_api"
  codec :: "'t codec"
  StateStorage :: 'd
  BlockStorage :: "'db bolt_store"
  LocStorage :: "('t, 'n, 'td) eth_trie_db"
  curHeader :: header
  shardID :: int
  epochID :: int
  chain_cfg :: consensus_node_cfg

definition Header_Hash :: "'t codec \<Rightarrow> header \<Rightarrow> bytes result" where
  "Header_Hash cd h = (case hdr_Encode cd h of Inl e \<Rightarrow> Inl e | Inr b \<Rightarrow> Inr (sha256 cd b))"

definition Tx_Hash :: "'t codec \<Rightarrow> transaction \<Rightarrow> bytes result" where
  "Tx_Hash cd tx = (case tx_Encode cd tx of Inl e \<Rightarrow> Inl e | Inr b \<Rightarrow> Inr (sha256 cd b))"

text \<open>\<open>DefaultAccountLoc\<close>: Go panics for \<open>shardNum = 0\<close>; a node refuses such a configuration.\<close>

definition DefaultAccountLoc :: "address \<Rightarrow> int \<Rightarrow> int" where
  "DefaultAccountLoc a shardNum = go_rem (int (big_endian (drop (length a - 4) a))) shardNum"

definition GenerateRootByGivenBytes ::
  "('t, 'n, 'td) trie_api \<Rightarrow> 't \<Rightarrow> bytes list \<Rightarrow> bytes list \<Rightarrow> bytes result" where
  "GenerateRootByGivenBytes a t keys vals =
     (if length keys \<noteq> length vals then Inl (Errorf ''bad input, len(keys) != len(values)'')
      else (case update_all a (zip keys vals) t of Inl e \<Rightarrow> Inl e | Inr t' \<Rightarrow> Inr (tr_Hash a t')))"

definition UpdateEpoch :: "int \<Rightarrow> ('s, 'd, 'db, 't, 'n, 'td) chain \<Rightarrow> ('s, 'd, 'db, 't, 'n, 'td) chain" where
  "UpdateEpoch epoch c = c\<lparr>epochID := epoch\<rparr>"

section \<open>Header options\<close>

text \<open>The zero value of \<open>TxHeaderOpt\<close>: no root and an empty filter.\<close>

definition zero_bloom :: "bool list bloom_filter" where
  "zero_bloom = \<lparr>B = [], FilterHashFs = []\<rparr>"

fun tx_key_vals :: "'t codec \<Rightarrow> transaction list \<Rightarrow> (bytes list \<times> bytes list) result" where
  "tx_key_vals cd [] = Inr ([], [])"
| "tx_key_vals cd (tx # txs) =
     (case Tx_Hash cd tx of Inl e \<Rightarrow> Inl (Wrapf ''hash err'' e)
      | Inr k \<Rightarrow>
        (case tx_Encode cd tx of Inl e \<Rightarrow> Inl (Wrapf ''encode tx err'' e)
         | Inr v \<Rightarrow>
           (case tx_key_vals cd txs of Inl e \<Rightarrow> Inl e | Inr (ks, vs) \<Rightarrow> Inr (k # ks, v # vs))))"

definition calcTxHeaderOpt ::
  "('s, 'd, 'db, 't, 'n, 'td) chain \<Rightarrow> transaction list \<Rightarrow> (bytes \<times> bool list bloom_filter) result" where
  "calcTxHeaderOpt c txs =
     (if txs = [] then Inr ([], zero_bloom)
      else (case NewFilter (bits (codec c)) (cn_Bloom (chain_cfg c)) of
              Inl e \<Rightarrow> Inl (Wrapf ''new bloom filter err'' e)
            | Inr bf \<Rightarrow>
              (case tx_key_vals (codec c) txs of Inl e \<Rightarrow> Inl e
               | Inr (ks, vs) \<Rightarrow>
                 (case Filter_Add (bits (codec c)) (hashes (codec c)) bf ks of Inl e \<Rightarrow> Inl e
                  | Inr bf' \<Rightarrow>
                    (case GenerateRootByGivenBytes (eth (LocStorage c)) (mem_Trie (codec c)) ks vs of
                       Inl e \<Rightarrow> Inl (Wrapf ''generate root err'' e)
                     | Inr root \<Rightarrow> Inr (root, bf'))))))"

text \<open>\<open>sList[i]\<close> panics when there are fewer states than accounts.\<close>

fun getMigrationAccountBytes :: "'t codec \<Rightarrow> address list \<Rightarrow> acc_state list \<Rightarrow> (bytes list \<times> bytes list) result" where
  "getMigrationAccountBytes cd [] sts = Inr ([], [])"
| "getMigrationAccountBytes cd (a # as) [] = Inl (Panic ''index out of range'')"
| "getMigrationAccountBytes cd (a # as) (st # sts) =
     (case st_Encode cd st of Inl e \<Rightarrow> Inl (Wrapf ''encode state err'' e)
      | Inr v \<Rightarrow>
        (case getMigrationAccountBytes cd as sts of Inl e \<Rightarrow> Inl e
         | Inr (ks, vs) \<Rightarrow> Inr (a # ks, v # vs)))"

definition calcMigrationHeaderOpt ::
  "('s, 'd, 'db, 't, 'n, 'td) chain \<Rightarrow> address list \<Rightarrow> acc_state list \<Rightarrow> bytes result" where
  "calcMigrationHeaderOpt c addrs sts =
     (if addrs = [] then Inr []
      else (case getMigrationAccountBytes (codec c) addrs sts of
              Inl e \<Rightarrow> Inl (Wrapf ''get migrated state Merkle root err'' e)
            | Inr (ks, vs) \<Rightarrow>
                wrap_err ''generate root err''
                  (GenerateRootByGivenBytes (eth (LocStorage c)) (mem_Trie (codec c)) ks vs)))"

section \<open>Locations and states of accounts\<close>

fun decode_locs :: "'t codec \<Rightarrow> int \<Rightarrow> address list \<Rightarrow> bytes option list \<Rightarrow> int list result" where
  "decode_locs cd n (a # as) (l # ls) =
     (case l of
        None \<Rightarrow>
          (case decode_locs cd n as ls of Inl e \<Rightarrow> Inl e | Inr r \<Rightarrow> Inr (DefaultAccountLoc a n # r))
      | Some b \<Rightarrow>
          (case loc_Decode cd b of Inl e \<Rightarrow> Inl (Wrapf ''decode location err'' e)
           | Inr w \<Rightarrow> (case decode_locs cd n as ls of Inl e \<Rightarrow> Inl e | Inr r \<Rightarrow> Inr (sint w # r))))"
| "decode_locs cd n _ _ = Inr []"

definition getAccountLocations :: "('s, 'd, 'db, 't, 'n, 'td) chain \<Rightarrow> address list \<Rightarrow> int list result" where
  "getAccountLocations c addrs =
     (case MGetValsByKeys (LocStorage c) addrs of
        Inl e \<Rightarrow> Inl (Wrapf ''get account locations from trie err'' e)
      | Inr locBytes \<Rightarrow> decode_locs (codec c) (ShardNum (cn_Sys (chain_cfg c))) addrs locBytes)"

definition tx_accounts :: "transaction list \<Rightarrow> (address, int) gomap" where
  "tx_accounts txs =
     fold (\<lambda>tx m. AList.update (Recipient tx) (- 1) (AList.update (Sender tx) (- 1) m)) txs []"

definition getAccountLocationsInTxs ::
  "('s, 'd, 'db, 't, 'n, 'td) chain \<Rightarrow> transaction list \<Rightarrow> (address, int) gomap result" where
  "getAccountLocationsInTxs c txs =
     (let m = tx_accounts txs; requestAccounts = map fst m
      in case getAccountLocations c requestAccounts of
           Inl e \<Rightarrow> Inl (Wrapf ''GetAccountStates failed'' e)
         | Inr locations \<Rightarrow> Inr (fold (\<lambda>(a, l). AList.update a l) (zip requestAccounts locations) m))"

definition getVMExecutor :: "('s, 'd, 'db, 't, 'n, 'td) chain \<Rightarrow> 's result" where
  "getVMExecutor c = NewExecutor (vmi c) (StateStorage c) (StateRoot (curHeader c))"

definition getAccountStates :: "('s, 'd, 'db, 't, 'n, 'td) chain \<Rightarrow> address list \<Rightarrow> acc_state list result" where
  "getAccountStates c addrs =
     (case getAccountLocations c addrs of
        Inl e \<Rightarrow> Inl (Wrapf ''get account locations err'' e)
      | Inr locations \<Rightarrow>
        (case getVMExecutor c of
           Inl e \<Rightarrow> Inl (Wrapf ''new vm executor err'' e)
         | Inr s \<Rightarrow>
             Inr (map (\<lambda>(a, l). readStateFromVMExecutor (vmi c) a s (of_int l)) (zip addrs locations))))"

section \<open>Executing a block\<close>

definition txExecute ::
  "('s, 'd, 'db, 't, 'n, 'td) chain \<Rightarrow> block_ctx \<Rightarrow> (address, int) gomap \<Rightarrow> transaction \<Rightarrow> 's \<Rightarrow>
   unit result \<times> 's" where
  "txExecute c bCtx addrLoc tx s =
     (case TxType tx of
        NormalTxType \<Rightarrow> apfst (wrap_err ''execute normal tx failed'') (normalTxExecute (vmi c) tx s)
      | RelayTxType \<Rightarrow>
          apfst (wrap_err ''execute relay tx failed'') (relayTxExecute (vmi c) addrLoc (shardID c) tx s)
      | BrokerTxType \<Rightarrow>
          apfst (wrap_err ''execute broker tx failed'') (brokerTxExecute (vmi c) addrLoc (shardID c) tx s)
      | CreateContractTxType \<Rightarrow>
          (case DeployContract (vmi c) bCtx tx s of
             (Inl e, s') \<Rightarrow> (Inl (Wrapf ''failed to deploy contract'' e), s') | (Inr _, s') \<Rightarrow> (Inr (), s'))
      | CallContractTxType \<Rightarrow>
          (case CallContract (vmi c) bCtx tx s of
             (Inl e, s') \<Rightarrow> (Inl (Wrapf ''failed to call contract'' e), s') | (Inr _, s') \<Rightarrow> (Inr (), s')))"

fun exec_txs ::
  "('s, 'd, 'db, 't, 'n, 'td) chain \<Rightarrow> block_ctx \<Rightarrow> (address, int) gomap \<Rightarrow> transaction list \<Rightarrow> 's \<Rightarrow>
   's result" where
  "exec_txs c bCtx addrLoc [] s = Inr s"
| "exec_txs c bCtx addrLoc (tx # txs) s =
     (case txExecute c bCtx addrLoc tx s of
        (Inl e, _) \<Rightarrow> Inl (Wrapf ''execute tx err'' e)
      | (Inr _, s') \<Rightarrow> exec_txs c bCtx addrLoc txs s')"

fun apply_migrated ::
  "('s, 'd, 'db, 't, 'n, 'td) chain \<Rightarrow> address list \<Rightarrow> acc_state list \<Rightarrow> 's \<Rightarrow>
   (bytes list \<times> bytes list \<times> 's) result" where
  "apply_migrated c [] sts s = Inr ([], [], s)"
| "apply_migrated c (a # as) [] s = Inl (Panic ''index out of range'')"
| "apply_migrated c (a # as) (st # sts) s =
     (case (if st_ShardLocation st = of_int (shardID c)
            then setMigratedStates2VMTrie (vmi c) a st s else (Inr (), s)) of
        (Inl e, _) \<Rightarrow> Inl (Wrapf ''set migrated state err'' e)
      | (Inr _, s') \<Rightarrow>
        (case loc_Encode (codec c) (st_ShardLocation st) of
           Inl e \<Rightarrow> Inl (Wrapf ''encode state err'' e)
         | Inr l \<Rightarrow>
           (case apply_migrated c as sts s' of Inl e \<Rightarrow> Inl e
            | Inr (ks, vs, s'') \<Rightarrow> Inr (a # ks, l # vs, s''))))"

definition calcStateModification ::
  "('s, 'd, 'db, 't, 'n, 'td) chain \<Rightarrow> block \<Rightarrow> 's \<Rightarrow> (bytes list \<times> bytes list \<times> 's) result" where
  "calcStateModification c b s =
     (case getAccountLocationsInTxs c (TxList b) of
        Inl e \<Rightarrow> Inl (Wrapf ''get account locations err'' e)
      | Inr accountLocMap \<Rightarrow>
        (case exec_txs c (getBlockCtxByBlock b) accountLocMap (TxList b) s of
           Inl e \<Rightarrow> Inl e
         | Inr s' \<Rightarrow> apply_migrated c (MigratedAddrs b) (MigratedStates b) s'))"

definition previewStateRootByBlock ::
  "('s, 'd, 'db, 't, 'n, 'td) chain \<Rightarrow> block \<Rightarrow> (bytes \<times> bytes) result" where
  "previewStateRootByBlock c b =
     (case getVMExecutor c of Inl e \<Rightarrow> Inl (Wrapf ''get vm executor err'' e)
      | Inr s \<Rightarrow>
        (case calcStateModification c b s of Inl e \<Rightarrow> Inl (Wrapf ''calc state modification err'' e)
         | Inr (ks, vs, s') \<Rightarrow>
           (case MAddKeyValuesPreview ks vs (LocStorage c) of
              Inl e \<Rightarrow> Inl (Wrapf ''preview updated accounts err'' e)
            | Inr locRoot \<Rightarrow> Inr (state_IntermediateRoot (vmi c) s', locRoot))))"

definition updateTrieByBlock ::
  "('s, 'd, 'db, 't, 'n, 'td) chain \<Rightarrow> block \<Rightarrow>
   (bytes \<times> bytes) result \<times> ('s, 'd, 'db, 't, 'n, 'td) chain" where
  "updateTrieByBlock c b =
     (case getVMExecutor c of Inl e \<Rightarrow> (Inl (Wrapf ''get vm executor err'' e), c)
      | Inr s \<Rightarrow>
        (case calcStateModification c b s of Inl e \<Rightarrow> (Inl (Wrapf ''calc state modification err'' e), c)
         | Inr (ks, vs, s') \<Rightarrow>
           (case Executor_Commit (vmi c) (CtxBlockNumber (getBlockCtxByBlock b)) s' (StateStorage c) of
              Inl e \<Rightarrow> (Inl (Wrapf ''vme commit err'' e), c)
            | Inr (stateRoot, d1) \<Rightarrow>
              (let c1 = c\<lparr>StateStorage := d1\<rparr> in
               case MAddKeyValuesAndCommit ks vs (LocStorage c1) of
                 (Inl e, l1) \<Rightarrow> (Inl (Wrapf ''preview updated accounts err'' e), c1\<lparr>LocStorage := l1\<rparr>)
               | (Inr locRoot, l1) \<Rightarrow>
                 (let c2 = c1\<lparr>LocStorage := l1\<rparr> in
                  case trieDB_Commit (vmi c) stateRoot (StateStorage c2) of
                    Inl e \<Rightarrow> (Inl (Wrapf ''commit state-db trie err'' e), c2)
                  | Inr d2 \<Rightarrow> (Inr (stateRoot, locRoot), c2\<lparr>StateStorage := d2\<rparr>))))))"

section \<open>The operations of a chain\<close>

definition GenerateBlock ::
  "('s, 'd, 'db, 't, 'n, 'td) chain \<Rightarrow> gotime \<Rightarrow> address \<Rightarrow> nat \<Rightarrow> transaction list \<Rightarrow> address list \<Rightarrow>
   acc_state list \<Rightarrow> block result" where
  "GenerateBlock c now miner blockType txs addrs sts =
     (case Header_Hash (codec c) (curHeader c) of
        Inl e \<Rightarrow> Inl (Wrapf ''create parent header err'' e)
      | Inr parentHash \<Rightarrow>
        (case calcTxHeaderOpt c txs of
           Inl e \<Rightarrow> Inl (Wrapf ''calc tx header opt err'' e)
         | Inr (txRoot, bf) \<Rightarrow>
           (case calcMigrationHeaderOpt c addrs sts of
              Inl e \<Rightarrow> Inl (Wrapf ''get account state root err'' e)
            | Inr mRoot \<Rightarrow>
              (let hdr = \<lparr>ParentBlockHash = parentHash, StateRoot = [], Number = Number (curHeader c) + 1,
                          BlockType = blockType, Miner = miner, BlockCreateTime = now, LocationRoot = [],
                          TxRoot = txRoot, Bloom = bf, MigratedAccountsRoot = mRoot\<rparr>;
                   b = NewBlock hdr txs addrs sts
               in (case previewStateRootByBlock c b of
                     Inl e \<Rightarrow> Inl (Wrapf ''preview updated trie by txs err'' e)
                   | Inr (stateRoot, locRoot) \<Rightarrow>
                       Inr (b\<lparr>Header := hdr\<lparr>StateRoot := stateRoot, LocationRoot := locRoot\<rparr>\<rparr>))))))"

definition AddBlock ::
  "('s, 'd, 'db, 't, 'n, 'td) chain \<Rightarrow> block \<Rightarrow> unit result \<times> ('s, 'd, 'db, 't, 'n, 'td) chain" where
  "AddBlock c b =
     (case Header_Hash (codec c) (Header b) of
        Inl e \<Rightarrow> (Inl (Wrapf ''calc header hash err'' e), c)
      | Inr blockHash \<Rightarrow>
        (case blk_Encode (codec c) b of
           Inl e \<Rightarrow> (Inl (Wrapf ''encode block err'' e), c)
         | Inr blockByte \<Rightarrow>
           (case hdr_Encode (codec c) (Header b) of
              Inl e \<Rightarrow> (Inl (Wrapf ''encode block header err'' e), c)
            | Inr headerByte \<Rightarrow>
              (case updateTrieByBlock c b of
                 (Inl e, c1) \<Rightarrow> (Inl (Wrapf ''update trie err'' e), c1)
               | (Inr _, c1) \<Rightarrow>
                 (case Store_AddBlock blockHash blockByte headerByte (BlockStorage c1) of
                    (Inl e, s1) \<Rightarrow>
                      (Inl (Wrapf ''failed to add block to storage'' e), c1\<lparr>BlockStorage := s1\<rparr>)
                  | (Inr _, s1) \<Rightarrow>
                      (Inr (), c1\<lparr>BlockStorage := s1, curHeader := Header b\<rparr>))))))"

definition ValidateBlock :: "('s, 'd, 'db, 't, 'n, 'td) chain \<Rightarrow> block \<Rightarrow> unit result" where
  "ValidateBlock c b =
     (case calcTxHeaderOpt c (TxList b) of
        Inl e \<Rightarrow> Inl (Wrapf ''get tx trie stateRoot err'' e)
      | Inr (txRoot, bf) \<Rightarrow>
        if txRoot \<noteq> TxRoot (Header b) then Inl (Errorf ''tx root mismatch'')
        else if \<not> Filter_Equal (bits (codec c)) bf (Bloom (Header b)) then Inl (Errorf ''bloom mismatch'')
        else (case calcMigrationHeaderOpt c (MigratedAddrs b) (MigratedStates b) of
                Inl e \<Rightarrow> Inl (Wrapf ''get migrated account state Merkle root err'' e)
              | Inr mRoot \<Rightarrow>
                  if mRoot \<noteq> MigratedAccountsRoot (Header b) then Inl (Errorf ''migration root mismatch'')
                  else Inr ()))"

abbreviation (input) blocksFetchLimit :: int where "blocksFetchLimit \<equiv> 100"

fun fetch_blocks ::
  "('s, 'd, 'db, 't, 'n, 'td) chain \<Rightarrow> nat \<Rightarrow> bytes \<Rightarrow> block list \<Rightarrow> block list result" where
  "fetch_blocks c 0 h acc = Inr acc"
| "fetch_blocks c (Suc n) h acc =
     (case GetBlockByHash (BlockStorage c) h of Inl e \<Rightarrow> Inl (Wrapf ''get block err'' e)
      | Inr bByte \<Rightarrow>
        (case blk_Decode (codec c) bByte of Inl e \<Rightarrow> Inl (Wrapf ''decode block err'' e)
         | Inr b \<Rightarrow> fetch_blocks c n (ParentBlockHash (Header b)) (b # acc)))"

definition GetBlocksAfterHeight ::
  "('s, 'd, 'db, 't, 'n, 'td) chain \<Rightarrow> int \<Rightarrow> block list result" where
  "GetBlocksAfterHeight c beginHeight =
     (if beginHeight \<le> 0 then Inl (Errorf ''beginHeight must be > 0'')
      else let cnt = wrap64 (sint (Number (curHeader c)) - beginHeight + 1) in
        if cnt > blocksFetchLimit then Inl (Errorf ''too many blocks to return'')
        else (case Header_Hash (codec c) (curHeader c) of
                Inl e \<Rightarrow> Inl (Wrapf ''get header hash err'' e)
              | Inr h \<Rightarrow> fetch_blocks c (nat cnt) h []))"

text \<open>\<open>initWithGenesisBlock\<close> and \<open>NewChain\<close> on the opened stores; \<open>EmptyRootHash\<close> is geth's constant.\<close>

definition initWithGenesisBlock ::
  "gotime \<Rightarrow> ('s, 'd, 'db, 't, 'n, 'td) chain \<Rightarrow> block result \<times> ('s, 'd, 'db, 't, 'n, 'td) chain" where
  "initWithGenesisBlock now c =
     (case GenerateBlock c now EmptyAccountAddr TxBlockType [] [] [] of
        Inl e \<Rightarrow> (Inl (Wrapf ''generate block err'' e), c)
      | Inr b \<Rightarrow>
        (case AddBlock c b of
           (Inl e, c1) \<Rightarrow> (Inl (Wrapf ''failed to add block to storage'' e), c1)
         | (Inr _, c1) \<Rightarrow> (Inr b, c1)))"

definition NewChain ::
  "('s, 'd) vm_api \<Rightarrow> 't codec \<Rightarrow> ('d \<times> 'db bolt_store \<times> ('t, 'n, 'td) eth_trie_db) result \<Rightarrow>
   consensus_node_cfg \<Rightarrow> local_params \<Rightarrow> gotime \<Rightarrow> ('s, 'd, 'db, 't, 'n, 'td) chain result" where
  "NewChain v cd storage cf l now =
     (case storage of Inl e \<Rightarrow> Inl e
      | Inr (d, bs, lt) \<Rightarrow>
        (let c = \<lparr>vmi = v, codec = cd, StateStorage = d, BlockStorage = bs, LocStorage = lt,
                  curHeader = \<lparr>ParentBlockHash = [], StateRoot = EmptyRootHash (eth lt), Number = 0, BlockType = 0,
                    Miner = EmptyAccountAddr, BlockCreateTime = 0, LocationRoot = [], TxRoot = [],
                    Bloom = zero_bloom, MigratedAccountsRoot = []\<rparr>,
                  shardID = lp_ShardID l, epochID = 0, chain_cfg = cf\<rparr>
         in (case initWithGenesisBlock now c of
               (Inl e, _) \<Rightarrow> Inl (Wrapf ''create genesis block err'' e)
             | (Inr g, c1) \<Rightarrow> Inr (c1\<lparr>curHeader := Header g\<rparr>))))"

section \<open>Third-party behaviour the chain relies on\<close>

text \<open>
  \<open>codec_ok\<close>: \<open>gob\<close> round trips. \<open>commit_ok\<close>: committing a \<open>StateDB\<close> returns the root that
  \<open>IntermediateRoot\<close> announces, and reopening it at that root shows the committed accounts, except
  that \<open>Commit(_, true, _)\<close> deletes the empty ones (balance and nonce zero).
\<close>

definition codec_ok :: "'t codec \<Rightarrow> bool" where
  "codec_ok cd \<longleftrightarrow>
     (\<forall>b x. blk_Encode cd b = Inr x \<longrightarrow> blk_Decode cd x = Inr b) \<and>
     (\<forall>w x. loc_Encode cd w = Inr x \<longrightarrow> loc_Decode cd x = Inr w \<and> x \<noteq> []) \<and>
     (\<forall>b. bs_Equal (bits cd) b b)"

definition commit_ok :: "('s, 'd) vm_api \<Rightarrow> bool" where
  "commit_ok v \<longleftrightarrow>
     (\<forall>n s d r d'. state_Commit v n s d = Inr (r, d') \<longrightarrow> r = state_IntermediateRoot v s) \<and>
     (\<forall>n s d r d1 d2. state_Commit v n s d = Inr (r, d1) \<and> trieDB_Commit v r d1 = Inr d2 \<longrightarrow>
        (\<exists>s2. state_New v r d2 = Inr s2 \<and>
           (\<forall>a. db_Exist v s2 a \<longleftrightarrow> db_Exist v s a \<and> (db_GetBalance v s a \<noteq> 0 \<or> db_GetNonce v s a \<noteq> 0)) \<and>
           (\<forall>a. db_Exist v s2 a \<longrightarrow> db_GetBalance v s2 a = db_GetBalance v s a \<and> db_GetNonce v s2 a = db_GetNonce v s a)))"

definition chain_wf :: "('s, 'd, 'db, 't, 'n, 'td) chain \<Rightarrow> bool" where
  "chain_wf c \<longleftrightarrow> bolt_wf (BlockStorage c) \<and> trie_wf (LocStorage c) \<and> codec_ok (codec c) \<and> commit_ok (vmi c)"

lemma codec_okD:
  assumes "codec_ok cd"
  shows blk_roundtrip: "blk_Encode cd b = Inr x \<Longrightarrow> blk_Decode cd x = Inr b"
    and loc_roundtrip: "loc_Encode cd w = Inr x \<Longrightarrow> loc_Decode cd x = Inr w \<and> x \<noteq> []"
    and bits_refl: "bs_Equal (bits cd) bl bl"
  using assms unfolding codec_ok_def by blast+

lemma commit_okD:
  assumes "commit_ok v"
  shows commit_root: "state_Commit v n s d = Inr (r, d') \<Longrightarrow> r = state_IntermediateRoot v s"
    and commit_reopen: "state_Commit v n s d = Inr (r, d1) \<Longrightarrow> trieDB_Commit v r d1 = Inr d2 \<Longrightarrow>
      \<exists>s2. state_New v r d2 = Inr s2 \<and>
        (\<forall>a. db_Exist v s2 a \<longleftrightarrow> db_Exist v s a \<and> (db_GetBalance v s a \<noteq> 0 \<or> db_GetNonce v s a \<noteq> 0)) \<and>
        (\<forall>a. db_Exist v s2 a \<longrightarrow> db_GetBalance v s2 a = db_GetBalance v s a \<and> db_GetNonce v s2 a = db_GetNonce v s a)"
  using assms unfolding commit_ok_def by blast+

section \<open>Generating and adding\<close>

lemma GenerateBlock_Inr:
  assumes "GenerateBlock c now miner bt txs addrs sts = Inr b"
  shows "Header_Hash (codec c) (curHeader c) = Inr (ParentBlockHash (Header b))"
    "Number (Header b) = Number (curHeader c) + 1" "BlockType (Header b) = bt"
    "Miner (Header b) = miner" "BlockCreateTime (Header b) = now"
    "TxList b = txs" "MigratedAddrs b = addrs" "MigratedStates b = sts"
    "calcTxHeaderOpt c txs = Inr (TxRoot (Header b), Bloom (Header b))"
    "calcMigrationHeaderOpt c addrs sts = Inr (MigratedAccountsRoot (Header b))"
  using assms
  by (auto simp: GenerateBlock_def NewBlock_def Let_def split: sum.splits prod.splits)

lemma GenerateBlock_preview:
  assumes "GenerateBlock c now miner bt txs addrs sts = Inr b"
  shows "previewStateRootByBlock c (b\<lparr>Header := (Header b)\<lparr>StateRoot := [], LocationRoot := []\<rparr>\<rparr>) =
    Inr (StateRoot (Header b), LocationRoot (Header b))"
  using assms
  by (auto simp: GenerateBlock_def NewBlock_def Let_def split: sum.splits prod.splits)

text \<open>Execution does not read the two roots of the header, so the preview is the commit's execution.\<close>

lemma calcStateModification_roots:
  "calcStateModification c (b\<lparr>Header := (Header b)\<lparr>StateRoot := r, LocationRoot := l\<rparr>\<rparr>) s = calcStateModification c b s"
  by (simp add: calcStateModification_def getBlockCtxByBlock_def cong: sum.case_cong)

lemma GenerateBlock_valid:
  assumes "codec_ok (codec c)" "GenerateBlock c now miner bt txs addrs sts = Inr b"
  shows "ValidateBlock c b = Inr ()"
  using GenerateBlock_Inr [OF assms(2)] bits_refl [OF assms(1)]
  by (simp add: ValidateBlock_def Filter_Equal_def)

lemma updateTrieByBlock_Inr:
  assumes "updateTrieByBlock c b = (Inr (sr, lr), c')"
  shows "\<exists>s ks vs s' d1 d2 l1. getVMExecutor c = Inr s \<and> calcStateModification c b s = Inr (ks, vs, s') \<and>
    state_Commit (vmi c) (CtxBlockNumber (getBlockCtxByBlock b)) s' (StateStorage c) = Inr (sr, d1) \<and>
    MAddKeyValuesAndCommit ks vs (LocStorage c) = (Inr lr, l1) \<and> trieDB_Commit (vmi c) sr d1 = Inr d2 \<and>
    c' = c\<lparr>StateStorage := d2, LocStorage := l1\<rparr>"
  using assms
  by (fastforce simp: updateTrieByBlock_def Executor_Commit_def Let_def split: sum.splits prod.splits)

lemma updateTrieByBlock_frame:
  "updateTrieByBlock c b = (r, c') \<Longrightarrow> vmi c' = vmi c \<and> codec c' = codec c \<and> BlockStorage c' = BlockStorage c \<and>
   curHeader c' = curHeader c \<and> shardID c' = shardID c \<and> epochID c' = epochID c \<and> chain_cfg c' = chain_cfg c"
  by (auto simp: updateTrieByBlock_def Let_def split: sum.splits prod.splits)

lemma previewed_roots_committed:
  assumes wf: "chain_wf c" and prev: "previewStateRootByBlock c b = Inr (sr, lr)"
    and upd: "updateTrieByBlock c b = (Inr (sr', lr'), c')"
  shows "sr' = sr \<and> lr' = lr"
proof -
  obtain s ks vs s' d1 d2 l1 where u: "getVMExecutor c = Inr s" "calcStateModification c b s = Inr (ks, vs, s')"
    "state_Commit (vmi c) (CtxBlockNumber (getBlockCtxByBlock b)) s' (StateStorage c) = Inr (sr', d1)"
    "MAddKeyValuesAndCommit ks vs (LocStorage c) = (Inr lr', l1)"
    using updateTrieByBlock_Inr [OF upd] by blast
  have "sr' = state_IntermediateRoot (vmi c) s'"
    using wf commit_root [OF _ u(3)] by (simp add: chain_wf_def)
  moreover have "MAddKeyValuesPreview ks vs (LocStorage c) = Inr lr'"
    using wf u(4) by (auto simp: chain_wf_def intro: loc_trie.commit_preview)
  ultimately show ?thesis using prev u(1,2) by (auto simp: previewStateRootByBlock_def)
qed

lemma GenerateBlock_roots:
  assumes wf: "chain_wf c" and gen: "GenerateBlock c now miner bt txs addrs sts = Inr b"
    and upd: "updateTrieByBlock c b = (Inr (sr, lr), c')"
  shows "sr = StateRoot (Header b) \<and> lr = LocationRoot (Header b)"
proof -
  let ?b = "b\<lparr>Header := (Header b)\<lparr>StateRoot := [], LocationRoot := []\<rparr>\<rparr>"
  have ctx: "getBlockCtxByBlock ?b = getBlockCtxByBlock b" by (simp add: getBlockCtxByBlock_def)
  have "updateTrieByBlock c ?b = updateTrieByBlock c b"
    unfolding updateTrieByBlock_def calcStateModification_roots ctx ..
  then show ?thesis using previewed_roots_committed [OF wf GenerateBlock_preview [OF gen]] upd by simp
qed

text \<open>Everything a successful \<open>AddBlock\<close> does.\<close>

lemma AddBlock_Inr:
  assumes "AddBlock c b = (Inr (), c')"
  shows "\<exists>h x y rs c1 s1. Header_Hash (codec c) (Header b) = Inr h \<and> blk_Encode (codec c) b = Inr x \<and>
    hdr_Encode (codec c) (Header b) = Inr y \<and> updateTrieByBlock c b = (Inr rs, c1) \<and>
    Store_AddBlock h x y (BlockStorage c) = (Inr (), s1) \<and> c' = c1\<lparr>BlockStorage := s1, curHeader := Header b\<rparr>"
  using assms updateTrieByBlock_frame [of c b]
  by (auto simp: AddBlock_def split: sum.splits prod.splits)

lemma AddBlock_wf [inv_rules]:
  assumes wf: "chain_wf c" and add: "AddBlock c b = (Inr (), c')"
  shows "chain_wf c'" "curHeader c' = Header b" "codec c' = codec c" "vmi c' = vmi c" "shardID c' = shardID c"
    "epochID c' = epochID c" "chain_cfg c' = chain_cfg c"
proof -
  obtain h x y sr lr c1 s1 where a: "updateTrieByBlock c b = (Inr (sr, lr), c1)"
    "Store_AddBlock h x y (BlockStorage c) = (Inr (), s1)" "c' = c1\<lparr>BlockStorage := s1, curHeader := Header b\<rparr>"
    using AddBlock_Inr [OF add] by force
  obtain ks vs l1 where l1: "MAddKeyValuesAndCommit ks vs (LocStorage c) = (Inr lr, l1)" "LocStorage c1 = l1"
    using updateTrieByBlock_Inr [OF a(1)] by force
  note fr = updateTrieByBlock_frame [OF a(1)]
  show "curHeader c' = Header b" "codec c' = codec c" "vmi c' = vmi c" "shardID c' = shardID c"
    "epochID c' = epochID c" "chain_cfg c' = chain_cfg c"
    using fr a(3) by simp_all
  have "bolt_wf s1" using wf a(2) by (auto simp: chain_wf_def intro: bolt_block.add_wf)
  moreover have "trie_wf l1" using wf l1(1) by (auto simp: chain_wf_def intro: loc_trie.commit_wf)
  ultimately show "chain_wf c'" using wf fr a(3) l1(2) by (simp add: chain_wf_def)
qed

section \<open>Retrieving blocks\<close>

text \<open>\<open>chain_holds c bs\<close>: the blocks \<open>bs\<close>, oldest first, are linked by their parent hashes, are all in
  the block store under their hash, and the last one is the head.\<close>

definition blk_stored :: "('s, 'd, 'db, 't, 'n, 'td) chain \<Rightarrow> block \<Rightarrow> bool" where
  "blk_stored c b \<longleftrightarrow> (\<exists>h x. Header_Hash (codec c) (Header b) = Inr h \<and>
     GetBlockByHash (BlockStorage c) h = Inr x \<and> blk_Decode (codec c) x = Inr b)"

fun linked :: "'t codec \<Rightarrow> block list \<Rightarrow> bool" where
  "linked cd (a # b # bs) \<longleftrightarrow>
     Header_Hash cd (Header a) = Inr (ParentBlockHash (Header b)) \<and>
     Number (Header b) = Number (Header a) + 1 \<and> linked cd (b # bs)"
| "linked cd _ \<longleftrightarrow> True"

definition chain_holds :: "('s, 'd, 'db, 't, 'n, 'td) chain \<Rightarrow> block list \<Rightarrow> bool" where
  "chain_holds c bs \<longleftrightarrow> bs \<noteq> [] \<and> curHeader c = Header (last bs) \<and> linked (codec c) bs \<and> (\<forall>b\<in>set bs. blk_stored c b)"

lemma linked_snoc:
  "bs \<noteq> [] \<Longrightarrow> linked cd (bs @ [b]) \<longleftrightarrow> linked cd bs \<and>
   Header_Hash cd (Header (last bs)) = Inr (ParentBlockHash (Header b)) \<and> Number (Header b) = Number (Header (last bs)) + 1"
proof (induction bs)
  case (Cons a bs)
  show ?case
  proof (cases bs)
    case (Cons b' bs')
    with Cons.IH show ?thesis by auto
  qed auto
qed simp

lemma linked_append: "linked cd (xs @ ys) \<Longrightarrow> linked cd ys"
proof (induction xs)
  case (Cons x xs)
  then show ?case by (cases "xs @ ys") (auto simp: Cons_eq_append_conv)
qed simp

lemma linked_number: "linked cd bs \<Longrightarrow> i < length bs \<Longrightarrow> Number (Header (bs ! i)) = Number (Header (hd bs)) + of_nat i"
proof (induction cd bs arbitrary: i rule: linked.induct)
  case (1 cd a b bs)
  then show ?case by (cases i) auto
qed (auto simp: nth_Cons split: nat.splits)

lemma AddBlock_stored:
  assumes wf: "chain_wf c" and add: "AddBlock c b = (Inr (), c')"
  shows "blk_stored c' b"
    "blk_stored c b0 \<Longrightarrow> Header_Hash (codec c) (Header b0) \<noteq> Header_Hash (codec c) (Header b) \<Longrightarrow> blk_stored c' b0"
proof -
  obtain h x y rs c1 s1 where a: "Header_Hash (codec c) (Header b) = Inr h" "blk_Encode (codec c) b = Inr x"
    "Store_AddBlock h x y (BlockStorage c) = (Inr (), s1)" "c' = c1\<lparr>BlockStorage := s1, curHeader := Header b\<rparr>"
    using AddBlock_Inr [OF add] by blast
  have bolt: "bolt_wf (BlockStorage c)" using wf by (simp add: chain_wf_def)
  have get: "GetBlockByHash (BlockStorage c') k = (if k = h then Inr x else GetBlockByHash (BlockStorage c) k)" for k
    using bolt_block.add_get [OF bolt a(3)] a(4) by simp
  have cd: "codec c' = codec c" by (rule AddBlock_wf(3) [OF wf add])
  show "blk_stored c' b"
    using a(1,2) wf by (auto simp: blk_stored_def get cd chain_wf_def dest: blk_roundtrip)
  show "blk_stored c b0 \<Longrightarrow> Header_Hash (codec c) (Header b0) \<noteq> Header_Hash (codec c) (Header b) \<Longrightarrow> blk_stored c' b0"
    using a(1) by (auto simp: blk_stored_def get cd)
qed

lemma AddBlock_chain_holds:
  assumes wf: "chain_wf c" and add: "AddBlock c b = (Inr (), c')" and holds: "chain_holds c bs"
    and link: "Header_Hash (codec c) (curHeader c) = Inr (ParentBlockHash (Header b))"
      "Number (Header b) = Number (curHeader c) + 1"
    and fresh: "\<And>b0. b0 \<in> set bs \<Longrightarrow> Header_Hash (codec c) (Header b0) \<noteq> Header_Hash (codec c) (Header b)"
  shows "chain_holds c' (bs @ [b])"
  using holds link fresh AddBlock_wf [OF wf add] AddBlock_stored [OF wf add]
  by (auto simp: chain_holds_def linked_snoc)

text \<open>A new chain holds its genesis block, whose number is one.\<close>

lemma NewChain_wf [inv_rules]:
  assumes new: "NewChain v cd (Inr (d, bs, lt)) cf l now = Inr c"
    and ok: "bolt_wf bs" "trie_wf lt" "codec_ok cd" "commit_ok v"
  shows "chain_wf c" "\<exists>g. chain_holds c [g] \<and> Number (Header g) = 1" "shardID c = lp_ShardID l" "chain_cfg c = cf"
    "codec c = cd" "vmi c = v"
proof -
  let ?c = "\<lparr>vmi = v, codec = cd, StateStorage = d, BlockStorage = bs, LocStorage = lt,
    curHeader = \<lparr>ParentBlockHash = [], StateRoot = EmptyRootHash (eth lt), Number = 0, BlockType = 0,
      Miner = EmptyAccountAddr, BlockCreateTime = 0, LocationRoot = [], TxRoot = [],
      Bloom = zero_bloom, MigratedAccountsRoot = []\<rparr>,
    shardID = lp_ShardID l, epochID = 0, chain_cfg = cf\<rparr>"
  obtain g c1 where i: "initWithGenesisBlock now ?c = (Inr g, c1)" and c: "c = c1\<lparr>curHeader := Header g\<rparr>"
    using new by (auto simp: NewChain_def Let_def split: sum.splits prod.splits)
  then have gen: "GenerateBlock ?c now EmptyAccountAddr TxBlockType [] [] [] = Inr g" and add: "AddBlock ?c g = (Inr (), c1)"
    by (auto simp: initWithGenesisBlock_def split: sum.splits prod.splits)
  have wf: "chain_wf ?c" using ok by (simp add: chain_wf_def)
  note a = AddBlock_wf [OF wf add] and st = AddBlock_stored(1) [OF wf add]
  have c1: "c = c1" using a(2) c by simp
  show "chain_wf c" "shardID c = lp_ShardID l" "chain_cfg c = cf" "codec c = cd" "vmi c = v" using a c1 by simp_all
  have "Number (Header g) = 1" using GenerateBlock_Inr(2) [OF gen] by simp
  then show "\<exists>g. chain_holds c [g] \<and> Number (Header g) = 1" using a(2) st c1 by (auto simp: chain_holds_def)
qed

lemma fetch_blocks_linked:
  assumes "bs \<noteq> []" "linked (codec c) bs" "\<forall>b\<in>set bs. blk_stored c b" "n \<le> length bs"
    "Header_Hash (codec c) (Header (last bs)) = Inr h"
  shows "fetch_blocks c n h acc = Inr (drop (length bs - n) bs @ acc)"
  using assms
proof (induction n arbitrary: bs h acc)
  case (Suc n)
  obtain ys b where bs: "bs = ys @ [b]" using Suc.prems(1) by (cases bs rule: rev_cases) auto
  obtain x where x: "GetBlockByHash (BlockStorage c) h = Inr x" "blk_Decode (codec c) x = Inr b"
    using Suc.prems(3,5) bs by (auto simp: blk_stored_def)
  show ?case
  proof (cases "ys = []")
    case True
    then have "n = 0" using Suc.prems(4) bs by simp
    with x bs True show ?thesis by simp
  next
    case False
    then have "linked (codec c) ys" "Header_Hash (codec c) (Header (last ys)) = Inr (ParentBlockHash (Header b))"
      using Suc.prems(2) bs by (auto simp: linked_snoc)
    with Suc.IH [OF False] Suc.prems(3,4) bs have
      "fetch_blocks c n (ParentBlockHash (Header b)) (b # acc) = Inr (drop (length ys - n) ys @ b # acc)" by simp
    with x bs Suc.prems(4) show ?thesis by simp
  qed
qed simp

lemma chain_holds_length:
  assumes holds: "chain_holds c bs" and nowrap: "uint (Number (Header (hd bs))) + int (length bs) \<le> 2 ^ 63"
  shows "uint (Number (curHeader c)) = uint (Number (Header (hd bs))) + int (length bs) - 1"
proof -
  let ?n = "Number (curHeader c)" and ?f = "Number (Header (hd bs))"
  have bs: "bs \<noteq> []" "curHeader c = Header (last bs)" "linked (codec c) bs"
    using holds by (auto simp: chain_holds_def)
  have "?n = ?f + of_nat (length bs - 1)"
    using linked_number [OF bs(3), of "length bs - 1"] bs(1,2) by (simp add: last_conv_nth)
  moreover have "uint (of_nat (length bs - 1) :: 64 word) = int (length bs) - 1"
  proof -
    have "int (length bs) \<le> 2 ^ 63" using nowrap uint_ge_0 [of ?f] by linarith
    then have "length bs - 1 < 2 ^ 64" by simp
    with bs(1) show ?thesis by (cases bs) (simp_all add: unsigned_of_nat take_bit_nat_eq_self)
  qed
  moreover have "uint ?f + (int (length bs) - 1) < 2 ^ 64" using nowrap by simp
  ultimately show ?thesis
    using uint_add_lem [of ?f "of_nat (length bs - 1)"] by simp
qed

lemma GetBlocksAfterHeight_spec:
  assumes holds: "chain_holds c bs" and small: "uint (Number (curHeader c)) < 2 ^ 63"
    and first: "uint (Number (Header (hd bs))) \<le> begin" and pos: "0 < begin" and le: "begin \<le> uint (Number (curHeader c)) + 1"
    and limit: "uint (Number (curHeader c)) - begin + 1 \<le> blocksFetchLimit"
    and nowrap: "uint (Number (Header (hd bs))) + int (length bs) \<le> 2 ^ 63"
  shows "GetBlocksAfterHeight c begin = Inr (drop (nat (begin - uint (Number (Header (hd bs))))) bs)"
proof -
  let ?n = "Number (curHeader c)" and ?f = "Number (Header (hd bs))"
  have bs: "bs \<noteq> []" "curHeader c = Header (last bs)" "linked (codec c) bs" "\<forall>b\<in>set bs. blk_stored c b"
    using holds by (auto simp: chain_holds_def)
  note len = chain_holds_length [OF holds nowrap]
  note sint = sint_small [OF small]
  let ?cnt = "uint ?n - begin + 1"
  have "in_int64 ?cnt" using le pos small by (simp add: in_int64_def)
  then have cnt: "wrap64 (sint ?n - begin + 1) = ?cnt" by (simp add: sint)
  obtain h where h: "Header_Hash (codec c) (curHeader c) = Inr h"
    using bs last_in_set [OF bs(1)] by (fastforce simp: blk_stored_def)
  have "nat ?cnt \<le> length bs" using first len by simp
  then have "fetch_blocks c (nat ?cnt) h [] = Inr (drop (length bs - nat ?cnt) bs)"
    using fetch_blocks_linked [OF bs(1,3,4)] h bs(2) by simp
  moreover have "length bs - nat ?cnt = nat (begin - uint ?f)" using len first le by simp
  ultimately show ?thesis
    using pos limit by (simp add: GetBlocksAfterHeight_def cnt h)
qed

section \<open>Locations\<close>

lemma apply_migrated_Inr:
  "apply_migrated c addrs sts s = Inr (ks, vs, s') \<Longrightarrow> ks = addrs \<and> length vs = length addrs \<and>
   length addrs \<le> length sts \<and> (\<forall>i<length addrs. loc_Encode (codec c) (st_ShardLocation (sts ! i)) = Inr (vs ! i))"
proof (induction c addrs sts s arbitrary: ks vs s' rule: apply_migrated.induct)
  case (3 c a as st sts s)
  obtain s1 l ks' vs' where r: "loc_Encode (codec c) (st_ShardLocation st) = Inr l"
    "apply_migrated c as sts s1 = Inr (ks', vs', s')" "ks = a # ks'" "vs = l # vs'"
    and s1: "(if st_ShardLocation st = of_int (shardID c) then setMigratedStates2VMTrie (vmi c) a st s else (Inr (), s)) = (Inr (), s1)"
    using "3.prems" by (auto split: sum.splits prod.splits if_splits)
  from "3.IH" [OF s1 [symmetric] refl r(1,2)] r show ?case by (auto simp: nth_Cons split: nat.splits)
qed auto

text \<open>The location of an account as the chain reads it.\<close>

definition acc_loc :: "('s, 'd, 'db, 't, 'n, 'td) chain \<Rightarrow> address \<Rightarrow> int result" where
  "acc_loc c a =
     (case trie_val (LocStorage c) a of Inl e \<Rightarrow> Inl e
      | Inr None \<Rightarrow> Inr (DefaultAccountLoc a (ShardNum (cn_Sys (chain_cfg c))))
      | Inr (Some l) \<Rightarrow> (case loc_Decode (codec c) l of Inl e \<Rightarrow> Inl e | Inr w \<Rightarrow> Inr (sint w)))"

lemma decode_locs_Inr:
  assumes "list_all2 (\<lambda>k v. trie_val (LocStorage c) k = Inr v) as ls"
    "decode_locs (codec c) (ShardNum (cn_Sys (chain_cfg c))) as ls = Inr locs"
  shows "list_all2 (\<lambda>a l. acc_loc c a = Inr l) as locs"
  using assms by (induction as ls arbitrary: locs rule: list_all2_induct)
    (auto simp: acc_loc_def split: option.splits sum.splits)

lemma getAccountLocations_acc_loc:
  "getAccountLocations c as = Inr locs \<Longrightarrow> list_all2 (\<lambda>a l. acc_loc c a = Inr l) as locs"
  by (auto simp: getAccountLocations_def split: sum.splits intro: decode_locs_Inr MGetValsByKeys_val)

lemma DefaultAccountLoc_range: "0 < n \<Longrightarrow> 0 \<le> DefaultAccountLoc a n \<and> DefaultAccountLoc a n < n"
  by (simp add: DefaultAccountLoc_def go_rem_bounds)

lemma tx_accounts_fst: "fst ` set (tx_accounts txs) = Sender ` set txs \<union> Recipient ` set txs"
proof -
  have "fst ` set (fold (\<lambda>tx m. AList.update (Recipient tx) (- 1) (AList.update (Sender tx) (- 1) m)) txs m) =
    fst ` set m \<union> Sender ` set txs \<union> Recipient ` set txs" for m :: "(address, int) gomap"
    by (induction txs arbitrary: m) (auto simp: fst_set_AList_update)
  then show ?thesis by (simp add: tx_accounts_def)
qed

lemma tx_accounts_distinct: "distinct (map fst (tx_accounts txs))"
proof -
  have "distinct (map fst m) \<Longrightarrow>
    distinct (map fst (fold (\<lambda>tx m. AList.update (Recipient tx) (- 1) (AList.update (Sender tx) (- 1) m)) txs m))"
    for m :: "(address, int) gomap"
    by (induction txs arbitrary: m) auto
  then show ?thesis by (simp add: tx_accounts_def)
qed

lemma fold_update_zip:
  "distinct ks \<Longrightarrow> length ks = length vs \<Longrightarrow>
   map_of (fold (\<lambda>(a, l). AList.update a l) (zip ks vs) m) k = (case map_of (zip ks vs) k of Some v \<Rightarrow> Some v | None \<Rightarrow> map_of m k)"
proof (induction ks arbitrary: vs m)
  case (Cons a ks)
  then obtain v vs' where vs: "vs = v # vs'" by (cases vs) auto
  have none: "map_of (zip ks vs') a = None"
    using Cons.prems vs by (simp add: map_of_zip_is_None)
  have IH: "map_of (fold (\<lambda>(a, l). AList.update a l) (zip ks vs') (AList.update a v m)) k =
      (case map_of (zip ks vs') k of Some v \<Rightarrow> Some v | None \<Rightarrow> map_of (AList.update a v m) k)"
    using Cons.prems vs by (intro Cons.IH) auto
  show ?case using IH none vs by (cases "k = a") (simp_all add: AList_update_lookup split: option.split)
qed simp

text \<open>Every account of the transactions is in the resulting map, with the location the chain has for it.\<close>

lemma getAccountLocationsInTxs_Inr:
  assumes "getAccountLocationsInTxs c txs = Inr m" "a \<in> Sender ` set txs \<union> Recipient ` set txs"
  shows "\<exists>l. map_of m a = Some l \<and> acc_loc c a = Inr l"
proof -
  let ?ks = "map fst (tx_accounts txs)"
  obtain locs where l: "getAccountLocations c ?ks = Inr locs"
    and m: "m = fold (\<lambda>(a, l). AList.update a l) (zip ?ks locs) (tx_accounts txs)"
    using assms(1) by (auto simp: getAccountLocationsInTxs_def Let_def split: sum.splits)
  note all = getAccountLocations_acc_loc [OF l]
  have len: "length ?ks = length locs" using all by (rule list_all2_lengthD)
  have "a \<in> set ?ks" using assms(2) tx_accounts_fst [of txs] by auto
  then obtain i where i: "i < length ?ks" "a = ?ks ! i" by (metis in_set_conv_nth)
  have "map_of (zip ?ks locs) a = Some (locs ! i)"
    unfolding i(2) by (rule map_of_zip_nth [OF len tx_accounts_distinct]) (use i len in simp)
  then have "map_of m a = Some (locs ! i)"
    unfolding m by (simp add: fold_update_zip [OF tx_accounts_distinct len])
  moreover have "acc_loc c a = Inr (locs ! i)" using list_all2_nthD [OF all i(1)] i(2) by simp
  ultimately show ?thesis by blast
qed

text \<open>Adding a migration block moves exactly the migrated accounts to the locations in the block.\<close>

lemma AddBlock_locations:
  assumes wf: "chain_wf c" and add: "AddBlock c b = (Inr (), c')" and dist: "distinct (MigratedAddrs b)"
  shows "i < length (MigratedAddrs b) \<Longrightarrow>
      acc_loc c' (MigratedAddrs b ! i) = Inr (sint (st_ShardLocation (MigratedStates b ! i)))"
    and "a \<notin> set (MigratedAddrs b) \<Longrightarrow> acc_loc c' a = acc_loc c a"
proof -
  obtain sr lr c1 s1 where a: "updateTrieByBlock c b = (Inr (sr, lr), c1)" "c' = c1\<lparr>BlockStorage := s1, curHeader := Header b\<rparr>"
    using AddBlock_Inr [OF add] by force
  obtain s ks vs s' l1 where u: "calcStateModification c b s = Inr (ks, vs, s')"
    "MAddKeyValuesAndCommit ks vs (LocStorage c) = (Inr lr, l1)" "LocStorage c1 = l1"
    using updateTrieByBlock_Inr [OF a(1)] by force
  obtain s0 where m: "apply_migrated c (MigratedAddrs b) (MigratedStates b) s0 = Inr (ks, vs, s')"
    using u(1) by (auto simp: calcStateModification_def split: sum.splits)
  note am = apply_migrated_Inr [OF m]
  have trie: "trie_wf (LocStorage c)" and cd: "codec_ok (codec c)" using wf by (auto simp: chain_wf_def)
  have loc: "LocStorage c' = l1" using a(2) u(3) by simp
  have same: "codec c' = codec c" "chain_cfg c' = chain_cfg c" using AddBlock_wf [OF wf add] by auto
  have val: "trie_val l1 k = trie_bind ks vs k (trie_val (LocStorage c) k)" for k
    by (rule loc_trie.commit_val [OF trie u(2)])
  have rev: "map_of (rev (zip ks vs)) = map_of (zip ks vs)" using am dist by (intro map_of_rev_distinct) simp
  show "acc_loc c' (MigratedAddrs b ! i) = Inr (sint (st_ShardLocation (MigratedStates b ! i)))"
    if i: "i < length (MigratedAddrs b)"
  proof -
    have "map_of (zip ks vs) (MigratedAddrs b ! i) = Some (vs ! i)"
      using am dist i by (simp add: map_of_zip_nth)
    moreover have "loc_Decode (codec c) (vs ! i) = Inr (st_ShardLocation (MigratedStates b ! i)) \<and> vs ! i \<noteq> []"
      using am i by (intro loc_roundtrip [OF cd]) simp
    ultimately show ?thesis by (simp add: acc_loc_def loc val trie_bind_def rev same)
  qed
  show "acc_loc c' a = acc_loc c a" if "a \<notin> set (MigratedAddrs b)"
  proof -
    have "map_of (zip ks vs) a = None" using am that by (auto simp: map_of_eq_None_iff dest: set_zip_leftD)
    then have "trie_val l1 a = trie_val (LocStorage c) a" by (simp add: val trie_bind_def rev)
    then show ?thesis unfolding acc_loc_def loc same by simp
  qed
qed

section \<open>Balances over a block\<close>

lemma eff_nonneg: "0 \<le> eff v s a"
  by (simp add: eff_def)

lemma eff_le_total: "finite A \<Longrightarrow> a \<in> A \<Longrightarrow> eff v s a \<le> total v A s"
  unfolding total_def by (rule member_le_sum) (auto simp: eff_nonneg)

lemma eff_two_le_total:
  assumes "finite A" "a \<in> A" "b \<in> A" "a \<noteq> b"
  shows "eff v s a + eff v s b \<le> total v A s"
proof -
  have "sum (eff v s) {a, b} \<le> sum (eff v s) A"
    using assms by (intro sum_mono2) (auto simp: eff_nonneg)
  with assms(4) show ?thesis by (simp add: total_def)
qed

text \<open>The amount that enters (positive) or leaves (negative) the shard with a transaction.\<close>

definition net_flow :: "(address, int) gomap \<Rightarrow> int \<Rightarrow> transaction \<Rightarrow> int" where
  "net_flow loc shard tx =
     (if TxType tx \<noteq> RelayTxType then 0
      else if RelayStage tx = Relay1Tx then (if map_get loc (Sender tx) 0 = shard then - Value tx else 0)
      else if map_get loc (Recipient tx) 0 = shard then Value tx else 0)"

lemma txExecute_flow:
  assumes ok: "statedb_ok (vmi c)" and run: "txExecute c ctx loc tx s = (Inr (), s')"
    and kind: "TxType tx \<in> {NormalTxType, RelayTxType}"
    and A: "finite A" "Sender tx \<in> A" "Recipient tx \<in> A"
    and room: "total (vmi c) A s + max 0 (net_flow loc (shardID c) tx) < 2 ^ 256"
  shows "total (vmi c) A s' = total (vmi c) A s + net_flow loc (shardID c) tx"
proof (cases "TxType tx = NormalTxType")
  case True
  then have nrm: "normalTxExecute (vmi c) tx s = (Inr (), s')"
    using run by (cases "normalTxExecute (vmi c) tx s") (auto simp: txExecute_def)
  have le: "0 \<le> Value tx \<and> Value tx \<le> eff (vmi c) s (Sender tx)"
    by (rule normalTxExecute_covered [OF ok nrm])
  have "eff (vmi c) s (Recipient tx) + Value tx < 2 ^ 256" if "Sender tx \<noteq> Recipient tx"
    using eff_two_le_total [OF A that, of "vmi c" s] le room by (simp add: net_flow_def True)
  with total_shift [OF A(1) normalTxExecute_eff [OF ok nrm]] A True show ?thesis
    by (simp add: net_flow_def)
next
  case False
  then have rel: "TxType tx = RelayTxType" using kind by simp
  then have run': "relayTxExecute (vmi c) loc (shardID c) tx s = (Inr (), s')"
    using run by (cases "relayTxExecute (vmi c) loc (shardID c) tx s") (auto simp: txExecute_def)
  have stage: "RelayStage tx = Relay1Tx \<or> RelayStage tx = Relay2Tx"
    using run' by (auto simp: relayTxExecute_def split: sum.splits if_splits)
  show ?thesis
  proof (cases "RelayStage tx = Relay1Tx")
    case True
    show ?thesis
    proof (cases "map_get loc (Sender tx) 0 = shardID c")
      case here: True
      have "total (vmi c) A s' = total (vmi c) A s - Value tx"
        unfolding total_def using relay1_eff(1) [OF ok run' True here] A by (simp add: sum_subtractf)
      with True here rel show ?thesis by (simp add: net_flow_def)
    next
      case there: False
      with run' True have "s' = s" by (auto simp: relayTxExecute_def split: sum.splits)
      with True there rel show ?thesis by (simp add: net_flow_def)
    qed
  next
    case r2: False
    with stage have r2: "RelayStage tx = Relay2Tx" by simp
    show ?thesis
    proof (cases "map_get loc (Recipient tx) 0 = shardID c")
      case here: True
      have "eff (vmi c) s (Recipient tx) + Value tx < 2 ^ 256"
        using eff_le_total [OF A(1,3), of "vmi c" s] room r2 here rel by (simp add: net_flow_def)
      from relay2_eff [OF ok run' r2 here this] have "total (vmi c) A s' = total (vmi c) A s + Value tx"
        unfolding total_def using A by (simp add: sum.distrib)
      with r2 here rel show ?thesis by (simp add: net_flow_def)
    next
      case there: False
      with run' r2 have "s' = s" by (auto simp: relayTxExecute_def split: sum.splits)
      with r2 there rel show ?thesis by (simp add: net_flow_def)
    qed
  qed
qed

lemma exec_txs_flow:
  assumes ok: "statedb_ok (vmi c)" and A: "finite A" "Sender ` set txs \<union> Recipient ` set txs \<subseteq> A"
    and kind: "\<forall>tx\<in>set txs. TxType tx \<in> {NormalTxType, RelayTxType}"
  shows "exec_txs c ctx loc txs s = Inr s' \<Longrightarrow>
    total (vmi c) A s + (\<Sum>tx\<leftarrow>txs. max 0 (net_flow loc (shardID c) tx)) < 2 ^ 256 \<Longrightarrow>
    total (vmi c) A s' = total (vmi c) A s + (\<Sum>tx\<leftarrow>txs. net_flow loc (shardID c) tx)"
  using A kind
proof (induction txs arbitrary: s)
  case (Cons tx txs)
  let ?mx = "\<lambda>tx. max 0 (net_flow loc (shardID c) tx)"
  obtain s1 where s1: "txExecute c ctx loc tx s = (Inr (), s1)" "exec_txs c ctx loc txs s1 = Inr s'"
    using Cons.prems(1) by (auto split: sum.splits prod.splits)
  have pos: "0 \<le> (\<Sum>tx\<leftarrow>txs. ?mx tx)" by (rule sum_list_nonneg) auto
  then have "total (vmi c) A s + ?mx tx < 2 ^ 256" using Cons.prems(2) by simp
  then have t1: "total (vmi c) A s1 = total (vmi c) A s + net_flow loc (shardID c) tx"
    using Cons.prems by (intro txExecute_flow [OF ok s1(1)]) auto
  have "total (vmi c) A s1 + (\<Sum>tx\<leftarrow>txs. ?mx tx) < 2 ^ 256" using Cons.prems(2) t1 by simp
  with Cons.IH [OF s1(2)] Cons.prems t1 show ?case by simp
qed simp

text \<open>
  An account whose balance is spent completely is empty (no transfer raises its nonce), so the
  commit deletes it, and the next transaction that touches it gives it the initial balance again.
\<close>

lemma drained_account_reset:
  assumes ok: "statedb_ok v" "commit_ok v" and commit: "state_Commit v n s d = Inr (r, d1)" "trieDB_Commit v r d1 = Inr d2"
    and drained: "db_GetBalance v s a = 0" "db_GetNonce v s a = 0"
  shows "\<exists>s2. state_New v r d2 = Inr s2 \<and> eff v s2 a = uint (normalInitBalance v)"
  using commit_reopen [OF ok(2) commit] drained by (auto simp: eff_def)

end
