(* ===== verification/Tx_Pool.thy ===== *)
theory Tx_Pool
  imports Core_Types
begin

text \<open>
  \<open>pkg/core/txpool\<close>: the transaction pool. The interface \<open>TxPool\<close> is the locale
  \<open>tx_pool_spec\<close> (a first-in-first-out buffer with an abstraction to the buffered list); the
  client lemmas proved in it say that no transaction is lost, duplicated or reordered by any
  sequence of calls. The queue implementation interprets it for both packing functions.
  The lemmas on \<open>packTxsByGivenBytes\<close> describe what its size test really does.

  \<open>enc\<close> is \<open>Transaction.Encode\<close> (the third-party \<open>rlp\<close>).
\<close>

section \<open>The queue implementation\<close>

type_synonym pack_fn = "transaction list \<Rightarrow> int \<Rightarrow> (transaction list \<times> transaction list) result"

record tx_pool =
  queue :: "transaction list"
  pf :: pack_fn
  pool_type :: string

definition packTxsByGivenNum :: pack_fn where
  "packTxsByGivenNum q n =
     (let len = (if int (length q) > n then n else int (length q))
      in if len < 0 then Inl (Panic ''makeslice: len out of range'')
         else Inr (take (nat len) q, drop (nat len) q))"

text \<open>The loop of \<open>packTxsByGivenBytes\<close>: it returns \<open>endIdx\<close>.\<close>

fun packBytes_loop ::
  "(transaction \<Rightarrow> bytes result) \<Rightarrow> int \<Rightarrow> nat \<Rightarrow> nat \<Rightarrow> transaction list \<Rightarrow> nat result" where
  "packBytes_loop enc n i endIdx [] = Inr endIdx"
| "packBytes_loop enc n i endIdx (tx # txs) =
     (case enc tx of Inl e \<Rightarrow> Inl e
      | Inr b \<Rightarrow>
        (let size = int (length b) in
         if size < n then Inr endIdx
         else packBytes_loop enc (n - size) (i + 1) (i + 1) txs))"

definition packTxsByGivenBytes :: "(transaction \<Rightarrow> bytes result) \<Rightarrow> pack_fn" where
  "packTxsByGivenBytes enc q n =
     (case packBytes_loop enc n 0 0 q of Inl e \<Rightarrow> Inl e
      | Inr endIdx \<Rightarrow> Inr (take endIdx q, drop endIdx q))"

definition NewTxPool :: "(transaction \<Rightarrow> bytes result) \<Rightarrow> string \<Rightarrow> tx_pool result" where
  "NewTxPool enc typ =
     (if typ = ''byte'' then Inr \<lparr>queue = [], pf = packTxsByGivenBytes enc, pool_type = typ\<rparr>
      else if typ = ''number'' then Inr \<lparr>queue = [], pf = packTxsByGivenNum, pool_type = typ\<rparr>
      else Inl (Errorf ''unknown tx pool type''))"

definition AddTxs :: "transaction list \<Rightarrow> tx_pool \<Rightarrow> tx_pool" where
  "AddTxs txs t = t\<lparr>queue := queue t @ txs\<rparr>"

definition PackTxs :: "int \<Rightarrow> tx_pool \<Rightarrow> transaction list result \<times> tx_pool" where
  "PackTxs limit t =
     (case pf t (queue t) limit of
        Inl e \<Rightarrow> (Inl (Wrapf ''call pack tx func err'' e), t)
      | Inr (packed, q) \<Rightarrow> (Inr packed, t\<lparr>queue := q\<rparr>))"

definition getCurSizeOfNum :: "transaction list \<Rightarrow> int result" where
  "getCurSizeOfNum txs = Inr (int (length txs))"

fun getCurSizeOfByte_loop ::
  "(transaction \<Rightarrow> bytes result) \<Rightarrow> int \<Rightarrow> transaction list \<Rightarrow> int result" where
  "getCurSizeOfByte_loop enc cnt [] = Inr cnt"
| "getCurSizeOfByte_loop enc cnt (tx # txs) =
     (case enc tx of Inl e \<Rightarrow> Inl e
      | Inr b \<Rightarrow> getCurSizeOfByte_loop enc (cnt + int (length b)) txs)"

definition getCurSizeOfByte :: "(transaction \<Rightarrow> bytes result) \<Rightarrow> transaction list \<Rightarrow> int result" where
  "getCurSizeOfByte enc txs = getCurSizeOfByte_loop enc 0 txs"

definition GetTxListSize ::
  "(transaction \<Rightarrow> bytes result) \<Rightarrow> transaction list \<Rightarrow> tx_pool \<Rightarrow> int result" where
  "GetTxListSize enc txs t =
     (if pool_type t = ''byte'' then getCurSizeOfByte enc txs
      else if pool_type t = ''number'' then getCurSizeOfNum txs
      else Inl (Errorf ''unknown tx pool type''))"

text \<open>A pool built by \<open>NewTxPool\<close>, whatever is buffered.\<close>

definition pool_wf :: "(transaction \<Rightarrow> bytes result) \<Rightarrow> tx_pool \<Rightarrow> bool" where
  "pool_wf enc t \<longleftrightarrow>
     pool_type t = ''byte'' \<and> pf t = packTxsByGivenBytes enc
   \<or> pool_type t = ''number'' \<and> pf t = packTxsByGivenNum"

section \<open>Packing\<close>

lemma packTxsByGivenNum_Inr:
  "packTxsByGivenNum q n = Inr (p, r) \<Longrightarrow> p @ r = q \<and> int (length p) = min n (int (length q))"
  by (auto simp: packTxsByGivenNum_def Let_def min_def split: if_splits)

lemma packTxsByGivenNum_total: "0 \<le> n \<Longrightarrow> \<exists>p r. packTxsByGivenNum q n = Inr (p, r)"
  by (auto simp: packTxsByGivenNum_def Let_def)

lemma packTxsByGivenBytes_append:
  "packTxsByGivenBytes enc q n = Inr (p, r) \<Longrightarrow> p @ r = q"
  by (auto simp: packTxsByGivenBytes_def split: sum.splits)

lemma pool_wf_append:
  "pool_wf enc t \<Longrightarrow> pf t q n = Inr (p, r) \<Longrightarrow> p @ r = q"
  by (auto simp: pool_wf_def packTxsByGivenBytes_append dest: packTxsByGivenNum_Inr)

text \<open>Once the remaining budget is not positive, the test never stops the loop again.\<close>

lemma packBytes_loop_exhausted:
  assumes "n \<le> 0" "\<And>tx. tx \<in> set q \<Longrightarrow> is_ok (enc tx)"
  shows "packBytes_loop enc n i e q = Inr (if q = [] then e else i + length q)"
  using assms
proof (induction q arbitrary: n i e)
  case (Cons tx txs)
  from Cons.prems(2) [of tx] obtain b where b: "enc tx = Inr b" by (auto simp: is_ok_iff)
  have "n - int (length b) \<le> 0" using Cons.prems(1) by simp
  from Cons.IH [OF this] Cons.prems b show ?case by auto
qed simp

lemma packTxsByGivenBytes_dichotomy:
  assumes "\<And>tx. tx \<in> set q \<Longrightarrow> is_ok (enc tx)"
  shows "packTxsByGivenBytes enc q n =
    Inr (case q of [] \<Rightarrow> ([], [])
         | tx # txs \<Rightarrow> (case enc tx of Inr b \<Rightarrow>
             if int (length b) < n then ([], q) else (q, [])))"
proof (cases q)
  case (Cons tx txs)
  with assms obtain b where b: "enc tx = Inr b" by (auto simp: is_ok_iff)
  show ?thesis
  proof (cases "int (length b) < n")
    case False
    then have "packBytes_loop enc (n - int (length b)) 1 1 txs = Inr (Suc (length txs))"
      using assms Cons by (subst packBytes_loop_exhausted) auto
    then show ?thesis using False Cons b by (simp add: packTxsByGivenBytes_def)
  qed (use Cons b in \<open>simp add: packTxsByGivenBytes_def\<close>)
qed (simp add: packTxsByGivenBytes_def)

lemma getCurSizeOfByte_loop_sum:
  "(\<And>tx. tx \<in> set txs \<Longrightarrow> enc tx = Inr (f tx)) \<Longrightarrow>
   getCurSizeOfByte_loop enc cnt txs = Inr (cnt + (\<Sum>tx\<leftarrow>txs. int (length (f tx))))"
  by (induction txs arbitrary: cnt) auto

section \<open>The interface TxPool and its clients\<close>

datatype pool_op = OpAdd "transaction list" | OpPack int

fun pool_run ::
  "(transaction list \<Rightarrow> 'p \<Rightarrow> 'p) \<Rightarrow> (int \<Rightarrow> 'p \<Rightarrow> transaction list result \<times> 'p) \<Rightarrow>
   pool_op list \<Rightarrow> 'p \<Rightarrow> transaction list \<times> 'p" where
  "pool_run add pack [] p = ([], p)"
| "pool_run add pack (OpAdd txs # ops) p = pool_run add pack ops (add txs p)"
| "pool_run add pack (OpPack n # ops) p =
     (case pack n p of
        (Inl _, p') \<Rightarrow> pool_run add pack ops p'
      | (Inr packed, p') \<Rightarrow>
          (case pool_run add pack ops p' of (out, p'') \<Rightarrow> (packed @ out, p'')))"

fun pool_added :: "pool_op list \<Rightarrow> transaction list" where
  "pool_added [] = []"
| "pool_added (OpAdd txs # ops) = txs @ pool_added ops"
| "pool_added (OpPack n # ops) = pool_added ops"

locale tx_pool_spec =
  fixes add :: "transaction list \<Rightarrow> 'p \<Rightarrow> 'p"
    and pack :: "int \<Rightarrow> 'p \<Rightarrow> transaction list result \<times> 'p"
    and buffered :: "'p \<Rightarrow> transaction list"
    and wf :: "'p \<Rightarrow> bool"
  assumes add_buffered: "wf p \<Longrightarrow> buffered (add txs p) = buffered p @ txs"
    and add_wf: "wf p \<Longrightarrow> wf (add txs p)"
    and pack_buffered: "wf p \<Longrightarrow> pack n p = (Inr packed, p') \<Longrightarrow> buffered p = packed @ buffered p'"
    and pack_error: "wf p \<Longrightarrow> pack n p = (Inl e, p') \<Longrightarrow> buffered p' = buffered p"
    and pack_wf: "wf p \<Longrightarrow> wf (snd (pack n p))"
begin

lemma run_wf: "wf p \<Longrightarrow> wf (snd (pool_run add pack ops p))"
proof (induction ops arbitrary: p)
  case (Cons op ops)
  show ?case
  proof (cases op)
    case (OpPack n)
    obtain r q where rq: "pack n p = (r, q)" by (cases "pack n p")
    then have "wf q" using pack_wf [OF Cons.prems, of n] by simp
    from Cons.IH [OF this] rq OpPack show ?thesis
      by (cases r) (auto split: prod.splits)
  qed (simp add: Cons add_wf)
qed simp

lemma run_fifo:
  "wf p \<Longrightarrow> pool_run add pack ops p = (out, p') \<Longrightarrow> out @ buffered p' = buffered p @ pool_added ops"
proof (induction ops arbitrary: p out)
  case Nil
  then show ?case by simp
next
  case (Cons op ops)
  show ?case
  proof (cases op)
    case (OpAdd txs)
    with Cons.IH [OF add_wf [OF Cons.prems(1)], of txs] Cons.prems show ?thesis
      by (simp add: add_buffered)
  next
    case (OpPack n)
    obtain r q where rq: "pack n p = (r, q)" by (cases "pack n p")
    have q: "wf q" using pack_wf [OF Cons.prems(1), of n] rq by simp
    show ?thesis
    proof (cases r)
      case (Inl e)
      with pack_error [OF Cons.prems(1)] rq have "buffered q = buffered p" by simp
      with Cons.IH [OF q] Cons.prems(2) OpPack rq Inl show ?thesis by simp
    next
      case (Inr packed)
      with pack_buffered [OF Cons.prems(1)] rq have "buffered p = packed @ buffered q" by simp
      moreover obtain o2 where "pool_run add pack ops q = (o2, p')" "out = packed @ o2"
        using Cons.prems(2) OpPack rq Inr by (auto split: prod.splits)
      ultimately show ?thesis using Cons.IH [OF q] OpPack by simp
    qed
  qed
qed

lemma run_multiset:
  "wf p \<Longrightarrow> pool_run add pack ops p = (out, p') \<Longrightarrow>
   mset out + mset (buffered p') = mset (buffered p) + mset (pool_added ops)"
  using run_fifo [of p ops out p'] by (metis mset_append)

end

interpretation qpool: tx_pool_spec AddTxs PackTxs queue "pool_wf enc" for enc
proof unfold_locales
  show "pool_wf enc p \<Longrightarrow> queue (AddTxs txs p) = queue p @ txs" for p txs
    by (simp add: AddTxs_def)
  show "pool_wf enc p \<Longrightarrow> pool_wf enc (AddTxs txs p)" for p txs
    by (simp add: AddTxs_def pool_wf_def)
  show "pool_wf enc p \<Longrightarrow> PackTxs n p = (Inr packed, p') \<Longrightarrow> queue p = packed @ queue p'" for p n packed p'
    by (auto simp: PackTxs_def dest: pool_wf_append split: sum.splits)
  show "pool_wf enc p \<Longrightarrow> PackTxs n p = (Inl e, p') \<Longrightarrow> queue p' = queue p" for p n e p'
    by (auto simp: PackTxs_def split: sum.splits)
  show "pool_wf enc p \<Longrightarrow> pool_wf enc (snd (PackTxs n p))" for p n
    by (auto simp: PackTxs_def pool_wf_def split: sum.splits)
qed

lemma NewTxPool_wf: "NewTxPool enc typ = Inr t \<Longrightarrow> pool_wf enc t \<and> queue t = []"
  by (auto simp: NewTxPool_def pool_wf_def split: if_splits)

end
