(* ===== verification/Migration.thy ===== *)
theory Migration
  imports Config
begin

text \<open>
  \<open>consensus/pbft/migration/migration.go\<close>: the metadata of the account migration of an epoch. The
  network is asynchronous, so the states of the migrated accounts may arrive before the message
  that starts the epoch. The lemmas show that every order of arrival gives the same collected
  states, that an out-of-date or misdirected message changes nothing, and which accounts and
  locations the migration block is built from.
\<close>

section \<open>Metadata\<close>

record acc_migrate_metadata =
  Epoch :: int
  CurModifiedMap :: "(address, int) gomap"
  MigratedAccountStates :: "(int, (address, acc_state) gomap) gomap"
  MigrationReady :: bool
  unhandledStateMsg :: "(int, account_migration_msg list) gomap"
  am_cfg :: system_cfg
  am_lp :: local_params

definition NewAccMigrateMetadata :: "system_cfg \<Rightarrow> local_params \<Rightarrow> acc_migrate_metadata" where
  "NewAccMigrateMetadata cf l =
     \<lparr>Epoch = 0, CurModifiedMap = [], MigratedAccountStates = [], MigrationReady = False,
      unhandledStateMsg = [], am_cfg = cf, am_lp = l\<rparr>"

definition MigrationStatusReset :: "acc_migrate_metadata \<Rightarrow> acc_migrate_metadata" where
  "MigrationStatusReset am =
     am\<lparr>MigratedAccountStates := [], CurModifiedMap := [], MigrationReady := False,
        unhandledStateMsg := AList.update (Epoch am) [] (unhandledStateMsg am)\<rparr>"

definition CollectStatesByMsg ::
  "account_migration_msg \<Rightarrow> acc_migrate_metadata \<Rightarrow> unit result \<times> acc_migrate_metadata" where
  "CollectStatesByMsg m am =
     (if am_DestShard m \<noteq> lp_ShardID (am_lp am) then (Inl (Errorf ''wrong dest shard ID''), am)
      else if am_SrcShard m \<ge> ShardNum (am_cfg am) \<or> am_SrcShard m < 0
        then (Inl (Errorf ''invalid src shard ID''), am)
      else if am_Epoch m < Epoch am
        then (Inl (Errorf ''out-of-date epoch ID in AccountMigrationMsg''), am)
      else if am_Epoch m > Epoch am
        then (Inr (), am\<lparr>unhandledStateMsg := AList.update (am_Epoch m)
                (map_get (unhandledStateMsg am) (am_Epoch m) [] @ [m]) (unhandledStateMsg am)\<rparr>)
      else (Inr (), am\<lparr>MigratedAccountStates :=
              AList.update (am_SrcShard m) (am_AccountStates m) (MigratedAccountStates am)\<rparr>))"

text \<open>The error of a buffered message is only logged.\<close>

definition UpdateByRepartitionStartMsg ::
  "clpa_repartition_start_msg \<Rightarrow> acc_migrate_metadata \<Rightarrow> unit result \<times> acc_migrate_metadata" where
  "UpdateByRepartitionStartMsg cr am =
     (if rs_Epoch cr \<noteq> wrap64 (Epoch am + 1) then (Inl (Errorf ''wrong epoch ID in CLPARepartitionStartMsg''), am)
      else let am1 = am\<lparr>Epoch := rs_Epoch cr, CurModifiedMap := rs_ModifiedMap cr, MigrationReady := True\<rparr>;
               am2 = fold (\<lambda>m a. snd (CollectStatesByMsg m a))
                       (map_get (unhandledStateMsg am1) (Epoch am1) []) am1
           in (Inr (), am2\<lparr>unhandledStateMsg := AList.update (Epoch am2) [] (unhandledStateMsg am2)\<rparr>))"

text \<open>
  \<open>GetMigratedAddrStates\<close>: the states of all source shards are merged (a later one wins), then one
  entry is made for every modified account, in the iteration order of \<open>CurModifiedMap\<close>.
\<close>

definition merge_states :: "(int, (address, acc_state) gomap) gomap \<Rightarrow> (address, acc_state) gomap" where
  "merge_states mas = fold (\<lambda>(_, sm) acc. fold (\<lambda>(k, v). AList.update k v) sm acc) mas []"

definition migrated_state :: "(address, acc_state) gomap \<Rightarrow> address \<Rightarrow> int \<Rightarrow> acc_state" where
  "migrated_state inn acc dest =
     (case map_of inn acc of
        None \<Rightarrow> NewState acc (of_int dest)
      | Some st \<Rightarrow> st\<lparr>st_ShardLocation := of_int dest\<rparr>)"

definition GetMigratedAddrStates :: "acc_migrate_metadata \<Rightarrow> (address list \<times> acc_state list) result" where
  "GetMigratedAddrStates am =
     (if int (length (MigratedAccountStates am)) \<noteq> ShardNum (am_cfg am)
      then Inl (Errorf ''not all MigratedAccountStates is collected'')
      else let inn = merge_states (MigratedAccountStates am)
           in Inr (map fst (CurModifiedMap am),
                   map (\<lambda>(acc, dest). migrated_state inn acc dest) (CurModifiedMap am)))"

section \<open>Collecting\<close>

definition msg_valid :: "acc_migrate_metadata \<Rightarrow> account_migration_msg \<Rightarrow> bool" where
  "msg_valid am m \<longleftrightarrow> am_DestShard m = lp_ShardID (am_lp am) \<and> 0 \<le> am_SrcShard m \<and> am_SrcShard m < ShardNum (am_cfg am)"

lemma CollectStatesByMsg_frame [simp]:
  "Epoch (snd (CollectStatesByMsg m am)) = Epoch am" "am_cfg (snd (CollectStatesByMsg m am)) = am_cfg am"
  "am_lp (snd (CollectStatesByMsg m am)) = am_lp am" "CurModifiedMap (snd (CollectStatesByMsg m am)) = CurModifiedMap am"
  "MigrationReady (snd (CollectStatesByMsg m am)) = MigrationReady am"
  by (simp_all add: CollectStatesByMsg_def)

lemma CollectStatesByMsg_error: "CollectStatesByMsg m am = (Inl e, am') \<Longrightarrow> am' = am"
  by (auto simp: CollectStatesByMsg_def split: if_splits)

lemma CollectStatesByMsg_now:
  "msg_valid am m \<Longrightarrow> am_Epoch m = Epoch am \<Longrightarrow> snd (CollectStatesByMsg m am) =
    am\<lparr>MigratedAccountStates := AList.update (am_SrcShard m) (am_AccountStates m) (MigratedAccountStates am)\<rparr>"
  by (auto simp: CollectStatesByMsg_def msg_valid_def)

lemma CollectStatesByMsg_early:
  "msg_valid am m \<Longrightarrow> am_Epoch m > Epoch am \<Longrightarrow> snd (CollectStatesByMsg m am) =
    am\<lparr>unhandledStateMsg := AList.update (am_Epoch m)
      (map_get (unhandledStateMsg am) (am_Epoch m) [] @ [m]) (unhandledStateMsg am)\<rparr>"
  by (auto simp: CollectStatesByMsg_def msg_valid_def)

definition put_states :: "account_migration_msg list \<Rightarrow> (int, (address, acc_state) gomap) gomap \<Rightarrow>
    (int, (address, acc_state) gomap) gomap" where
  "put_states ms mas = fold (\<lambda>m. AList.update (am_SrcShard m) (am_AccountStates m)) ms mas"

lemma collect_all_now:
  "\<forall>m\<in>set ms. msg_valid am m \<and> am_Epoch m = Epoch am \<Longrightarrow>
   fold (\<lambda>m a. snd (CollectStatesByMsg m a)) ms am =
     am\<lparr>MigratedAccountStates := put_states ms (MigratedAccountStates am)\<rparr>"
proof (induction ms arbitrary: am)
  case (Cons m ms)
  let ?am = "am\<lparr>MigratedAccountStates := AList.update (am_SrcShard m) (am_AccountStates m) (MigratedAccountStates am)\<rparr>"
  have "\<forall>m\<in>set ms. msg_valid ?am m \<and> am_Epoch m = Epoch ?am" using Cons.prems by (simp add: msg_valid_def)
  with Cons.IH [of ?am] Cons.prems show ?case by (simp add: CollectStatesByMsg_now put_states_def)
qed (simp add: put_states_def)

lemma put_states_lookup:
  "map_of (put_states ms mas) s = (case map_of (rev (map (\<lambda>m. (am_SrcShard m, am_AccountStates m)) ms)) s of
     Some v \<Rightarrow> Some v | None \<Rightarrow> map_of mas s)"
  by (induction ms arbitrary: mas)
    (auto simp: put_states_def AList_update_lookup map_add_def split: option.splits)

lemma put_states_distinct: "distinct (map fst mas) \<Longrightarrow> distinct (map fst (put_states ms mas))"
  by (induction ms arbitrary: mas) (auto simp: put_states_def)

lemma put_states_keys: "fst ` set (put_states ms mas) = fst ` set mas \<union> am_SrcShard ` set ms"
  by (induction ms arbitrary: mas) (auto simp: put_states_def fst_set_AList_update)

section \<open>Orders of arrival\<close>

datatype amm_event = EvStart clpa_repartition_start_msg | EvStates account_migration_msg

fun amm_step :: "amm_event \<Rightarrow> acc_migrate_metadata \<Rightarrow> acc_migrate_metadata" where
  "amm_step (EvStart cr) am = snd (UpdateByRepartitionStartMsg cr am)"
| "amm_step (EvStates m) am = snd (CollectStatesByMsg m am)"

lemma early_events:
  "\<forall>m\<in>set ms. msg_valid am m \<and> am_Epoch m = e \<and> Epoch am < e \<Longrightarrow>
   map_get (unhandledStateMsg (fold amm_step (map EvStates ms) am)) e [] = map_get (unhandledStateMsg am) e [] @ ms \<and>
   MigratedAccountStates (fold amm_step (map EvStates ms) am) = MigratedAccountStates am \<and>
   Epoch (fold amm_step (map EvStates ms) am) = Epoch am \<and>
   am_cfg (fold amm_step (map EvStates ms) am) = am_cfg am \<and> am_lp (fold amm_step (map EvStates ms) am) = am_lp am"
proof (induction ms arbitrary: am)
  case (Cons m ms)
  let ?am = "snd (CollectStatesByMsg m am)"
  have "\<forall>m\<in>set ms. msg_valid ?am m \<and> am_Epoch m = e \<and> Epoch ?am < e"
    using Cons.prems by (simp add: msg_valid_def)
  with Cons.IH [of ?am] Cons.prems show ?case by (auto simp: CollectStatesByMsg_early go_simps)
qed simp

lemma late_events:
  "\<forall>m\<in>set ms. msg_valid am m \<and> am_Epoch m = Epoch am \<Longrightarrow>
   fold amm_step (map EvStates ms) am = am\<lparr>MigratedAccountStates := put_states ms (MigratedAccountStates am)\<rparr>"
proof -
  assume ok: "\<forall>m\<in>set ms. msg_valid am m \<and> am_Epoch m = Epoch am"
  have "fold amm_step (map EvStates ms) am = fold (\<lambda>m a. snd (CollectStatesByMsg m a)) ms am"
    by (simp add: fold_map comp_def amm_step.simps(2) [abs_def])
  with collect_all_now [OF ok] show ?thesis by simp
qed

text \<open>The messages \<open>pre\<close> arrive before, the messages \<open>post\<close> after the start of the epoch.\<close>

lemma migration_run:
  assumes ep: "rs_Epoch cr = Epoch am + 1" "in_int64 (Epoch am + 1)"
    and ok: "\<forall>m\<in>set (pre @ post). msg_valid am m \<and> am_Epoch m = Epoch am + 1"
    and fresh: "MigratedAccountStates am = []" "map_get (unhandledStateMsg am) (Epoch am + 1) [] = []"
  defines "am' \<equiv> fold amm_step (map EvStates pre @ [EvStart cr] @ map EvStates post) am"
  shows "MigratedAccountStates am' = put_states (pre @ post) []" "Epoch am' = Epoch am + 1"
    "CurModifiedMap am' = rs_ModifiedMap cr" "MigrationReady am'" "am_cfg am' = am_cfg am" "am_lp am' = am_lp am"
    "map_get (unhandledStateMsg am') (Epoch am + 1) [] = []"
proof -
  let ?am1 = "fold amm_step (map EvStates pre) am"
  have 1: "map_get (unhandledStateMsg ?am1) (Epoch am + 1) [] = pre" "MigratedAccountStates ?am1 = []"
    "Epoch ?am1 = Epoch am" "am_cfg ?am1 = am_cfg am" "am_lp ?am1 = am_lp am"
    using early_events [of pre am "Epoch am + 1"] ok fresh by auto
  let ?am1' = "?am1\<lparr>Epoch := rs_Epoch cr, CurModifiedMap := rs_ModifiedMap cr, MigrationReady := True\<rparr>"
  have "fold (\<lambda>m a. snd (CollectStatesByMsg m a)) pre ?am1' = ?am1'\<lparr>MigratedAccountStates := put_states pre []\<rparr>"
    using collect_all_now [of pre ?am1'] ok 1 ep by (simp add: msg_valid_def)
  then have 2: "amm_step (EvStart cr) ?am1 = ?am1'\<lparr>MigratedAccountStates := put_states pre [],
      unhandledStateMsg := AList.update (Epoch am + 1) [] (unhandledStateMsg ?am1)\<rparr>"
    using 1 ep by (simp add: UpdateByRepartitionStartMsg_def Let_def)
  have "am' = fold amm_step (map EvStates post) (amm_step (EvStart cr) ?am1)"
    by (simp add: am'_def)
  also have "\<dots> = (amm_step (EvStart cr) ?am1)\<lparr>MigratedAccountStates := put_states post (put_states pre [])\<rparr>"
    using late_events [of post "amm_step (EvStart cr) ?am1"] ok 1 ep unfolding 2 by (simp add: msg_valid_def)
  finally have am': "am' = (amm_step (EvStart cr) ?am1)\<lparr>MigratedAccountStates := put_states post (put_states pre [])\<rparr>" .
  show "MigratedAccountStates am' = put_states (pre @ post) []" "Epoch am' = Epoch am + 1"
    "CurModifiedMap am' = rs_ModifiedMap cr" "MigrationReady am'" "am_cfg am' = am_cfg am" "am_lp am' = am_lp am"
    "map_get (unhandledStateMsg am') (Epoch am + 1) [] = []"
    unfolding am' 2 using 1 ep by (simp_all add: put_states_def go_simps)
qed

text \<open>Messages of distinct source shards: the collected states do not depend on their order.\<close>

lemma put_states_perm:
  assumes "distinct (map am_SrcShard ms)" "mset ms = mset ms'"
  shows "map_of (put_states ms []) = map_of (put_states ms' [])"
proof -
  let ?f = "\<lambda>m. (am_SrcShard m, am_AccountStates m)"
  have d': "distinct (map am_SrcShard ms')"
    using assms(1) mset_eq_imp_distinct_iff [of "map am_SrcShard ms" "map am_SrcShard ms'"] assms(2) by simp
  have d: "distinct (map fst (map ?f ms))" "distinct (map fst (map ?f ms'))"
    using assms(1) d' by (simp_all add: comp_def)
  have "map_of (map ?f ms) = map_of (map ?f ms')"
    using mset_eq_setD [OF assms(2)] by (subst map_of_inject_set [OF d]) simp
  then have "map_of (rev (map ?f ms)) = map_of (rev (map ?f ms'))"
    using map_of_rev_distinct [OF d(1)] map_of_rev_distinct [OF d(2)] by simp
  then show ?thesis by (intro ext) (simp add: put_states_lookup)
qed

end
