(* ===== verification/Block_Ops.thy ===== *)
theory Block_Ops
  imports Chain Tx_Pool Migration
begin

text \<open>
  \<open>consensus/pbft/insideop/txblockop\<close> (relay and broker transaction blocks) and
  \<open>consensus/pbft/insideop/migrationblockop\<close> (migration blocks).

  The connection, the topology, the chain, the transaction pool and the migration metadata are
  shared by pointer between a node's components; the record \<open>shard\<close> holds them, and every operation
  returns it updated, also when it fails.
\<close>

section \<open>The shared objects of a node\<close>

record ('s, 'd, 'db, 't, 'n, 'td, 'p) shard =
  gob :: "'p gob_api"
  conn :: "'p outbox"
  resolver :: topo_getter
  bc :: "('s, 'd, 'db, 't, 'n, 'td) chain"
  txPool :: tx_pool
  amm :: acc_migrate_metadata
  sh_cfg :: consensus_node_cfg
  sh_lp :: local_params

text \<open>Add a transaction to the list of a shard; Go panics outside the range of the slice.\<close>

definition put_shard :: "int \<Rightarrow> transaction \<Rightarrow> transaction list list \<Rightarrow> transaction list list result" where
  "put_shard i tx xss =
     (if 0 \<le> i \<and> i < int (length xss) then Inr (xss[nat i := xss ! nat i @ [tx]])
      else Inl (Panic ''index out of range''))"

definition sh_ShardNum :: "('s, 'd, 'db, 't, 'n, 'td, 'p) shard \<Rightarrow> int" where
  "sh_ShardNum sh = ShardNum (cn_Sys (sh_cfg sh))"

section \<open>Relay transaction blocks\<close>

fun modify_relay_loop ::
  "'t codec \<Rightarrow> int \<Rightarrow> (address, int) gomap \<Rightarrow> transaction list \<Rightarrow> transaction list \<Rightarrow> transaction list result" where
  "modify_relay_loop cd shard loc acc [] = Inr acc"
| "modify_relay_loop cd shard loc acc (tx # txs) =
     (if RelayStage tx \<noteq> UndeterminedRelayTx then modify_relay_loop cd shard loc (acc @ [tx]) txs
      else if map_get loc (Sender tx) 0 < 0 \<or> map_get loc (Recipient tx) 0 < 0
        then Inl (Errorf ''tx sender or recipient does not exist in the accountLocation map'')
      else if map_get loc (Sender tx) 0 \<noteq> shard then modify_relay_loop cd shard loc acc txs
      else if map_get loc (Sender tx) 0 = map_get loc (Recipient tx) 0
        then modify_relay_loop cd shard loc (acc @ [tx]) txs
      else (case Tx_Hash cd tx of Inl e \<Rightarrow> Inl (Wrapf ''CalcHash failed'' e)
            | Inr thash \<Rightarrow>
                modify_relay_loop cd shard loc
                  (acc @ [tx\<lparr>RelayStage := Relay1Tx, ROriginalHash := thash\<rparr>]) txs))"

definition modifyTxRelayOpt ::
  "('s, 'd, 'db, 't, 'n, 'td) chain \<Rightarrow> transaction list \<Rightarrow> transaction list result" where
  "modifyTxRelayOpt c txs =
     (case getAccountLocationsInTxs c txs of Inl e \<Rightarrow> Inl (Wrapf ''getAccountLocationsInTxs failed'' e)
      | Inr loc \<Rightarrow> modify_relay_loop (codec c) (shardID c) loc [] txs)"

definition Relay_BuildTxBlockProposal ::
  "gotime \<Rightarrow> transaction list \<Rightarrow> ('s, 'd, 'db, 't, 'n, 'td, 'p) shard \<Rightarrow> proposal result" where
  "Relay_BuildTxBlockProposal now txs sh =
     (case modifyTxRelayOpt (bc sh) txs of Inl e \<Rightarrow> Inl (Wrapf ''modifyTxRelayOpt failed'' e)
      | Inr mTxs \<Rightarrow>
        (case GenerateBlock (bc sh) now (WalletAddr (sh_lp sh)) TxBlockType mTxs [] [] of
           Inl e \<Rightarrow> Inl (Wrapf ''chain.GenerateBlock failed'' e)
         | Inr b \<Rightarrow> Inr (WrapProposal b)))"

fun Relay_splitTxs :: "transaction list \<Rightarrow> transaction list \<times> transaction list \<times> transaction list" where
  "Relay_splitTxs [] = ([], [], [])"
| "Relay_splitTxs (tx # txs) =
     (case Relay_splitTxs txs of (inner, r1, r2) \<Rightarrow>
        if RelayStage tx = UndeterminedRelayTx then (tx # inner, r1, r2)
        else if RelayStage tx = Relay1Tx then (inner, tx # r1, r2)
        else if RelayStage tx = Relay2Tx then (inner, r1, tx # r2)
        else (inner, r1, r2))"

definition send2Supervisor ::
  "msg \<Rightarrow> ('s, 'd, 'db, 't, 'n, 'td, 'p) shard \<Rightarrow> unit result \<times> ('s, 'd, 'db, 't, 'n, 'td, 'p) shard" where
  "send2Supervisor m sh =
     (case WrapMsg (gob sh) m of Inl e \<Rightarrow> (Inl (Wrapf ''WrapMsg failed'' e), sh)
      | Inr w \<Rightarrow>
        (case GetSupervisor (resolver sh) of Inl e \<Rightarrow> (Inl (Wrapf ''GetSupervisor failed'' e), sh)
         | Inr spv \<Rightarrow> (Inr (), sh\<lparr>conn := SendMsg2Dest spv w (conn sh)\<rparr>)))"

definition Relay_deliverBlockInfo2Supervisor ::
  "gotime \<Rightarrow> transaction list \<Rightarrow> transaction list \<Rightarrow> transaction list \<Rightarrow> block \<Rightarrow>
   ('s, 'd, 'db, 't, 'n, 'td, 'p) shard \<Rightarrow> unit result \<times> ('s, 'd, 'db, 't, 'n, 'td, 'p) shard" where
  "Relay_deliverBlockInfo2Supervisor now innerTxs r1Txs r2Txs b sh =
     send2Supervisor (RelayBlockInfoMsg
       \<lparr>ri_InnerShardTxs = innerTxs, ri_Relay1Txs = r1Txs, ri_Relay2Txs = r2Txs, ri_Epoch = epochID (bc sh),
        ri_BlockProposeTime = BlockCreateTime (Header b), ri_BlockCommitTime = now, ri_ShardID = shardID (bc sh)\<rparr>) sh"

text \<open>The loop of \<open>sendRelayedTxs\<close>, the same in the relay and the broker block operations.\<close>

fun relayed_loop ::
  "(address, int) gomap \<Rightarrow> transaction list list \<Rightarrow> transaction list \<Rightarrow> transaction list list result" where
  "relayed_loop loc xss [] = Inr xss"
| "relayed_loop loc xss (tx # txs) =
     (case map_of loc (Recipient tx) of
        None \<Rightarrow> relayed_loop loc xss txs
      | Some i \<Rightarrow>
        (case put_shard i (tx\<lparr>RelayStage := Relay2Tx\<rparr>) xss of Inl e \<Rightarrow> Inl e
         | Inr xss' \<Rightarrow> relayed_loop loc xss' txs))"

definition sendRelayedTxs ::
  "block \<Rightarrow> transaction list \<Rightarrow> ('s, 'd, 'db, 't, 'n, 'td, 'p) shard \<Rightarrow>
   unit result \<times> ('s, 'd, 'db, 't, 'n, 'td, 'p) shard" where
  "sendRelayedTxs b r1Txs sh =
     (case getAccountLocationsInTxs (bc sh) (TxList b) of
        Inl e \<Rightarrow> (Inl (Wrapf ''getAccountLocationsInTxs failed'' e), sh)
      | Inr loc \<Rightarrow>
        (case relayed_loop loc (replicate (nat (sh_ShardNum sh)) []) r1Txs of
           Inl e \<Rightarrow> (Inl e, sh)
         | Inr relayedTxs \<Rightarrow>
           (case SendWrappedTxs2Shards (gob sh) (resolver sh) relayedTxs (conn sh) of
              Inl e \<Rightarrow> (Inl (Wrapf ''SendWrappedTxs2Shards failed'' e), sh)
            | Inr out \<Rightarrow> (Inr (), sh\<lparr>conn := out\<rparr>))))"

text \<open>
  Both \<open>BlockCommitAndDeliver\<close> methods add the block, return on a follower, and deliver on the leader.
\<close>

definition commit_then_deliver ::
  "(('s, 'd, 'db, 't, 'n, 'td, 'p) shard \<Rightarrow> unit result \<times> ('s, 'd, 'db, 't, 'n, 'td, 'p) shard) \<Rightarrow> bool \<Rightarrow> block \<Rightarrow>
   ('s, 'd, 'db, 't, 'n, 'td, 'p) shard \<Rightarrow> unit result \<times> ('s, 'd, 'db, 't, 'n, 'td, 'p) shard" where
  "commit_then_deliver deliver isLeader b sh =
     (case AddBlock (bc sh) b of
        (Inl e, c) \<Rightarrow> (Inl (Wrapf ''chain.AddBlock failed'' e), sh\<lparr>bc := c\<rparr>)
      | (Inr _, c) \<Rightarrow> if \<not> isLeader then (Inr (), sh\<lparr>bc := c\<rparr>) else deliver (sh\<lparr>bc := c\<rparr>))"

definition Relay_deliver ::
  "gotime \<Rightarrow> block \<Rightarrow> ('s, 'd, 'db, 't, 'n, 'td, 'p) shard \<Rightarrow>
   unit result \<times> ('s, 'd, 'db, 't, 'n, 'td, 'p) shard" where
  "Relay_deliver now b sh1 =
     (case Relay_splitTxs (TxList b) of (innerTxs, r1Txs, r2Txs) \<Rightarrow>
        (case Relay_deliverBlockInfo2Supervisor now innerTxs r1Txs r2Txs b sh1 of
           (Inl e, sh2) \<Rightarrow> (Inl (Wrapf ''deliverBlockInfo2Supervisor failed'' e), sh2)
         | (Inr _, sh2) \<Rightarrow> apfst (wrap_err ''sendRelayedTxs failed'') (sendRelayedTxs b r1Txs sh2)))"

definition Relay_BlockCommitAndDeliver ::
  "gotime \<Rightarrow> bool \<Rightarrow> block \<Rightarrow> ('s, 'd, 'db, 't, 'n, 'td, 'p) shard \<Rightarrow>
   unit result \<times> ('s, 'd, 'db, 't, 'n, 'td, 'p) shard" where
  "Relay_BlockCommitAndDeliver now isLeader b sh = commit_then_deliver (Relay_deliver now b) isLeader b sh"

section \<open>Broker transaction blocks\<close>

definition Broker_BuildTxBlockProposal ::
  "gotime \<Rightarrow> transaction list \<Rightarrow> ('s, 'd, 'db, 't, 'n, 'td, 'p) shard \<Rightarrow> proposal result" where
  "Broker_BuildTxBlockProposal now txs sh =
     (case GenerateBlock (bc sh) now (WalletAddr (sh_lp sh)) TxBlockType txs [] [] of
        Inl e \<Rightarrow> Inl (Wrapf ''chain.GenerateBlock failed'' e)
      | Inr b \<Rightarrow> Inr (WrapProposal b))"

record split_txs =
  innerTxs :: "transaction list"
  b1Txs :: "transaction list"
  b2Txs :: "transaction list"
  r1Txs :: "transaction list"
  r2Txs :: "transaction list"

definition Broker_split1 :: "transaction \<Rightarrow> split_txs \<Rightarrow> split_txs" where
  "Broker_split1 tx sp =
     (if TxType tx = RelayTxType then
        (if RelayStage tx = Relay1Tx then sp\<lparr>r1Txs := r1Txs sp @ [tx]\<rparr> else sp\<lparr>r2Txs := r2Txs sp @ [tx]\<rparr>)
      else if BrokerStage tx = RawTxBrokerStage then sp\<lparr>innerTxs := innerTxs sp @ [tx]\<rparr>
      else if BrokerStage tx = Sigma1BrokerStage then sp\<lparr>b1Txs := b1Txs sp @ [tx]\<rparr>
      else if BrokerStage tx = Sigma2BrokerStage then sp\<lparr>b2Txs := b2Txs sp @ [tx]\<rparr>
      else sp)"

definition Broker_splitTxs :: "transaction list \<Rightarrow> split_txs" where
  "Broker_splitTxs txs =
     fold Broker_split1 txs \<lparr>innerTxs = [], b1Txs = [], b2Txs = [], r1Txs = [], r2Txs = []\<rparr>"

definition Broker_deliverBlockInfo2Supervisor ::
  "gotime \<Rightarrow> split_txs \<Rightarrow> block \<Rightarrow> ('s, 'd, 'db, 't, 'n, 'td, 'p) shard \<Rightarrow>
   unit result \<times> ('s, 'd, 'db, 't, 'n, 'td, 'p) shard" where
  "Broker_deliverBlockInfo2Supervisor now sp b sh =
     send2Supervisor (BrokerBlockInfoMsg
       \<lparr>bi_InnerShardTxs = innerTxs sp, bi_Broker1Txs = b1Txs sp, bi_Broker2Txs = b2Txs sp,
        bi_Relay1Txs = r1Txs sp, bi_Relay2Txs = r2Txs sp, bi_Epoch = epochID (bc sh),
        bi_BlockProposeTime = BlockCreateTime (Header b), bi_BlockCommitTime = now, bi_ShardID = shardID (bc sh)\<rparr>) sh"

definition Broker_deliver ::
  "gotime \<Rightarrow> block \<Rightarrow> ('s, 'd, 'db, 't, 'n, 'td, 'p) shard \<Rightarrow>
   unit result \<times> ('s, 'd, 'db, 't, 'n, 'td, 'p) shard" where
  "Broker_deliver now b sh1 =
     (let sp = Broker_splitTxs (TxList b) in
      case Broker_deliverBlockInfo2Supervisor now sp b sh1 of
        (Inl e, sh2) \<Rightarrow> (Inl (Wrapf ''deliverBlockInfo2Supervisor failed'' e), sh2)
      | (Inr _, sh2) \<Rightarrow>
          if r1Txs sp = [] then (Inr (), sh2)
          else apfst (wrap_err ''sendRelayedTxs failed'') (sendRelayedTxs b (r1Txs sp) sh2))"

definition Broker_BlockCommitAndDeliver ::
  "gotime \<Rightarrow> bool \<Rightarrow> block \<Rightarrow> ('s, 'd, 'db, 't, 'n, 'td, 'p) shard \<Rightarrow>
   unit result \<times> ('s, 'd, 'db, 't, 'n, 'td, 'p) shard" where
  "Broker_BlockCommitAndDeliver now isLeader b sh = commit_then_deliver (Broker_deliver now b) isLeader b sh"

section \<open>Selecting the block operations\<close>

text \<open>\<open>NewTxBlockOp\<close> picks the implementation of the interface \<open>TxBlockOp\<close> by the consensus type.\<close>

datatype tx_block_op = RelayTxBlockOp | BrokerTxBlockOp

definition NewTxBlockOp :: "string \<Rightarrow> tx_block_op result" where
  "NewTxBlockOp ctype =
     (if ctype = StaticRelayConsensus \<or> ctype = CLPARelayConsensus then Inr RelayTxBlockOp
      else if ctype = StaticBrokerConsensus \<or> ctype = CLPABrokerConsensus then Inr BrokerTxBlockOp
      else Inl (Errorf ''unknown consensus type''))"

definition BuildTxBlockProposal ::
  "tx_block_op \<Rightarrow> gotime \<Rightarrow> transaction list \<Rightarrow> ('s, 'd, 'db, 't, 'n, 'td, 'p) shard \<Rightarrow> proposal result" where
  "BuildTxBlockProposal tbo =
     (case tbo of RelayTxBlockOp \<Rightarrow> Relay_BuildTxBlockProposal | BrokerTxBlockOp \<Rightarrow> Broker_BuildTxBlockProposal)"

definition BlockCommitAndDeliver ::
  "tx_block_op \<Rightarrow> gotime \<Rightarrow> bool \<Rightarrow> block \<Rightarrow> ('s, 'd, 'db, 't, 'n, 'td, 'p) shard \<Rightarrow>
   unit result \<times> ('s, 'd, 'db, 't, 'n, 'td, 'p) shard" where
  "BlockCommitAndDeliver tbo =
     (case tbo of RelayTxBlockOp \<Rightarrow> Relay_BlockCommitAndDeliver | BrokerTxBlockOp \<Rightarrow> Broker_BlockCommitAndDeliver)"

section \<open>Migration blocks\<close>

definition BuildMigrationProposal ::
  "gotime \<Rightarrow> ('s, 'd, 'db, 't, 'n, 'td, 'p) shard \<Rightarrow> proposal option result" where
  "BuildMigrationProposal now sh =
     (if int (length (MigratedAccountStates (amm sh))) \<noteq> sh_ShardNum sh then Inr None
      else (case GetMigratedAddrStates (amm sh) of
              Inl e \<Rightarrow> Inl (Wrapf ''GetMigratedAddrStates failed'' e)
            | Inr (accounts, states) \<Rightarrow>
              (case GenerateBlock (bc sh) now (WalletAddr (sh_lp sh)) MigrationBlockType [] accounts states of
                 Inl e \<Rightarrow> Inl (Wrapf ''GenerateMigrationBlock failed'' e)
               | Inr b \<Rightarrow> Inr (Some (WrapProposal b)))))"

text \<open>
  The second loop of \<open>MigrateAccounts\<close>: the state of a modified account of this shard goes into the
  message for its new shard; \<open>atMsgList[destShardID]\<close> panics outside the range.
\<close>

fun migrate_out_loop ::
  "int \<Rightarrow> (address, int) gomap \<Rightarrow> (address \<times> acc_state) list \<Rightarrow> account_migration_msg list \<Rightarrow>
   account_migration_msg list result" where
  "migrate_out_loop self modified [] ms = Inr ms"
| "migrate_out_loop self modified ((acc, st) # rest) ms =
     (if st_ShardLocation st \<noteq> of_int self then migrate_out_loop self modified rest ms
      else let d = map_get modified acc 0 in
        if 0 \<le> d \<and> d < int (length ms) then
          migrate_out_loop self modified rest
            (ms[nat d := (ms ! nat d)\<lparr>am_AccountStates := AList.update acc st (am_AccountStates (ms ! nat d))\<rparr>])
        else Inl (Panic ''index out of range''))"

fun migrate_wrap_loop ::
  "'p gob_api \<Rightarrow> topo_getter \<Rightarrow> int \<Rightarrow> account_migration_msg list \<Rightarrow> (node_info, 'p wrapped_msg) gomap \<Rightarrow>
   (node_info, 'p wrapped_msg) gomap result" where
  "migrate_wrap_loop g t i [] acc = Inr acc"
| "migrate_wrap_loop g t i (m # ms) acc =
     (case GetLeader t i of Inl e \<Rightarrow> Inl (Wrapf ''GetLeader failed'' e)
      | Inr l \<Rightarrow>
        (case WrapMsg g (AccountMigrationMsg m) of Inl e \<Rightarrow> Inl (Wrapf ''WrapMsg failed'' e)
         | Inr w \<Rightarrow> migrate_wrap_loop g t (i + 1) ms (AList.update l w acc)))"

definition MigrateAccounts ::
  "('s, 'd, 'db, 't, 'n, 'td, 'p) shard \<Rightarrow> unit result \<times> ('s, 'd, 'db, 't, 'n, 'td, 'p) shard" where
  "MigrateAccounts sh =
     (let out = map fst (CurModifiedMap (amm sh)) in
      case getAccountStates (bc sh) out of
        Inl e \<Rightarrow> (Inl (Wrapf ''GetAccountStates failed'' e), sh)
      | Inr states \<Rightarrow>
        (case migrate_out_loop (lp_ShardID (sh_lp sh)) (CurModifiedMap (amm sh)) (zip out states)
                (map (\<lambda>i. \<lparr>am_SrcShard = lp_ShardID (sh_lp sh), am_DestShard = int i, am_Epoch = Epoch (amm sh),
                          am_AccountStates = []\<rparr>) [0 ..< nat (sh_ShardNum sh)]) of
           Inl e \<Rightarrow> (Inl e, sh)
         | Inr ms \<Rightarrow>
           (case migrate_wrap_loop (gob sh) (resolver sh) 0 ms [] of
              Inl e \<Rightarrow> (Inl e, sh)
            | Inr sendMsgMap \<Rightarrow> (Inr (), sh\<lparr>conn := MSendDifferentMessages sendMsgMap (conn sh)\<rparr>))))"

definition MigrationBlockCommit ::
  "block \<Rightarrow> ('s, 'd, 'db, 't, 'n, 'td, 'p) shard \<Rightarrow> unit result \<times> ('s, 'd, 'db, 't, 'n, 'td, 'p) shard" where
  "MigrationBlockCommit b sh =
     (case AddBlock (bc sh) b of
        (Inl e, c) \<Rightarrow> (Inl (Wrapf ''chain.AddBlock failed'' e), sh\<lparr>bc := c\<rparr>)
      | (Inr _, c) \<Rightarrow>
          (Inr (), sh\<lparr>bc := UpdateEpoch (Epoch (amm sh)) c, amm := MigrationStatusReset (amm sh)\<rparr>))"

section \<open>Lemmas: distributing transactions\<close>

lemma put_shard_Inr:
  assumes "put_shard i tx xss = Inr xss'"
  shows "length xss' = length xss" "mset (concat xss') = add_mset tx (mset (concat xss))"
    "j < length xss \<Longrightarrow> xss' ! j = (if int j = i then xss ! j @ [tx] else xss ! j)"
proof -
  have i: "0 \<le> i" "nat i < length xss" and x: "xss' = xss[nat i := xss ! nat i @ [tx]]"
    using assms by (auto simp: put_shard_def split: if_splits)
  show "length xss' = length xss" by (simp add: x)
  have split: "xss = take (nat i) xss @ xss ! nat i # drop (Suc (nat i)) xss" using i by (simp add: id_take_nth_drop)
  have "mset (concat xss') = mset (concat (take (nat i) xss @ (xss ! nat i @ [tx]) # drop (Suc (nat i)) xss))"
    using i by (simp add: x upd_conv_take_nth_drop)
  also have "\<dots> = add_mset tx (mset (concat (take (nat i) xss @ xss ! nat i # drop (Suc (nat i)) xss)))" by simp
  finally show "mset (concat xss') = add_mset tx (mset (concat xss))" using split by simp
  show "j < length xss \<Longrightarrow> xss' ! j = (if int j = i then xss ! j @ [tx] else xss ! j)"
    using i by (auto simp: x nth_list_update)
qed

lemma put_shard_total: "0 \<le> i \<Longrightarrow> i < int (length xss) \<Longrightarrow> \<exists>xss'. put_shard i tx xss = Inr xss'"
  by (simp add: put_shard_def)

text \<open>Every relayed transaction is in the list of its recipient's shard, as a relay-2 transaction.\<close>

lemma relayed_loop_Inr:
  "relayed_loop loc xss txs = Inr xss' \<Longrightarrow> length xss' = length xss \<and>
   (\<forall>j<length xss. xss' ! j = xss ! j @
      map (\<lambda>tx. tx\<lparr>RelayStage := Relay2Tx\<rparr>) (filter (\<lambda>tx. map_of loc (Recipient tx) = Some (int j)) txs))"
proof (induction txs arbitrary: xss)
  case (Cons tx txs)
  show ?case
  proof (cases "map_of loc (Recipient tx)")
    case (Some i)
    obtain xss1 where p: "put_shard i (tx\<lparr>RelayStage := Relay2Tx\<rparr>) xss = Inr xss1"
      and r: "relayed_loop loc xss1 txs = Inr xss'"
      using Cons.prems Some by (auto split: sum.splits)
    from Cons.IH [OF r] put_shard_Inr(1,3) [OF p] Some show ?thesis by auto
  qed (use Cons in auto)
qed simp

lemma relayed_loop_total:
  "\<forall>tx\<in>set txs. \<forall>i. map_of loc (Recipient tx) = Some i \<longrightarrow> 0 \<le> i \<and> i < int (length xss) \<Longrightarrow>
   \<exists>xss'. relayed_loop loc xss txs = Inr xss'"
proof (induction txs arbitrary: xss)
  case (Cons tx txs)
  show ?case
  proof (cases "map_of loc (Recipient tx)")
    case (Some i)
    then obtain xss1 where p: "put_shard i (tx\<lparr>RelayStage := Relay2Tx\<rparr>) xss = Inr xss1"
      using put_shard_total Cons.prems by fastforce
    have "\<exists>xss'. relayed_loop loc xss1 txs = Inr xss'"
      using Cons.prems put_shard_Inr(1) [OF p] by (intro Cons.IH) simp
    with Some p show ?thesis by simp
  qed (use Cons in auto)
qed simp

lemma Relay_splitTxs_filter:
  "Relay_splitTxs txs = (filter (\<lambda>tx. RelayStage tx = UndeterminedRelayTx) txs,
    filter (\<lambda>tx. RelayStage tx = Relay1Tx) txs, filter (\<lambda>tx. RelayStage tx = Relay2Tx) txs)"
  by (induction txs) auto

text \<open>What the loop of \<open>modifyTxRelayOpt\<close> does with one transaction.\<close>

definition relay_kept :: "int \<Rightarrow> (address, int) gomap \<Rightarrow> transaction \<Rightarrow> bool" where
  "relay_kept shard loc tx \<longleftrightarrow> RelayStage tx \<noteq> UndeterminedRelayTx \<or> map_get loc (Sender tx) 0 = shard"

definition relay_image :: "'t codec \<Rightarrow> (address, int) gomap \<Rightarrow> transaction \<Rightarrow> transaction \<Rightarrow> bool" where
  "relay_image cd loc tx tx' \<longleftrightarrow>
     (if RelayStage tx \<noteq> UndeterminedRelayTx \<or> map_get loc (Sender tx) 0 = map_get loc (Recipient tx) 0 then tx' = tx
      else \<exists>h. Tx_Hash cd tx = Inr h \<and> tx' = tx\<lparr>RelayStage := Relay1Tx, ROriginalHash := h\<rparr>)"

lemma modify_relay_loop_Inr:
  "modify_relay_loop cd shard loc acc txs = Inr out \<Longrightarrow>
   \<exists>ys. out = acc @ ys \<and> list_all2 (relay_image cd loc) (filter (relay_kept shard loc) txs) ys"
proof (induction txs arbitrary: acc)
  case (Cons tx txs)
  have keep: ?case if "modify_relay_loop cd shard loc (acc @ [y]) txs = Inr out" "relay_kept shard loc tx"
    "relay_image cd loc tx y" for y
    using Cons.IH [OF that(1)] that(2,3) by auto
  consider (done_) "RelayStage tx \<noteq> UndeterminedRelayTx"
    | (skip) "RelayStage tx = UndeterminedRelayTx" "map_get loc (Sender tx) 0 \<noteq> shard"
    | (inner) "RelayStage tx = UndeterminedRelayTx" "map_get loc (Sender tx) 0 = shard"
        "map_get loc (Sender tx) 0 = map_get loc (Recipient tx) 0"
    | (cross) h where "RelayStage tx = UndeterminedRelayTx" "map_get loc (Sender tx) 0 = shard"
        "map_get loc (Sender tx) 0 \<noteq> map_get loc (Recipient tx) 0" "Tx_Hash cd tx = Inr h"
    using Cons.prems by (auto split: if_splits sum.splits)
  then show ?case
  proof cases
    case done_
    with Cons.prems show ?thesis by (intro keep) (simp_all add: relay_kept_def relay_image_def)
  next
    case skip
    with Cons.prems have "modify_relay_loop cd shard loc acc txs = Inr out" by (simp split: if_splits)
    from Cons.IH [OF this] skip show ?thesis by (simp add: relay_kept_def)
  next
    case inner
    with Cons.prems show ?thesis
      by (intro keep) (simp_all add: relay_kept_def relay_image_def split: if_splits)
  next
    case cross
    with Cons.prems show ?thesis
      by (intro keep) (simp_all add: relay_kept_def relay_image_def split: if_splits)
  qed
qed simp

text \<open>Two states of a node that differ in what was sent only.\<close>

definition same_core :: "('s, 'd, 'db, 't, 'n, 'td, 'p) shard \<Rightarrow> ('s, 'd, 'db, 't, 'n, 'td, 'p) shard \<Rightarrow> bool" where
  "same_core sh sh' \<longleftrightarrow> (\<exists>out. sh' = sh\<lparr>conn := out\<rparr>)"

lemma same_core_refl [simp]: "same_core sh sh"
  by (auto simp: same_core_def intro: exI [of _ "conn sh"])

lemma same_core_conn [simp]: "same_core sh (sh\<lparr>conn := out\<rparr>)"
  by (auto simp: same_core_def)

lemma same_core_trans: "same_core a b \<Longrightarrow> same_core b c \<Longrightarrow> same_core a c"
  by (auto simp: same_core_def)

lemma same_coreD:
  "same_core sh sh' \<Longrightarrow> bc sh' = bc sh \<and> txPool sh' = txPool sh \<and> amm sh' = amm sh \<and>
   resolver sh' = resolver sh \<and> sh_cfg sh' = sh_cfg sh \<and> sh_lp sh' = sh_lp sh \<and> gob sh' = gob sh"
  by (auto simp: same_core_def)

lemma send2Supervisor_core: "same_core sh (snd (send2Supervisor m sh))"
  by (simp add: send2Supervisor_def split: sum.splits)

lemma sendRelayedTxs_core: "same_core sh (snd (sendRelayedTxs b txs sh))"
  by (simp add: sendRelayedTxs_def split: sum.splits)

lemma Relay_deliver_core: "same_core sh (snd (Relay_deliver now b sh))"
proof -
  obtain i r1 r2 where sp: "Relay_splitTxs (TxList b) = (i, r1, r2)" by (metis prod_cases3)
  obtain dr sh2 where d: "Relay_deliverBlockInfo2Supervisor now i r1 r2 b sh = (dr, sh2)" by fastforce
  have 1: "same_core sh sh2"
    using d send2Supervisor_core [of sh] unfolding Relay_deliverBlockInfo2Supervisor_def by (metis snd_conv)
  have 2: "same_core sh (snd (sendRelayedTxs b r1 sh2))" by (rule same_core_trans [OF 1 sendRelayedTxs_core])
  show ?thesis using 1 2 by (cases dr) (simp_all add: Relay_deliver_def sp d)
qed

lemma Broker_deliver_core: "same_core sh (snd (Broker_deliver now b sh))"
proof -
  let ?sp = "Broker_splitTxs (TxList b)"
  obtain dr sh2 where d: "Broker_deliverBlockInfo2Supervisor now ?sp b sh = (dr, sh2)" by fastforce
  have 1: "same_core sh sh2"
    using d send2Supervisor_core [of sh] unfolding Broker_deliverBlockInfo2Supervisor_def by (metis snd_conv)
  have 2: "same_core sh (snd (sendRelayedTxs b (r1Txs ?sp) sh2))" by (rule same_core_trans [OF 1 sendRelayedTxs_core])
  show ?thesis using 1 2 by (cases dr) (simp_all add: Broker_deliver_def Let_def d)
qed

text \<open>The four ways \<open>commit_then_deliver\<close> can end, for any delivery that only sends.\<close>

lemma commit_then_deliver_Inl:
  "AddBlock (bc sh) b = (Inl e, c) \<Longrightarrow>
   commit_then_deliver dlv ldr b sh = (Inl (Wrapf ''chain.AddBlock failed'' e), sh\<lparr>bc := c\<rparr>)"
  by (simp add: commit_then_deliver_def)

lemma commit_then_deliver_core:
  assumes core: "\<And>sh. same_core sh (snd (dlv sh))"
  shows "same_core (sh\<lparr>bc := snd (AddBlock (bc sh) b)\<rparr>) (snd (commit_then_deliver dlv ldr b sh))"
proof -
  obtain r c where "AddBlock (bc sh) b = (r, c)" by fastforce
  with core [of "sh\<lparr>bc := c\<rparr>"] show ?thesis by (cases r) (simp_all add: commit_then_deliver_def)
qed

lemma commit_then_deliver_follower: "conn (snd (commit_then_deliver dlv False b sh)) = conn sh"
  by (simp add: commit_then_deliver_def split: prod.splits sum.splits)

lemma commit_then_deliver_ok:
  assumes core: "\<And>sh. same_core sh (snd (dlv sh))" and run: "commit_then_deliver dlv ldr b sh = (Inr (), sh')"
  shows "AddBlock (bc sh) b = (Inr (), bc sh')"
proof -
  obtain r c where rc: "AddBlock (bc sh) b = (r, c)" by fastforce
  have "bc sh' = c" using same_coreD [OF commit_then_deliver_core [OF core, of sh b ldr]] run rc by simp
  moreover have "r = Inr ()" using run rc by (cases r) (simp_all add: commit_then_deliver_def)
  ultimately show ?thesis using rc by simp
qed

lemma commit_then_deliver_frame:
  assumes core: "\<And>sh. same_core sh (snd (dlv sh))" and run: "commit_then_deliver dlv ldr b sh = (r, sh')"
  shows "txPool sh' = txPool sh \<and> amm sh' = amm sh \<and> resolver sh' = resolver sh \<and> sh_cfg sh' = sh_cfg sh \<and>
    sh_lp sh' = sh_lp sh \<and> gob sh' = gob sh"
  using same_coreD [OF commit_then_deliver_core [OF core, of sh b ldr]] run by simp

section \<open>The interface TxBlockOp\<close>

locale tx_block_ops =
  fixes build :: "gotime \<Rightarrow> transaction list \<Rightarrow> ('s, 'd, 'db, 't, 'n, 'td, 'p) shard \<Rightarrow> proposal result"
    and commit :: "gotime \<Rightarrow> bool \<Rightarrow> block \<Rightarrow> ('s, 'd, 'db, 't, 'n, 'td, 'p) shard \<Rightarrow>
      unit result \<times> ('s, 'd, 'db, 't, 'n, 'td, 'p) shard"
  assumes build_generates: "build now txs sh = Inr p \<Longrightarrow>
      \<exists>txs'. GenerateBlock (bc sh) now (WalletAddr (sh_lp sh)) TxBlockType txs' [] [] = Inr (Block p)"
    and commit_adds: "commit now ldr b sh = (Inr (), sh') \<Longrightarrow> AddBlock (bc sh) b = (Inr (), bc sh')"
    and commit_head: "AddBlock (bc sh) b = (Inl e, c) \<Longrightarrow> \<exists>e'. commit now ldr b sh = (Inl e', sh\<lparr>bc := c\<rparr>)"
    and commit_silent: "commit now False b sh = (r, sh') \<Longrightarrow> conn sh' = conn sh"
    and commit_frame: "commit now ldr b sh = (r, sh') \<Longrightarrow>
      txPool sh' = txPool sh \<and> amm sh' = amm sh \<and> resolver sh' = resolver sh \<and> sh_cfg sh' = sh_cfg sh \<and>
      sh_lp sh' = sh_lp sh \<and> gob sh' = gob sh"
begin

text \<open>A proposal built on the current head is valid there, and committing it extends the head by one.\<close>

lemma build_valid:
  assumes "chain_wf (bc sh)" "build now txs sh = Inr p"
  shows "ValidateBlock (bc sh) (Block p) = Inr ()"
  using assms build_generates [OF assms(2)] GenerateBlock_valid by (auto simp: chain_wf_def)

lemma build_commit:
  assumes wf: "chain_wf (bc sh)" and build: "build now txs sh = Inr p"
    and commit: "commit now' ldr (Block p) sh = (Inr (), sh')"
  shows "chain_wf (bc sh')" "curHeader (bc sh') = Header (Block p)"
    "Number (curHeader (bc sh')) = Number (curHeader (bc sh)) + 1"
    "Header_Hash (codec (bc sh)) (curHeader (bc sh)) = Inr (ParentBlockHash (curHeader (bc sh')))"
proof -
  obtain txs' where gen: "GenerateBlock (bc sh) now (WalletAddr (sh_lp sh)) TxBlockType txs' [] [] = Inr (Block p)"
    using build_generates [OF build] by blast
  note add = commit_adds [OF commit]
  show "chain_wf (bc sh')" and head: "curHeader (bc sh') = Header (Block p)"
    using AddBlock_wf [OF wf add] by simp_all
  show "Number (curHeader (bc sh')) = Number (curHeader (bc sh)) + 1"
    "Header_Hash (codec (bc sh)) (curHeader (bc sh)) = Inr (ParentBlockHash (curHeader (bc sh')))"
    using GenerateBlock_Inr(1,2) [OF gen] head by simp_all
qed

end

lemmas deliver_core = Relay_deliver_core Broker_deliver_core

interpretation relay_op: tx_block_ops Relay_BuildTxBlockProposal Relay_BlockCommitAndDeliver
proof (unfold_locales, unfold Relay_BlockCommitAndDeliver_def)
  fix now ldr b txs p r e c and sh sh' :: "('a, 'b, 'c, 'd, 'e, 'f, 'g) shard"
  show "Relay_BuildTxBlockProposal now txs sh = Inr p \<Longrightarrow>
      \<exists>txs'. GenerateBlock (bc sh) now (WalletAddr (sh_lp sh)) TxBlockType txs' [] [] = Inr (Block p)"
    by (auto simp: Relay_BuildTxBlockProposal_def WrapProposal_def split: sum.splits)
  show "commit_then_deliver (Relay_deliver now b) ldr b sh = (Inr (), sh') \<Longrightarrow> AddBlock (bc sh) b = (Inr (), bc sh')"
    by (rule commit_then_deliver_ok [OF deliver_core(1)])
  show "AddBlock (bc sh) b = (Inl e, c) \<Longrightarrow>
      \<exists>e'. commit_then_deliver (Relay_deliver now b) ldr b sh = (Inl e', sh\<lparr>bc := c\<rparr>)"
    by (simp add: commit_then_deliver_Inl)
  show "commit_then_deliver (Relay_deliver now b) False b sh = (r, sh') \<Longrightarrow> conn sh' = conn sh"
    using commit_then_deliver_follower [of "Relay_deliver now b" b sh] by simp
  show "commit_then_deliver (Relay_deliver now b) ldr b sh = (r, sh') \<Longrightarrow>
      txPool sh' = txPool sh \<and> amm sh' = amm sh \<and> resolver sh' = resolver sh \<and> sh_cfg sh' = sh_cfg sh \<and>
      sh_lp sh' = sh_lp sh \<and> gob sh' = gob sh"
    by (rule commit_then_deliver_frame [OF deliver_core(1)])
qed

interpretation broker_op: tx_block_ops Broker_BuildTxBlockProposal Broker_BlockCommitAndDeliver
proof (unfold_locales, unfold Broker_BlockCommitAndDeliver_def)
  fix now ldr b txs p r e c and sh sh' :: "('a, 'b, 'c, 'd, 'e, 'f, 'g) shard"
  show "Broker_BuildTxBlockProposal now txs sh = Inr p \<Longrightarrow>
      \<exists>txs'. GenerateBlock (bc sh) now (WalletAddr (sh_lp sh)) TxBlockType txs' [] [] = Inr (Block p)"
    by (auto simp: Broker_BuildTxBlockProposal_def WrapProposal_def split: sum.splits)
  show "commit_then_deliver (Broker_deliver now b) ldr b sh = (Inr (), sh') \<Longrightarrow> AddBlock (bc sh) b = (Inr (), bc sh')"
    by (rule commit_then_deliver_ok [OF deliver_core(2)])
  show "AddBlock (bc sh) b = (Inl e, c) \<Longrightarrow>
      \<exists>e'. commit_then_deliver (Broker_deliver now b) ldr b sh = (Inl e', sh\<lparr>bc := c\<rparr>)"
    by (simp add: commit_then_deliver_Inl)
  show "commit_then_deliver (Broker_deliver now b) False b sh = (r, sh') \<Longrightarrow> conn sh' = conn sh"
    using commit_then_deliver_follower [of "Broker_deliver now b" b sh] by simp
  show "commit_then_deliver (Broker_deliver now b) ldr b sh = (r, sh') \<Longrightarrow>
      txPool sh' = txPool sh \<and> amm sh' = amm sh \<and> resolver sh' = resolver sh \<and> sh_cfg sh' = sh_cfg sh \<and>
      sh_lp sh' = sh_lp sh \<and> gob sh' = gob sh"
    by (rule commit_then_deliver_frame [OF deliver_core(2)])
qed

end
