(* ===== verification/Shard_Op.thy ===== *)
theory Shard_Op
  imports Block_Ops
begin

text \<open>
  \<open>consensus/pbft/insideop\<close> (\<open>StaticShardOp\<close>, \<open>DynamicShardOp\<close>) and \<open>consensus/pbft/outsideop\<close>: what a node
  does inside its shard (build, validate, commit and deliver proposals) and with messages from
  outside it.

  The packing loop of the dynamic operations has no bound of its own; it is a
  \<open>partial_function\<close>, and \<open>pack_loop_returns\<close> proves that it returns on every pool that the
  program builds. The lemmas show that packing and migrating lose no transaction and that every
  packed transaction belongs to this shard.
\<close>

section \<open>Static sharding\<close>

definition Static_BuildProposal ::
  "tx_block_op \<Rightarrow> gotime \<Rightarrow> ('s, 'd, 'db, 't, 'n, 'td, 'p) shard \<Rightarrow>
   proposal option result \<times> ('s, 'd, 'db, 't, 'n, 'td, 'p) shard" where
  "Static_BuildProposal tbo now sh =
     (case PackTxs (BlockSizeLimit (cn_Sys (sh_cfg sh))) (txPool sh) of
        (Inl e, pool) \<Rightarrow> (Inl (Wrapf ''txPool.PackTxs failed'' e), sh\<lparr>txPool := pool\<rparr>)
      | (Inr txs, pool) \<Rightarrow>
        (let sh1 = sh\<lparr>txPool := pool\<rparr> in
         case BuildTxBlockProposal tbo now txs sh1 of
           Inl e \<Rightarrow> (Inl (Wrapf ''build block proposal in relay mode failed'' e), sh1)
         | Inr p \<Rightarrow> (Inr (Some p), sh1)))"

definition ValidateProposal ::
  "proposal \<Rightarrow> ('s, 'd, 'db, 't, 'n, 'td, 'p) shard \<Rightarrow> unit result" where
  "ValidateProposal p sh = wrap_err ''validate block failed'' (ValidateBlock (bc sh) (Block p))"

definition Static_ProposalCommitAndDeliver ::
  "tx_block_op \<Rightarrow> gotime \<Rightarrow> bool \<Rightarrow> proposal \<Rightarrow> ('s, 'd, 'db, 't, 'n, 'td, 'p) shard \<Rightarrow>
   unit result \<times> ('s, 'd, 'db, 't, 'n, 'td, 'p) shard" where
  "Static_ProposalCommitAndDeliver tbo now isLeader p sh =
     apfst (wrap_err ''block commit failed'') (BlockCommitAndDeliver tbo now isLeader (Block p) sh)"

section \<open>Dynamic sharding: packing\<close>

abbreviation (input) migratedTxNum :: int where "migratedTxNum \<equiv> 2 ^ 28"
abbreviation (input) supervisorShardID :: int where "supervisorShardID \<equiv> 0x7fffffff"

text \<open>The variables of the packing loops: packed, for other shards, for the supervisor, and the pool.\<close>

record pack_acc =
  txsPacked :: "transaction list"
  txs2Shard :: "transaction list list"
  txs2Supervisor :: "transaction list"
  pk_pool :: tx_pool

definition fetchTxsAndAccountStates ::
  "('s, 'd, 'db, 't, 'n, 'td) chain \<Rightarrow> int \<Rightarrow> tx_pool \<Rightarrow>
   (transaction list \<times> (address, int) gomap) result \<times> tx_pool" where
  "fetchTxsAndAccountStates c sz pool =
     (case PackTxs sz pool of
        (Inl e, p) \<Rightarrow> (Inl (Wrapf ''PackTxs failed'' e), p)
      | (Inr txs, p) \<Rightarrow>
          if txs = [] then (Inr ([], []), p)
          else (case getAccountLocationsInTxs c txs of
                  Inl e \<Rightarrow> (Inl (Wrapf ''GetAccountLocationsInTxs failed'' e), p)
                | Inr loc \<Rightarrow> (Inr (txs, loc), p)))"

text \<open>
  Where a fetched transaction goes: \<open>None\<close> drops it (the account is unknown), the supervisor's id
  sends it back to the supervisor, otherwise it goes to the shard with that id.
\<close>

definition relay_dest :: "(address, int) gomap \<Rightarrow> transaction \<Rightarrow> int option" where
  "relay_dest loc tx = map_of loc (if RelayStage tx = Relay2Tx then Recipient tx else Sender tx)"

definition getTxDestLocByAccountState :: "(address, int) gomap \<Rightarrow> transaction \<Rightarrow> int" where
  "getTxDestLocByAccountState loc tx =
     (case (map_of loc (Sender tx), map_of loc (Recipient tx)) of
        (Some s, Some r) \<Rightarrow>
          if TxType tx = NormalTxType then (if s = r then s else supervisorShardID)
          else if BrokerStage tx = Sigma1BrokerStage then s
          else if BrokerStage tx = Sigma2BrokerStage then r
          else supervisorShardID
      | _ \<Rightarrow> supervisorShardID)"

fun dispatch_relay ::
  "int \<Rightarrow> (address, int) gomap \<Rightarrow> transaction list \<Rightarrow> transaction list \<Rightarrow> transaction list list \<Rightarrow>
   (transaction list \<times> transaction list list) result" where
  "dispatch_relay self loc [] iter xss = Inr (iter, xss)"
| "dispatch_relay self loc (tx # txs) iter xss =
     (case relay_dest loc tx of
        None \<Rightarrow> dispatch_relay self loc txs iter xss
      | Some d \<Rightarrow>
          if d \<noteq> self then
            (case put_shard d tx xss of Inl e \<Rightarrow> Inl e | Inr xss' \<Rightarrow> dispatch_relay self loc txs iter xss')
          else dispatch_relay self loc txs (iter @ [tx]) xss)"

fun dispatch_broker ::
  "int \<Rightarrow> (transaction \<Rightarrow> int) \<Rightarrow> transaction list \<Rightarrow> transaction list \<Rightarrow> transaction list list \<Rightarrow> transaction list \<Rightarrow>
   (transaction list \<times> transaction list list \<times> transaction list) result" where
  "dispatch_broker self dest [] iter xss spv = Inr (iter, xss, spv)"
| "dispatch_broker self dest (tx # txs) iter xss spv =
     (if dest tx = supervisorShardID then dispatch_broker self dest txs iter xss (spv @ [tx])
      else if dest tx = self then dispatch_broker self dest txs (iter @ [tx]) xss spv
      else (case put_shard (dest tx) tx xss of Inl e \<Rightarrow> Inl e
            | Inr xss' \<Rightarrow> dispatch_broker self dest txs iter xss' spv))"

text \<open>One iteration: \<open>Inr None\<close> is the \<open>break\<close>, \<open>Inr (Some n)\<close> increases \<open>curCnt\<close> by \<open>n\<close>.\<close>

definition finish_iter ::
  "(transaction \<Rightarrow> bytes result) \<Rightarrow> transaction list \<Rightarrow> pack_acc \<Rightarrow> int option result \<times> pack_acc" where
  "finish_iter enc iter acc =
     (case GetTxListSize enc iter (pk_pool acc) of
        Inl e \<Rightarrow> (Inl (Wrapf ''GetTxListSize failed'' e), acc)
      | Inr inc \<Rightarrow> (Inr (Some inc), acc\<lparr>txsPacked := txsPacked acc @ iter\<rparr>))"

definition relay_iter ::
  "('s, 'd, 'db, 't, 'n, 'td) chain \<Rightarrow> int \<Rightarrow> int \<Rightarrow> pack_acc \<Rightarrow> int option result \<times> pack_acc" where
  "relay_iter c self sz acc =
     (case fetchTxsAndAccountStates c sz (pk_pool acc) of
        (Inl e, p) \<Rightarrow> (Inl (Wrapf ''fetchTxsAndAccountStates failed'' e), acc\<lparr>pk_pool := p\<rparr>)
      | (Inr (txs, loc), p) \<Rightarrow>
        (let acc1 = acc\<lparr>pk_pool := p\<rparr> in
         if txs = [] then (Inr None, acc1)
         else (case dispatch_relay self loc txs [] (txs2Shard acc1) of
                 Inl e \<Rightarrow> (Inl e, acc1)
               | Inr (iter, xss) \<Rightarrow>
                   finish_iter (tx_Encode (codec c)) iter (acc1\<lparr>txs2Shard := xss\<rparr>))))"

definition broker_iter ::
  "('s, 'd, 'db, 't, 'n, 'td) chain \<Rightarrow> int \<Rightarrow> int \<Rightarrow> pack_acc \<Rightarrow> int option result \<times> pack_acc" where
  "broker_iter c self sz acc =
     (case fetchTxsAndAccountStates c sz (pk_pool acc) of
        (Inl e, p) \<Rightarrow> (Inl (Wrapf ''fetchTxsAndAccountStates failed'' e), acc\<lparr>pk_pool := p\<rparr>)
      | (Inr (txs, loc), p) \<Rightarrow>
        (let acc1 = acc\<lparr>pk_pool := p\<rparr> in
         if txs = [] then (Inr None, acc1)
         else (case dispatch_broker self (getTxDestLocByAccountState loc) txs [] (txs2Shard acc1) (txs2Supervisor acc1) of
                 Inl e \<Rightarrow> (Inl e, acc1)
               | Inr (iter, xss, spv) \<Rightarrow>
                   finish_iter (tx_Encode (codec c)) iter (acc1\<lparr>txs2Shard := xss, txs2Supervisor := spv\<rparr>))))"

partial_function (option) pack_loop ::
  "(int \<Rightarrow> pack_acc \<Rightarrow> int option result \<times> pack_acc) \<Rightarrow> int \<Rightarrow> int \<Rightarrow> pack_acc \<Rightarrow> (unit result \<times> pack_acc) option" where
  [code]: "pack_loop iter sz curCnt acc =
     (if curCnt < sz then
        (case iter (sz - curCnt) acc of
           (Inl e, acc') \<Rightarrow> Some (Inl e, acc')
         | (Inr None, acc') \<Rightarrow> Some (Inr (), acc')
         | (Inr (Some incSize), acc') \<Rightarrow> pack_loop iter sz (curCnt + incSize) acc')
      else Some (Inr (), acc))"

definition init_acc :: "('s, 'd, 'db, 't, 'n, 'td, 'p) shard \<Rightarrow> pack_acc" where
  "init_acc sh =
     \<lparr>txsPacked = [], txs2Shard = replicate (nat (sh_ShardNum sh)) [], txs2Supervisor = [], pk_pool = txPool sh\<rparr>"

definition brokerCLPATxSendAgain ::
  "transaction list \<Rightarrow> ('s, 'd, 'db, 't, 'n, 'td, 'p) shard \<Rightarrow>
   unit result \<times> ('s, 'd, 'db, 't, 'n, 'td, 'p) shard" where
  "brokerCLPATxSendAgain txs sh =
     (if txs = [] then (Inr (), sh)
      else send2Supervisor (BrokerCLPATxSendAgainMsg \<lparr>sa_Txs = txs\<rparr>) sh)"

definition send_shards ::
  "transaction list list \<Rightarrow> ('s, 'd, 'db, 't, 'n, 'td, 'p) shard \<Rightarrow>
   unit result \<times> ('s, 'd, 'db, 't, 'n, 'td, 'p) shard" where
  "send_shards xss sh =
     (case SendWrappedTxs2Shards (gob sh) (resolver sh) xss (conn sh) of
        Inl e \<Rightarrow> (Inl (Wrapf ''SendWrappedTxs2Shard failed'' e), sh)
      | Inr out \<Rightarrow> (Inr (), sh\<lparr>conn := out\<rparr>))"

definition packValidTxsInRelay ::
  "int \<Rightarrow> ('s, 'd, 'db, 't, 'n, 'td, 'p) shard \<Rightarrow>
   (transaction list result \<times> ('s, 'd, 'db, 't, 'n, 'td, 'p) shard) option" where
  "packValidTxsInRelay sz sh =
     (case pack_loop (relay_iter (bc sh) (lp_ShardID (sh_lp sh))) sz 0 (init_acc sh) of
        None \<Rightarrow> None
      | Some (Inl e, acc) \<Rightarrow> Some (Inl e, sh\<lparr>txPool := pk_pool acc\<rparr>)
      | Some (Inr _, acc) \<Rightarrow>
          (case send_shards (txs2Shard acc) (sh\<lparr>txPool := pk_pool acc\<rparr>) of
             (Inl e, sh1) \<Rightarrow> Some (Inl e, sh1)
           | (Inr _, sh1) \<Rightarrow> Some (Inr (txsPacked acc), sh1)))"

definition packValidTxsInBroker ::
  "int \<Rightarrow> ('s, 'd, 'db, 't, 'n, 'td, 'p) shard \<Rightarrow>
   (transaction list result \<times> ('s, 'd, 'db, 't, 'n, 'td, 'p) shard) option" where
  "packValidTxsInBroker sz sh =
     (case pack_loop (broker_iter (bc sh) (lp_ShardID (sh_lp sh))) sz 0 (init_acc sh) of
        None \<Rightarrow> None
      | Some (Inl e, acc) \<Rightarrow> Some (Inl e, sh\<lparr>txPool := pk_pool acc\<rparr>)
      | Some (Inr _, acc) \<Rightarrow>
          (case send_shards (txs2Shard acc) (sh\<lparr>txPool := pk_pool acc\<rparr>) of
             (Inl e, sh1) \<Rightarrow> Some (Inl e, sh1)
           | (Inr _, sh1) \<Rightarrow>
             (case brokerCLPATxSendAgain (txs2Supervisor acc) sh1 of
                (Inl e, sh2) \<Rightarrow> Some (Inl (Wrapf ''brokerCLPATxSendAgain failed'' e), sh2)
              | (Inr _, sh2) \<Rightarrow> Some (Inr (txsPacked acc), sh2))))"

definition packValidTxs ::
  "int \<Rightarrow> ('s, 'd, 'db, 't, 'n, 'td, 'p) shard \<Rightarrow>
   (transaction list result \<times> ('s, 'd, 'db, 't, 'n, 'td, 'p) shard) option" where
  "packValidTxs sz sh =
     (if ConsensusType (cn_Sys (sh_cfg sh)) = CLPARelayConsensus then packValidTxsInRelay sz sh
      else packValidTxsInBroker sz sh)"

section \<open>Dynamic sharding: migrating the pool\<close>

fun dispatch_modified ::
  "(transaction \<Rightarrow> int option) \<Rightarrow> transaction list \<Rightarrow> transaction list list \<Rightarrow> transaction list \<Rightarrow>
   (transaction list list \<times> transaction list) result" where
  "dispatch_modified dest [] xss back = Inr (xss, back)"
| "dispatch_modified dest (tx # txs) xss back =
     (case dest tx of
        Some d \<Rightarrow> (case put_shard d tx xss of Inl e \<Rightarrow> Inl e | Inr xss' \<Rightarrow> dispatch_modified dest txs xss' back)
      | None \<Rightarrow> dispatch_modified dest txs xss (back @ [tx]))"

definition migrateTxsInRelay ::
  "('s, 'd, 'db, 't, 'n, 'td, 'p) shard \<Rightarrow> unit result \<times> ('s, 'd, 'db, 't, 'n, 'td, 'p) shard" where
  "migrateTxsInRelay sh =
     (case PackTxs migratedTxNum (txPool sh) of
        (Inl e, p) \<Rightarrow> (Inl (Wrapf ''PackTxs failed'' e), sh\<lparr>txPool := p\<rparr>)
      | (Inr allTxs, p) \<Rightarrow>
        (case dispatch_modified (relay_dest (CurModifiedMap (amm sh))) allTxs (replicate (nat (sh_ShardNum sh)) []) [] of
           Inl e \<Rightarrow> (Inl e, sh\<lparr>txPool := p\<rparr>)
         | Inr (tx2Shards, addBackTxs) \<Rightarrow>
             send_shards tx2Shards (sh\<lparr>txPool := AddTxs addBackTxs p\<rparr>)))"

definition getMigratedTxDestLocInBroker :: "int \<Rightarrow> (address, int) gomap \<Rightarrow> transaction \<Rightarrow> int" where
  "getMigratedTxDestLocInBroker self modified tx =
     (let s = map_of modified (Sender tx); r = map_of modified (Recipient tx) in
      if TxType tx = NormalTxType then
        (let sDest = (case s of None \<Rightarrow> self | Some d \<Rightarrow> d); rDest = (case r of None \<Rightarrow> self | Some d \<Rightarrow> d)
         in if sDest = rDest then sDest else supervisorShardID)
      else if BrokerStage tx = Sigma1BrokerStage then (case s of None \<Rightarrow> self | Some d \<Rightarrow> d)
      else if BrokerStage tx = Sigma2BrokerStage then (case r of None \<Rightarrow> self | Some d \<Rightarrow> d)
      else supervisorShardID)"

definition migrateTxsInBroker ::
  "('s, 'd, 'db, 't, 'n, 'td, 'p) shard \<Rightarrow> unit result \<times> ('s, 'd, 'db, 't, 'n, 'td, 'p) shard" where
  "migrateTxsInBroker sh =
     (case PackTxs migratedTxNum (txPool sh) of
        (Inl e, p) \<Rightarrow> (Inl (Wrapf ''PackTxs failed'' e), sh\<lparr>txPool := p\<rparr>)
      | (Inr allTxs, p) \<Rightarrow>
        (case dispatch_broker (lp_ShardID (sh_lp sh))
                (getMigratedTxDestLocInBroker (lp_ShardID (sh_lp sh)) (CurModifiedMap (amm sh))) allTxs []
                (replicate (nat (sh_ShardNum sh)) []) [] of
           Inl e \<Rightarrow> (Inl e, sh\<lparr>txPool := p\<rparr>)
         | Inr (addBackTxs, tx2Shards, tx2Supervisor) \<Rightarrow>
           (case send_shards tx2Shards (sh\<lparr>txPool := AddTxs addBackTxs p\<rparr>) of
              (Inl e, sh1) \<Rightarrow> (Inl e, sh1)
            | (Inr _, sh1) \<Rightarrow>
                apfst (wrap_err ''brokerCLPATxSendAgain failed'') (brokerCLPATxSendAgain tx2Supervisor sh1))))"

definition migrateTxs ::
  "('s, 'd, 'db, 't, 'n, 'td, 'p) shard \<Rightarrow> unit result \<times> ('s, 'd, 'db, 't, 'n, 'td, 'p) shard" where
  "migrateTxs sh =
     (if ConsensusType (cn_Sys (sh_cfg sh)) = CLPARelayConsensus then migrateTxsInRelay sh else migrateTxsInBroker sh)"

section \<open>Dynamic sharding: proposals\<close>

definition buildBlockProposal ::
  "tx_block_op \<Rightarrow> gotime \<Rightarrow> ('s, 'd, 'db, 't, 'n, 'td, 'p) shard \<Rightarrow>
   (proposal option result \<times> ('s, 'd, 'db, 't, 'n, 'td, 'p) shard) option" where
  "buildBlockProposal tbo now sh =
     (case packValidTxs (BlockSizeLimit (cn_Sys (sh_cfg sh))) sh of
        None \<Rightarrow> None
      | Some (Inl e, sh1) \<Rightarrow> Some (Inl (Wrapf ''txPool.PackTxs failed'' e), sh1)
      | Some (Inr txs, sh1) \<Rightarrow>
          (case BuildTxBlockProposal tbo now txs sh1 of
             Inl e \<Rightarrow> Some (Inl (Wrapf ''build block proposal in relay mode failed'' e), sh1)
           | Inr p \<Rightarrow> Some (Inr (Some p), sh1)))"

definition buildPartitionProposal ::
  "gotime \<Rightarrow> ('s, 'd, 'db, 't, 'n, 'td, 'p) shard \<Rightarrow>
   proposal option result \<times> ('s, 'd, 'db, 't, 'n, 'td, 'p) shard" where
  "buildPartitionProposal now sh =
     (case (case map_of (MigratedAccountStates (amm sh)) (lp_ShardID (sh_lp sh)) of
              Some _ \<Rightarrow> (Inr (), sh)
            | None \<Rightarrow>
              (case MigrateAccounts sh of
                 (Inl e, sh1) \<Rightarrow> (Inl (Wrapf ''migrateAccounts failed'' e), sh1)
               | (Inr _, sh1) \<Rightarrow> apfst (wrap_err ''migrateTxs failed'') (migrateTxs sh1))) of
        (Inl e, sh2) \<Rightarrow> (Inl e, sh2)
      | (Inr _, sh2) \<Rightarrow>
          (wrap_err ''build migration proposal failed'' (BuildMigrationProposal now sh2), sh2))"

definition Dynamic_BuildProposal ::
  "tx_block_op \<Rightarrow> gotime \<Rightarrow> ('s, 'd, 'db, 't, 'n, 'td, 'p) shard \<Rightarrow>
   (proposal option result \<times> ('s, 'd, 'db, 't, 'n, 'td, 'p) shard) option" where
  "Dynamic_BuildProposal tbo now sh =
     (if \<not> MigrationReady (amm sh) then buildBlockProposal tbo now sh
      else Some (buildPartitionProposal now sh))"

definition Dynamic_ProposalCommitAndDeliver ::
  "tx_block_op \<Rightarrow> gotime \<Rightarrow> bool \<Rightarrow> proposal \<Rightarrow> ('s, 'd, 'db, 't, 'n, 'td, 'p) shard \<Rightarrow>
   unit result \<times> ('s, 'd, 'db, 't, 'n, 'td, 'p) shard" where
  "Dynamic_ProposalCommitAndDeliver tbo now isLeader p sh =
     (if BlockType (Header (Block p)) = MigrationBlockType
      then apfst (wrap_err ''migration block commit failed'') (MigrationBlockCommit (Block p) sh)
      else apfst (wrap_err ''block commit failed'') (BlockCommitAndDeliver tbo now isLeader (Block p) sh))"

section \<open>Messages from outside the shard\<close>

definition handleReceiveTxs ::
  "'p \<Rightarrow> ('s, 'd, 'db, 't, 'n, 'td, 'p) shard \<Rightarrow> unit result \<times> ('s, 'd, 'db, 't, 'n, 'td, 'p) shard" where
  "handleReceiveTxs payload sh =
     (case g_dec_ReceiveTxs (gob sh) payload of
        Inl e \<Rightarrow> (Inl (Wrapf ''decode ReceiveTxs msg failed'' e), sh)
      | Inr rt \<Rightarrow> (Inr (), sh\<lparr>txPool := AddTxs (rt_Txs rt) (txPool sh)\<rparr>))"

definition Static_HandleMsgOutsideShard ::
  "'p wrapped_msg \<Rightarrow> ('s, 'd, 'db, 't, 'n, 'td, 'p) shard \<Rightarrow> unit result \<times> ('s, 'd, 'db, 't, 'n, 'td, 'p) shard" where
  "Static_HandleMsgOutsideShard m sh =
     (if MsgType m = ReceiveTxsMessageType then handleReceiveTxs (Payload m) sh
      else (Inl (Errorf ''unknown msg type''), sh))"

definition CLPA_HandleMsgOutsideShard ::
  "'p wrapped_msg \<Rightarrow> ('s, 'd, 'db, 't, 'n, 'td, 'p) shard \<Rightarrow> unit result \<times> ('s, 'd, 'db, 't, 'n, 'td, 'p) shard" where
  "CLPA_HandleMsgOutsideShard m sh =
     (if MsgType m = ReceiveTxsMessageType then handleReceiveTxs (Payload m) sh
      else if MsgType m = CLPARepartitionStartMessageType then
        (case g_dec_RepartitionStart (gob sh) (Payload m) of
           Inl e \<Rightarrow> (Inl (Wrapf ''decode CLPARepartitionStart msg failed'' e), sh)
         | Inr cr \<Rightarrow>
           (case UpdateByRepartitionStartMsg cr (amm sh) of
              (Inl e, am) \<Rightarrow> (Inl (Wrapf ''set account migration metadata by RepartitionStartMsg failed'' e), sh\<lparr>amm := am\<rparr>)
            | (Inr _, am) \<Rightarrow> (Inr (), sh\<lparr>amm := am\<rparr>)))
      else if MsgType m = AccountMigrationMessageType then
        (case g_dec_AccountMigration (gob sh) (Payload m) of
           Inl e \<Rightarrow> (Inl (Wrapf ''decode AccountMigrationMsg failed'' e), sh)
         | Inr aat \<Rightarrow>
           (case CollectStatesByMsg aat (amm sh) of
              (Inl e, am) \<Rightarrow> (Inl (Wrapf ''collect states by AccountMigrationMsg failed'' e), sh\<lparr>amm := am\<rparr>)
            | (Inr _, am) \<Rightarrow> (Inr (), sh\<lparr>amm := am\<rparr>)))
      else (Inl (Errorf ''unknown msg type''), sh))"

section \<open>The operations of a node, by its sharding mode\<close>

text \<open>\<open>NewPBFTNode\<close> chooses the implementations of \<open>ShardInsideOp\<close> and \<open>ShardOutsideMsgHandler\<close> together.\<close>

datatype shard_mode = StaticShard tx_block_op | DynamicShard tx_block_op

definition BuildProposal ::
  "shard_mode \<Rightarrow> gotime \<Rightarrow> ('s, 'd, 'db, 't, 'n, 'td, 'p) shard \<Rightarrow>
   (proposal option result \<times> ('s, 'd, 'db, 't, 'n, 'td, 'p) shard) option" where
  "BuildProposal m now sh =
     (case m of StaticShard tbo \<Rightarrow> Some (Static_BuildProposal tbo now sh)
      | DynamicShard tbo \<Rightarrow> Dynamic_BuildProposal tbo now sh)"

definition ProposalCommitAndDeliver ::
  "shard_mode \<Rightarrow> gotime \<Rightarrow> bool \<Rightarrow> proposal \<Rightarrow> ('s, 'd, 'db, 't, 'n, 'td, 'p) shard \<Rightarrow>
   unit result \<times> ('s, 'd, 'db, 't, 'n, 'td, 'p) shard" where
  "ProposalCommitAndDeliver m =
     (case m of StaticShard tbo \<Rightarrow> Static_ProposalCommitAndDeliver tbo
      | DynamicShard tbo \<Rightarrow> Dynamic_ProposalCommitAndDeliver tbo)"

definition HandleMsgOutsideShard ::
  "shard_mode \<Rightarrow> 'p wrapped_msg \<Rightarrow> ('s, 'd, 'db, 't, 'n, 'td, 'p) shard \<Rightarrow>
   unit result \<times> ('s, 'd, 'db, 't, 'n, 'td, 'p) shard" where
  "HandleMsgOutsideShard m =
     (case m of StaticShard _ \<Rightarrow> Static_HandleMsgOutsideShard | DynamicShard _ \<Rightarrow> CLPA_HandleMsgOutsideShard)"

section \<open>Packing: no transaction is lost\<close>

text \<open>All transactions an accumulator accounts for.\<close>

definition acc_txs :: "pack_acc \<Rightarrow> transaction multiset" where
  "acc_txs acc = mset (txsPacked acc) + mset (concat (txs2Shard acc)) + mset (txs2Supervisor acc) + mset (queue (pk_pool acc))"

lemma dispatch_relay_Inr:
  "dispatch_relay self loc txs iter xss = Inr (iter', xss') \<Longrightarrow> \<forall>tx\<in>set txs. relay_dest loc tx \<noteq> None \<Longrightarrow>
   mset iter' + mset (concat xss') = mset txs + mset iter + mset (concat xss) \<and> length xss' = length xss \<and>
   (\<exists>ys. iter' = iter @ ys \<and> (\<forall>tx\<in>set ys. tx \<in> set txs \<and> relay_dest loc tx = Some self))"
proof (induction txs arbitrary: iter xss)
  case (Cons tx txs)
  then obtain d where d: "relay_dest loc tx = Some d" by auto
  show ?case
  proof (cases "d = self")
    case True
    with Cons d have r: "dispatch_relay self loc txs (iter @ [tx]) xss = Inr (iter', xss')" by simp
    obtain ys where ys: "iter' = (iter @ [tx]) @ ys" "\<forall>tx\<in>set ys. tx \<in> set txs \<and> relay_dest loc tx = Some self"
      using Cons.IH [OF r] Cons.prems(2) by auto
    have "\<exists>ys. iter' = iter @ ys \<and> (\<forall>t\<in>set ys. t \<in> set (tx # txs) \<and> relay_dest loc t = Some self)"
      using ys d True by (intro exI [of _ "tx # ys"]) auto
    with Cons.IH [OF r] Cons.prems(2) show ?thesis by simp
  next
    case False
    then obtain xss1 where p: "put_shard d tx xss = Inr xss1"
      and r: "dispatch_relay self loc txs iter xss1 = Inr (iter', xss')"
      using Cons.prems(1) d by (auto split: sum.splits)
    from Cons.IH [OF r] Cons.prems(2) put_shard_Inr(1,2) [OF p] show ?thesis by auto
  qed
qed simp

lemma dispatch_broker_Inr:
  "dispatch_broker self dest txs iter xss spv = Inr (iter', xss', spv') \<Longrightarrow>
   mset iter' + mset (concat xss') + mset spv' = mset txs + mset iter + mset (concat xss) + mset spv \<and>
   length xss' = length xss \<and> (\<exists>ys. iter' = iter @ ys \<and> (\<forall>tx\<in>set ys. tx \<in> set txs \<and> dest tx = self))"
proof (induction txs arbitrary: iter xss spv)
  case (Cons tx txs)
  consider (spv) "dest tx = supervisorShardID" | (here) "dest tx \<noteq> supervisorShardID" "dest tx = self"
    | (there) xss1 where "dest tx \<noteq> supervisorShardID" "dest tx \<noteq> self" "put_shard (dest tx) tx xss = Inr xss1"
    using Cons.prems by (auto split: if_splits sum.splits)
  then show ?case
  proof cases
    case spv
    with Cons.prems have r: "dispatch_broker self dest txs iter xss (spv @ [tx]) = Inr (iter', xss', spv')" by simp
    from Cons.IH [OF r] show ?thesis by auto
  next
    case here
    with Cons.prems have r: "dispatch_broker self dest txs (iter @ [tx]) xss spv = Inr (iter', xss', spv')" by simp
    obtain ys where ys: "iter' = (iter @ [tx]) @ ys" "\<forall>tx\<in>set ys. tx \<in> set txs \<and> dest tx = self"
      using Cons.IH [OF r] by auto
    have "\<exists>ys. iter' = iter @ ys \<and> (\<forall>t\<in>set ys. t \<in> set (tx # txs) \<and> dest t = self)"
      using ys here by (intro exI [of _ "tx # ys"]) auto
    with Cons.IH [OF r] show ?thesis by simp
  next
    case there
    with Cons.prems have r: "dispatch_broker self dest txs iter xss1 spv = Inr (iter', xss', spv')" by simp
    from Cons.IH [OF r] put_shard_Inr(1,2) [OF there(3)] show ?thesis by auto
  qed
qed simp

text \<open>
  What the packing loop needs of its body: an iteration that goes on has taken something from the
  pool, and no iteration loses a transaction or packs one that does not belong here.
\<close>

locale packing =
  fixes iter :: "int \<Rightarrow> pack_acc \<Rightarrow> int option result \<times> pack_acc"
    and wf :: "pack_acc \<Rightarrow> bool"
    and here :: "transaction \<Rightarrow> bool"
  assumes iter_more: "wf acc \<Longrightarrow> iter n acc = (Inr (Some inc), acc') \<Longrightarrow>
      wf acc' \<and> length (queue (pk_pool acc')) < length (queue (pk_pool acc)) \<and> acc_txs acc' = acc_txs acc \<and>
      (\<exists>ys. txsPacked acc' = txsPacked acc @ ys \<and> (\<forall>tx\<in>set ys. here tx))"
    and iter_stop: "wf acc \<Longrightarrow> iter n acc = (Inr None, acc') \<Longrightarrow>
      wf acc' \<and> acc_txs acc' = acc_txs acc \<and> txsPacked acc' = txsPacked acc"
begin

lemma loop_returns: "wf acc \<Longrightarrow> \<exists>r. pack_loop iter n cur acc = Some r"
proof (induction "length (queue (pk_pool acc))" arbitrary: cur acc rule: less_induct)
  case less
  obtain r acc' where it: "iter (n - cur) acc = (r, acc')" by fastforce
  show ?case
  proof (cases "\<exists>inc. r = Inr (Some inc)")
    case True
    then obtain inc where r: "r = Inr (Some inc)" by blast
    note more = iter_more [OF less.prems it [unfolded r]]
    have "\<exists>x. pack_loop iter n (cur + inc) acc' = Some x" using more by (intro less.hyps) simp_all
    with it r show ?thesis by (subst pack_loop.simps) simp
  next
    case False
    with it show ?thesis by (subst pack_loop.simps) (auto split: sum.splits option.splits)
  qed
qed

lemma loop_conserves:
  "wf acc \<Longrightarrow> pack_loop iter n cur acc = Some (Inr (), acc') \<Longrightarrow>
   wf acc' \<and> acc_txs acc' = acc_txs acc \<and> (\<exists>ys. txsPacked acc' = txsPacked acc @ ys \<and> (\<forall>tx\<in>set ys. here tx))"
proof (induction "length (queue (pk_pool acc))" arbitrary: cur acc rule: less_induct)
  case less
  obtain r acc1 where it: "iter (n - cur) acc = (r, acc1)" by fastforce
  show ?case
  proof (cases "cur < n \<and> (\<exists>inc. r = Inr (Some inc))")
    case True
    then obtain inc where r: "r = Inr (Some inc)" and lt: "cur < n" by blast
    note more = iter_more [OF less.prems(1) it [unfolded r]]
    have rest: "pack_loop iter n (cur + inc) acc1 = Some (Inr (), acc')"
      using less.prems(2) it r lt by (simp add: pack_loop.simps [of iter n cur acc])
    have "wf acc' \<and> acc_txs acc' = acc_txs acc1 \<and> (\<exists>ys. txsPacked acc' = txsPacked acc1 @ ys \<and> (\<forall>tx\<in>set ys. here tx))"
      using more rest by (intro less.hyps) simp_all
    with more show ?thesis by force
  next
    case False
    with less.prems(2) it have "acc' = acc \<or> r = Inr None \<and> acc' = acc1"
      by (auto simp: pack_loop.simps [of iter n cur acc] split: if_splits sum.splits option.splits)
    with iter_stop [OF less.prems(1)] it less.prems(1) show ?thesis by force
  qed
qed

end

text \<open>Fetching takes a prefix of the pool and knows the location of every fetched account.\<close>

lemma fetch_Inr:
  assumes "pool_wf enc pool" "fetchTxsAndAccountStates c n pool = (Inr (txs, loc), p)"
  shows "pool_wf enc p" "queue pool = txs @ queue p"
    "tx \<in> set txs \<Longrightarrow> a \<in> {Sender tx, Recipient tx} \<Longrightarrow> \<exists>l. map_of loc a = Some l \<and> acc_loc c a = Inr l"
proof -
  have pk: "PackTxs n pool = (Inr txs, p)"
    and loc: "txs \<noteq> [] \<Longrightarrow> getAccountLocationsInTxs c txs = Inr loc"
    using assms(2) by (auto simp: fetchTxsAndAccountStates_def split: sum.splits prod.splits if_splits)
  show "pool_wf enc p" using qpool.pack_wf [OF assms(1), of n] pk by simp
  show "queue pool = txs @ queue p" by (rule qpool.pack_buffered [OF assms(1) pk])
  show "\<exists>l. map_of loc a = Some l \<and> acc_loc c a = Inr l" if "tx \<in> set txs" "a \<in> {Sender tx, Recipient tx}"
    using that by (intro getAccountLocationsInTxs_Inr [OF loc]) auto
qed

lemma finish_iter_Inr:
  assumes "finish_iter enc iter acc = (Inr r, acc')"
  shows "\<exists>inc. r = Some inc \<and> acc' = acc\<lparr>txsPacked := txsPacked acc @ iter\<rparr>"
  using assms by (auto simp: finish_iter_def split: sum.splits)

definition relay_here :: "('s, 'd, 'db, 't, 'n, 'td) chain \<Rightarrow> int \<Rightarrow> transaction \<Rightarrow> bool" where
  "relay_here c self tx \<longleftrightarrow> acc_loc c (if RelayStage tx = Relay2Tx then Recipient tx else Sender tx) = Inr self"

definition broker_here :: "('s, 'd, 'db, 't, 'n, 'td) chain \<Rightarrow> int \<Rightarrow> transaction \<Rightarrow> bool" where
  "broker_here c self tx \<longleftrightarrow>
     (if TxType tx = NormalTxType then acc_loc c (Sender tx) = Inr self \<and> acc_loc c (Recipient tx) = Inr self
      else if BrokerStage tx = Sigma1BrokerStage then acc_loc c (Sender tx) = Inr self
      else acc_loc c (Recipient tx) = Inr self)"

lemma relay_iter_step:
  assumes wf: "pool_wf (tx_Encode (codec c)) (pk_pool acc)" and run: "relay_iter c self n acc = (Inr r, acc')"
  shows "pool_wf (tx_Encode (codec c)) (pk_pool acc') \<and> acc_txs acc' = acc_txs acc \<and>
    (case r of None \<Rightarrow> txsPacked acc' = txsPacked acc
     | Some _ \<Rightarrow> length (queue (pk_pool acc')) < length (queue (pk_pool acc)) \<and>
         (\<exists>ys. txsPacked acc' = txsPacked acc @ ys \<and> (\<forall>tx\<in>set ys. relay_here c self tx)))"
proof -
  obtain txs loc p where f: "fetchTxsAndAccountStates c n (pk_pool acc) = (Inr (txs, loc), p)"
    using run by (auto simp: relay_iter_def split: sum.splits prod.splits)
  note ft = fetch_Inr [OF wf f]
  show ?thesis
  proof (cases "txs = []")
    case True
    with run f ft(1,2) show ?thesis by (auto simp: relay_iter_def acc_txs_def)
  next
    case False
    obtain it xss where d: "dispatch_relay self loc txs [] (txs2Shard acc) = Inr (it, xss)"
      and fin: "finish_iter (tx_Encode (codec c)) it (acc\<lparr>pk_pool := p, txs2Shard := xss\<rparr>) = (Inr r, acc')"
      using run f False by (auto simp: relay_iter_def Let_def split: sum.splits prod.splits)
    have known: "\<forall>tx\<in>set txs. relay_dest loc tx \<noteq> None"
      using ft(3) by (fastforce simp: relay_dest_def)
    have it: "mset it + mset (concat xss) = mset txs + mset (concat (txs2Shard acc))"
      "\<forall>tx\<in>set it. tx \<in> set txs \<and> relay_dest loc tx = Some self"
      using dispatch_relay_Inr [OF d known] by auto
    have "\<forall>tx\<in>set it. relay_here c self tx"
      using it(2) ft(3) by (fastforce simp: relay_dest_def relay_here_def split: if_splits)
    with finish_iter_Inr [OF fin] it(1) ft(1,2) False show ?thesis
      by (auto simp: acc_txs_def union_assoc [symmetric])
  qed
qed

lemma broker_iter_step:
  assumes wf: "pool_wf (tx_Encode (codec c)) (pk_pool acc)" and self: "self \<noteq> supervisorShardID"
    and run: "broker_iter c self n acc = (Inr r, acc')"
  shows "pool_wf (tx_Encode (codec c)) (pk_pool acc') \<and> acc_txs acc' = acc_txs acc \<and>
    (case r of None \<Rightarrow> txsPacked acc' = txsPacked acc
     | Some _ \<Rightarrow> length (queue (pk_pool acc')) < length (queue (pk_pool acc)) \<and>
         (\<exists>ys. txsPacked acc' = txsPacked acc @ ys \<and> (\<forall>tx\<in>set ys. broker_here c self tx)))"
proof -
  obtain txs loc p where f: "fetchTxsAndAccountStates c n (pk_pool acc) = (Inr (txs, loc), p)"
    using run by (auto simp: broker_iter_def split: sum.splits prod.splits)
  note ft = fetch_Inr [OF wf f]
  show ?thesis
  proof (cases "txs = []")
    case True
    with run f ft(1,2) show ?thesis by (auto simp: broker_iter_def acc_txs_def)
  next
    case False
    obtain it xss spv where d: "dispatch_broker self (getTxDestLocByAccountState loc) txs [] (txs2Shard acc) (txs2Supervisor acc) = Inr (it, xss, spv)"
      and fin: "finish_iter (tx_Encode (codec c)) it (acc\<lparr>pk_pool := p, txs2Shard := xss, txs2Supervisor := spv\<rparr>) = (Inr r, acc')"
      using run f False by (auto simp: broker_iter_def Let_def split: sum.splits prod.splits)
    have it: "mset it + mset (concat xss) + mset spv = mset txs + mset (concat (txs2Shard acc)) + mset (txs2Supervisor acc)"
      "\<forall>tx\<in>set it. tx \<in> set txs \<and> getTxDestLocByAccountState loc tx = self"
      using dispatch_broker_Inr [OF d] by auto
    have here: "broker_here c self tx" if tx: "tx \<in> set it" for tx
    proof -
      have in_txs: "tx \<in> set txs" using it(2) tx by simp
      obtain s0 where "map_of loc (Sender tx) = Some s0" "acc_loc c (Sender tx) = Inr s0"
        using ft(3) [OF in_txs, of "Sender tx"] by auto
      moreover obtain r0 where "map_of loc (Recipient tx) = Some r0" "acc_loc c (Recipient tx) = Inr r0"
        using ft(3) [OF in_txs, of "Recipient tx"] by auto
      moreover have "getTxDestLocByAccountState loc tx = self" using it(2) tx by simp
      ultimately show ?thesis
        using self by (simp add: getTxDestLocByAccountState_def broker_here_def split: if_splits)
    qed
    have eq: "acc_txs (acc\<lparr>pk_pool := p, txs2Shard := xss, txs2Supervisor := spv, txsPacked := txsPacked acc @ it\<rparr>) = acc_txs acc"
      using it(1) ft(2) by (simp add: acc_txs_def union_assoc [symmetric])
    from finish_iter_Inr [OF fin] here eq ft(1,2) False show ?thesis by auto
  qed
qed

lemma relay_iter_spv: "relay_iter c self n acc = (r, acc') \<Longrightarrow> txs2Supervisor acc' = txs2Supervisor acc"
  by (auto simp: relay_iter_def finish_iter_def Let_def split: prod.splits sum.splits if_splits)

interpretation relay_packing: packing "relay_iter c self"
    "\<lambda>acc. txs2Supervisor acc = [] \<and> pool_wf (tx_Encode (codec c)) (pk_pool acc)" "relay_here c self" for c self
proof unfold_locales
  fix acc acc' :: pack_acc and n inc
  assume "txs2Supervisor acc = [] \<and> pool_wf (tx_Encode (codec c)) (pk_pool acc)"
  then have spv: "txs2Supervisor acc = []" and wf: "pool_wf (tx_Encode (codec c)) (pk_pool acc)" by simp_all
  show "relay_iter c self n acc = (Inr (Some inc), acc') \<Longrightarrow>
      (txs2Supervisor acc' = [] \<and> pool_wf (tx_Encode (codec c)) (pk_pool acc')) \<and>
      length (queue (pk_pool acc')) < length (queue (pk_pool acc)) \<and>
      acc_txs acc' = acc_txs acc \<and> (\<exists>ys. txsPacked acc' = txsPacked acc @ ys \<and> (\<forall>tx\<in>set ys. relay_here c self tx))"
    using relay_iter_step [OF wf, of self n "Some inc" acc'] relay_iter_spv [of c self n acc _ acc'] spv by simp
  show "relay_iter c self n acc = (Inr None, acc') \<Longrightarrow>
      (txs2Supervisor acc' = [] \<and> pool_wf (tx_Encode (codec c)) (pk_pool acc')) \<and> acc_txs acc' = acc_txs acc \<and>
      txsPacked acc' = txsPacked acc"
    using relay_iter_step [OF wf, of self n None acc'] relay_iter_spv [of c self n acc _ acc'] spv by simp
qed

interpretation broker_packing: packing "broker_iter c self"
    "\<lambda>acc. self \<noteq> supervisorShardID \<and> pool_wf (tx_Encode (codec c)) (pk_pool acc)" "broker_here c self" for c self
proof unfold_locales
  fix acc acc' :: pack_acc and n inc
  assume "self \<noteq> supervisorShardID \<and> pool_wf (tx_Encode (codec c)) (pk_pool acc)"
  then have wf: "pool_wf (tx_Encode (codec c)) (pk_pool acc)" "self \<noteq> supervisorShardID" by simp_all
  show "broker_iter c self n acc = (Inr (Some inc), acc') \<Longrightarrow>
      (self \<noteq> supervisorShardID \<and> pool_wf (tx_Encode (codec c)) (pk_pool acc')) \<and>
      length (queue (pk_pool acc')) < length (queue (pk_pool acc)) \<and>
      acc_txs acc' = acc_txs acc \<and> (\<exists>ys. txsPacked acc' = txsPacked acc @ ys \<and> (\<forall>tx\<in>set ys. broker_here c self tx))"
    by (drule broker_iter_step [OF wf]) (simp add: wf(2))
  show "broker_iter c self n acc = (Inr None, acc') \<Longrightarrow>
      (self \<noteq> supervisorShardID \<and> pool_wf (tx_Encode (codec c)) (pk_pool acc')) \<and>
      acc_txs acc' = acc_txs acc \<and> txsPacked acc' = txsPacked acc"
    by (drule broker_iter_step [OF wf]) (simp add: wf(2))
qed

section \<open>The interface ShardInsideOp\<close>

definition generated :: "('s, 'd, 'db, 't, 'n, 'td) chain \<Rightarrow> gotime \<Rightarrow> block \<Rightarrow> bool" where
  "generated c now b \<longleftrightarrow> (\<exists>miner bt txs addrs sts. GenerateBlock c now miner bt txs addrs sts = Inr b)"

text \<open>\<open>added c b c'\<close>: the chain \<open>c'\<close> is \<open>c\<close> after adding \<open>b\<close>, up to the epoch number.\<close>

definition added :: "('s, 'd, 'db, 't, 'n, 'td) chain \<Rightarrow> block \<Rightarrow> ('s, 'd, 'db, 't, 'n, 'td) chain \<Rightarrow> bool" where
  "added c b c' \<longleftrightarrow> (\<exists>c1 ep. AddBlock c b = (Inr (), c1) \<and> c' = UpdateEpoch ep c1)"

lemma generatedI: "GenerateBlock c now miner bt txs addrs sts = Inr b \<Longrightarrow> generated c now b"
  unfolding generated_def by blast

locale inside_op =
  fixes build :: "gotime \<Rightarrow> ('s, 'd, 'db, 't, 'n, 'td, 'p) shard \<Rightarrow>
      (proposal option result \<times> ('s, 'd, 'db, 't, 'n, 'td, 'p) shard) option"
    and commit :: "gotime \<Rightarrow> bool \<Rightarrow> proposal \<Rightarrow> ('s, 'd, 'db, 't, 'n, 'td, 'p) shard \<Rightarrow>
      unit result \<times> ('s, 'd, 'db, 't, 'n, 'td, 'p) shard"
  assumes build_chain: "build now sh = Some (r, sh') \<Longrightarrow> bc sh' = bc sh"
    and build_generates: "build now sh = Some (Inr (Some p), sh') \<Longrightarrow> generated (bc sh) now (Block p)"
    and commit_adds: "commit now ldr p sh = (Inr (), sh') \<Longrightarrow> added (bc sh) (Block p) (bc sh')"
    and commit_fails: "AddBlock (bc sh) (Block p) = (Inl e, c) \<Longrightarrow> \<not> is_ok (fst (commit now ldr p sh))"
begin

lemma proposal_valid:
  assumes "chain_wf (bc sh)" "build now sh = Some (Inr (Some p), sh')"
  shows "ValidateProposal p sh' = Inr ()"
  using build_generates [OF assms(2)] build_chain [OF assms(2)] assms(1) GenerateBlock_valid
  by (auto simp: ValidateProposal_def chain_wf_def generated_def)

text \<open>A proposal that is committed on the chain it was built on extends that chain by one block.\<close>

lemma round_extends:
  assumes wf: "chain_wf (bc sh)" and build: "build now sh = Some (Inr (Some p), sh1)"
    and same: "bc sh2 = bc sh" and commit: "commit now' ldr p sh2 = (Inr (), sh')"
  shows "chain_wf (bc sh')" "curHeader (bc sh') = Header (Block p)"
    "Number (curHeader (bc sh')) = Number (curHeader (bc sh)) + 1"
    "Header_Hash (codec (bc sh)) (curHeader (bc sh)) = Inr (ParentBlockHash (curHeader (bc sh')))"
proof -
  obtain miner bt txs addrs sts where gen: "GenerateBlock (bc sh) now miner bt txs addrs sts = Inr (Block p)"
    using build_generates [OF build] by (auto simp: generated_def)
  obtain c ep where add: "AddBlock (bc sh) (Block p) = (Inr (), c)" and c: "bc sh' = UpdateEpoch ep c"
    using commit_adds [OF commit] same by (auto simp: added_def)
  show "chain_wf (bc sh')" and head: "curHeader (bc sh') = Header (Block p)"
    using AddBlock_wf [OF wf add] by (simp_all add: c UpdateEpoch_def chain_wf_def)
  show "Number (curHeader (bc sh')) = Number (curHeader (bc sh)) + 1"
    "Header_Hash (codec (bc sh)) (curHeader (bc sh)) = Inr (ParentBlockHash (curHeader (bc sh')))"
    using GenerateBlock_Inr(1,2) [OF gen] head by simp_all
qed

end

interpretation tbo: tx_block_ops "BuildTxBlockProposal t" "BlockCommitAndDeliver t" for t
proof (cases t)
  case RelayTxBlockOp
  then show "tx_block_ops (BuildTxBlockProposal t) (BlockCommitAndDeliver t)"
    using relay_op.tx_block_ops_axioms by (simp add: BuildTxBlockProposal_def BlockCommitAndDeliver_def)
next
  case BrokerTxBlockOp
  then show "tx_block_ops (BuildTxBlockProposal t) (BlockCommitAndDeliver t)"
    using broker_op.tx_block_ops_axioms by (simp add: BuildTxBlockProposal_def BlockCommitAndDeliver_def)
qed

lemma UpdateEpoch_same: "UpdateEpoch (epochID c) c = c"
  by (simp add: UpdateEpoch_def)

lemma apfst_wrap: "apfst (wrap_err m) x = (r, z) \<longleftrightarrow> (\<exists>r'. x = (r', z) \<and> r = wrap_err m r')"
  by (cases x) auto

lemma apfst_wrap_Inr: "apfst (wrap_err m) x = (Inr y, z) \<longleftrightarrow> x = (Inr y, z)"
  by (cases x) auto

lemma apfst_wrap_ok [simp]: "is_ok (fst (apfst (wrap_err m) x)) = is_ok (fst x)"
  by (cases x; cases "fst x") auto

lemma tbo_commit_fails: "AddBlock (bc sh) b = (Inl e, c) \<Longrightarrow> \<not> is_ok (fst (BlockCommitAndDeliver t now ldr b sh))"
  using tbo.commit_head [of sh b e c t now ldr] by auto

text \<open>The steps of building a proposal leave the chain alone.\<close>

lemma send_shards_core: "same_core sh (snd (send_shards xss sh))"
  by (simp add: send_shards_def split: sum.splits)

lemma brokerCLPATxSendAgain_core: "same_core sh (snd (brokerCLPATxSendAgain txs sh))"
  by (simp add: brokerCLPATxSendAgain_def send2Supervisor_core)

lemma MigrateAccounts_core: "same_core sh (snd (MigrateAccounts sh))"
  by (simp add: MigrateAccounts_def Let_def split: sum.splits)

lemma core_bc: "same_core sh sh' \<Longrightarrow> bc sh' = bc sh"
  using same_coreD by blast

lemma core_bcD:
  "send_shards xss sh = (r, sh') \<Longrightarrow> bc sh' = bc sh"
  "brokerCLPATxSendAgain txs sh = (r, sh') \<Longrightarrow> bc sh' = bc sh"
  "MigrateAccounts sh = (r, sh') \<Longrightarrow> bc sh' = bc sh"
  using core_bc [OF send_shards_core, of xss sh] core_bc [OF brokerCLPATxSendAgain_core, of txs sh]
    core_bc [OF MigrateAccounts_core, of sh] by simp_all

lemma packValidTxs_bc: "packValidTxs n sh = Some (r, sh') \<Longrightarrow> bc sh' = bc sh"
  by (cases "ConsensusType (cn_Sys (sh_cfg sh)) = CLPARelayConsensus")
    (auto simp: packValidTxs_def packValidTxsInRelay_def packValidTxsInBroker_def
      split: option.splits prod.splits sum.splits dest!: core_bcD)

lemma migrateTxs_bc: "migrateTxs sh = (r, sh') \<Longrightarrow> bc sh' = bc sh"
  by (cases "ConsensusType (cn_Sys (sh_cfg sh)) = CLPARelayConsensus")
    (auto simp: migrateTxs_def migrateTxsInRelay_def migrateTxsInBroker_def apfst_wrap
      split: option.splits prod.splits sum.splits dest!: core_bcD)

lemma Static_BuildProposal_bc: "Static_BuildProposal t now sh = (r, sh') \<Longrightarrow> bc sh' = bc sh"
  by (auto simp: Static_BuildProposal_def Let_def split: prod.splits sum.splits)

lemma buildPartitionProposal_bc: "buildPartitionProposal now sh = (r, sh') \<Longrightarrow> bc sh' = bc sh"
  by (auto simp: buildPartitionProposal_def apfst_wrap split: prod.splits sum.splits option.splits
    dest!: core_bcD migrateTxs_bc)

lemma Dynamic_BuildProposal_bc: "Dynamic_BuildProposal t now sh = Some (r, sh') \<Longrightarrow> bc sh' = bc sh"
  by (auto simp: Dynamic_BuildProposal_def buildBlockProposal_def split: if_splits option.splits prod.splits sum.splits
    dest: packValidTxs_bc buildPartitionProposal_bc)

lemma BuildMigrationProposal_generates:
  "BuildMigrationProposal now sh = Inr (Some p) \<Longrightarrow>
   generated (bc sh) now (Block p)"
  by (auto simp: BuildMigrationProposal_def WrapProposal_def split: if_splits sum.splits prod.splits intro: generatedI)

lemma Static_BuildProposal_generates:
  assumes "Static_BuildProposal t now sh = (Inr (Some p), sh')"
  shows "generated (bc sh) now (Block p)"
proof -
  obtain txs pool where "BuildTxBlockProposal t now txs (sh\<lparr>txPool := pool\<rparr>) = Inr p"
    using assms by (auto simp: Static_BuildProposal_def Let_def split: prod.splits sum.splits)
  from tbo.build_generates [OF this] show ?thesis by (auto intro: generatedI)
qed

lemma Dynamic_BuildProposal_generates:
  assumes "Dynamic_BuildProposal t now sh = Some (Inr (Some p), sh')"
  shows "generated (bc sh) now (Block p)"
proof (cases "MigrationReady (amm sh)")
  case True
  then have run: "buildPartitionProposal now sh = (Inr (Some p), sh')"
    using assms by (simp add: Dynamic_BuildProposal_def)
  then have "BuildMigrationProposal now sh' = Inr (Some p)"
    by (auto simp: buildPartitionProposal_def split: prod.splits sum.splits option.splits)
  with buildPartitionProposal_bc [OF run] show ?thesis by (metis BuildMigrationProposal_generates)
next
  case False
  then obtain txs where pk: "packValidTxs (BlockSizeLimit (cn_Sys (sh_cfg sh))) sh = Some (Inr txs, sh')"
    and b: "BuildTxBlockProposal t now txs sh' = Inr p"
    using assms by (auto simp: Dynamic_BuildProposal_def buildBlockProposal_def split: option.splits prod.splits sum.splits)
  from tbo.build_generates [OF b] packValidTxs_bc [OF pk] show ?thesis by (auto intro: generatedI)
qed

lemma tbo_commit_epoch:
  assumes "BlockCommitAndDeliver t now ldr b sh = (Inr (), sh')"
  shows "added (bc sh) b (bc sh')"
  unfolding added_def using tbo.commit_adds [OF assms] UpdateEpoch_same [of "bc sh'"] by metis

interpretation static_op: inside_op "\<lambda>now sh. Some (Static_BuildProposal t now sh)" "Static_ProposalCommitAndDeliver t" for t
proof unfold_locales
  fix now ldr r p e c and sh sh' :: "('a, 'b, 'c, 'd, 'e, 'f, 'g) shard"
  show "Some (Static_BuildProposal t now sh) = Some (r, sh') \<Longrightarrow> bc sh' = bc sh"
    by (simp add: Static_BuildProposal_bc)
  show "Some (Static_BuildProposal t now sh) = Some (Inr (Some p), sh') \<Longrightarrow> generated (bc sh) now (Block p)"
    by (simp add: Static_BuildProposal_generates)
  show "Static_ProposalCommitAndDeliver t now ldr p sh = (Inr (), sh') \<Longrightarrow> added (bc sh) (Block p) (bc sh')"
    by (simp add: Static_ProposalCommitAndDeliver_def apfst_wrap_Inr tbo_commit_epoch)
  show "AddBlock (bc sh) (Block p) = (Inl e, c) \<Longrightarrow> \<not> is_ok (fst (Static_ProposalCommitAndDeliver t now ldr p sh))"
    by (simp add: Static_ProposalCommitAndDeliver_def tbo_commit_fails)
qed

interpretation dynamic_op: inside_op "Dynamic_BuildProposal t" "Dynamic_ProposalCommitAndDeliver t" for t
proof unfold_locales
  fix now ldr r p e c and sh sh' :: "('a, 'b, 'c, 'd, 'e, 'f, 'g) shard"
  show "Dynamic_BuildProposal t now sh = Some (r, sh') \<Longrightarrow> bc sh' = bc sh" by (rule Dynamic_BuildProposal_bc)
  show "Dynamic_BuildProposal t now sh = Some (Inr (Some p), sh') \<Longrightarrow> generated (bc sh) now (Block p)"
    by (rule Dynamic_BuildProposal_generates)
  have mig: "MigrationBlockCommit (Block p) sh = (Inr (), sh') \<Longrightarrow> added (bc sh) (Block p) (bc sh')"
    by (auto simp: MigrationBlockCommit_def added_def split: prod.splits sum.splits)
  show "Dynamic_ProposalCommitAndDeliver t now ldr p sh = (Inr (), sh') \<Longrightarrow> added (bc sh) (Block p) (bc sh')"
    using mig by (simp add: Dynamic_ProposalCommitAndDeliver_def apfst_wrap_Inr tbo_commit_epoch split: if_splits)
  show "AddBlock (bc sh) (Block p) = (Inl e, c) \<Longrightarrow> \<not> is_ok (fst (Dynamic_ProposalCommitAndDeliver t now ldr p sh))"
    by (simp add: Dynamic_ProposalCommitAndDeliver_def tbo_commit_fails MigrationBlockCommit_def)
qed

end
