(* ===== verification/Sends.thy ===== *)
theory Sends
  imports Shard_Op
begin

text \<open>
  What the shard operations send: whole-program facts about the outbox of a node. Committing,
  delivering, packing, migrating and handling outside messages send transactions, block
  information and account states, but never a PBFT vote.
\<close>

section \<open>Votes among the messages sent\<close>

definition is_vote :: "'p wrapped_msg \<Rightarrow> bool" where
  "is_vote w \<longleftrightarrow> MsgType w = PrepareMessageType \<or> MsgType w = CommitMessageType"

definition votes_out :: "'p outbox \<Rightarrow> 'p outbox" where
  "votes_out out = filter (\<lambda>(d, w). is_vote w) out"

lemma votes_out_append [simp]: "votes_out (xs @ ys) = votes_out xs @ votes_out ys"
  by (simp add: votes_out_def)

lemma votes_out_Nil [simp]: "votes_out [] = []"
  by (simp add: votes_out_def)

lemma votes_out_SendMsg2Dest:
  "votes_out (SendMsg2Dest dest w out) = votes_out out @ (if is_vote w then [(dest, w)] else [])"
  by (simp add: SendMsg2Dest_def votes_out_def)

lemma WrapMsg_MsgType: "WrapMsg g m = Inr w \<Longrightarrow> getMsgType m = Inr (MsgType w) \<and> g_enc g m = Inr (Payload w)"
  by (auto simp: WrapMsg_def split: sum.splits)

lemma votes_out_MSend:
  "\<forall>(d, w)\<in>set ms. \<not> is_vote w \<Longrightarrow> votes_out (MSendDifferentMessages ms out) = votes_out out"
  unfolding MSendDifferentMessages_def
  by (induction ms arbitrary: out) (auto simp: votes_out_SendMsg2Dest)

lemma votes_out_broadcast_novote: "\<not> is_vote w \<Longrightarrow> votes_out (GroupBroadcastMessage grp w out) = votes_out out"
  unfolding GroupBroadcastMessage_def by (induction grp arbitrary: out) (auto simp: votes_out_SendMsg2Dest)

lemma votes_out_broadcast: "is_vote w \<Longrightarrow> votes_out (GroupBroadcastMessage grp w out) = votes_out out @ map (\<lambda>d. (d, w)) grp"
  unfolding GroupBroadcastMessage_def by (induction grp arbitrary: out) (auto simp: votes_out_SendMsg2Dest)

lemma sendTxs_loop_novote:
  "sendTxs_loop g t i m txs = Inr m' \<Longrightarrow> \<forall>(d, w)\<in>set m. \<not> is_vote w \<Longrightarrow> \<forall>(d, w)\<in>set m'. \<not> is_vote w"
proof (induction g t i m txs rule: sendTxs_loop.induct)
  case (2 g t i m txs rest)
  show ?case
  proof (cases "txs = []")
    case False
    then obtain l w where l: "GetLeader t i = Inr l" and w: "WrapMsg g (ReceiveTxsMsg \<lparr>rt_Txs = txs\<rparr>) = Inr w"
      and r: "sendTxs_loop g t (i + 1) (AList.update l w m) rest = Inr m'"
      using 2(3) by (auto split: sum.splits)
    have "\<not> is_vote w" using WrapMsg_MsgType [OF w] by (auto simp: getMsgType_def is_vote_def)
    then have "\<forall>(d, w)\<in>set (AList.update l w m). \<not> is_vote w"
      using 2(4) by (auto dest!: update_set_cases)
    then show ?thesis using 2(2) [OF False l w r] by blast
  qed (use 2 in auto)
qed simp

lemma migrate_wrap_loop_novote:
  "migrate_wrap_loop g t i ms m = Inr m' \<Longrightarrow> \<forall>(d, w)\<in>set m. \<not> is_vote w \<Longrightarrow> \<forall>(d, w)\<in>set m'. \<not> is_vote w"
proof (induction g t i ms m rule: migrate_wrap_loop.induct)
  case (2 g t i x ms m)
  then obtain l w where l: "GetLeader t i = Inr l" and w: "WrapMsg g (AccountMigrationMsg x) = Inr w"
    and r: "migrate_wrap_loop g t (i + 1) ms (AList.update l w m) = Inr m'"
    by (auto split: sum.splits)
  have "\<not> is_vote w" using WrapMsg_MsgType [OF w] by (auto simp: getMsgType_def is_vote_def)
  then have "\<forall>(d, w)\<in>set (AList.update l w m). \<not> is_vote w"
    using 2(3) by (auto dest!: update_set_cases)
  then show ?case using 2(1) [OF l w r] by blast
qed simp

text \<open>
  \<open>quiet sh sh'\<close>: from \<open>sh\<close> to \<open>sh'\<close> no vote was sent, and codec, topology, configuration and identity are
  the same. All shard operations are quiet: only the two broadcasts of the node send votes.
\<close>

definition quiet :: "('s, 'd, 'db, 't, 'n, 'td, 'p) shard \<Rightarrow> ('s, 'd, 'db, 't, 'n, 'td, 'p) shard \<Rightarrow> bool" where
  "quiet sh sh' \<longleftrightarrow> gob sh' = gob sh \<and> resolver sh' = resolver sh \<and> sh_cfg sh' = sh_cfg sh \<and> sh_lp sh' = sh_lp sh \<and>
     votes_out (conn sh') = votes_out (conn sh)"

lemma quiet_refl [simp]: "quiet sh sh"
  by (simp add: quiet_def)

lemma quiet_trans [trans]: "quiet a b \<Longrightarrow> quiet b c \<Longrightarrow> quiet a c"
  by (simp add: quiet_def)

lemma quiet_fields [simp]:
  "quiet a (b\<lparr>bc := c\<rparr>) = quiet a b" "quiet a (b\<lparr>txPool := p\<rparr>) = quiet a b" "quiet a (b\<lparr>amm := m\<rparr>) = quiet a b"
  "quiet (a\<lparr>bc := c\<rparr>) b = quiet a b" "quiet (a\<lparr>txPool := p\<rparr>) b = quiet a b"
  by (simp_all add: quiet_def)

lemma send2Supervisor_quiet:
  assumes "getMsgType m \<noteq> Inr PrepareMessageType" "getMsgType m \<noteq> Inr CommitMessageType"
  shows "quiet sh (snd (send2Supervisor m sh))"
proof -
  have "\<not> is_vote w" if "WrapMsg (gob sh) m = Inr w" for w
    using WrapMsg_MsgType [OF that] assms by (auto simp: is_vote_def)
  then show ?thesis by (simp add: send2Supervisor_def quiet_def votes_out_SendMsg2Dest split: sum.splits)
qed

lemma SendWrappedTxs2Shards_quiet:
  "SendWrappedTxs2Shards g t txs out = Inr out' \<Longrightarrow> votes_out out' = votes_out out"
  by (auto simp: SendWrappedTxs2Shards_def split: sum.splits dest!: sendTxs_loop_novote intro!: votes_out_MSend)

lemma send_shards_quiet: "quiet sh (snd (send_shards xss sh))"
  by (simp add: send_shards_def quiet_def SendWrappedTxs2Shards_quiet split: sum.splits)

lemma sendRelayedTxs_quiet: "quiet sh (snd (sendRelayedTxs b txs sh))"
  by (simp add: sendRelayedTxs_def quiet_def SendWrappedTxs2Shards_quiet split: sum.splits)

lemma snd_apfst [simp]: "snd (apfst h x) = snd x"
  by (cases x) simp

lemma Relay_deliverBlockInfo_quiet: "quiet sh (snd (Relay_deliverBlockInfo2Supervisor now inn r1 r2 b sh))"
  by (simp add: Relay_deliverBlockInfo2Supervisor_def send2Supervisor_quiet getMsgType_def)

lemma Broker_deliverBlockInfo_quiet: "quiet sh (snd (Broker_deliverBlockInfo2Supervisor now sp b sh))"
  by (simp add: Broker_deliverBlockInfo2Supervisor_def send2Supervisor_quiet getMsgType_def)

lemma Relay_deliver_quiet: "quiet sh (snd (Relay_deliver now b sh))"
proof -
  obtain inn r1 r2 where sp: "Relay_splitTxs (TxList b) = (inn, r1, r2)" by (metis prod_cases3)
  obtain r sh2 where d: "Relay_deliverBlockInfo2Supervisor now inn r1 r2 b sh = (r, sh2)" by fastforce
  have 1: "quiet sh sh2" using Relay_deliverBlockInfo_quiet [of sh now inn r1 r2 b] d by simp
  show ?thesis using quiet_trans [OF 1 sendRelayedTxs_quiet] 1
    by (simp add: Relay_deliver_def sp d split: sum.splits)
qed

lemma Broker_deliver_quiet: "quiet sh (snd (Broker_deliver now b sh))"
proof -
  obtain r sh2 where d: "Broker_deliverBlockInfo2Supervisor now (Broker_splitTxs (TxList b)) b sh = (r, sh2)" by fastforce
  have 1: "quiet sh sh2" using Broker_deliverBlockInfo_quiet [of sh now "Broker_splitTxs (TxList b)" b] d by simp
  show ?thesis using quiet_trans [OF 1 sendRelayedTxs_quiet] 1
    by (simp add: Broker_deliver_def Let_def d split: sum.splits)
qed

lemma commit_then_deliver_quiet:
  assumes "\<And>sh. quiet sh (snd (dlv sh))"
  shows "quiet sh (snd (commit_then_deliver dlv ldr b sh))"
proof -
  obtain r c where a: "AddBlock (bc sh) b = (r, c)" by fastforce
  have "quiet sh (snd (dlv (sh\<lparr>bc := c\<rparr>)))" using assms [of "sh\<lparr>bc := c\<rparr>"] by simp
  then show ?thesis by (simp add: commit_then_deliver_def a split: sum.splits)
qed

lemma BlockCommitAndDeliver_quiet: "quiet sh (snd (BlockCommitAndDeliver t now ldr b sh))"
  by (cases t) (simp_all add: BlockCommitAndDeliver_def Relay_BlockCommitAndDeliver_def
    Broker_BlockCommitAndDeliver_def commit_then_deliver_quiet Relay_deliver_quiet Broker_deliver_quiet)

lemma MigrationBlockCommit_quiet: "quiet sh (snd (MigrationBlockCommit b sh))"
  by (simp add: MigrationBlockCommit_def split: prod.splits sum.splits)

lemma MigrateAccounts_quiet: "quiet sh (snd (MigrateAccounts sh))"
proof -
  have "votes_out (MSendDifferentMessages m (conn sh)) = votes_out (conn sh)"
    if "migrate_wrap_loop (gob sh) (resolver sh) 0 ms [] = Inr m" for ms m
    using migrate_wrap_loop_novote [OF that] by (simp add: votes_out_MSend)
  then show ?thesis by (simp add: MigrateAccounts_def Let_def quiet_def split: sum.splits)
qed

lemma brokerCLPATxSendAgain_quiet: "quiet sh (snd (brokerCLPATxSendAgain txs sh))"
  by (simp add: brokerCLPATxSendAgain_def send2Supervisor_quiet getMsgType_def)

lemma ProposalCommitAndDeliver_quiet: "quiet sh (snd (ProposalCommitAndDeliver md now ldr p sh))"
  by (cases md) (simp_all add: ProposalCommitAndDeliver_def Static_ProposalCommitAndDeliver_def
    Dynamic_ProposalCommitAndDeliver_def BlockCommitAndDeliver_quiet MigrationBlockCommit_quiet)

lemma HandleMsgOutsideShard_quiet: "quiet sh (snd (HandleMsgOutsideShard md m sh))"
  by (cases md) (simp_all add: HandleMsgOutsideShard_def Static_HandleMsgOutsideShard_def
    CLPA_HandleMsgOutsideShard_def handleReceiveTxs_def split: sum.splits prod.splits)

text \<open>The same facts in the form the case splits of the proposal builders need.\<close>

lemma quietD:
  "send_shards xss sh = (r, sh') \<Longrightarrow> quiet sh sh'"
  "brokerCLPATxSendAgain txs sh = (r, sh') \<Longrightarrow> quiet sh sh'"
  "MigrateAccounts sh = (r, sh') \<Longrightarrow> quiet sh sh'"
  using send_shards_quiet [of sh xss] brokerCLPATxSendAgain_quiet [of sh txs] MigrateAccounts_quiet [of sh] by simp_all

lemma packValidTxs_quiet:
  assumes "packValidTxs n sh = Some (r, sh')"
  shows "quiet sh sh'"
proof (cases "ConsensusType (cn_Sys (sh_cfg sh)) = CLPARelayConsensus")
  case True
  with assms show ?thesis
    by (auto simp: packValidTxs_def packValidTxsInRelay_def split: option.splits prod.splits sum.splits dest!: quietD(1))
next
  case False
  with assms show ?thesis
    by (auto simp: packValidTxs_def packValidTxsInBroker_def split: option.splits prod.splits sum.splits
      dest!: quietD(1,2) elim: quiet_trans)
qed

lemma migrateTxs_quiet:
  assumes "migrateTxs sh = (r, sh')"
  shows "quiet sh sh'"
proof (cases "ConsensusType (cn_Sys (sh_cfg sh)) = CLPARelayConsensus")
  case True
  with assms show ?thesis
    by (auto simp: migrateTxs_def migrateTxsInRelay_def split: option.splits prod.splits sum.splits dest!: quietD(1))
next
  case False
  with assms show ?thesis
    by (auto simp: migrateTxs_def migrateTxsInBroker_def apfst_wrap split: option.splits prod.splits sum.splits
      dest!: quietD(1,2) elim: quiet_trans)
qed

lemma buildPartitionProposal_quiet: "buildPartitionProposal now sh = (r, sh') \<Longrightarrow> quiet sh sh'"
  by (auto simp: buildPartitionProposal_def apfst_wrap split: prod.splits sum.splits option.splits
    dest!: quietD(3) migrateTxs_quiet elim: quiet_trans)

lemma BuildProposal_quiet: "BuildProposal md now sh = Some (r, sh') \<Longrightarrow> quiet sh sh'"
  by (cases md) (auto simp: BuildProposal_def Static_BuildProposal_def Dynamic_BuildProposal_def buildBlockProposal_def Let_def
    split: prod.splits sum.splits option.splits if_splits dest!: packValidTxs_quiet buildPartitionProposal_quiet)

end
