(* ===== verification/Csv.thy ===== *)
theory Csv
  imports Chain
begin

text \<open>
  \<open>pkg/csvwrite\<close>, \<open>ConvertTime2Str\<close> of \<open>pkg/utils\<close> and \<open>ConvertBlock2Line\<close> of \<open>pkg/core/block\<close>: the records a
  run leaves on disk.

  A file is the list of its rows. What the operating system answers to creating a directory, opening or
  writing a row, and how a time is shown in the zone of the machine, are the fields of \<open>filesys\<close>
  that no operation changes. The lemmas show that a file holds its title followed by the rows
  written, in order, and that an existing file is never overwritten.
\<close>

section \<open>Files\<close>

record filesys =
  files :: "(string, string list list) gomap"
  os_MkdirAll :: "string \<Rightarrow> unit result"
  os_OpenFile :: "string \<Rightarrow> unit result"
  os_Write :: "string \<Rightarrow> string list \<Rightarrow> unit result"
  time_Format :: "gotime \<Rightarrow> string"

definition createFileWithDirs :: "string \<Rightarrow> filesys \<Rightarrow> unit result \<times> filesys" where
  "createFileWithDirs path fs =
     (case os_MkdirAll fs (path_Dir path) of Inl e \<Rightarrow> (Inl e, fs)
      | Inr _ \<Rightarrow>
        (case map_of (files fs) path of
           Some _ \<Rightarrow> (Inl (Errorf ''file already exists''), fs)
         | None \<Rightarrow>
           (case os_OpenFile fs path of Inl e \<Rightarrow> (Inl e, fs)
            | Inr _ \<Rightarrow> (Inr (), fs\<lparr>files := (path, []) # files fs\<rparr>))))"

text \<open>\<open>csv.Writer.Write\<close> followed by \<open>Flush\<close> and \<open>Error\<close>.\<close>

definition write_row :: "string \<Rightarrow> string list \<Rightarrow> filesys \<Rightarrow> unit result \<times> filesys" where
  "write_row path row fs =
     (case os_Write fs path row of Inl e \<Rightarrow> (Inl e, fs)
      | Inr _ \<Rightarrow> (Inr (), fs\<lparr>files := AList.update path (map_get (files fs) path [] @ [row]) (files fs)\<rparr>))"

text \<open>A \<open>CSVSeqWriter\<close> is the path of the file it writes.\<close>

definition NewCSVSeqWriter :: "string \<Rightarrow> string list \<Rightarrow> filesys \<Rightarrow> string result \<times> filesys" where
  "NewCSVSeqWriter path title fs =
     (case createFileWithDirs path fs of
        (Inl e, fs1) \<Rightarrow> (Inl (Wrapf ''createFileWithDirs failed'' e), fs1)
      | (Inr _, fs1) \<Rightarrow>
        (case write_row path title fs1 of
           (Inl e, fs2) \<Rightarrow> (Inl (Wrapf ''csv write failed'' e), fs2)
         | (Inr _, fs2) \<Rightarrow> (Inr path, fs2)))"

definition WriteLine2CSV :: "string \<Rightarrow> string list \<Rightarrow> filesys \<Rightarrow> unit result \<times> filesys" where
  "WriteLine2CSV csw line fs = apfst (wrap_err ''failed to write line'') (write_row csw line fs)"

fun write_rows :: "string \<Rightarrow> string list list \<Rightarrow> filesys \<Rightarrow> unit result \<times> filesys" where
  "write_rows path [] fs = (Inr (), fs)"
| "write_rows path (r # rs) fs =
     (case write_row path r fs of
        (Inl e, fs1) \<Rightarrow> (Inl (Wrapf ''failed to write row'' e), fs1)
      | (Inr _, fs1) \<Rightarrow> write_rows path rs fs1)"

definition WriteAllToCSV :: "string \<Rightarrow> string list \<Rightarrow> string list list \<Rightarrow> filesys \<Rightarrow> unit result \<times> filesys" where
  "WriteAllToCSV path hdr rows fs =
     (case createFileWithDirs path fs of
        (Inl e, fs1) \<Rightarrow> (Inl (Wrapf ''failed to create file'' e), fs1)
      | (Inr _, fs1) \<Rightarrow>
        (case write_row path hdr fs1 of
           (Inl e, fs2) \<Rightarrow> (Inl (Wrapf ''failed to write header'' e), fs2)
         | (Inr _, fs2) \<Rightarrow> write_rows path rows fs2))"

definition ConvertTime2Str :: "filesys \<Rightarrow> gotime \<Rightarrow> string" where
  "ConvertTime2Str fs t = (if t = 0 then [] else time_Format fs t)"

section \<open>The line of a block\<close>

definition RecordTitle :: "string list" where
  "RecordTitle =
     [''ParentHash'', ''BlockHash'', ''StateRoot'', ''Number'', ''CreateTime'', ''LocationRoot'', ''TxRoot'',
      ''TxBodyLen'', ''MigratedAccountsRoot'', ''MigrationAccountLen'']"

definition ConvertBlock2Line :: "'t codec \<Rightarrow> filesys \<Rightarrow> block \<Rightarrow> string list result" where
  "ConvertBlock2Line cd fs b =
     (case Header_Hash cd (Header b) of Inl e \<Rightarrow> Inl (Wrapf ''CalcHash failed'' e)
      | Inr blockHash \<Rightarrow>
        Inr [hex_EncodeToString (ParentBlockHash (Header b)), hex_EncodeToString blockHash,
             hex_EncodeToString (StateRoot (Header b)), Sprintf_d (uint (Number (Header b))),
             ConvertTime2Str fs (BlockCreateTime (Header b)), hex_EncodeToString (LocationRoot (Header b)),
             hex_EncodeToString (TxRoot (Header b)), Sprintf_d (int (length (TxList b))),
             hex_EncodeToString (MigratedAccountsRoot (Header b)), Sprintf_d (int (length (MigratedAddrs b)))])"

section \<open>Lemmas\<close>

lemma write_row_Inr:
  assumes "write_row path row fs = (Inr (), fs')"
  shows "map_of (files fs') path = Some (map_get (files fs) path [] @ [row])"
    "p \<noteq> path \<Longrightarrow> map_of (files fs') p = map_of (files fs) p"
    "os_MkdirAll fs' = os_MkdirAll fs" "os_Write fs' = os_Write fs" "time_Format fs' = time_Format fs"
  using assms by (auto simp: write_row_def update_conv' split: sum.splits)

lemma write_rows_Inr:
  "write_rows path rs fs = (Inr (), fs') \<Longrightarrow> map_of (files fs) path = Some old \<Longrightarrow>
   map_of (files fs') path = Some (old @ rs) \<and> (\<forall>p. p \<noteq> path \<longrightarrow> map_of (files fs') p = map_of (files fs) p)"
proof (induction rs arbitrary: fs old)
  case (Cons r rs)
  then obtain fs1 where w: "write_row path r fs = (Inr (), fs1)" and r: "write_rows path rs fs1 = (Inr (), fs')"
    by (auto split: prod.splits sum.splits)
  from write_row_Inr(1) [OF w] Cons.prems(2) have "map_of (files fs1) path = Some (old @ [r])"
    by (simp add: map_get_def)
  from Cons.IH [OF r this] show ?case using write_row_Inr(2) [OF w] by simp
qed simp

text \<open>A file written in one go holds its header and the rows; it did not exist before.\<close>

lemma WriteAllToCSV_Inr:
  assumes "WriteAllToCSV path hdr rows fs = (Inr (), fs')"
  shows "map_of (files fs) path = None" "map_of (files fs') path = Some (hdr # rows)"
    "p \<noteq> path \<Longrightarrow> map_of (files fs') p = map_of (files fs) p"
proof -
  obtain fs1 fs2 where c: "createFileWithDirs path fs = (Inr (), fs1)" and w: "write_row path hdr fs1 = (Inr (), fs2)"
    and r: "write_rows path rows fs2 = (Inr (), fs')"
    using assms by (auto simp: WriteAllToCSV_def split: prod.splits sum.splits)
  have fs1: "map_of (files fs) path = None" "fs1 = fs\<lparr>files := (path, []) # files fs\<rparr>"
    using c by (auto simp: createFileWithDirs_def split: sum.splits option.splits)
  then show "map_of (files fs) path = None" by simp
  have "map_of (files fs2) path = Some [hdr]" using write_row_Inr(1) [OF w] fs1 by (simp add: map_get_def)
  note rr = write_rows_Inr [OF r this]
  then show "map_of (files fs') path = Some (hdr # rows)" by simp
  show "p \<noteq> path \<Longrightarrow> map_of (files fs') p = map_of (files fs) p"
    using rr write_row_Inr(2) [OF w] fs1 by auto
qed

lemma NewCSVSeqWriter_Inr:
  assumes "NewCSVSeqWriter path title fs = (Inr w, fs')"
  shows "w = path" "map_of (files fs) path = None" "map_of (files fs') path = Some [title]"
proof -
  obtain fs1 where c: "createFileWithDirs path fs = (Inr (), fs1)" and r: "write_row path title fs1 = (Inr (), fs')"
    and "w = path"
    using assms by (auto simp: NewCSVSeqWriter_def split: prod.splits sum.splits)
  then show "w = path" by simp
  have fs1: "map_of (files fs) path = None" "fs1 = fs\<lparr>files := (path, []) # files fs\<rparr>"
    using c by (auto simp: createFileWithDirs_def split: sum.splits option.splits)
  then show "map_of (files fs) path = None" "map_of (files fs') path = Some [title]"
    using write_row_Inr(1) [OF r] by (simp_all add: map_get_def)
qed

lemma ConvertBlock2Line_length: "ConvertBlock2Line cd fs b = Inr line \<Longrightarrow> length line = length RecordTitle"
  by (auto simp: ConvertBlock2Line_def RecordTitle_def split: sum.splits)

end
