(* ===== verification/Pbft_Node.thy ===== *)
theory Pbft_Node
  imports Pbft_Meta Sends Csv
begin

text \<open>
  \<open>consensus/pbft/node.go\<close>: the node that runs PBFT. Its state is the metadata of the replica
  (\<open>Pbft_Meta\<close>), the objects it shares with its shard operations (\<open>Block_Ops\<close>), the sharding mode that
  \<open>NewPBFTNode\<close> chooses, and the file of the block record.

  A tick of the loop \<open>run\<close> takes the drained messages and the readings of the clock as input. Handlers
  return the node also when they fail; \<open>run\<close> logs the error and goes on. \<open>step2NextStage\<close> loops until
  the stage does not change; its termination proof is the measure \<open>2 - stage\<close>. Building a proposal may
  loop (\<open>pack_loop\<close>), so a tick returns an \<open>option\<close>.

  The lemmas show that every handler, the stage loop and the whole tick keep the invariant of the
  replica, that a node that has stopped does nothing, that votes are broadcast only for the
  preprepare of the round, and that a committed proposal is the one that the round agreed on.
\<close>

section \<open>The node\<close>

record ('s, 'd, 'db, 't, 'n, 'td, 'p) node =
  nd_shard :: "('s, 'd, 'db, 't, 'n, 'td, 'p) shard"
  pbftMeta :: consensus_meta
  nd_mode :: shard_mode
  nd_fs :: filesys
  csw :: string

definition blockRecordPath :: "string \<Rightarrow> local_params \<Rightarrow> string" where
  "blockRecordPath dir l =
     path_Join dir (''shard='' @ Sprintf_d (lp_ShardID l) @ ''_node='' @ Sprintf_d (lp_NodeID l) @ ''/block_record.csv'')"

text \<open>
  The last branch of the switch of \<open>NewPBFTNode\<close> is never reached: \<open>NewTxBlockOp\<close> has refused the type.
\<close>

definition NewPBFTNode ::
  "('s, 'd) vm_api \<Rightarrow> 't codec \<Rightarrow> ('d \<times> 'db bolt_store \<times> ('t, 'n, 'td) eth_trie_db) result \<Rightarrow> 'p gob_api \<Rightarrow>
   'p outbox \<Rightarrow> topo_getter \<Rightarrow> consensus_node_cfg \<Rightarrow> local_params \<Rightarrow> gotime \<Rightarrow> filesys \<Rightarrow>
   ('s, 'd, 'db, 't, 'n, 'td, 'p) node result \<times> filesys" where
  "NewPBFTNode v cd storage g out r cf l now fs =
     (let sys = cn_Sys cf in
      if ShardNum sys \<le> 0 \<or> ShardNum sys \<le> lp_ShardID l then (Inl (Errorf ''invalid shardID''), fs)
      else if NodeNum sys \<le> 0 \<or> NodeNum sys \<le> lp_NodeID l then (Inl (Errorf ''invalid nodeID''), fs)
      else (case NewChain v cd storage cf l now of Inl e \<Rightarrow> (Inl (Wrapf ''NewChain err'' e), fs)
      | Inr c \<Rightarrow>
      (case NewTxPool (tx_Encode cd) (TxPoolType cf) of Inl e \<Rightarrow> (Inl (Wrapf ''NewTxPool err'' e), fs)
      | Inr txp \<Rightarrow>
      (case NewTxBlockOp (ConsensusType sys) of Inl e \<Rightarrow> (Inl (Wrapf ''NewTxBlockOp failed'' e), fs)
      | Inr tbo \<Rightarrow>
      (case NewCSVSeqWriter (blockRecordPath (BlockRecordDir cf) l) RecordTitle fs of
         (Inl e, fs1) \<Rightarrow> (Inl (Wrapf ''NewCSVSeqWriter failed'' e), fs1)
      | (Inr w, fs1) \<Rightarrow>
        (let nd = (\<lambda>m. \<lparr>nd_shard = \<lparr>gob = g, conn = out, resolver = r, bc = c, txPool = txp,
                                     amm = NewAccMigrateMetadata sys l, sh_cfg = cf, sh_lp = l\<rparr>,
                         pbftMeta = newConsensusMeta cf l now, nd_mode = m, nd_fs = fs1, csw = w\<rparr>)
         in if ConsensusType sys = StaticRelayConsensus \<or> ConsensusType sys = StaticBrokerConsensus
            then (Inr (nd (StaticShard tbo)), fs1)
            else if ConsensusType sys = CLPARelayConsensus \<or> ConsensusType sys = CLPABrokerConsensus
            then (Inr (nd (DynamicShard tbo)), fs1)
            else (Inl (Errorf ''invalid consensus type''), fs1)))))))"

definition upd_meta ::
  "(consensus_meta \<Rightarrow> consensus_meta) \<Rightarrow> ('s, 'd, 'db, 't, 'n, 'td, 'p) node \<Rightarrow> ('s, 'd, 'db, 't, 'n, 'td, 'p) node" where
  "upd_meta h n = n\<lparr>pbftMeta := h (pbftMeta n)\<rparr>"

section \<open>Handlers\<close>

definition handleStopConsensus ::
  "'p \<Rightarrow> ('s, 'd, 'db, 't, 'n, 'td, 'p) node \<Rightarrow> unit result \<times> ('s, 'd, 'db, 't, 'n, 'td, 'p) node" where
  "handleStopConsensus payload n = (Inr (), upd_meta (closed_update (\<lambda>_. True)) n)"

definition handlePreprepare ::
  "'p \<Rightarrow> ('s, 'd, 'db, 't, 'n, 'td, 'p) node \<Rightarrow> unit result \<times> ('s, 'd, 'db, 't, 'n, 'td, 'p) node" where
  "handlePreprepare payload n =
     (case g_dec_Preprepare (gob (nd_shard n)) payload of
        Inl e \<Rightarrow> (Inl (Wrapf ''decode preprepare msg'' e), n)
      | Inr ppMsg \<Rightarrow>
          if Compare (curViewSeq (pbftMeta n)) (pp_ViewSeq ppMsg) > 0 then (Inr (), n)
          else (case ValidateProposal (pp_P ppMsg) (nd_shard n) of
                  Inl e \<Rightarrow> (Inl (Wrapf ''validate preprepare proposal err'' e), n)
                | Inr _ \<Rightarrow>
                    (Inr (), upd_meta (\<lambda>m. updateLatestViewSeq (pp_View ppMsg) (pp_Seq ppMsg)
                                             (m\<lparr>msgPool := PushPreprepareMsg ppMsg (msgPool m)\<rparr>)) n)))"

definition handlePrepare ::
  "'p \<Rightarrow> ('s, 'd, 'db, 't, 'n, 'td, 'p) node \<Rightarrow> unit result \<times> ('s, 'd, 'db, 't, 'n, 'td, 'p) node" where
  "handlePrepare payload n =
     (case g_dec_Prepare (gob (nd_shard n)) payload of
        Inl e \<Rightarrow> (Inl (Wrapf ''decode prepare msg'' e), n)
      | Inr pMsg \<Rightarrow>
          if Compare (curViewSeq (pbftMeta n)) (p_ViewSeq pMsg) > 0 then (Inr (), n)
          else (Inr (), upd_meta (\<lambda>m. m\<lparr>msgPool := PushPrepareMsg pMsg (msgPool m)\<rparr>) n))"

definition handleCommit ::
  "'p \<Rightarrow> ('s, 'd, 'db, 't, 'n, 'td, 'p) node \<Rightarrow> unit result \<times> ('s, 'd, 'db, 't, 'n, 'td, 'p) node" where
  "handleCommit payload n =
     (case g_dec_Commit (gob (nd_shard n)) payload of
        Inl e \<Rightarrow> (Inl (Wrapf ''decode commit msg'' e), n)
      | Inr cMsg \<Rightarrow>
          if Compare (curViewSeq (pbftMeta n)) (c_ViewSeq cMsg) > 0 then (Inr (), n)
          else (Inr (), upd_meta (\<lambda>m. m\<lparr>msgPool := PushCommitMsg cMsg (msgPool m)\<rparr>) n))"

definition send_to ::
  "node_info \<Rightarrow> 'p wrapped_msg \<Rightarrow> ('s, 'd, 'db, 't, 'n, 'td, 'p) node \<Rightarrow> ('s, 'd, 'db, 't, 'n, 'td, 'p) node" where
  "send_to dest w n = n\<lparr>nd_shard := (nd_shard n)\<lparr>conn := SendMsg2Dest dest w (conn (nd_shard n))\<rparr>\<rparr>"

definition handleCatchupReq ::
  "'p \<Rightarrow> ('s, 'd, 'db, 't, 'n, 'td, 'p) node \<Rightarrow> unit result \<times> ('s, 'd, 'db, 't, 'n, 'td, 'p) node" where
  "handleCatchupReq payload n =
     (case g_dec_CatchupReq (gob (nd_shard n)) payload of
        Inl e \<Rightarrow> (Inl (Wrapf ''decode catchup req msg'' e), n)
      | Inr crMsg \<Rightarrow>
        (case GetBlocksAfterHeight (bc (nd_shard n)) (cq_StartBlockHeight crMsg) of
           Inl e \<Rightarrow> (Inl (Wrapf ''get blocks failed'' e), n)
         | Inr blocks \<Rightarrow>
           (case WrapMsg (gob (nd_shard n))
                   (CatchupRespMsg \<lparr>cr_Proposals = map WrapProposal blocks,
                      cr_NextSeq = Seq (curViewSeq (pbftMeta n)), cr_NextView = View (curViewSeq (pbftMeta n)),
                      cr_ShardID = lp_ShardID (lp (pbftMeta n)), cr_NodeID = lp_NodeID (lp (pbftMeta n))\<rparr>) of
              Inl e \<Rightarrow> (Inl (Wrapf ''wrap message failed'' e), n)
            | Inr w \<Rightarrow> (Inr (), send_to \<lparr>NodeID = cq_NodeID crMsg, ShardID = cq_ShardID crMsg\<rparr> w n))))"

fun add_proposals ::
  "proposal list \<Rightarrow> ('s, 'd, 'db, 't, 'n, 'td) chain \<Rightarrow> unit result \<times> ('s, 'd, 'db, 't, 'n, 'td) chain" where
  "add_proposals [] c = (Inr (), c)"
| "add_proposals (p # ps) c =
     (case AddBlock c (Block p) of
        (Inl e, c1) \<Rightarrow> (Inl (Wrapf ''add block failed'' e), c1)
      | (Inr _, c1) \<Rightarrow> add_proposals ps c1)"

definition handleCatchupResp ::
  "'p \<Rightarrow> ('s, 'd, 'db, 't, 'n, 'td, 'p) node \<Rightarrow> unit result \<times> ('s, 'd, 'db, 't, 'n, 'td, 'p) node" where
  "handleCatchupResp payload n =
     (case g_dec_CatchupResp (gob (nd_shard n)) payload of
        Inl e \<Rightarrow> (Inl (Wrapf ''decode catchup resp msg'' e), n)
      | Inr crMsg \<Rightarrow>
          if leader (pbftMeta n) \<noteq> cr_NodeID crMsg
            then (Inl (Errorf ''the catchup response message is not from the leader''), n)
          else if \<not> catchupStarted (pbftMeta n) then (Inl (Errorf ''catchup resp message not started''), n)
          else (case add_proposals (cr_Proposals crMsg) (bc (nd_shard n)) of
                  (Inl e, c) \<Rightarrow> (Inl e, n\<lparr>nd_shard := (nd_shard n)\<lparr>bc := c\<rparr>\<rparr>)
                | (Inr _, c) \<Rightarrow>
                    (Inr (), upd_meta (catchupOverAndReset (ViewSeq (cr_NextView crMsg) (cr_NextSeq crMsg)))
                               (n\<lparr>nd_shard := (nd_shard n)\<lparr>bc := c\<rparr>\<rparr>))))"

text \<open>
  \<open>registerHandleFunc\<close> and \<open>handleMessage\<close>: the registered types go to their handler, any other type to
  the handler of messages from outside the shard.
\<close>

definition pbftMsgHandler ::
  "string \<Rightarrow> ('p \<Rightarrow> ('s, 'd, 'db, 't, 'n, 'td, 'p) node \<Rightarrow> unit result \<times> ('s, 'd, 'db, 't, 'n, 'td, 'p) node) option" where
  "pbftMsgHandler t =
     map_of [(StopConsensusMessageType, handleStopConsensus), (PreprepareMessageType, handlePreprepare),
             (PrepareMessageType, handlePrepare), (CommitMessageType, handleCommit),
             (CatchupReqMessageType, handleCatchupReq), (CatchupRespMessageType, handleCatchupResp)] t"

definition handleMessage ::
  "'p wrapped_msg \<Rightarrow> ('s, 'd, 'db, 't, 'n, 'td, 'p) node \<Rightarrow> unit result \<times> ('s, 'd, 'db, 't, 'n, 'td, 'p) node" where
  "handleMessage m n =
     (case pbftMsgHandler (MsgType m) of
        None \<Rightarrow>
          (case HandleMsgOutsideShard (nd_mode n) m (nd_shard n) of
             (r, sh) \<Rightarrow> (wrap_err ''handleMsgOutsideShard failed'' r, n\<lparr>nd_shard := sh\<rparr>))
      | Some h \<Rightarrow> apfst (wrap_err ''handle message failed'') (h (Payload m) n))"

section \<open>Broadcasts\<close>

definition broadcastMsgInnerShard ::
  "msg \<Rightarrow> ('s, 'd, 'db, 't, 'n, 'td, 'p) node \<Rightarrow> unit result \<times> ('s, 'd, 'db, 't, 'n, 'td, 'p) node" where
  "broadcastMsgInnerShard m n =
     (case WrapMsg (gob (nd_shard n)) m of Inl e \<Rightarrow> (Inl (Wrapf ''message.WrapMsg failed'' e), n)
      | Inr w \<Rightarrow>
        (case GetNodesInShard (resolver (nd_shard n)) (lp_ShardID (lp (pbftMeta n))) of
           Inl e \<Rightarrow> (Inl (Wrapf ''GetNodesInShard failed'' e), n)
         | Inr nodes \<Rightarrow>
             (Inr (), n\<lparr>nd_shard := (nd_shard n)\<lparr>conn := GroupBroadcastMessage nodes w (conn (nd_shard n))\<rparr>\<rparr>)))"

text \<open>The votes of this replica for a preprepare: the message literals of the two broadcasts.\<close>

definition own_prepare :: "local_params \<Rightarrow> preprepare_msg \<Rightarrow> prepare_msg" where
  "own_prepare l pp = \<lparr>p_Digest = pp_Digest pp, p_Seq = pp_Seq pp, p_View = pp_View pp,
     p_ShardID = lp_ShardID l, p_NodeID = lp_NodeID l\<rparr>"

definition own_commit :: "local_params \<Rightarrow> preprepare_msg \<Rightarrow> commit_msg" where
  "own_commit l pp = \<lparr>c_Digest = pp_Digest pp, c_Seq = pp_Seq pp, c_View = pp_View pp,
     c_ShardID = lp_ShardID l, c_NodeID = lp_NodeID l\<rparr>"

text \<open>A nil \<open>curPreprepare\<close> panics in both; \<open>step2NextStage\<close> calls them only when it is set.\<close>

definition prepareBroadcast ::
  "('s, 'd, 'db, 't, 'n, 'td, 'p) node \<Rightarrow> unit result \<times> ('s, 'd, 'db, 't, 'n, 'td, 'p) node" where
  "prepareBroadcast n =
     (case curPreprepare (pbftMeta n) of None \<Rightarrow> (Inl (Panic ''nil pointer dereference''), n)
      | Some pp \<Rightarrow> broadcastMsgInnerShard (PrepareMsg (own_prepare (lp (pbftMeta n)) pp)) n)"

definition commitBroadcast ::
  "('s, 'd, 'db, 't, 'n, 'td, 'p) node \<Rightarrow> unit result \<times> ('s, 'd, 'db, 't, 'n, 'td, 'p) node" where
  "commitBroadcast n =
     (case curPreprepare (pbftMeta n) of None \<Rightarrow> (Inl (Panic ''nil pointer dereference''), n)
      | Some pp \<Rightarrow> broadcastMsgInnerShard (CommitMsg (own_commit (lp (pbftMeta n)) pp)) n)"

lemma broadcast_meta [simp]: "pbftMeta (snd (broadcastMsgInnerShard m n)) = pbftMeta n"
  by (simp add: broadcastMsgInnerShard_def split: sum.splits)

lemma prepareBroadcast_meta [simp]: "pbftMeta (snd (prepareBroadcast n)) = pbftMeta n"
  by (simp add: prepareBroadcast_def split: option.splits)

lemma commitBroadcast_meta [simp]: "pbftMeta (snd (commitBroadcast n)) = pbftMeta n"
  by (simp add: commitBroadcast_def split: option.splits)

section \<open>Stages\<close>

definition recordBlock ::
  "block \<Rightarrow> ('s, 'd, 'db, 't, 'n, 'td, 'p) node \<Rightarrow> unit result \<times> ('s, 'd, 'db, 't, 'n, 'td, 'p) node" where
  "recordBlock b n =
     (case ConvertBlock2Line (codec (bc (nd_shard n))) (nd_fs n) b of
        Inl e \<Rightarrow> (Inl (Wrapf ''ConvertBlock2Line failed'' e), n)
      | Inr line \<Rightarrow>
        (case WriteLine2CSV (csw n) line (nd_fs n) of
           (r, fs) \<Rightarrow> (wrap_err ''WriteLine2CSV failed'' r, n\<lparr>nd_fs := fs\<rparr>)))"

text \<open>The case \<open>stagePreprepare\<close> of \<open>step2NextStage\<close>: commit, deliver and record the last proposal.\<close>

definition deliverProposal ::
  "gotime \<Rightarrow> ('s, 'd, 'db, 't, 'n, 'td, 'p) node \<Rightarrow> unit result \<times> ('s, 'd, 'db, 't, 'n, 'td, 'p) node" where
  "deliverProposal now n =
     (case lastProposal (pbftMeta n) of None \<Rightarrow> (Inl (Panic ''nil pointer dereference''), n)
      | Some p \<Rightarrow>
        (let isLeader = (leader (pbftMeta n) = lp_NodeID (lp (pbftMeta n))) in
         case ProposalCommitAndDeliver (nd_mode n) now isLeader p (nd_shard n) of
           (Inl e, sh) \<Rightarrow> (Inl (Wrapf ''commit and deliver a proposal failed'' e), n\<lparr>nd_shard := sh\<rparr>)
         | (Inr _, sh) \<Rightarrow>
             if \<not> isLeader then (Inr (), n\<lparr>nd_shard := sh\<rparr>)
             else apfst (wrap_err ''record block failed'') (recordBlock (Block p) (n\<lparr>nd_shard := sh\<rparr>))))"

lemma step2Next_grows:
  "(Inr (old, new), m) = step2Next c \<Longrightarrow> old \<noteq> new \<Longrightarrow> new \<noteq> 0 \<Longrightarrow> stage c < stage m \<and> stage c < 2"
  by (auto simp: step2Next_def split: if_splits option.splits)

lemma broadcast_keeps:
  "(r, n2) = prepareBroadcast n1 \<Longrightarrow> pbftMeta n2 = pbftMeta n1"
  "(r, n2) = commitBroadcast n1 \<Longrightarrow> pbftMeta n2 = pbftMeta n1"
  by (metis prepareBroadcast_meta snd_conv) (metis commitBroadcast_meta snd_conv)

function step2NextStage ::
  "gotime \<Rightarrow> ('s, 'd, 'db, 't, 'n, 'td, 'p) node \<Rightarrow> unit result \<times> ('s, 'd, 'db, 't, 'n, 'td, 'p) node" where
  "step2NextStage now n =
     (case step2Next (pbftMeta n) of
        (Inl e, m) \<Rightarrow> (Inl (Wrapf ''step2NextStage'' e), n\<lparr>pbftMeta := m\<rparr>)
      | (Inr (old, new), m) \<Rightarrow>
        (let n1 = n\<lparr>pbftMeta := m\<rparr> in
         if old = new then (Inr (), n1)
         else if new = stagePreprepare then deliverProposal now n1
         else if new = stagePrepare then
           (case prepareBroadcast n1 of
              (Inl e, n2) \<Rightarrow> (Inl (Wrapf ''prepareBroadcast failed'' e), n2)
            | (Inr _, n2) \<Rightarrow> step2NextStage now n2)
         else if new = stageCommit then
           (case commitBroadcast n1 of
              (Inl e, n2) \<Rightarrow> (Inl (Wrapf ''commitBroadcast failed'' e), n2)
            | (Inr _, n2) \<Rightarrow> step2NextStage now n2)
         else (Inl (Errorf ''unknown stage''), n1)))"
  by pat_completeness auto

termination
  by (relation "measure (\<lambda>(now, n). nat (2 - stage (pbftMeta n)))")
    (auto dest!: step2Next_grows broadcast_keeps)

declare step2NextStage.simps [simp del]

section \<open>Proposing and catching up\<close>

definition Proposal_Hash :: "'t codec \<Rightarrow> proposal \<Rightarrow> bytes result" where
  "Proposal_Hash cd p = (case prop_Encode cd (Block p) of Inl e \<Rightarrow> Inl e | Inr b \<Rightarrow> Inr (sha256 cd b))"

abbreviation (input) "Millisecond \<equiv> (1000000 :: int)"

definition propose ::
  "gotime \<Rightarrow> gotime \<Rightarrow> ('s, 'd, 'db, 't, 'n, 'td, 'p) node \<Rightarrow>
   (unit result \<times> ('s, 'd, 'db, 't, 'n, 'td, 'p) node) option" where
  "propose now now' n =
     (if now - lastProposeTime (pbftMeta n) < wrap64 (BlockInterval (cfg (pbftMeta n)) * Millisecond) then Some (Inr (), n)
      else (case BuildProposal (nd_mode n) now (nd_shard n) of
              None \<Rightarrow> None
            | Some (Inl e, sh) \<Rightarrow> Some (Inl (Wrapf ''chain.GenerateBlock failed'' e), n\<lparr>nd_shard := sh\<rparr>)
            | Some (Inr None, sh) \<Rightarrow> Some (Inr (), n\<lparr>nd_shard := sh\<rparr>)
            | Some (Inr (Some p), sh) \<Rightarrow>
              (let n1 = n\<lparr>nd_shard := sh\<rparr> in
               case Proposal_Hash (codec (bc sh)) p of
                 Inl e \<Rightarrow> Some (Inl (Wrapf ''CalcHash failed'' e), n1)
               | Inr digest \<Rightarrow>
                 (case broadcastMsgInnerShard (PreprepareMsg \<lparr>pp_P = p, pp_Digest = digest,
                         pp_Seq = Seq (curViewSeq (pbftMeta n1)), pp_View = View (curViewSeq (pbftMeta n1)),
                         pp_ShardID = 0, pp_NodeID = 0\<rparr>) n1 of
                    (Inl e, n2) \<Rightarrow> Some (Inl (Wrapf ''broadcastMsgInnerShard failed'' e), n2)
                  | (Inr _, n2) \<Rightarrow>
                      Some (Inr (), upd_meta (\<lambda>m. m\<lparr>proposed := True, lastProposeTime := now'\<rparr>) n2)))))"

definition catchUpStart ::
  "('s, 'd, 'db, 't, 'n, 'td, 'p) node \<Rightarrow> unit result \<times> ('s, 'd, 'db, 't, 'n, 'td, 'p) node" where
  "catchUpStart n =
     (case GetLeader (resolver (nd_shard n)) (lp_ShardID (lp (pbftMeta n))) of
        Inl e \<Rightarrow> (Inl (Wrapf ''get leader failed'' e), n)
      | Inr ldr \<Rightarrow>
        (case WrapMsg (gob (nd_shard n))
                (CatchupReqMsg \<lparr>cq_StartBlockHeight = wrap64 (sint (Number (curHeader (bc (nd_shard n)))) + 1),
                   cq_ShardID = lp_ShardID (lp (pbftMeta n)), cq_NodeID = lp_NodeID (lp (pbftMeta n))\<rparr>) of
           Inl e \<Rightarrow> (Inl (Wrapf ''wrap message failed'' e), n)
         | Inr w \<Rightarrow> (Inr (), upd_meta (\<lambda>m. m\<lparr>catchupStarted := True\<rparr>) (send_to ldr w n))))"

section \<open>The loop\<close>

text \<open>
  One input of the loop: what the buffer holds when it is drained, and the clock when proposals
  are built and when they have been broadcast.
\<close>

record 'p tick =
  tk_msgs :: "'p wrapped_msg list"
  tk_now :: gotime
  tk_now' :: gotime

definition handleMessages ::
  "'p wrapped_msg list \<Rightarrow> ('s, 'd, 'db, 't, 'n, 'td, 'p) node \<Rightarrow> ('s, 'd, 'db, 't, 'n, 'td, 'p) node" where
  "handleMessages msgs n = fold (\<lambda>m n. snd (handleMessage m n)) msgs n"

definition run_tick ::
  "'p tick \<Rightarrow> ('s, 'd, 'db, 't, 'n, 'td, 'p) node \<Rightarrow> ('s, 'd, 'db, 't, 'n, 'td, 'p) node option" where
  "run_tick tk n =
     (if closed (pbftMeta n) then Some n
      else
        (let n1 = handleMessages (tk_msgs tk) n;
             n2 = upd_meta curateMsg n1;
             n3 = snd (step2NextStage (tk_now tk) n2)
         in if lp_NodeID (lp (pbftMeta n3)) = leader (pbftMeta n3) then
              (if stage (pbftMeta n3) = stagePreprepare \<and> \<not> proposed (pbftMeta n3)
               then map_option snd (propose (tk_now tk) (tk_now' tk) n3)
               else Some n3)
            else if catchupReady (pbftMeta n3) then Some (snd (catchUpStart n3))
            else Some n3))"

fun run :: "'p tick list \<Rightarrow> ('s, 'd, 'db, 't, 'n, 'td, 'p) node \<Rightarrow> ('s, 'd, 'db, 't, 'n, 'td, 'p) node option" where
  "run [] n = Some n"
| "run (tk # tks) n =
     (if closed (pbftMeta n) then Some n
      else (case run_tick tk n of None \<Rightarrow> None | Some n' \<Rightarrow> run tks n'))"

section \<open>What a handler may change\<close>

lemma upd_meta_fields [simp]:
  "nd_shard (upd_meta h n) = nd_shard n" "pbftMeta (upd_meta h n) = h (pbftMeta n)" "nd_mode (upd_meta h n) = nd_mode n"
  by (simp_all add: upd_meta_def)

lemma send_to_fields [simp]:
  "pbftMeta (send_to d w n) = pbftMeta n" "nd_mode (send_to d w n) = nd_mode n"
  "nd_shard (send_to d w n) = (nd_shard n)\<lparr>conn := SendMsg2Dest d w (conn (nd_shard n))\<rparr>"
  by (simp_all add: send_to_def)

text \<open>The identity of a replica: what no step changes.\<close>

definition same_id :: "consensus_meta \<Rightarrow> consensus_meta \<Rightarrow> bool" where
  "same_id m m' \<longleftrightarrow> lp m' = lp m \<and> f m' = f m \<and> cfg m' = cfg m \<and> leader m' = leader m"

lemma same_id_refl [simp]: "same_id m m"
  by (simp add: same_id_def)

lemma same_id_trans: "same_id a b \<Longrightarrow> same_id b c \<Longrightarrow> same_id a c"
  by (simp add: same_id_def)

lemma handleMessage_cases:
  fixes n :: "('s, 'd, 'db, 't, 'n, 'td, 'p) node"
  obtains (stop) "MsgType w = StopConsensusMessageType" "snd (handleMessage w n) = snd (handleStopConsensus (Payload w) n)"
    | (preprepare) "MsgType w = PreprepareMessageType" "snd (handleMessage w n) = snd (handlePreprepare (Payload w) n)"
    | (prepare) "MsgType w = PrepareMessageType" "snd (handleMessage w n) = snd (handlePrepare (Payload w) n)"
    | (commit) "MsgType w = CommitMessageType" "snd (handleMessage w n) = snd (handleCommit (Payload w) n)"
    | (req) "MsgType w = CatchupReqMessageType" "snd (handleMessage w n) = snd (handleCatchupReq (Payload w) n)"
    | (resp) "MsgType w = CatchupRespMessageType" "snd (handleMessage w n) = snd (handleCatchupResp (Payload w) n)"
    | (outside) "\<not> is_vote w" "MsgType w \<noteq> CatchupRespMessageType"
        "snd (handleMessage w n) = n\<lparr>nd_shard := snd (HandleMsgOutsideShard (nd_mode n) w (nd_shard n))\<rparr>"
proof (cases "pbftMsgHandler (MsgType w) :: ('p \<Rightarrow> ('s, 'd, 'db, 't, 'n, 'td, 'p) node \<Rightarrow> _) option")
  case None
  then have "\<not> is_vote w" "MsgType w \<noteq> CatchupRespMessageType"
    by (auto simp: pbftMsgHandler_def is_vote_def split: if_splits)
  then show ?thesis using None outside by (simp add: handleMessage_def split: prod.splits)
next
  case (Some h)
  then have "snd (handleMessage w n) = snd (h (Payload w) n)" by (simp add: handleMessage_def)
  with Some that(1-6) show ?thesis by (simp add: pbftMsgHandler_def split: if_splits)
qed

text \<open>\<open>calm n n'\<close>: no vote was sent and the round of the replica has not moved.\<close>

definition calm :: "('s, 'd, 'db, 't, 'n, 'td, 'p) node \<Rightarrow> ('s, 'd, 'db, 't, 'n, 'td, 'p) node \<Rightarrow> bool" where
  "calm n n' \<longleftrightarrow> quiet (nd_shard n) (nd_shard n') \<and> same_id (pbftMeta n) (pbftMeta n') \<and>
     curViewSeq (pbftMeta n') = curViewSeq (pbftMeta n) \<and> stage (pbftMeta n') = stage (pbftMeta n) \<and>
     curPreprepare (pbftMeta n') = curPreprepare (pbftMeta n) \<and> commitSet (pbftMeta n') = commitSet (pbftMeta n)"

lemma calm_refl [simp]: "calm n n"
  by (simp add: calm_def)

lemma updateLatestViewSeq_frame [simp]:
  "lp (updateLatestViewSeq v s m) = lp m" "f (updateLatestViewSeq v s m) = f m" "cfg (updateLatestViewSeq v s m) = cfg m"
  "leader (updateLatestViewSeq v s m) = leader m" "curViewSeq (updateLatestViewSeq v s m) = curViewSeq m"
  "stage (updateLatestViewSeq v s m) = stage m" "curPreprepare (updateLatestViewSeq v s m) = curPreprepare m"
  "commitSet (updateLatestViewSeq v s m) = commitSet m" "msgPool (updateLatestViewSeq v s m) = msgPool m"
  "closed (updateLatestViewSeq v s m) = closed m"
  by (simp_all add: updateLatestViewSeq_def Let_def)

lemma quiet_send:
  assumes "WrapMsg g m = Inr w" "getMsgType m \<noteq> Inr PrepareMessageType" "getMsgType m \<noteq> Inr CommitMessageType"
  shows "quiet sh (sh\<lparr>conn := SendMsg2Dest d w (conn sh)\<rparr>)" "quiet sh (sh\<lparr>conn := GroupBroadcastMessage grp w (conn sh)\<rparr>)"
proof -
  have "\<not> is_vote w" using WrapMsg_MsgType [OF assms(1)] assms(2,3) by (auto simp: is_vote_def)
  then show "quiet sh (sh\<lparr>conn := SendMsg2Dest d w (conn sh)\<rparr>)" "quiet sh (sh\<lparr>conn := GroupBroadcastMessage grp w (conn sh)\<rparr>)"
    by (simp_all add: quiet_def votes_out_SendMsg2Dest votes_out_broadcast_novote)
qed

lemma handleMessage_calm:
  assumes "MsgType w \<noteq> CatchupRespMessageType"
  shows "calm n (snd (handleMessage w n))"
proof (cases w n rule: handleMessage_cases)
  case req
  show ?thesis unfolding req(2) by (auto simp: handleCatchupReq_def calm_def getMsgType_def quiet_send split: sum.splits)
next
  case outside
  then show ?thesis by (simp add: calm_def HandleMsgOutsideShard_quiet)
qed (use assms in \<open>simp_all add: handleStopConsensus_def handlePreprepare_def handlePrepare_def handleCommit_def calm_def
    same_id_def split: sum.splits\<close>)

text \<open>A catch-up response replaces the round or, when it is refused or a block fails, keeps it.\<close>

lemma handleCatchupResp_round:
  "quiet (nd_shard n) (nd_shard (snd (handleCatchupResp payload n)))"
  "calm n (snd (handleCatchupResp payload n)) \<or>
   (\<exists>m. g_dec_CatchupResp (gob (nd_shard n)) payload = Inr m \<and>
      pbftMeta (snd (handleCatchupResp payload n)) =
        catchupOverAndReset (ViewSeq (cr_NextView m) (cr_NextSeq m)) (pbftMeta n))"
  by (auto simp: handleCatchupResp_def calm_def split: sum.splits prod.splits)

section \<open>Invariant\<close>

definition node_inv :: "('s, 'd, 'db, 't, 'n, 'td, 'p) node \<Rightarrow> bool" where
  "node_inv n \<longleftrightarrow> meta_inv (pbftMeta n)"

lemma meta_inv_closed [simp]: "meta_inv (m\<lparr>closed := b\<rparr>) = meta_inv m"
  by (simp add: meta_inv_def split: option.splits)

lemma meta_inv_pool: "meta_inv m \<Longrightarrow> pool_ok p \<Longrightarrow> meta_inv (m\<lparr>msgPool := p\<rparr>)"
  by (simp add: meta_inv_def split: option.splits)

lemma meta_inv_poolD: "meta_inv m \<Longrightarrow> pool_ok (msgPool m)"
  by (simp add: meta_inv_def)

lemma NewPBFTNode_inv [inv_rules]: "NewPBFTNode v cd st g out r cf l now fs = (Inr n, fs') \<Longrightarrow> node_inv n"
  by (auto simp: NewPBFTNode_def Let_def node_inv_def newConsensusMeta_inv split: if_splits sum.splits prod.splits)

lemma handleMessage_inv [inv_rules]:
  assumes "node_inv n"
  shows "node_inv (snd (handleMessage w n))"
proof (cases w n rule: handleMessage_cases)
  case req
  show ?thesis using assms unfolding req(2) by (simp add: handleCatchupReq_def node_inv_def split: sum.splits)
next
  case resp
  show ?thesis using assms unfolding resp(2)
    by (auto simp: handleCatchupResp_def node_inv_def catchupOverAndReset_inv split: sum.splits prod.splits)
qed (use assms in \<open>simp_all add: handleStopConsensus_def handlePreprepare_def handlePrepare_def handleCommit_def node_inv_def
    meta_inv_pool meta_inv_poolD pool_ok_Push updateLatestViewSeq_inv split: sum.splits\<close>)

text \<open>The commits in the pool after a message are the old ones and the message itself.\<close>

lemma handleMessage_commits:
  assumes "m \<in># pq_contents (commits (msgPool (pbftMeta (snd (handleMessage w n)))))"
  shows "m \<in># pq_contents (commits (msgPool (pbftMeta n))) \<or>
    MsgType w = CommitMessageType \<and> g_dec_Commit (gob (nd_shard n)) (Payload w) = Inr m"
proof (cases w n rule: handleMessage_cases)
  case commit
  then show ?thesis using assms
    by (auto simp: handleCommit_def PushCommitMsg_def pq_contents_PushItem split: sum.splits if_splits)
next
  case req
  show ?thesis using assms unfolding req(2) by (simp add: handleCatchupReq_def split: sum.splits)
next
  case resp
  show ?thesis using assms unfolding resp(2)
    by (auto simp: handleCatchupResp_def catchupOverAndReset_def split: sum.splits prod.splits if_splits)
qed (use assms in \<open>auto simp: handleStopConsensus_def handlePreprepare_def handlePrepare_def
    PushPreprepareMsg_def PushPrepareMsg_def split: sum.splits if_splits\<close>)

section \<open>The stage loop\<close>

text \<open>
  \<open>own_vote n w\<close>: \<open>w\<close> is the prepare or the commit of this replica for the preprepare it holds.
  \<open>vote_only n n'\<close>: the round is the same and only such votes were sent.
\<close>

definition own_vote :: "('s, 'd, 'db, 't, 'n, 'td, 'p) node \<Rightarrow> 'p wrapped_msg \<Rightarrow> bool" where
  "own_vote n w \<longleftrightarrow> (\<exists>pp. curPreprepare (pbftMeta n) = Some pp \<and>
     (WrapMsg (gob (nd_shard n)) (PrepareMsg (own_prepare (lp (pbftMeta n)) pp)) = Inr w \<or>
      WrapMsg (gob (nd_shard n)) (CommitMsg (own_commit (lp (pbftMeta n)) pp)) = Inr w))"

definition same_round :: "consensus_meta \<Rightarrow> consensus_meta \<Rightarrow> bool" where
  "same_round m m' \<longleftrightarrow> same_id m m' \<and> msgPool m' = msgPool m \<and> curViewSeq m' = curViewSeq m \<and>
     curPreprepare m' = curPreprepare m \<and> commitSet m' = commitSet m \<and> prepareSet m' = prepareSet m"

definition vote_only :: "('s, 'd, 'db, 't, 'n, 'td, 'p) node \<Rightarrow> ('s, 'd, 'db, 't, 'n, 'td, 'p) node \<Rightarrow> bool" where
  "vote_only n n' \<longleftrightarrow> same_round (pbftMeta n) (pbftMeta n') \<and> gob (nd_shard n') = gob (nd_shard n) \<and>
     (\<exists>new. votes_out (conn (nd_shard n')) = votes_out (conn (nd_shard n)) @ new \<and> (\<forall>(d, w)\<in>set new. own_vote n w))"

definition decides :: "('s, 'd, 'db, 't, 'n, 'td, 'p) node \<Rightarrow> ('s, 'd, 'db, 't, 'n, 'td, 'p) node \<Rightarrow> bool" where
  "decides n n' \<longleftrightarrow> (\<exists>n1. vote_only n n1 \<and> node_inv n1 \<and> step2Next (pbftMeta n1) = (Inr (stageCommit, stagePreprepare), pbftMeta n') \<and>
     quiet (nd_shard n1) (nd_shard n'))"

lemma same_round_refl [simp]: "same_round m m"
  by (simp add: same_round_def)

lemma same_round_stage: "same_round m (m\<lparr>stage := s\<rparr>)"
  by (simp add: same_round_def same_id_def)

lemma same_round_trans: "same_round a b \<Longrightarrow> same_round b c \<Longrightarrow> same_round a c"
  by (auto simp: same_round_def intro: same_id_trans)

lemma own_vote_cong:
  "same_round (pbftMeta n) (pbftMeta n') \<Longrightarrow> gob (nd_shard n') = gob (nd_shard n) \<Longrightarrow> own_vote n' = own_vote n"
  by (simp add: own_vote_def same_round_def same_id_def fun_eq_iff)

lemma vote_onlyI:
  "same_round (pbftMeta n) (pbftMeta n') \<Longrightarrow> gob (nd_shard n') = gob (nd_shard n) \<Longrightarrow>
   votes_out (conn (nd_shard n')) = votes_out (conn (nd_shard n)) @ new \<Longrightarrow> \<forall>(d, w)\<in>set new. own_vote n w \<Longrightarrow> vote_only n n'"
  unfolding vote_only_def by blast

lemma vote_only_refl [simp]: "vote_only n n"
  by (rule vote_onlyI [where new = "[]"]) simp_all

lemma vote_only_trans:
  assumes "vote_only a b" "vote_only b c"
  shows "vote_only a c"
proof -
  obtain u where u: "votes_out (conn (nd_shard b)) = votes_out (conn (nd_shard a)) @ u" "\<forall>(d, w)\<in>set u. own_vote a w"
    using assms(1) by (auto simp: vote_only_def)
  obtain v where v: "votes_out (conn (nd_shard c)) = votes_out (conn (nd_shard b)) @ v" "\<forall>(d, w)\<in>set v. own_vote b w"
    using assms(2) by (auto simp: vote_only_def)
  have own: "own_vote b = own_vote a" using assms(1) own_vote_cong unfolding vote_only_def by blast
  show ?thesis
  proof (rule vote_onlyI)
    show "same_round (pbftMeta a) (pbftMeta c)" using assms same_round_trans unfolding vote_only_def by blast
    show "gob (nd_shard c) = gob (nd_shard a)" using assms by (simp add: vote_only_def)
    show "votes_out (conn (nd_shard c)) = votes_out (conn (nd_shard a)) @ (u @ v)" using u v by simp
    show "\<forall>(d, w)\<in>set (u @ v). own_vote a w" using u(2) v(2) own by auto
  qed
qed

lemma vote_only_quiet:
  "same_round (pbftMeta n) (pbftMeta n') \<Longrightarrow> quiet (nd_shard n) (nd_shard n') \<Longrightarrow> vote_only n n'"
  by (auto simp: vote_only_def quiet_def)

lemma broadcast_vote_only:
  assumes own: "\<And>w. WrapMsg (gob (nd_shard n)) m = Inr w \<Longrightarrow> is_vote w \<and> own_vote n w"
  shows "vote_only n (snd (broadcastMsgInnerShard m n))"
proof (cases "is_ok (fst (broadcastMsgInnerShard m n))")
  case True
  then obtain w nodes where w: "WrapMsg (gob (nd_shard n)) m = Inr w"
    and b: "snd (broadcastMsgInnerShard m n) =
      n\<lparr>nd_shard := (nd_shard n)\<lparr>conn := GroupBroadcastMessage nodes w (conn (nd_shard n))\<rparr>\<rparr>"
    by (auto simp: broadcastMsgInnerShard_def split: sum.splits)
  show ?thesis unfolding b
    by (rule vote_onlyI [where new = "map (\<lambda>d. (d, w)) nodes"]) (use own [OF w] in \<open>auto simp: votes_out_broadcast\<close>)
next
  case False
  then have "snd (broadcastMsgInnerShard m n) = n" by (simp add: broadcastMsgInnerShard_def split: sum.splits)
  then show ?thesis by simp
qed

lemma is_vote_wrap:
  "WrapMsg g (PrepareMsg m) = Inr w \<Longrightarrow> is_vote w" "WrapMsg g (CommitMsg c) = Inr w \<Longrightarrow> is_vote w"
  by (drule WrapMsg_MsgType, simp add: getMsgType_def is_vote_def)+

lemma broadcasts_vote_only:
  "vote_only n (snd (prepareBroadcast n))" "vote_only n (snd (commitBroadcast n))"
proof -
  show "vote_only n (snd (prepareBroadcast n))"
    by (auto simp: prepareBroadcast_def own_vote_def is_vote_wrap split: option.splits intro!: broadcast_vote_only)
  show "vote_only n (snd (commitBroadcast n))"
    by (auto simp: commitBroadcast_def own_vote_def is_vote_wrap split: option.splits intro!: broadcast_vote_only)
qed

lemma recordBlock_frame [simp]:
  "pbftMeta (snd (recordBlock b n)) = pbftMeta n" "nd_shard (snd (recordBlock b n)) = nd_shard n"
  by (simp_all add: recordBlock_def split: sum.splits prod.splits)

lemma deliverProposal_frame:
  "pbftMeta (snd (deliverProposal now n)) = pbftMeta n" "quiet (nd_shard n) (nd_shard (snd (deliverProposal now n)))"
proof -
  show "pbftMeta (snd (deliverProposal now n)) = pbftMeta n"
    by (simp add: deliverProposal_def Let_def split: option.splits prod.splits sum.splits)
  have "quiet (nd_shard n) sh" if "ProposalCommitAndDeliver (nd_mode n) now l p (nd_shard n) = (r, sh)" for l p r sh
    using ProposalCommitAndDeliver_quiet [of "nd_shard n" "nd_mode n" now l p] that by simp
  then show "quiet (nd_shard n) (nd_shard (snd (deliverProposal now n)))"
    by (simp add: deliverProposal_def Let_def split: option.splits prod.splits sum.splits)
qed

lemma step2Next_keeps_round:
  assumes "step2Next c = (Inr (old, new), c')" "new \<noteq> 0 \<or> old = 0"
  shows "same_round c c'" "\<exists>s. c' = c\<lparr>stage := s\<rparr>"
  using assms by (auto simp: step2Next_def same_round_stage split: if_splits option.splits
    intro: exI [of _ "stage c"])

theorem step2NextStage_cases:
  "node_inv n \<Longrightarrow> node_inv (snd (step2NextStage now n)) \<and>
   (vote_only n (snd (step2NextStage now n)) \<or> decides n (snd (step2NextStage now n)))"
proof (induction now n rule: step2NextStage.induct)
  case (1 now n)
  obtain old new where st: "fst (step2Next (pbftMeta n)) = Inr (old, new)" "old = stage (pbftMeta n)"
    using step2Next_total [of "pbftMeta n"] "1.prems" unfolding node_inv_def by blast
  then obtain m where s: "step2Next (pbftMeta n) = (Inr (old, new), m)" by (metis prod.collapse)
  let ?n1 = "n\<lparr>pbftMeta := m\<rparr>"
  have inv: "node_inv ?n1" using step2Next_inv [of "pbftMeta n"] "1.prems" s by (simp add: node_inv_def)
  show ?case
  proof (cases "new = 0 \<and> old \<noteq> 0")
    case True
    then have "old = stageCommit" using s by (auto simp: step2Next_def split: if_splits option.splits)
    moreover have run: "snd (step2NextStage now n) = snd (deliverProposal now ?n1)"
      using s True by (simp add: step2NextStage.simps [of now n])
    ultimately have "decides n (snd (step2NextStage now n))"
      using s True "1.prems" deliverProposal_frame [where now = now and n = ?n1]
      unfolding decides_def run by (intro exI [of _ n]) simp
    with inv show ?thesis by (simp add: run node_inv_def deliverProposal_frame)
  next
    case False
    have round: "vote_only n ?n1" using step2Next_keeps_round(1) [OF s] False by (intro vote_only_quiet) auto
    consider "old = new" | (prep) "old \<noteq> new" "new = 1" | (com) "old \<noteq> new" "new = 2"
      using s False by (auto simp: step2Next_def split: if_splits option.splits)
    then show ?thesis
    proof cases
      case 1
      then show ?thesis using s round inv by (simp add: step2NextStage.simps [of now n])
    next
      case prep
      obtain r n2 where b: "prepareBroadcast ?n1 = (r, n2)" by fastforce
      have v: "vote_only n n2" and i2: "node_inv n2"
        using vote_only_trans [OF round broadcasts_vote_only(1)] b prepareBroadcast_meta [of ?n1] inv by (simp_all add: node_inv_def)
      show ?thesis
      proof (cases r)
        case (Inl e)
        then show ?thesis using s b prep v i2 by (simp add: step2NextStage.simps [of now n])
      next
        case (Inr u)
        then have run: "step2NextStage now n = step2NextStage now n2"
          using s b prep by (simp add: step2NextStage.simps [of now n])
        have IH: "node_inv (snd (step2NextStage now n2)) \<and>
            (vote_only n2 (snd (step2NextStage now n2)) \<or> decides n2 (snd (step2NextStage now n2)))"
          using "1.IH"(1) [OF s [symmetric] refl refl refl] b Inr prep i2 by simp
        then show ?thesis unfolding run decides_def using vote_only_trans [OF v] by blast
      qed
    next
      case com
      obtain r n2 where b: "commitBroadcast ?n1 = (r, n2)" by fastforce
      have v: "vote_only n n2" and i2: "node_inv n2"
        using vote_only_trans [OF round broadcasts_vote_only(2)] b commitBroadcast_meta [of ?n1] inv by (simp_all add: node_inv_def)
      show ?thesis
      proof (cases r)
        case (Inl e)
        then show ?thesis using s b com v i2 by (simp add: step2NextStage.simps [of now n])
      next
        case (Inr u)
        then have run: "step2NextStage now n = step2NextStage now n2"
          using s b com by (simp add: step2NextStage.simps [of now n])
        have IH: "node_inv (snd (step2NextStage now n2)) \<and>
            (vote_only n2 (snd (step2NextStage now n2)) \<or> decides n2 (snd (step2NextStage now n2)))"
          using "1.IH"(2) [OF s [symmetric] refl refl refl] b Inr com i2 by simp
        then show ?thesis unfolding run decides_def using vote_only_trans [OF v] by blast
      qed
    qed
  qed
qed

section \<open>Proposing, catching up and the whole tick\<close>

lemma broadcast_calm:
  assumes "getMsgType m \<noteq> Inr PrepareMessageType" "getMsgType m \<noteq> Inr CommitMessageType"
  shows "calm n (snd (broadcastMsgInnerShard m n))"
  using quiet_send(2) [OF _ assms] by (auto simp: broadcastMsgInnerShard_def calm_def split: sum.splits)

lemma calm_trans: "calm a b \<Longrightarrow> calm b c \<Longrightarrow> calm a c"
  by (auto simp: calm_def intro: quiet_trans same_id_trans)

lemma calm_shard: "quiet (nd_shard n) sh \<Longrightarrow> calm n (n\<lparr>nd_shard := sh\<rparr>)"
  by (simp add: calm_def)

lemma propose_frame:
  assumes "propose now now' n = Some (r, n')"
  shows "calm n n' \<and> msgPool (pbftMeta n') = msgPool (pbftMeta n) \<and> prepareSet (pbftMeta n') = prepareSet (pbftMeta n)"
proof (cases "now - lastProposeTime (pbftMeta n) < wrap64 (BlockInterval (cfg (pbftMeta n)) * Millisecond)")
  case True
  then show ?thesis using assms by (simp add: propose_def)
next
  case False
  then obtain pr sh where b: "BuildProposal (nd_mode n) now (nd_shard n) = Some (pr, sh)"
    using assms by (auto simp: propose_def split: option.splits)
  let ?n1 = "n\<lparr>nd_shard := sh\<rparr>"
  have c1: "calm n ?n1" by (rule calm_shard [OF BuildProposal_quiet [OF b]])
  have c2: "calm n n2" "pbftMeta n2 = pbftMeta n" if "broadcastMsgInnerShard (PreprepareMsg pp) ?n1 = (x, n2)" for pp x n2
    using calm_trans [OF c1 broadcast_calm [of "PreprepareMsg pp"]] broadcast_meta [of "PreprepareMsg pp" ?n1] that
    by (simp_all add: getMsgType_def)
  have c3: "calm n (upd_meta (\<lambda>m. m\<lparr>proposed := True, lastProposeTime := t\<rparr>) n2)" if "calm n n2" for n2 t
    using that by (simp add: calm_def same_id_def)
  show ?thesis using assms False b c1 c2 c3
    by (auto simp: propose_def Let_def split: sum.splits option.splits prod.splits)
qed

lemma catchUpStart_frame:
  "calm n (snd (catchUpStart n))" "msgPool (pbftMeta (snd (catchUpStart n))) = msgPool (pbftMeta n)"
  "prepareSet (pbftMeta (snd (catchUpStart n))) = prepareSet (pbftMeta n)"
  by (auto simp: catchUpStart_def calm_def same_id_def getMsgType_def quiet_send split: sum.splits)

lemma node_inv_calm:
  "node_inv n \<Longrightarrow> calm n n' \<Longrightarrow> msgPool (pbftMeta n') = msgPool (pbftMeta n) \<Longrightarrow>
   prepareSet (pbftMeta n') = prepareSet (pbftMeta n) \<Longrightarrow> node_inv n'"
  by (simp add: node_inv_def meta_inv_def calm_def same_id_def split: option.splits)

lemma handleMessages_inv [inv_rules]: "node_inv n \<Longrightarrow> node_inv (handleMessages msgs n)"
  unfolding handleMessages_def by (induction msgs arbitrary: n) (simp_all add: handleMessage_inv)

lemma upd_curateMsg_inv: "node_inv n \<Longrightarrow> node_inv (upd_meta curateMsg n)"
  by (simp add: node_inv_def curateMsg_inv)

lemma run_tick_inv [inv_rules]:
  assumes "node_inv n" "run_tick tk n = Some n'"
  shows "node_inv n'"
proof (cases "closed (pbftMeta n)")
  case False
  let ?n3 = "snd (step2NextStage (tk_now tk) (upd_meta curateMsg (handleMessages (tk_msgs tk) n)))"
  have inv: "node_inv ?n3"
    using step2NextStage_cases [OF upd_curateMsg_inv [OF handleMessages_inv [OF assms(1)]]] by blast
  have p: "node_inv n4" if "propose a b ?n3 = Some (r, n4)" for a b r n4
    using node_inv_calm [OF inv] propose_frame [OF that] by simp
  have c: "node_inv (snd (catchUpStart ?n3))" by (intro node_inv_calm [OF inv] catchUpStart_frame)
  show ?thesis using assms(2) False inv p c by (auto simp: run_tick_def Let_def split: if_splits)
qed (use assms in \<open>simp add: run_tick_def\<close>)

lemma run_inv [inv_rules]: "node_inv n \<Longrightarrow> run tks n = Some n' \<Longrightarrow> node_inv n'"
  by (induction tks arbitrary: n) (auto split: if_splits option.splits dest: run_tick_inv)

text \<open>A node that has been told to stop does nothing any more.\<close>

lemma run_closed: "closed (pbftMeta n) \<Longrightarrow> run tks n = Some n"
  by (cases tks) simp_all

text \<open>
  What a successful proposal is: a block built on the current head that passes the validation of
  every replica with this chain, broadcast with its own hash as the digest.
\<close>

lemma propose_broadcasts:
  assumes wf: "chain_wf (bc (nd_shard n))" and fresh: "\<not> proposed (pbftMeta n)"
    and run: "propose now now' n = Some (Inr (), n')" and did: "proposed (pbftMeta n')"
  obtains p digest w nodes where
    "ValidateProposal p (nd_shard n') = Inr ()" "bc (nd_shard n') = bc (nd_shard n)"
    "Proposal_Hash (codec (bc (nd_shard n))) p = Inr digest"
    "WrapMsg (gob (nd_shard n)) (PreprepareMsg \<lparr>pp_P = p, pp_Digest = digest, pp_Seq = Seq (curViewSeq (pbftMeta n)),
       pp_View = View (curViewSeq (pbftMeta n)), pp_ShardID = 0, pp_NodeID = 0\<rparr>) = Inr w"
    "GetNodesInShard (resolver (nd_shard n)) (lp_ShardID (lp (pbftMeta n))) = Inr nodes"
    "\<forall>d\<in>set nodes. (d, w) \<in> set (conn (nd_shard n'))"
proof -
  obtain p sh digest n2 where b: "BuildProposal (nd_mode n) now (nd_shard n) = Some (Inr (Some p), sh)"
    and h: "Proposal_Hash (codec (bc sh)) p = Inr digest"
    and m: "broadcastMsgInnerShard (PreprepareMsg \<lparr>pp_P = p, pp_Digest = digest, pp_Seq = Seq (curViewSeq (pbftMeta n)),
       pp_View = View (curViewSeq (pbftMeta n)), pp_ShardID = 0, pp_NodeID = 0\<rparr>) (n\<lparr>nd_shard := sh\<rparr>) = (Inr (), n2)"
    and n': "n' = upd_meta (\<lambda>m. m\<lparr>proposed := True, lastProposeTime := now'\<rparr>) n2"
    using run fresh did by (auto simp: propose_def Let_def split: if_splits option.splits sum.splits prod.splits)
  have bc: "bc sh = bc (nd_shard n)" and ok: "ValidateProposal p sh = Inr ()"
    using b static_op.build_chain static_op.proposal_valid [OF wf] dynamic_op.build_chain dynamic_op.proposal_valid [OF wf]
    by (auto simp: BuildProposal_def split: shard_mode.splits)
  have q: "gob sh = gob (nd_shard n)" "resolver sh = resolver (nd_shard n)"
    using BuildProposal_quiet [OF b] by (simp_all add: quiet_def)
  obtain w nodes where w: "WrapMsg (gob sh) (PreprepareMsg \<lparr>pp_P = p, pp_Digest = digest, pp_Seq = Seq (curViewSeq (pbftMeta n)),
       pp_View = View (curViewSeq (pbftMeta n)), pp_ShardID = 0, pp_NodeID = 0\<rparr>) = Inr w"
    and nodes: "GetNodesInShard (resolver sh) (lp_ShardID (lp (pbftMeta n))) = Inr nodes"
    and n2: "nd_shard n2 = sh\<lparr>conn := GroupBroadcastMessage nodes w (conn sh)\<rparr>"
    using m by (auto simp: broadcastMsgInnerShard_def split: sum.splits)
  have "set (GroupBroadcastMessage grp w out) = set out \<union> (\<lambda>d. (d, w)) ` set grp" for grp out
    unfolding GroupBroadcastMessage_def by (induction grp arbitrary: out) (auto simp: SendMsg2Dest_def)
  then have "\<forall>d\<in>set nodes. (d, w) \<in> set (conn (nd_shard n'))" by (simp add: n' n2)
  moreover have "ValidateProposal p (nd_shard n') = Inr ()" using ok by (simp add: ValidateProposal_def n' n2)
  ultimately show ?thesis using that [of p digest w nodes] h w nodes bc q by (simp add: n' n2)
qed

section \<open>Catch-up\<close>

lemma add_proposals_head:
  "add_proposals ps c = (Inr (), c') \<Longrightarrow> chain_wf c \<Longrightarrow>
   chain_wf c' \<and> curHeader c' = (if ps = [] then curHeader c else Header (Block (last ps)))"
proof (induction ps arbitrary: c)
  case (Cons p ps)
  then obtain c1 where a: "AddBlock c (Block p) = (Inr (), c1)" and r: "add_proposals ps c1 = (Inr (), c')"
    by (auto split: prod.splits sum.splits)
  from Cons.IH [OF r] AddBlock_wf(1,2) [OF Cons.prems(2) a] show ?case by auto
qed simp

text \<open>
  A follower that asks for the blocks after its head and adds the answer of the leader has the
  leader's head and round. The fetch limit bounds the gap.
\<close>

lemma catchup_reaches_leader:
  assumes gob: "gob_ok (gob (nd_shard l))" "gob (nd_shard fo) = gob (nd_shard l)"
    and dec: "g_dec_CatchupReq (gob (nd_shard l)) payload = Inr req"
    and holds: "chain_holds (bc (nd_shard l)) bs" and small: "uint (Number (curHeader (bc (nd_shard l)))) < 2 ^ 63"
    and range: "uint (Number (Header (hd bs))) \<le> cq_StartBlockHeight req" "0 < cq_StartBlockHeight req"
      "cq_StartBlockHeight req \<le> uint (Number (curHeader (bc (nd_shard l))))"
      "uint (Number (curHeader (bc (nd_shard l)))) - cq_StartBlockHeight req + 1 \<le> blocksFetchLimit"
      "uint (Number (Header (hd bs))) + int (length bs) \<le> 2 ^ 63"
    and answer: "handleCatchupReq payload l = (Inr (), l')"
    and wf: "chain_wf (bc (nd_shard fo))"
    and got: "handleCatchupResp (Payload (snd (last (conn (nd_shard l'))))) fo = (Inr (), fo')"
  shows "curHeader (bc (nd_shard fo')) = curHeader (bc (nd_shard l))" "chain_wf (bc (nd_shard fo'))"
    "curViewSeq (pbftMeta fo') = curViewSeq (pbftMeta l)" "\<not> catchupStarted (pbftMeta fo')"
    "fst (last (conn (nd_shard l'))) = \<lparr>NodeID = cq_NodeID req, ShardID = cq_ShardID req\<rparr>"
proof -
  let ?k = "nat (cq_StartBlockHeight req - uint (Number (Header (hd bs))))"
  let ?blocks = "drop ?k bs"
  have le: "cq_StartBlockHeight req \<le> uint (Number (curHeader (bc (nd_shard l)))) + 1" using range(3) by linarith
  have get: "GetBlocksAfterHeight (bc (nd_shard l)) (cq_StartBlockHeight req) = Inr ?blocks"
    by (rule GetBlocksAfterHeight_spec [OF holds small range(1,2) le range(4,5)])
  let ?m = "\<lparr>cr_Proposals = map WrapProposal ?blocks, cr_NextSeq = Seq (curViewSeq (pbftMeta l)),
    cr_NextView = View (curViewSeq (pbftMeta l)), cr_ShardID = lp_ShardID (lp (pbftMeta l)),
    cr_NodeID = lp_NodeID (lp (pbftMeta l))\<rparr>"
  obtain w where w: "WrapMsg (gob (nd_shard l)) (CatchupRespMsg ?m) = Inr w"
    and l': "l' = send_to \<lparr>NodeID = cq_NodeID req, ShardID = cq_ShardID req\<rparr> w l"
    using answer dec get by (auto simp: handleCatchupReq_def split: sum.splits)
  have pay: "g_dec_CatchupResp (gob (nd_shard fo)) (Payload w) = Inr ?m"
    using WrapMsg_MsgType [OF w] gob by (simp add: gob_ok_def)
  have last: "last (conn (nd_shard l')) = (\<lparr>NodeID = cq_NodeID req, ShardID = cq_ShardID req\<rparr>, w)"
    by (simp add: l' SendMsg2Dest_def)
  then show "fst (last (conn (nd_shard l'))) = \<lparr>NodeID = cq_NodeID req, ShardID = cq_ShardID req\<rparr>" by simp
  obtain c where add: "add_proposals (map WrapProposal ?blocks) (bc (nd_shard fo)) = (Inr (), c)"
    and fo': "fo' = upd_meta (catchupOverAndReset (ViewSeq (View (curViewSeq (pbftMeta l))) (Seq (curViewSeq (pbftMeta l)))))
      (fo\<lparr>nd_shard := (nd_shard fo)\<lparr>bc := c\<rparr>\<rparr>)"
    using got pay by (auto simp: handleCatchupResp_def last split: if_splits sum.splits prod.splits)
  have bs: "bs \<noteq> []" "curHeader (bc (nd_shard l)) = Header (last bs)" using holds by (auto simp: chain_holds_def)
  have "?k < length bs"
    using range chain_holds_length [OF holds range(5)] by linarith
  then have "map WrapProposal ?blocks \<noteq> []" "last (map WrapProposal ?blocks) = WrapProposal (last bs)"
    by (simp_all add: last_map last_drop)
  with add_proposals_head [OF add wf] show "curHeader (bc (nd_shard fo')) = curHeader (bc (nd_shard l))"
    "chain_wf (bc (nd_shard fo'))" using bs by (simp_all add: fo' WrapProposal_def)
  show "curViewSeq (pbftMeta fo') = curViewSeq (pbftMeta l)" "\<not> catchupStarted (pbftMeta fo')"
    by (simp_all add: fo' catchupOverAndReset_def)
qed

end
