(* ===== verification/Pbft_Safety.thy ===== *)
theory Pbft_Safety
  imports Pbft_Node
begin

text \<open>
  Agreement of the replicas of one shard. A cluster is the family of its replicas and the log of
  what they decided; a step is one operation of \<open>consensus/pbft/node.go\<close> at an honest replica: handling one
  delivered message, \<open>curateMsg\<close>, the stage loop, proposing, or starting a catch-up. One tick of \<open>run\<close> is
  a sequence of such steps (\<open>run_tick_steps\<close>).

  The adversary delivers any message that an honest replica has sent, to anyone, in any order and
  any number of times, and any message of its own; only commit messages have to name a faulty
  node of this shard as the sender. The code checks neither signatures nor the sender, so this is what the
  network below it has to provide. Catch-up responses have to move the receiver forward, and
  the sequence number must not overflow.
\<close>

section \<open>Clusters\<close>

record setting =
  cl_n :: int
  cl_shard :: int
  cl_byz :: "int list"

record ('s, 'd, 'db, 't, 'n, 'td, 'p) cluster =
  replicas :: "int \<Rightarrow> ('s, 'd, 'db, 't, 'n, 'td, 'p) node"
  decided :: "(int \<times> preprepare_msg) list"

definition honest :: "setting \<Rightarrow> int \<Rightarrow> bool" where
  "honest st i \<longleftrightarrow> 0 \<le> i \<and> i < cl_n st \<and> i \<notin> set (cl_byz st)"

definition faulty_info :: "setting \<Rightarrow> node_info \<Rightarrow> bool" where
  "faulty_info st x \<longleftrightarrow> NodeID x \<in> set (cl_byz st) \<and> ShardID x = cl_shard st"

definition c_info :: "commit_msg \<Rightarrow> node_info" where
  "c_info m = \<lparr>NodeID = c_NodeID m, ShardID = c_ShardID m\<rparr>"

definition by_adversary :: "setting \<Rightarrow> 'p gob_api \<Rightarrow> 'p wrapped_msg \<Rightarrow> bool" where
  "by_adversary st g w \<longleftrightarrow>
     (MsgType w = CommitMessageType \<longrightarrow>
      (case g_dec_Commit g (Payload w) of Inl _ \<Rightarrow> True | Inr m \<Rightarrow> faulty_info st (c_info m)))"

definition deliverable ::
  "setting \<Rightarrow> 'p gob_api \<Rightarrow> ('s, 'd, 'db, 't, 'n, 'td, 'p) cluster \<Rightarrow> 'p wrapped_msg \<Rightarrow> bool" where
  "deliverable st g C w \<longleftrightarrow>
     (\<exists>j d. honest st j \<and> (d, w) \<in> set (conn (nd_shard (replicas C j)))) \<or> by_adversary st g w"

definition moves_forward :: "'p gob_api \<Rightarrow> ('s, 'd, 'db, 't, 'n, 'td, 'p) node \<Rightarrow> 'p wrapped_msg \<Rightarrow> bool" where
  "moves_forward g n w \<longleftrightarrow>
     (MsgType w = CatchupRespMessageType \<longrightarrow>
      (case g_dec_CatchupResp g (Payload w) of Inl _ \<Rightarrow> True
       | Inr m \<Rightarrow> curViewSeq (pbftMeta n) < ViewSeq (cr_NextView m) (cr_NextSeq m)))"

definition put_replica ::
  "int \<Rightarrow> ('s, 'd, 'db, 't, 'n, 'td, 'p) node \<Rightarrow> ('s, 'd, 'db, 't, 'n, 'td, 'p) cluster \<Rightarrow>
   ('s, 'd, 'db, 't, 'n, 'td, 'p) cluster" where
  "put_replica i n C = C\<lparr>replicas := (replicas C)(i := n)\<rparr>"

text \<open>A stage loop that left the round has decided the preprepare it held.\<close>

definition log_decision ::
  "int \<Rightarrow> ('s, 'd, 'db, 't, 'n, 'td, 'p) node \<Rightarrow> ('s, 'd, 'db, 't, 'n, 'td, 'p) node \<Rightarrow>
   ('s, 'd, 'db, 't, 'n, 'td, 'p) cluster \<Rightarrow> ('s, 'd, 'db, 't, 'n, 'td, 'p) cluster" where
  "log_decision i n n' C =
     (case curPreprepare (pbftMeta n) of None \<Rightarrow> C
      | Some pp \<Rightarrow> if curViewSeq (pbftMeta n') \<noteq> curViewSeq (pbftMeta n) then C\<lparr>decided := decided C @ [(i, pp)]\<rparr> else C)"

inductive cl_step ::
  "setting \<Rightarrow> 'p gob_api \<Rightarrow> ('s, 'd, 'db, 't, 'n, 'td, 'p) cluster \<Rightarrow> ('s, 'd, 'db, 't, 'n, 'td, 'p) cluster \<Rightarrow> bool"
  for st g where
  Deliver: "honest st i \<Longrightarrow> deliverable st g C w \<Longrightarrow> moves_forward g (replicas C i) w \<Longrightarrow>
    cl_step st g C (put_replica i (snd (handleMessage w (replicas C i))) C)"
| Curate: "honest st i \<Longrightarrow> cl_step st g C (put_replica i (upd_meta curateMsg (replicas C i)) C)"
| Stage: "honest st i \<Longrightarrow> in_int64 (Seq (curViewSeq (pbftMeta (replicas C i))) + 1) \<Longrightarrow>
    n' = snd (step2NextStage now (replicas C i)) \<Longrightarrow>
    cl_step st g C (put_replica i n' (log_decision i (replicas C i) n' C))"
| Propose: "honest st i \<Longrightarrow> propose now now' (replicas C i) = Some (r, n') \<Longrightarrow> cl_step st g C (put_replica i n' C)"
| CatchUp: "honest st i \<Longrightarrow> cl_step st g C (put_replica i (snd (catchUpStart (replicas C i))) C)"

text \<open>The replicas of an initial cluster are what \<open>NewPBFTNode\<close> returns, each with its own identity.\<close>

definition fresh_replica :: "setting \<Rightarrow> 'p gob_api \<Rightarrow> int \<Rightarrow> ('s, 'd, 'db, 't, 'n, 'td, 'p) node \<Rightarrow> bool" where
  "fresh_replica st g i n \<longleftrightarrow>
     (\<exists>v cd storage r cf l now fs fs'. NewPBFTNode v cd storage g [] r cf l now fs = (Inr n, fs') \<and>
        lp_NodeID l = i \<and> lp_ShardID l = cl_shard st \<and> NodeNum (cn_Sys cf) = cl_n st)"

definition cl_init :: "setting \<Rightarrow> 'p gob_api \<Rightarrow> ('s, 'd, 'db, 't, 'n, 'td, 'p) cluster \<Rightarrow> bool" where
  "cl_init st g C \<longleftrightarrow> decided C = [] \<and> (\<forall>i. honest st i \<longrightarrow> fresh_replica st g i (replicas C i))"

definition setting_ok :: "setting \<Rightarrow> bool" where
  "setting_ok st \<longleftrightarrow> 0 < cl_n st \<and> in_int64 (cl_n st) \<and> set (cl_byz st) \<subseteq> {0 ..< cl_n st}"

text \<open>The quorum of the code, and the number of faults that it tolerates.\<close>

definition cl_quorum :: "setting \<Rightarrow> int" where
  "cl_quorum st = 2 * ((cl_n st - 1) div 3) + 1"

section \<open>Commits that have been sent\<close>

definition sent_commits :: "'p gob_api \<Rightarrow> ('s, 'd, 'db, 't, 'n, 'td, 'p) shard \<Rightarrow> commit_msg set" where
  "sent_commits g sh = {m. \<exists>d w. (d, w) \<in> set (conn sh) \<and> MsgType w = CommitMessageType \<and> g_dec_Commit g (Payload w) = Inr m}"

lemma sent_commits_votes:
  "sent_commits g sh = {m. \<exists>d w. (d, w) \<in> set (votes_out (conn sh)) \<and> MsgType w = CommitMessageType \<and>
     g_dec_Commit g (Payload w) = Inr m}"
  unfolding sent_commits_def votes_out_def is_vote_def by auto

lemma sent_commits_quiet: "quiet sh sh' \<Longrightarrow> sent_commits g sh' = sent_commits g sh"
  by (simp add: sent_commits_votes quiet_def)

lemma sent_commits_vote_only:
  assumes gob: "gob_ok g" "gob (nd_shard n) = g" and vote: "vote_only n n'"
  shows "sent_commits g (nd_shard n) \<subseteq> sent_commits g (nd_shard n')"
    "m \<in> sent_commits g (nd_shard n') \<Longrightarrow> m \<in> sent_commits g (nd_shard n) \<or>
       (\<exists>pp. curPreprepare (pbftMeta n) = Some pp \<and> m = own_commit (lp (pbftMeta n)) pp)"
proof -
  obtain new where new: "votes_out (conn (nd_shard n')) = votes_out (conn (nd_shard n)) @ new" "\<forall>(d, w)\<in>set new. own_vote n w"
    using vote by (auto simp: vote_only_def)
  show "sent_commits g (nd_shard n) \<subseteq> sent_commits g (nd_shard n')"
    by (auto simp: sent_commits_votes new(1))
  assume "m \<in> sent_commits g (nd_shard n')"
  then consider "m \<in> sent_commits g (nd_shard n)"
    | d w where "(d, w) \<in> set new" "MsgType w = CommitMessageType" "g_dec_Commit g (Payload w) = Inr m"
    unfolding sent_commits_votes new(1) by auto
  then show "m \<in> sent_commits g (nd_shard n) \<or>
       (\<exists>pp. curPreprepare (pbftMeta n) = Some pp \<and> m = own_commit (lp (pbftMeta n)) pp)"
  proof cases
    case (2 d w)
    then obtain pp where pp: "curPreprepare (pbftMeta n) = Some pp"
      and w: "WrapMsg g (PrepareMsg (own_prepare (lp (pbftMeta n)) pp)) = Inr w \<or>
        WrapMsg g (CommitMsg (own_commit (lp (pbftMeta n)) pp)) = Inr w"
      using new(2) gob(2) by (auto simp: own_vote_def)
    have "WrapMsg g (CommitMsg (own_commit (lp (pbftMeta n)) pp)) = Inr w"
      using w 2(2) by (auto dest!: WrapMsg_MsgType simp: getMsgType_def)
    then have "m = own_commit (lp (pbftMeta n)) pp"
      using WrapMsg_MsgType 2(3) gob(1) by (fastforce simp: gob_ok_def)
    with pp show ?thesis by blast
  qed blast
qed

section \<open>Invariant\<close>

text \<open>What an honest replica knows of its own votes: at most one digest per round.\<close>

definition one_digest :: "commit_msg set \<Rightarrow> bool" where
  "one_digest S \<longleftrightarrow> (\<forall>m\<in>S. \<forall>m'\<in>S. c_ViewSeq m = c_ViewSeq m' \<longrightarrow> c_Digest m = c_Digest m')"

definition sent_by :: "node_info \<Rightarrow> view_seq \<Rightarrow> preprepare_msg option \<Rightarrow> commit_msg set \<Rightarrow> bool" where
  "sent_by x vs held S \<longleftrightarrow> (\<forall>m\<in>S. c_info m = x \<and>
     (c_ViewSeq m < vs \<or> c_ViewSeq m = vs \<and> (\<exists>pp. held = Some pp \<and> pp_Digest pp = c_Digest m)))"

definition own_ok :: "setting \<Rightarrow> 'p gob_api \<Rightarrow> int \<Rightarrow> ('s, 'd, 'db, 't, 'n, 'td, 'p) node \<Rightarrow> bool" where
  "own_ok st g i n \<longleftrightarrow> node_inv n \<and> gob (nd_shard n) = g \<and> lp_NodeID (lp (pbftMeta n)) = i \<and>
     lp_ShardID (lp (pbftMeta n)) = cl_shard st \<and> quorum (pbftMeta n) = cl_quorum st \<and>
     sent_by \<lparr>NodeID = i, ShardID = cl_shard st\<rparr> (curViewSeq (pbftMeta n)) (curPreprepare (pbftMeta n))
       (sent_commits g (nd_shard n)) \<and>
     one_digest (sent_commits g (nd_shard n))"

definition genuine ::
  "setting \<Rightarrow> 'p gob_api \<Rightarrow> ('s, 'd, 'db, 't, 'n, 'td, 'p) cluster \<Rightarrow> commit_msg \<Rightarrow> bool" where
  "genuine st g C m \<longleftrightarrow> faulty_info st (c_info m) \<or> (\<exists>j. honest st j \<and> m \<in> sent_commits g (nd_shard (replicas C j)))"

definition voted ::
  "setting \<Rightarrow> 'p gob_api \<Rightarrow> ('s, 'd, 'db, 't, 'n, 'td, 'p) cluster \<Rightarrow> view_seq \<Rightarrow> bytes \<Rightarrow> node_info \<Rightarrow> bool" where
  "voted st g C vs digest x \<longleftrightarrow>
     faulty_info st x \<or> (\<exists>m. genuine st g C m \<and> c_info m = x \<and> c_ViewSeq m = vs \<and> c_Digest m = digest)"

text \<open>Every commit a replica holds or has counted was sent for this round and digest.\<close>

definition counted_ok ::
  "setting \<Rightarrow> 'p gob_api \<Rightarrow> ('s, 'd, 'db, 't, 'n, 'td, 'p) cluster \<Rightarrow> consensus_meta \<Rightarrow> bool" where
  "counted_ok st g C c \<longleftrightarrow>
     (\<forall>pp x. curPreprepare c = Some pp \<longrightarrow> x \<in> set (commitSet c) \<longrightarrow> voted st g C (curViewSeq c) (pp_Digest pp) x)"

definition pooled_ok ::
  "setting \<Rightarrow> 'p gob_api \<Rightarrow> ('s, 'd, 'db, 't, 'n, 'td, 'p) cluster \<Rightarrow> msg_pool \<Rightarrow> bool" where
  "pooled_ok st g C p \<longleftrightarrow> (\<forall>m. m \<in># pq_contents (commits p) \<longrightarrow> genuine st g C m)"

definition link_ok ::
  "setting \<Rightarrow> 'p gob_api \<Rightarrow> ('s, 'd, 'db, 't, 'n, 'td, 'p) cluster \<Rightarrow> consensus_meta \<Rightarrow> bool" where
  "link_ok st g C c \<longleftrightarrow> pooled_ok st g C (msgPool c) \<and> counted_ok st g C c"

definition backed ::
  "setting \<Rightarrow> 'p gob_api \<Rightarrow> ('s, 'd, 'db, 't, 'n, 'td, 'p) cluster \<Rightarrow> preprepare_msg \<Rightarrow> bool" where
  "backed st g C pp \<longleftrightarrow> (\<exists>Q. finite Q \<and> cl_quorum st \<le> int (card Q) \<and>
     (\<forall>x\<in>Q. voted st g C (pp_ViewSeq pp) (pp_Digest pp) x))"

definition cl_inv :: "setting \<Rightarrow> 'p gob_api \<Rightarrow> ('s, 'd, 'db, 't, 'n, 'td, 'p) cluster \<Rightarrow> bool" where
  "cl_inv st g C \<longleftrightarrow> (\<forall>i. honest st i \<longrightarrow> own_ok st g i (replicas C i) \<and> link_ok st g C (pbftMeta (replicas C i))) \<and>
     (\<forall>(i, pp)\<in>set (decided C). backed st g C pp)"

text \<open>The outboxes only grow, so all three predicates are monotone.\<close>

definition grows :: "'p gob_api \<Rightarrow> ('s, 'd, 'db, 't, 'n, 'td, 'p) cluster \<Rightarrow> ('s, 'd, 'db, 't, 'n, 'td, 'p) cluster \<Rightarrow> bool" where
  "grows g C C' \<longleftrightarrow> (\<forall>j. sent_commits g (nd_shard (replicas C j)) \<subseteq> sent_commits g (nd_shard (replicas C' j)))"

lemma genuine_mono: "grows g C C' \<Longrightarrow> genuine st g C m \<Longrightarrow> genuine st g C' m"
  unfolding grows_def genuine_def by blast

lemma voted_mono: "grows g C C' \<Longrightarrow> voted st g C vs d x \<Longrightarrow> voted st g C' vs d x"
  unfolding voted_def by (auto intro: genuine_mono)

lemma link_ok_mono:
  assumes "grows g C C'" "link_ok st g C c"
  shows "link_ok st g C' c"
proof -
  have "pooled_ok st g C' (msgPool c)"
    using assms(2) unfolding link_ok_def pooled_ok_def by (auto intro: genuine_mono [OF assms(1)])
  moreover have "counted_ok st g C' c"
    using assms(2) unfolding link_ok_def counted_ok_def by (auto intro: voted_mono [OF assms(1)])
  ultimately show ?thesis by (simp add: link_ok_def)
qed

lemma backed_mono: "grows g C C' \<Longrightarrow> backed st g C pp \<Longrightarrow> backed st g C' pp"
  unfolding backed_def by (auto intro: voted_mono)

lemma replicas_put [simp]: "replicas (put_replica i n C) j = (if j = i then n else replicas C j)"
  by (simp add: put_replica_def)

lemma decided_put [simp]: "decided (put_replica i n C) = decided C"
  by (simp add: put_replica_def)

lemma replicas_log [simp]: "replicas (log_decision i n n' C) = replicas C"
  by (simp add: log_decision_def split: option.splits)

text \<open>
  One replica is replaced: it is enough to look at that replica, with what was sent before, and
  at what was decided anew.
\<close>

lemma cl_inv_update:
  assumes inv: "cl_inv st g C" and same: "replicas C1 = replicas C"
    and grow: "sent_commits g (nd_shard (replicas C i)) \<subseteq> sent_commits g (nd_shard n')"
    and own: "own_ok st g i n'" and link: "link_ok st g C (pbftMeta n')"
    and dec: "\<And>j pp. (j, pp) \<in> set (decided C1) \<Longrightarrow> (j, pp) \<in> set (decided C) \<or> backed st g C pp"
  shows "cl_inv st g (put_replica i n' C1)"
proof -
  have grows: "grows g C (put_replica i n' C1)" using grow by (auto simp: grows_def same)
  show ?thesis unfolding cl_inv_def
  proof (intro conjI allI impI ballI)
    fix j assume "honest st j"
    then show "own_ok st g j (replicas (put_replica i n' C1) j)" using inv own by (simp add: cl_inv_def same)
    show "link_ok st g (put_replica i n' C1) (pbftMeta (replicas (put_replica i n' C1) j))"
      using inv link link_ok_mono [OF grows] \<open>honest st j\<close> by (simp add: cl_inv_def same)
  next
    fix x assume "x \<in> set (decided (put_replica i n' C1))"
    then show "case x of (j, pp) \<Rightarrow> backed st g (put_replica i n' C1) pp"
      using dec inv backed_mono [OF grows] by (fastforce simp: cl_inv_def)
  qed
qed

section \<open>Preservation\<close>

lemma own_ok_calm:
  assumes "own_ok st g i n" "calm n n'" "node_inv n'"
  shows "own_ok st g i n'"
proof -
  have q: "quiet (nd_shard n) (nd_shard n')" using assms(2) by (simp add: calm_def)
  show ?thesis
    using assms sent_commits_quiet [OF q, of g] q
    by (simp add: own_ok_def calm_def same_id_def quiet_def quorum_def)
qed

lemma own_ok_vote_only:
  assumes gob: "gob_ok g" and own: "own_ok st g i n" and vote: "vote_only n n'" and inv: "node_inv n'"
  shows "own_ok st g i n'"
proof -
  let ?S = "sent_commits g (nd_shard n)" and ?S' = "sent_commits g (nd_shard n')"
  let ?x = "\<lparr>NodeID = i, ShardID = cl_shard st\<rparr>" and ?vs = "curViewSeq (pbftMeta n)" and ?pp = "curPreprepare (pbftMeta n)"
  have g: "gob (nd_shard n) = g" using own by (simp add: own_ok_def)
  have old: "sent_by ?x ?vs ?pp ?S" "one_digest ?S" using own by (simp_all add: own_ok_def)
  have new: "\<exists>pp. ?pp = Some pp \<and> pp_Digest pp = c_Digest m \<and> c_ViewSeq m = ?vs \<and> c_info m = ?x"
    if m: "m \<in> ?S'" "m \<notin> ?S" for m
  proof -
    obtain pp where pp: "?pp = Some pp" "m = own_commit (lp (pbftMeta n)) pp"
      using sent_commits_vote_only(2) [OF gob g vote m(1)] m(2) by blast
    have "pp_ViewSeq pp = ?vs" using own pp(1) by (simp add: own_ok_def node_inv_def meta_inv_def)
    with pp own show ?thesis by (simp add: own_commit_def c_ViewSeq_def pp_ViewSeq_def c_info_def own_ok_def)
  qed
  have sent: "sent_by ?x ?vs ?pp ?S'" unfolding sent_by_def
  proof
    fix m assume m: "m \<in> ?S'"
    show "c_info m = ?x \<and> (c_ViewSeq m < ?vs \<or> c_ViewSeq m = ?vs \<and> (\<exists>pp. ?pp = Some pp \<and> pp_Digest pp = c_Digest m))"
      using old(1) new [OF m] unfolding sent_by_def by (cases "m \<in> ?S") blast+
  qed
  have one: "one_digest ?S'" unfolding one_digest_def
  proof (intro ballI impI)
    fix m m' assume m: "m \<in> ?S'" "m' \<in> ?S'" "c_ViewSeq m = c_ViewSeq m'"
    show "c_Digest m = c_Digest m'"
    proof (cases "c_ViewSeq m = ?vs")
      case True
      then obtain pp pp' where "?pp = Some pp" "pp_Digest pp = c_Digest m" "?pp = Some pp'" "pp_Digest pp' = c_Digest m'"
        using sent m unfolding sent_by_def by (metis less_irrefl)
      then show ?thesis by simp
    next
      case False
      then have "m \<in> ?S" "m' \<in> ?S" using new m by metis+
      with old(2) m(3) show ?thesis unfolding one_digest_def by blast
    qed
  qed
  have round: "same_round (pbftMeta n) (pbftMeta n')" "gob (nd_shard n') = g" using vote g by (simp_all add: vote_only_def)
  show ?thesis
    using own round inv sent one by (simp add: own_ok_def same_round_def same_id_def quorum_def)
qed

text \<open>A replica that leaves its round for a later one has voted only for earlier rounds.\<close>

lemma own_ok_advance:
  assumes own: "own_ok st g i n" and q: "quiet (nd_shard n) (nd_shard n')" and id: "same_id (pbftMeta n) (pbftMeta n')"
    and later: "curViewSeq (pbftMeta n) < curViewSeq (pbftMeta n')" and inv: "node_inv n'"
  shows "own_ok st g i n'"
proof -
  have "sent_by x vs pp S \<Longrightarrow> vs < vs' \<Longrightarrow> sent_by x vs' pp' S" for x vs pp S vs' pp'
    unfolding sent_by_def by (metis less_trans)
  then have "sent_by \<lparr>NodeID = i, ShardID = cl_shard st\<rparr> (curViewSeq (pbftMeta n')) (curPreprepare (pbftMeta n')) (sent_commits g (nd_shard n))"
    using own later unfolding own_ok_def by blast
  with assms sent_commits_quiet [OF q, of g] show ?thesis
    by (simp add: own_ok_def same_id_def quiet_def quorum_def)
qed

lemma step2Next_decides:
  assumes inv: "meta_inv c" and st: "step2Next c = (Inr (stageCommit, stagePreprepare), c')"
    and small: "in_int64 (Seq (curViewSeq c) + 1)"
  shows "same_id c c'" "curViewSeq c < curViewSeq c'" "curPreprepare c' = None" "msgPool c' = msgPool c"
proof -
  have "curViewSeq c < ViewSeq (View (curViewSeq c)) (wrap64 (Seq (curViewSeq c) + 1))"
    using small by (cases "curViewSeq c") (simp add: less_ViewSeq)
  with st show "same_id c c'" "curViewSeq c < curViewSeq c'" "curPreprepare c' = None" "msgPool c' = msgPool c"
    by (auto simp: step2Next_def same_id_def split: if_splits option.splits)
qed

lemma link_ok_round:
  assumes "link_ok st g C c" "pooled_ok st g C (msgPool c')"
    "curPreprepare c' = None \<or> curViewSeq c' = curViewSeq c \<and> curPreprepare c' = curPreprepare c \<and> commitSet c' = commitSet c"
  shows "link_ok st g C c'"
  using assms by (auto simp: link_ok_def counted_ok_def)

lemma deliver_genuine:
  assumes "deliverable st g C w" "MsgType w = CommitMessageType" "g_dec_Commit g (Payload w) = Inr m"
  shows "genuine st g C m"
  using assms by (auto simp: deliverable_def by_adversary_def genuine_def sent_commits_def)

lemma handle_links:
  assumes link: "link_ok st g C (pbftMeta n)" and own: "own_ok st g i n"
    and w: "deliverable st g C w" "moves_forward g n w"
  shows "link_ok st g C (pbftMeta (snd (handleMessage w n)))" "own_ok st g i (snd (handleMessage w n))"
    "sent_commits g (nd_shard n) \<subseteq> sent_commits g (nd_shard (snd (handleMessage w n)))"
proof -
  let ?n' = "snd (handleMessage w n)"
  have g: "gob (nd_shard n) = g" and inv: "node_inv ?n'" using own handleMessage_inv by (auto simp: own_ok_def)
  have pool: "pooled_ok st g C (msgPool (pbftMeta ?n'))"
    using link handleMessage_commits [of _ w n] deliver_genuine [OF w(1)] unfolding link_ok_def pooled_ok_def g by blast
  have cases: "calm n ?n' \<or> (quiet (nd_shard n) (nd_shard ?n') \<and> same_id (pbftMeta n) (pbftMeta ?n') \<and>
      curPreprepare (pbftMeta ?n') = None \<and> curViewSeq (pbftMeta n) < curViewSeq (pbftMeta ?n'))"
  proof (cases "MsgType w = CatchupRespMessageType")
    case True
    then have h: "?n' = snd (handleCatchupResp (Payload w) n)" by (cases w n rule: handleMessage_cases) (auto simp: is_vote_def)
    show ?thesis using handleCatchupResp_round [of n "Payload w"] w(2) True
      unfolding h by (auto simp: catchupOverAndReset_def same_id_def moves_forward_def g)
  qed (simp add: handleMessage_calm)
  then show "link_ok st g C (pbftMeta ?n')" using link_ok_round [OF link pool] by (auto simp: calm_def)
  from cases show "own_ok st g i ?n'"
  proof
    assume "calm n ?n'"
    then show ?thesis by (rule own_ok_calm [OF own _ inv])
  next
    assume "quiet (nd_shard n) (nd_shard ?n') \<and> same_id (pbftMeta n) (pbftMeta ?n') \<and>
      curPreprepare (pbftMeta ?n') = None \<and> curViewSeq (pbftMeta n) < curViewSeq (pbftMeta ?n')"
    then show ?thesis by (intro own_ok_advance [OF own _ _ _ inv]) simp_all
  qed
  have "quiet (nd_shard n) (nd_shard ?n')" using cases by (auto simp: calm_def)
  then show "sent_commits g (nd_shard n) \<subseteq> sent_commits g (nd_shard ?n')" by (simp add: sent_commits_quiet)
qed

lemma curateMsg_holds: "curPreprepare c = Some pp \<Longrightarrow> curPreprepare (curateMsg c) = Some pp"
  by (simp add: curateMsg_def curate_preprepare_def split: prod.splits)

lemma genuine_voted: "genuine st g C m \<Longrightarrow> voted st g C (c_ViewSeq m) (c_Digest m) (c_info m)"
  unfolding voted_def by blast

lemma curate_links:
  assumes inv: "meta_inv c" and link: "link_ok st g C c"
  shows "link_ok st g C (curateMsg c)"
proof (cases "curPreprepare (curateMsg c)")
  case None
  then show ?thesis using link curateMsg_waiting [OF inv None] by (simp add: link_ok_def pooled_ok_def counted_ok_def)
next
  case (Some pp)
  note v = curateMsg_votes [OF inv Some]
  have gen: "genuine st g C m" if "m \<in># pq_contents (commits (msgPool c))" for m
    using link that by (simp add: link_ok_def pooled_ok_def)
  have old: "x \<in> set (commitSet c) \<Longrightarrow> voted st g C (curViewSeq c) (pp_Digest pp) x" for x
  proof (cases "curPreprepare c")
    case None
    then show "x \<in> set (commitSet c) \<Longrightarrow> ?thesis" using inv by (simp add: meta_inv_def)
  next
    case (Some pp')
    then have "pp' = pp" using curateMsg_holds [OF Some] \<open>curPreprepare (curateMsg c) = Some pp\<close> by simp
    then show "x \<in> set (commitSet c) \<Longrightarrow> ?thesis" using link Some by (simp add: link_ok_def counted_ok_def)
  qed
  have "voted st g C (curViewSeq c) (pp_Digest pp) x" if "x \<in> set (commitSet (curateMsg c))" for x
  proof -
    consider "x \<in> set (commitSet c)" | m where "m \<in># pq_contents (commits (msgPool c))" "x = c_info m"
      "c_ViewSeq m = curViewSeq c" "c_Digest m = pp_Digest pp"
      using \<open>x \<in> set (commitSet (curateMsg c))\<close> unfolding v(2) c_info_def by blast
    then show ?thesis using old genuine_voted [OF gen] by cases (simp, metis)
  qed
  moreover have "pooled_ok st g C (msgPool (curateMsg c))" using gen by (simp add: pooled_ok_def v(4))
  ultimately show ?thesis using Some by (simp add: link_ok_def counted_ok_def)
qed

lemma curate_own:
  assumes own: "own_ok st g i n"
  shows "own_ok st g i (upd_meta curateMsg n)"
proof -
  have "sent_by x vs (curPreprepare c) S \<Longrightarrow> sent_by x vs (curPreprepare (curateMsg c)) S" for x vs c S
    unfolding sent_by_def using curateMsg_holds by blast
  with own show ?thesis by (simp add: own_ok_def node_inv_def curateMsg_inv quorum_def)
qed

lemma counted_backed:
  assumes inv: "meta_inv c" and pp: "curPreprepare c = Some pp" and counted: "counted_ok st g C c"
    and quo: "quorum c = cl_quorum st" "quorum c \<le> int (length (commitSet c))"
  shows "backed st g C pp"
  unfolding backed_def
proof (intro exI conjI ballI)
  have d: "distinct (commitSet c)" "pp_ViewSeq pp = curViewSeq c" using inv pp by (simp_all add: meta_inv_def)
  show "finite (set (commitSet c))" by simp
  show "cl_quorum st \<le> int (card (set (commitSet c)))" using quo d by (simp add: distinct_card)
  fix x assume "x \<in> set (commitSet c)"
  then show "voted st g C (pp_ViewSeq pp) (pp_Digest pp) x" using counted pp d by (simp add: counted_ok_def)
qed

lemma stage_links:
  fixes n n' C
  assumes gob: "gob_ok g" and own: "own_ok st g i n" and link: "link_ok st g C (pbftMeta n)"
    and small: "in_int64 (Seq (curViewSeq (pbftMeta n)) + 1)" and n': "n' = snd (step2NextStage now n)"
  shows "link_ok st g C (pbftMeta n')" "own_ok st g i n'" "sent_commits g (nd_shard n) \<subseteq> sent_commits g (nd_shard n')"
    "curViewSeq (pbftMeta n') \<noteq> curViewSeq (pbftMeta n) \<Longrightarrow> curPreprepare (pbftMeta n) = Some pp \<Longrightarrow> backed st g C pp"
proof -
  have inv: "node_inv n" and g: "gob (nd_shard n) = g" using own by (simp_all add: own_ok_def)
  have inv': "node_inv n'" and cases: "vote_only n n' \<or> decides n n'" using step2NextStage_cases [OF inv, of now] n' by auto
  from cases have "link_ok st g C (pbftMeta n') \<and> own_ok st g i n' \<and> sent_commits g (nd_shard n) \<subseteq> sent_commits g (nd_shard n') \<and>
    (curViewSeq (pbftMeta n') \<noteq> curViewSeq (pbftMeta n) \<longrightarrow> curPreprepare (pbftMeta n) = Some pp \<longrightarrow> backed st g C pp)"
  proof
    assume v: "vote_only n n'"
    then have r: "same_round (pbftMeta n) (pbftMeta n')" by (simp add: vote_only_def)
    have "link_ok st g C (pbftMeta n')"
      using link r by (intro link_ok_round [OF link]) (simp_all add: link_ok_def same_round_def)
    with own_ok_vote_only [OF gob own v inv'] sent_commits_vote_only(1) [OF gob g v] r show ?thesis
      by (simp add: same_round_def)
  next
    assume "decides n n'"
    then obtain n1 where v: "vote_only n n1" and inv1: "node_inv n1" and q: "quiet (nd_shard n1) (nd_shard n')"
      and s: "step2Next (pbftMeta n1) = (Inr (stageCommit, stagePreprepare), pbftMeta n')"
      by (auto simp: decides_def)
    have r: "same_round (pbftMeta n) (pbftMeta n1)" using v by (simp add: vote_only_def)
    have own1: "own_ok st g i n1" by (rule own_ok_vote_only [OF gob own v inv1])
    have m1: "meta_inv (pbftMeta n1)" "in_int64 (Seq (curViewSeq (pbftMeta n1)) + 1)"
      using inv1 small r by (simp_all add: node_inv_def same_round_def)
    note d = step2Next_decides [OF m1(1) s m1(2)]
    have "own_ok st g i n'" by (rule own_ok_advance [OF own1 q d(1,2) inv'])
    moreover have "link_ok st g C (pbftMeta n')"
      using link d r by (intro link_ok_round [OF link]) (simp_all add: link_ok_def same_round_def)
    moreover have "sent_commits g (nd_shard n) \<subseteq> sent_commits g (nd_shard n')"
      using sent_commits_vote_only(1) [OF gob g v] sent_commits_quiet [OF q, of g] by simp
    moreover have "backed st g C pp" if "curPreprepare (pbftMeta n) = Some pp"
    proof (rule counted_backed [OF m1(1)])
      show "curPreprepare (pbftMeta n1) = Some pp" using that r by (simp add: same_round_def)
      show "counted_ok st g C (pbftMeta n1)" using link r by (simp add: link_ok_def counted_ok_def same_round_def)
      show "quorum (pbftMeta n1) = cl_quorum st" using own1 by (simp add: own_ok_def)
      show "quorum (pbftMeta n1) \<le> int (length (commitSet (pbftMeta n1)))" using step2Next_commit [OF m1(1) s] by blast
    qed
    ultimately show ?thesis by blast
  qed
  then show "link_ok st g C (pbftMeta n')" "own_ok st g i n'" "sent_commits g (nd_shard n) \<subseteq> sent_commits g (nd_shard n')"
    "curViewSeq (pbftMeta n') \<noteq> curViewSeq (pbftMeta n) \<Longrightarrow> curPreprepare (pbftMeta n) = Some pp \<Longrightarrow> backed st g C pp"
    by blast+
qed

lemma calm_links:
  assumes own: "own_ok st g i n" and link: "link_ok st g C (pbftMeta n)" and calm: "calm n n'"
    and same: "msgPool (pbftMeta n') = msgPool (pbftMeta n)" "prepareSet (pbftMeta n') = prepareSet (pbftMeta n)"
  shows "link_ok st g C (pbftMeta n')" "own_ok st g i n'" "sent_commits g (nd_shard n) \<subseteq> sent_commits g (nd_shard n')"
proof -
  have inv: "node_inv n'" using own by (intro node_inv_calm [OF _ calm same]) (simp add: own_ok_def)
  show "link_ok st g C (pbftMeta n')"
    using link calm same by (intro link_ok_round [OF link]) (simp_all add: link_ok_def calm_def)
  show "own_ok st g i n'" by (rule own_ok_calm [OF own calm inv])
  show "sent_commits g (nd_shard n) \<subseteq> sent_commits g (nd_shard n')" using calm sent_commits_quiet [of "nd_shard n" "nd_shard n'" g] by (simp add: calm_def)
qed

lemma log_decided:
  "(j, pp) \<in> set (decided (log_decision i n n' C)) \<Longrightarrow> (j, pp) \<in> set (decided C) \<or>
   curPreprepare (pbftMeta n) = Some pp \<and> curViewSeq (pbftMeta n') \<noteq> curViewSeq (pbftMeta n)"
  by (auto simp: log_decision_def split: option.splits if_splits)

theorem cl_step_inv [inv_rules]:
  assumes gob: "gob_ok g" and inv: "cl_inv st g C" and step: "cl_step st g C C'"
  shows "cl_inv st g C'"
  using step
proof cases
  case (Deliver i w)
  then have "own_ok st g i (replicas C i)" "link_ok st g C (pbftMeta (replicas C i))" using inv by (simp_all add: cl_inv_def)
  from handle_links [OF this(2,1) Deliver(3,4)] show ?thesis unfolding Deliver(1) by (intro cl_inv_update [OF inv]) simp_all
next
  case (Curate i)
  then have own: "own_ok st g i (replicas C i)" and link: "link_ok st g C (pbftMeta (replicas C i))"
    using inv by (simp_all add: cl_inv_def)
  have "meta_inv (pbftMeta (replicas C i))" using own by (simp add: own_ok_def node_inv_def)
  from curate_links [OF this link] curate_own [OF own] show ?thesis
    unfolding Curate(1) by (intro cl_inv_update [OF inv]) simp_all
next
  case (Stage i n' now)
  then have own: "own_ok st g i (replicas C i)" and link: "link_ok st g C (pbftMeta (replicas C i))"
    using inv by (simp_all add: cl_inv_def)
  note l = stage_links [OF gob own link Stage(3,4)]
  show ?thesis unfolding Stage(1)
    by (intro cl_inv_update [OF inv] l(1-3) replicas_log) (use log_decided l(4) in blast)
next
  case (Propose i now now' r n')
  then have "own_ok st g i (replicas C i)" "link_ok st g C (pbftMeta (replicas C i))" using inv by (simp_all add: cl_inv_def)
  from calm_links [OF this] propose_frame [OF Propose(3)] show ?thesis
    unfolding Propose(1) by (intro cl_inv_update [OF inv]) simp_all
next
  case (CatchUp i)
  then have "own_ok st g i (replicas C i)" "link_ok st g C (pbftMeta (replicas C i))" using inv by (simp_all add: cl_inv_def)
  from calm_links [OF this catchUpStart_frame] show ?thesis
    unfolding CatchUp(1) by (intro cl_inv_update [OF inv]) simp_all
qed

lemma NewPBFTNode_fresh:
  assumes "NewPBFTNode v cd storage g [] r cf l now fs = (Inr n, fs')"
  shows "gob (nd_shard n) = g" "conn (nd_shard n) = []" "pbftMeta n = newConsensusMeta cf l now" "0 < NodeNum (cn_Sys cf)"
    "NewChain v cd storage cf l now = Inr (bc (nd_shard n))" "resolver (nd_shard n) = r"
  using assms by (auto simp: NewPBFTNode_def Let_def split: if_splits sum.splits prod.splits)

lemma cl_init_inv [inv_rules]:
  fixes C :: "('s, 'd, 'db, 't, 'n, 'td, 'p) cluster"
  assumes ok: "setting_ok st" and init: "cl_init st g C"
  shows "cl_inv st g C"
proof -
  have "own_ok st g i n \<and> link_ok st g C (pbftMeta n)" if fresh: "fresh_replica st g i n"
    for i and n :: "('s, 'd, 'db, 't, 'n, 'td, 'p) node"
  proof -
    obtain v cd storage r cf l now fs fs' where new: "NewPBFTNode v cd storage g [] r cf l now fs = (Inr n, fs')"
      and id: "lp_NodeID l = i" "lp_ShardID l = cl_shard st" "NodeNum (cn_Sys cf) = cl_n st"
      using fresh unfolding fresh_replica_def by blast
    have q: "quorum (newConsensusMeta cf l now) = cl_quorum st"
      using quorum_value(2) [of cf l now] ok id by (simp add: setting_ok_def cl_quorum_def)
    have s: "sent_commits g (nd_shard n) = {}" by (simp add: sent_commits_def NewPBFTNode_fresh(2) [OF new])
    have "own_ok st g i n"
      using NewPBFTNode_inv [OF new] NewPBFTNode_fresh [OF new] id q
      by (simp add: own_ok_def s sent_by_def one_digest_def) (simp add: newConsensusMeta_def)
    moreover have "link_ok st g C (pbftMeta n)"
      by (simp add: NewPBFTNode_fresh(3) [OF new] newConsensusMeta_def link_ok_def pooled_ok_def counted_ok_def
        NewMsgPool_def NewPQ_def heap_Init_def pq_contents_def)
    ultimately show ?thesis ..
  qed
  then have "own_ok st g i (replicas C i) \<and> link_ok st g C (pbftMeta (replicas C i))" if "honest st i" for i
    using init that unfolding cl_init_def by blast
  with init show ?thesis by (simp add: cl_inv_def cl_init_def)
qed

lemma cl_reachable_inv:
  assumes "gob_ok g" "setting_ok st" "cl_init st g C0" "(cl_step st g)\<^sup>*\<^sup>* C0 C"
  shows "cl_inv st g C"
  using assms(4)
proof (induction rule: rtranclp_induct)
  case base
  show ?case by (rule cl_init_inv [OF assms(2,3)])
next
  case (step C1 C2)
  from cl_step_inv [OF assms(1) step.IH step.hyps(2)] show ?case .
qed

section \<open>Agreement\<close>

definition member_infos :: "setting \<Rightarrow> node_info set" where
  "member_infos st = (\<lambda>i. \<lparr>NodeID = i, ShardID = cl_shard st\<rparr>) ` {0 ..< cl_n st}"

lemma member_infos_card:
  "finite (member_infos st)" "0 \<le> cl_n st \<Longrightarrow> int (card (member_infos st)) = cl_n st"
proof -
  have "inj (\<lambda>i. \<lparr>NodeID = i, ShardID = cl_shard st\<rparr> :: node_info)" by (rule injI) simp
  then have "card (member_infos st) = card {0 ..< cl_n st}" unfolding member_infos_def by (metis card_image inj_on_subset subset_UNIV)
  then show "0 \<le> cl_n st \<Longrightarrow> int (card (member_infos st)) = cl_n st" by simp
qed (simp add: member_infos_def)

lemma faulty_infos_card: "finite {x. faulty_info st x}" "card {x. faulty_info st x} \<le> card (set (cl_byz st))"
proof -
  have sub: "{x. faulty_info st x} \<subseteq> (\<lambda>i. \<lparr>NodeID = i, ShardID = cl_shard st\<rparr>) ` set (cl_byz st)"
  proof
    fix x assume "x \<in> {x. faulty_info st x}"
    then show "x \<in> (\<lambda>i. \<lparr>NodeID = i, ShardID = cl_shard st\<rparr>) ` set (cl_byz st)"
      by (cases x) (auto simp: faulty_info_def)
  qed
  then show "finite {x. faulty_info st x}" by (rule finite_subset) simp
  show "card {x. faulty_info st x} \<le> card (set (cl_byz st))" by (rule surj_card_le [OF _ sub]) simp
qed

text \<open>Two quorums of a shard share more nodes than can be faulty.\<close>

lemma quorums_intersect:
  assumes "setting_ok st" "Q1 \<subseteq> member_infos st" "Q2 \<subseteq> member_infos st"
    and "cl_quorum st \<le> int (card Q1)" "cl_quorum st \<le> int (card Q2)"
    and few: "int (card (set (cl_byz st))) < 2 * cl_quorum st - cl_n st"
  shows "\<exists>x\<in>Q1 \<inter> Q2. \<not> faulty_info st x"
proof (rule ccontr)
  assume "\<not> (\<exists>x\<in>Q1 \<inter> Q2. \<not> faulty_info st x)"
  then have sub: "Q1 \<inter> Q2 \<subseteq> {x. faulty_info st x}" by blast
  have fin: "finite Q1" "finite Q2" using assms(2,3) member_infos_card(1) finite_subset by blast+
  have "card (Q1 \<union> Q2) \<le> card (member_infos st)" by (rule card_mono) (use assms(2,3) member_infos_card(1) in auto)
  moreover have "int (card (member_infos st)) = cl_n st" using assms(1) by (simp add: member_infos_card(2) setting_ok_def)
  moreover have "card (Q1 \<inter> Q2) \<le> card (set (cl_byz st))"
    using card_mono [OF faulty_infos_card(1) sub] faulty_infos_card(2) [of st] by linarith
  ultimately show False using card_Un_Int [OF fin] assms(4,5) few by linarith
qed

lemma voted_member:
  assumes "setting_ok st" "cl_inv st g C" "voted st g C vs d x"
  shows "x \<in> member_infos st"
proof -
  have f: "faulty_info st x \<Longrightarrow> x \<in> member_infos st" for x
    using assms(1) by (cases x) (auto simp: faulty_info_def member_infos_def setting_ok_def)
  have "c_info m \<in> member_infos st" if gen: "genuine st g C m" for m
  proof (cases "faulty_info st (c_info m)")
    case False
    then obtain j where j: "honest st j" "m \<in> sent_commits g (nd_shard (replicas C j))" using gen by (auto simp: genuine_def)
    then have "c_info m = \<lparr>NodeID = j, ShardID = cl_shard st\<rparr>" using assms(2) by (simp add: cl_inv_def own_ok_def sent_by_def)
    with j(1) show ?thesis by (simp add: member_infos_def honest_def)
  qed (simp add: f)
  with f assms(3) show ?thesis by (auto simp: voted_def)
qed

text \<open>An honest node votes for one digest in a round.\<close>

lemma honest_vote_unique:
  assumes "cl_inv st g C" "voted st g C vs d1 x" "voted st g C vs d2 x" "\<not> faulty_info st x"
  shows "d1 = d2"
proof -
  have v: "\<exists>j m. honest st j \<and> m \<in> sent_commits g (nd_shard (replicas C j)) \<and> x = \<lparr>NodeID = j, ShardID = cl_shard st\<rparr> \<and>
      c_ViewSeq m = vs \<and> c_Digest m = d" if vd: "voted st g C vs d x" for d
  proof -
    obtain m where m: "genuine st g C m" "c_info m = x" "c_ViewSeq m = vs" "c_Digest m = d"
      using vd assms(4) by (auto simp: voted_def)
    then obtain j where j: "honest st j" "m \<in> sent_commits g (nd_shard (replicas C j))"
      using assms(4) by (auto simp: genuine_def)
    then have "c_info m = \<lparr>NodeID = j, ShardID = cl_shard st\<rparr>" using assms(1) by (simp add: cl_inv_def own_ok_def sent_by_def)
    with m j show ?thesis by blast
  qed
  obtain j1 m1 where 1: "honest st j1" "m1 \<in> sent_commits g (nd_shard (replicas C j1))" "x = \<lparr>NodeID = j1, ShardID = cl_shard st\<rparr>"
    "c_ViewSeq m1 = vs" "c_Digest m1 = d1" using v [OF assms(2)] by blast
  obtain j2 m2 where 2: "m2 \<in> sent_commits g (nd_shard (replicas C j2))" "x = \<lparr>NodeID = j2, ShardID = cl_shard st\<rparr>"
    "c_ViewSeq m2 = vs" "c_Digest m2 = d2" using v [OF assms(3)] by blast
  have "j1 = j2" using 1(3) 2(2) by simp
  moreover have "one_digest (sent_commits g (nd_shard (replicas C j1)))" using assms(1) 1(1) by (simp add: cl_inv_def own_ok_def)
  ultimately show ?thesis using 1 2 unfolding one_digest_def by metis
qed

definition agreement :: "('s, 'd, 'db, 't, 'n, 'td, 'p) cluster \<Rightarrow> bool" where
  "agreement C \<longleftrightarrow> (\<forall>(i, pp)\<in>set (decided C). \<forall>(j, pp')\<in>set (decided C).
     pp_ViewSeq pp = pp_ViewSeq pp' \<longrightarrow> pp_Digest pp = pp_Digest pp')"

lemma cl_inv_agreement:
  assumes ok: "setting_ok st" and inv: "cl_inv st g C"
    and few: "int (card (set (cl_byz st))) < 2 * cl_quorum st - cl_n st"
  shows "agreement C"
proof -
  have "pp_Digest pp = pp_Digest pp'" if d: "(i, pp) \<in> set (decided C)" "(j, pp') \<in> set (decided C)"
    and same: "pp_ViewSeq pp = pp_ViewSeq pp'" for i pp j pp'
  proof -
    have "backed st g C pp" "backed st g C pp'" using inv d by (auto simp: cl_inv_def)
    then obtain Q1 Q2 where 1: "cl_quorum st \<le> int (card Q1)" "\<forall>x\<in>Q1. voted st g C (pp_ViewSeq pp) (pp_Digest pp) x"
      and 2: "cl_quorum st \<le> int (card Q2)" "\<forall>x\<in>Q2. voted st g C (pp_ViewSeq pp) (pp_Digest pp') x"
      by (auto simp: backed_def same)
    have "Q1 \<subseteq> member_infos st" "Q2 \<subseteq> member_infos st" using voted_member [OF ok inv] 1(2) 2(2) by blast+
    then obtain x where "x \<in> Q1" "x \<in> Q2" "\<not> faulty_info st x" using quorums_intersect [OF ok _ _ 1(1) 2(1) few] by blast
    with 1(2) 2(2) show ?thesis using honest_vote_unique [OF inv] by blast
  qed
  then show ?thesis unfolding agreement_def by blast
qed

section \<open>A tick of the program is a run of the cluster\<close>

lemma handleMessages_Cons [simp]:
  "handleMessages [] n = n" "handleMessages (w # ws) n = handleMessages ws (snd (handleMessage w n))"
  by (simp_all add: handleMessages_def)

lemma deliverable_put:
  assumes w: "deliverable st g C w" and q: "quiet (nd_shard (replicas C i)) (nd_shard n')"
  shows "deliverable st g (put_replica i n' C) w"
proof (cases "by_adversary st g w")
  case False
  then obtain j d where j: "honest st j" "(d, w) \<in> set (conn (nd_shard (replicas C j)))" using w by (auto simp: deliverable_def)
  have "is_vote w" using False by (auto simp: by_adversary_def is_vote_def)
  then have "(d, w) \<in> set (votes_out (conn (nd_shard (replicas C j))))" using j(2) by (simp add: votes_out_def)
  then have "(d, w) \<in> set (votes_out (conn (nd_shard (replicas (put_replica i n' C) j))))"
    using q by (cases "j = i") (simp_all add: quiet_def)
  then have "(d, w) \<in> set (conn (nd_shard (replicas (put_replica i n' C) j)))" by (simp add: votes_out_def)
  with j(1) show ?thesis unfolding deliverable_def by blast
qed (simp add: deliverable_def)

lemma put_put [simp]: "put_replica i n' (put_replica i n C) = put_replica i n' C"
  by (simp add: put_replica_def)

lemma put_same [simp]: "put_replica i (replicas C i) C = C"
  by (simp add: put_replica_def)

lemma handleMessages_steps:
  assumes "honest st i" "\<forall>w\<in>set ws. deliverable st g C w \<and> MsgType w \<noteq> CatchupRespMessageType"
  shows "(cl_step st g)\<^sup>*\<^sup>* C (put_replica i (handleMessages ws (replicas C i)) C)"
  using assms(2)
proof (induction ws arbitrary: C)
  case (Cons w ws)
  let ?n = "snd (handleMessage w (replicas C i))"
  let ?C = "put_replica i ?n C"
  have w: "deliverable st g C w" "MsgType w \<noteq> CatchupRespMessageType" using Cons.prems by simp_all
  then have step: "cl_step st g C ?C" by (intro Deliver assms(1)) (simp_all add: moves_forward_def)
  have q: "quiet (nd_shard (replicas C i)) (nd_shard ?n)" using handleMessage_calm [OF w(2), of "replicas C i"] by (simp add: calm_def)
  have "\<forall>w\<in>set ws. deliverable st g ?C w \<and> MsgType w \<noteq> CatchupRespMessageType"
    using Cons.prems by (auto intro: deliverable_put [OF _ q])
  from Cons.IH [OF this] have "(cl_step st g)\<^sup>*\<^sup>* ?C (put_replica i (handleMessages ws ?n) C)" by simp
  with step show ?case by simp
qed simp

lemma handleMessages_view:
  "\<forall>w\<in>set ws. MsgType w \<noteq> CatchupRespMessageType \<Longrightarrow>
   curViewSeq (pbftMeta (handleMessages ws n)) = curViewSeq (pbftMeta n)"
proof (induction ws arbitrary: n)
  case (Cons w ws)
  then show ?case using handleMessage_calm [of w n] by (simp add: calm_def)
qed simp

theorem run_tick_steps:
  assumes hon: "honest st i" and msgs: "\<forall>w\<in>set (tk_msgs tk). deliverable st g C w \<and> MsgType w \<noteq> CatchupRespMessageType"
    and small: "in_int64 (Seq (curViewSeq (pbftMeta (replicas C i))) + 1)" and run: "run_tick tk (replicas C i) = Some n'"
  shows "\<exists>C'. (cl_step st g)\<^sup>*\<^sup>* C C' \<and> replicas C' = (replicas C)(i := n')"
proof (cases "closed (pbftMeta (replicas C i))")
  case True
  then have "replicas C = (replicas C)(i := n')" using run by (auto simp: run_tick_def)
  then show ?thesis by (intro exI [of _ C]) simp
next
  case False
  let ?n1 = "handleMessages (tk_msgs tk) (replicas C i)"
  let ?n2 = "upd_meta curateMsg ?n1"
  let ?n3 = "snd (step2NextStage (tk_now tk) ?n2)"
  let ?C2 = "put_replica i ?n2 C" and ?C3 = "put_replica i ?n3 (log_decision i ?n2 ?n3 (put_replica i ?n2 C))"
  have "(cl_step st g)\<^sup>*\<^sup>* C (put_replica i ?n1 C)" using handleMessages_steps [OF hon] msgs by blast
  moreover have "cl_step st g (put_replica i ?n1 C) ?C2" using Curate [OF hon, of g "put_replica i ?n1 C"] by simp
  moreover have "cl_step st g ?C2 ?C3"
  proof -
    have "in_int64 (Seq (curViewSeq (pbftMeta (replicas ?C2 i))) + 1)" using small handleMessages_view [of "tk_msgs tk" "replicas C i"] msgs by simp
    from Stage [OF hon this refl, of g "tk_now tk"] show ?thesis by simp
  qed
  ultimately have to3: "(cl_step st g)\<^sup>*\<^sup>* C ?C3" by (meson rtranclp.rtrancl_into_rtrancl)
  have done3: "\<exists>C'. (cl_step st g)\<^sup>*\<^sup>* C C' \<and> replicas C' = (replicas C)(i := n4)"
    if "n4 = ?n3 \<or> cl_step st g ?C3 (put_replica i n4 ?C3)" for n4
    using that
  proof
    assume "n4 = ?n3"
    then show ?thesis using to3 by (intro exI [of _ ?C3]) (auto simp: put_replica_def)
  next
    assume "cl_step st g ?C3 (put_replica i n4 ?C3)"
    with to3 show ?thesis by (intro exI [of _ "put_replica i n4 ?C3"]) (auto simp: put_replica_def)
  qed
  have p: "cl_step st g ?C3 (put_replica i n4 ?C3)" if "propose a b ?n3 = Some (r, n4)" for a b r n4
    using Propose [OF hon, of a b ?C3 r n4 g] that by simp
  have c: "cl_step st g ?C3 (put_replica i (snd (catchUpStart ?n3)) ?C3)" using CatchUp [OF hon, of g ?C3] by simp
  have "n' = ?n3 \<or> cl_step st g ?C3 (put_replica i n' ?C3)"
    using run False p c by (auto simp: run_tick_def Let_def split: if_splits)
  then show ?thesis by (rule done3)
qed

end
