(* ===== verification/Demo.thy ===== *)
theory Demo
  imports Pbft_Safety
begin

text \<open>
  Concrete values for the parameters of the model: a key-value store for bolt, an association
  list for the tries and for the state database, messages that are their own encoding, and a
  codec for empty blocks. They satisfy what the development assumes of third-party code, so that its
  theorems can be applied to runs that are evaluated.
\<close>

section \<open>gob\<close>

definition demo_gob :: "msg gob_api" where
  "demo_gob =
     \<lparr>g_enc = (\<lambda>m. Inr m),
      g_dec_Preprepare = (\<lambda>p. case p of PreprepareMsg m \<Rightarrow> Inr m | _ \<Rightarrow> Inl (Errorf ''gob'')),
      g_dec_Prepare = (\<lambda>p. case p of PrepareMsg m \<Rightarrow> Inr m | _ \<Rightarrow> Inl (Errorf ''gob'')),
      g_dec_Commit = (\<lambda>p. case p of CommitMsg m \<Rightarrow> Inr m | _ \<Rightarrow> Inl (Errorf ''gob'')),
      g_dec_ReceiveTxs = (\<lambda>p. case p of ReceiveTxsMsg m \<Rightarrow> Inr m | _ \<Rightarrow> Inl (Errorf ''gob'')),
      g_dec_CatchupReq = (\<lambda>p. case p of CatchupReqMsg m \<Rightarrow> Inr m | _ \<Rightarrow> Inl (Errorf ''gob'')),
      g_dec_CatchupResp = (\<lambda>p. case p of CatchupRespMsg m \<Rightarrow> Inr m | _ \<Rightarrow> Inl (Errorf ''gob'')),
      g_dec_RelayBlockInfo = (\<lambda>p. case p of RelayBlockInfoMsg m \<Rightarrow> Inr m | _ \<Rightarrow> Inl (Errorf ''gob'')),
      g_dec_BrokerBlockInfo = (\<lambda>p. case p of BrokerBlockInfoMsg m \<Rightarrow> Inr m | _ \<Rightarrow> Inl (Errorf ''gob'')),
      g_dec_SendAgain = (\<lambda>p. case p of BrokerCLPATxSendAgainMsg m \<Rightarrow> Inr m | _ \<Rightarrow> Inl (Errorf ''gob'')),
      g_dec_RepartitionStart = (\<lambda>p. case p of CLPARepartitionStartMsg m \<Rightarrow> Inr m | _ \<Rightarrow> Inl (Errorf ''gob'')),
      g_dec_AccountMigration = (\<lambda>p. case p of AccountMigrationMsg m \<Rightarrow> Inr m | _ \<Rightarrow> Inl (Errorf ''gob''))\<rparr>"

lemma demo_gob_ok: "gob_ok demo_gob"
  by (simp add: gob_ok_def demo_gob_def)

section \<open>State database\<close>

text \<open>A state lists balance and nonce of the accounts; a database lists the committed states by root.\<close>

type_synonym demo_state = "(address \<times> 256 word \<times> 64 word) list"
type_synonym demo_db = "(bytes \<times> demo_state) list"

definition demo_root :: "demo_state \<Rightarrow> bytes" where
  "demo_root s = (if s = [] then [] else concat (map (\<lambda>(a, b, n). a @ [ucast b, ucast n]) s))"

definition demo_bal :: "demo_state \<Rightarrow> address \<Rightarrow> 256 word" where
  "demo_bal s a = (case map_of s a of Some (b, _) \<Rightarrow> b | None \<Rightarrow> 0)"

definition demo_nonce :: "demo_state \<Rightarrow> address \<Rightarrow> 64 word" where
  "demo_nonce s a = (case map_of s a of Some (_, n) \<Rightarrow> n | None \<Rightarrow> 0)"

definition demo_put :: "demo_state \<Rightarrow> address \<Rightarrow> 256 word \<Rightarrow> 64 word \<Rightarrow> demo_state" where
  "demo_put s a b n = AList.update a (b, n) s"

definition demo_kept :: "demo_state \<Rightarrow> demo_state" where
  "demo_kept s = filter (\<lambda>(a, b, n). b \<noteq> 0 \<or> n \<noteq> 0) (AList.clearjunk s)"

definition demo_vm :: "(demo_state, demo_db) vm_api" where
  "demo_vm =
     \<lparr>db_Exist = (\<lambda>s a. map_of s a \<noteq> None), db_GetBalance = demo_bal,
      db_SetBalance = (\<lambda>s a x. demo_put s a x (demo_nonce s a)),
      db_AddBalance = (\<lambda>s a x. demo_put s a (demo_bal s a + x) (demo_nonce s a)),
      db_SubBalance = (\<lambda>s a x. demo_put s a (demo_bal s a - x) (demo_nonce s a)),
      db_GetNonce = demo_nonce, db_SetNonce = (\<lambda>s a x. demo_put s a (demo_bal s a) x),
      db_CanTransfer = (\<lambda>s a x. x \<le> demo_bal s a),
      u_FromBig = (\<lambda>i. (of_int i, i < 0 \<or> 2 ^ 256 \<le> i)),
      u_FromDecimal = (\<lambda>s. case big_SetString s of Some i \<Rightarrow> of_int i | None \<Rightarrow> 0),
      evm_Create = (\<lambda>ctx a d gas v s. (Inl (Errorf ''no evm''), s)),
      evm_Call = (\<lambda>ctx a t d gas v s. (Inl (Errorf ''no evm''), s)),
      state_New = (\<lambda>r d. case map_of d r of Some s \<Rightarrow> Inr s
                   | None \<Rightarrow> if r = [] then Inr [] else Inl (Errorf ''missing trie node'')),
      state_IntermediateRoot = (\<lambda>s. demo_root (demo_kept s)),
      state_Commit = (\<lambda>n s d. Inr (demo_root (demo_kept s),
                                  (demo_root (demo_kept s), demo_kept s) # d)),
      trieDB_Commit = (\<lambda>r d. Inr d)\<rparr>"

lemma map_of_put [simp]: "map_of (demo_put s a b n) x = (if x = a then Some (b, n) else map_of s x)"
  by (simp add: demo_put_def update_conv')

lemma map_of_filter_distinct:
  "distinct (map fst xs) \<Longrightarrow>
   map_of (filter P xs) a = (case map_of xs a of None \<Rightarrow> None | Some v \<Rightarrow> if P (a, v) then Some v else None)"
proof (induction xs)
  case (Cons x xs)
  have "a \<notin> fst ` set xs \<Longrightarrow> map_of xs a = None" by (simp add: map_of_eq_None_iff)
  with Cons show ?case by (cases x) (auto split: option.splits)
qed simp

lemma map_of_kept:
  "map_of (demo_kept s) a = (case map_of s a of None \<Rightarrow> None | Some (b, n) \<Rightarrow> if b \<noteq> 0 \<or> n \<noteq> 0 then Some (b, n) else None)"
  by (simp add: demo_kept_def map_of_filter_distinct map_of_clearjunk split: option.splits)

lemma demo_statedb_ok: "statedb_ok demo_vm"
  by (simp add: statedb_ok_def demo_vm_def demo_bal_def demo_nonce_def)

lemma demo_commit_ok: "commit_ok demo_vm"
  by (auto simp: commit_ok_def demo_vm_def demo_bal_def demo_nonce_def map_of_kept split: option.splits)

section \<open>Stores\<close>

type_synonym demo_buckets = "(string \<times> (bytes \<times> bytes) list) list"

definition demo_bolt :: "demo_buckets bolt_api" where
  "demo_bolt =
     \<lparr>bk_Exists = (\<lambda>db b. map_of db b \<noteq> None),
      bk_Create = (\<lambda>db b. Inr (if map_of db b = None then AList.update b [] db else db)),
      bk_Put = (\<lambda>db b k v. case map_of db b of None \<Rightarrow> Inl (Errorf ''no bucket'')
                 | Some kvs \<Rightarrow> Inr (AList.update b (AList.update k v kvs) db)),
      bk_Get = (\<lambda>db b k. case map_of db b of None \<Rightarrow> None | Some kvs \<Rightarrow> map_of kvs k),
      bk_Commit = (\<lambda>db. Inr db)\<rparr>"

lemma demo_bolt_ok: "bolt_ok demo_bolt"
  by (auto simp: bolt_ok_def demo_bolt_def update_conv' split: option.splits if_splits)

type_synonym demo_trie = "(bytes \<times> bytes) list"
type_synonym demo_triedb = "(bytes \<times> demo_trie) list"

definition demo_hash :: "demo_trie \<Rightarrow> bytes" where
  "demo_hash t = concat (map (\<lambda>(k, v). k @ v) t)"

definition demo_eth :: "(demo_trie, demo_trie, demo_triedb) trie_api" where
  "demo_eth =
     \<lparr>tr_New = (\<lambda>r td. case map_of td r of Some t \<Rightarrow> Inr t
                 | None \<Rightarrow> if r = [] then Inr [] else Inl (Errorf ''missing trie node'')),
      tr_Update = (\<lambda>t k v. Inr (AList.update k v t)),
      tr_Get = (\<lambda>t k. Inr (case map_of t k of None \<Rightarrow> None | Some v \<Rightarrow> if v = [] then None else Some v)),
      tr_Hash = demo_hash, tr_Commit = (\<lambda>t. (demo_hash t, Some t)),
      td_Update = (\<lambda>r old n td. Inr ((r, n) # td)), td_Commit = (\<lambda>r td. Inr td), EmptyRootHash = [], BytesToHash = (\<lambda>b. b)\<rparr>"

lemma demo_trie_ok: "trie_ok demo_eth"
  by (auto simp: trie_ok_def demo_eth_def update_conv')

section \<open>Codec\<close>

definition demo_bits :: "bool list bitset_api" where
  "demo_bits =
     \<lparr>bs_New = (\<lambda>n. replicate (unat n) False), bs_Set = (\<lambda>b i. b[unat i := True]),
      bs_Test = (\<lambda>b i. unat i < length b \<and> b ! unat i), bs_Len = (\<lambda>b. of_nat (length b)), bs_Equal = (=)\<rparr>"

definition demo_hashes :: hash_api where
  "demo_hashes = \<lparr>h_sha256 = (\<lambda>b. b), h_sha512 = rev, h_sha1 = (\<lambda>b. b @ b)\<rparr>"

text \<open>
  The codec encodes the empty blocks with numbers below 256 and a fixed miner and time; it
  returns an error for all others.
\<close>

definition demo_blk :: "64 word \<Rightarrow> block" where
  "demo_blk n =
     \<lparr>Header = \<lparr>ParentBlockHash = [ucast (n - 1)], StateRoot = [], Number = n, BlockType = TxBlockType,
        Miner = EmptyAccountAddr, BlockCreateTime = 7, LocationRoot = [], TxRoot = [], Bloom = zero_bloom,
        MigratedAccountsRoot = []\<rparr>,
      TxList = [], MigratedAddrs = [], MigratedStates = []\<rparr>"

definition demo_codec :: "demo_trie codec" where
  "demo_codec =
     \<lparr>hdr_Encode = (\<lambda>h. Inr [ucast (Number h)]), sha256 = (\<lambda>b. b),
      blk_Encode = (\<lambda>b. if b = demo_blk (Number (Header b)) \<and> Number (Header b) < 256
                         then Inr [ucast (Number (Header b))] else Inl (Errorf ''gob'')),
      blk_Decode = (\<lambda>x. case x of [n] \<Rightarrow> Inr (demo_blk (ucast n)) | _ \<Rightarrow> Inl (Errorf ''gob'')),
      tx_Encode = (\<lambda>tx. Inr (Sender tx @ Recipient tx)), st_Encode = (\<lambda>st. Inr (st_Address st)),
      loc_Encode = (\<lambda>w. if w < 256 then Inr [ucast w] else Inl (Errorf ''rlp'')),
      loc_Decode = (\<lambda>x. case x of [n] \<Rightarrow> Inr (ucast n) | _ \<Rightarrow> Inl (Errorf ''rlp'')),
      prop_Encode = (\<lambda>b. if b = demo_blk (Number (Header b)) \<and> Number (Header b) < 256
                          then Inr [ucast (Number (Header b))] else Inl (Errorf ''rlp'')), mem_Trie = [], bits = demo_bits, hashes = demo_hashes\<rparr>"

lemma ucast_byte: "(w :: 64 word) < 256 \<Longrightarrow> ucast (ucast w :: 8 word) = w"
proof -
  assume "w < 256"
  then have "uint w < 256" by (simp add: word_less_def)
  then show ?thesis by (simp add: word_uint_eq_iff unsigned_ucast_eq unsigned_take_bit_eq take_bit_int_eq_self_iff)
qed

lemma demo_codec_ok: "codec_ok demo_codec"
  by (auto simp: codec_ok_def demo_codec_def demo_bits_def ucast_byte split: if_splits)

lemma demo_prop_inj:
  "prop_Encode demo_codec b = Inr x \<Longrightarrow> prop_Encode demo_codec b' = Inr x \<Longrightarrow> b = b'"
  by (auto simp: demo_codec_def split: if_splits) (metis ucast_byte)

lemma demo_bits_ok: "bitset_ok demo_bits"
proof -
  have "unat i < length (b :: bool list)" if "i < of_nat (length b)" for i :: "64 word" and b
  proof -
    have "unat i < unat (of_nat (length b) :: 64 word)" using that by (simp add: word_less_nat_alt)
    also have "\<dots> \<le> length b" by (simp add: unsigned_of_nat take_bit_nat_less_eq_self)
    finally show ?thesis .
  qed
  then show ?thesis
    by (auto simp: bitset_ok_def demo_bits_def nth_list_update simp flip: word_unat_eq_iff)
qed

section \<open>A chain and a node\<close>

definition demo_sys :: system_cfg where
  "demo_sys = \<lparr>ShardNum = 2, NodeNum = 4, ConsensusType = StaticRelayConsensus, BlockSizeLimit = 10, sys_Log = \<lparr>LogDir = [], LogLevel = ''info''\<rparr>\<rparr>"

definition demo_cfg :: consensus_node_cfg where
  "demo_cfg =
     \<lparr>cn_Sys = demo_sys, cn_Bloom = \<lparr>BitsetLen = 16, FilterHashFunc = [''sha256'']\<rparr>,
      cn_Storage = \<lparr>BlockStorageType = ''bolt'', TrieStorageType = ''ethereum'', BoltFilePathDir = ''b'', IsMemoryDB = True,
        LevelFilePathDir = ''l'', OldStateRoot = []\<rparr>,
      cn_ChainID = 1, VMStateDir = ''v'', TxPoolType = ''number'', BlockInterval = 0, BlockRecordDir = ''r''\<rparr>"

definition demo_lp :: "int \<Rightarrow> local_params" where
  "demo_lp i = \<lparr>lp_NodeID = i, lp_ShardID = 0, WalletAddr = EmptyAccountAddr\<rparr>"

definition demo_bolt_store :: "demo_buckets bolt_store" where
  "demo_bolt_store = \<lparr>bolt = demo_bolt, bdb = [(bucketBlock, []), (bucketBlockHeader, []), (bucketNewestBlock, [])]\<rparr>"

definition demo_trie_store :: "(demo_trie, demo_trie, demo_triedb) eth_trie_db" where
  "demo_trie_store = \<lparr>eth = demo_eth, trieDB = [], curStateRoot = []\<rparr>"

type_synonym demo_chain = "(demo_state, demo_db, demo_buckets, demo_trie, demo_trie, demo_triedb) chain"
type_synonym demo_node = "(demo_state, demo_db, demo_buckets, demo_trie, demo_trie, demo_triedb, msg) node"
type_synonym demo_cluster = "(demo_state, demo_db, demo_buckets, demo_trie, demo_trie, demo_triedb, msg) cluster"

text \<open>The topology of the shard with four nodes and of a second shard.\<close>

definition demo_topo :: topo_getter where
  "demo_topo = SetTopoGetter [(0, [(0, ''a''), (1, ''b''), (2, ''c''), (3, ''d'')]), (1, [(0, ''e'')])] (NewTopoGetter [] [])"

definition demo_fs :: filesys where
  "demo_fs = \<lparr>files = [], os_MkdirAll = (\<lambda>_. Inr ()), os_OpenFile = (\<lambda>_. Inr ()), os_Write = (\<lambda>_ _. Inr ()), time_Format = (\<lambda>t. Sprintf_d t)\<rparr>"

definition demo_NewChain :: "demo_chain result" where
  "demo_NewChain = NewChain demo_vm demo_codec (Inr ([], demo_bolt_store, demo_trie_store)) demo_cfg (demo_lp 0) 7"

definition demo_NewNode :: "int \<Rightarrow> demo_node result" where
  "demo_NewNode i = fst (NewPBFTNode demo_vm demo_codec (Inr ([], demo_bolt_store, demo_trie_store)) demo_gob []
     demo_topo demo_cfg (demo_lp i) 7 demo_fs)"

definition get_ok :: "'a result \<Rightarrow> 'a" where
  "get_ok r = (case r of Inr x \<Rightarrow> x)"

lemma demo_NewChain_ok: "is_ok demo_NewChain"
  by code_simp

lemma demo_NewNode_ok: "list_all (\<lambda>i. is_ok (demo_NewNode i)) [0, 1, 2]"
  by code_simp

lemma get_ok_Inr [simp]: "get_ok (Inr x) = x"
  by (simp add: get_ok_def)

lemma demo_stores_wf: "bolt_wf demo_bolt_store" "trie_wf demo_trie_store"
proof -
  have "bk_Exists demo_bolt = (\<lambda>db b. map_of db b \<noteq> None)" by (simp add: demo_bolt_def)
  then show "bolt_wf demo_bolt_store" by (simp add: bolt_wf_def demo_bolt_store_def demo_bolt_ok)
  have "tr_New demo_eth [] [] = Inr []" by (simp add: demo_eth_def)
  then show "trie_wf demo_trie_store" by (simp add: trie_wf_def demo_trie_store_def demo_trie_ok)
qed

lemma demo_chain_wf: "chain_wf (get_ok demo_NewChain)"
proof -
  obtain c where c: "demo_NewChain = Inr c" using demo_NewChain_ok by (auto simp: is_ok_iff)
  from NewChain_wf(1) [OF this [unfolded demo_NewChain_def] demo_stores_wf demo_codec_ok demo_commit_ok]
  show ?thesis unfolding c get_ok_Inr .
qed

lemma demo_node_chain:
  assumes "demo_NewNode i = Inr n"
  shows "chain_wf (bc (nd_shard n))" "codec (bc (nd_shard n)) = demo_codec" "vmi (bc (nd_shard n)) = demo_vm"
    "\<exists>g. chain_holds (bc (nd_shard n)) [g] \<and> Number (Header g) = 1"
proof -
  obtain fs' where "NewPBFTNode demo_vm demo_codec (Inr ([], demo_bolt_store, demo_trie_store)) demo_gob [] demo_topo
      demo_cfg (demo_lp i) 7 demo_fs = (Inr n, fs')"
    using assms unfolding demo_NewNode_def by (metis prod.collapse)
  note c = NewPBFTNode_fresh(5) [OF this]
  note wf = NewChain_wf [OF c demo_stores_wf demo_codec_ok demo_commit_ok]
  show "chain_wf (bc (nd_shard n))" "codec (bc (nd_shard n)) = demo_codec" "vmi (bc (nd_shard n)) = demo_vm"
    "\<exists>g. chain_holds (bc (nd_shard n)) [g] \<and> Number (Header g) = 1"
    by (rule wf)+
qed

lemma demo_node_gob: "demo_NewNode i = Inr n \<Longrightarrow> gob (nd_shard n) = demo_gob"
  unfolding demo_NewNode_def by (metis NewPBFTNode_fresh(1) prod.collapse)

section \<open>Executing a cluster\<close>

datatype 'p action = ADeliver int "'p wrapped_msg" | ACurate int | AStage int gotime

definition honest_list :: "setting \<Rightarrow> int list" where
  "honest_list st = filter (\<lambda>i. i \<notin> set (cl_byz st)) [0 .. cl_n st - 1]"

definition can_deliver ::
  "setting \<Rightarrow> 'p gob_api \<Rightarrow> ('s, 'd, 'db, 't, 'n, 'td, 'p) cluster \<Rightarrow> int \<Rightarrow> 'p wrapped_msg \<Rightarrow> bool" where
  "can_deliver st g C i w \<longleftrightarrow> moves_forward g (replicas C i) w \<and>
     (by_adversary st g w \<or> list_ex (\<lambda>j. list_ex (\<lambda>(d, w'). w' = w) (conn (nd_shard (replicas C j)))) (honest_list st))"

definition cl_act ::
  "setting \<Rightarrow> 'p gob_api \<Rightarrow> 'p action \<Rightarrow> ('s, 'd, 'db, 't, 'n, 'td, 'p) cluster \<Rightarrow>
   ('s, 'd, 'db, 't, 'n, 'td, 'p) cluster option" where
  "cl_act st g a C =
     (case a of
        ADeliver i w \<Rightarrow>
          if i \<in> set (honest_list st) \<and> can_deliver st g C i w
          then Some (put_replica i (snd (handleMessage w (replicas C i))) C) else None
      | ACurate i \<Rightarrow>
          if i \<in> set (honest_list st) then Some (put_replica i (upd_meta curateMsg (replicas C i)) C) else None
      | AStage i now \<Rightarrow>
          if i \<in> set (honest_list st) \<and> in_int64 (Seq (curViewSeq (pbftMeta (replicas C i))) + 1)
          then (let n' = snd (step2NextStage now (replicas C i))
                in Some (put_replica i n' (log_decision i (replicas C i) n' C)))
          else None)"

fun cl_exec ::
  "setting \<Rightarrow> 'p gob_api \<Rightarrow> 'p action list \<Rightarrow> ('s, 'd, 'db, 't, 'n, 'td, 'p) cluster \<Rightarrow>
   ('s, 'd, 'db, 't, 'n, 'td, 'p) cluster option" where
  "cl_exec st g [] C = Some C"
| "cl_exec st g (a # as) C = (case cl_act st g a C of None \<Rightarrow> None | Some C' \<Rightarrow> cl_exec st g as C')"

lemma honest_list: "i \<in> set (honest_list st) \<longleftrightarrow> honest st i"
  by (auto simp: honest_list_def honest_def)

lemma can_deliver: "can_deliver st g C i w \<Longrightarrow> deliverable st g C w \<and> moves_forward g (replicas C i) w"
  by (auto simp: can_deliver_def deliverable_def list_ex_iff honest_list)

lemma cl_act_step: "cl_act st g a C = Some C' \<Longrightarrow> cl_step st g C C'"
  by (auto simp: cl_act_def honest_list Let_def split: action.splits if_splits
    dest!: can_deliver intro: cl_step.intros)

lemma cl_exec_steps: "cl_exec st g as C = Some C' \<Longrightarrow> (cl_step st g)\<^sup>*\<^sup>* C C'"
proof (induction as arbitrary: C)
  case (Cons a as)
  then obtain C1 where a: "cl_act st g a C = Some C1" and r: "cl_exec st g as C1 = Some C'"
    by (auto split: option.splits)
  from cl_act_step [OF a] Cons.IH [OF r] show ?case by (rule converse_rtranclp_into_rtranclp)
qed simp

text \<open>Four replicas of shard 0, the last of which is faulty, agree on a first block.\<close>

definition demo_setting :: setting where
  "demo_setting = \<lparr>cl_n = 4, cl_shard = 0, cl_byz = [3]\<rparr>"

definition demo_start :: demo_cluster where
  "demo_start = \<lparr>replicas = (\<lambda>i. get_ok (demo_NewNode i)), decided = []\<rparr>"

definition demo_pp :: preprepare_msg where
  "demo_pp = \<lparr>pp_P = \<lparr>Block = demo_blk 2\<rparr>, pp_Digest = [2], pp_Seq = 0, pp_View = 0, pp_ShardID = 0, pp_NodeID = 0\<rparr>"

definition demo_prepare :: "int \<Rightarrow> msg" where
  "demo_prepare i = PrepareMsg \<lparr>p_Digest = [2], p_Seq = 0, p_View = 0, p_ShardID = 0, p_NodeID = i\<rparr>"

definition demo_commit :: "int \<Rightarrow> msg" where
  "demo_commit i = CommitMsg \<lparr>c_Digest = [2], c_Seq = 0, c_View = 0, c_ShardID = 0, c_NodeID = i\<rparr>"

definition demo_wrap :: "msg \<Rightarrow> msg wrapped_msg" where
  "demo_wrap m = get_ok (WrapMsg demo_gob m)"

definition demo_round :: "int \<Rightarrow> msg list \<Rightarrow> msg action list" where
  "demo_round i ms = map (\<lambda>m. ADeliver i (demo_wrap m)) ms @ [ACurate i, AStage i 9]"

definition demo_actions :: "msg action list" where
  "demo_actions =
     concat (map (\<lambda>i. demo_round i [PreprepareMsg demo_pp]) [1, 2]) @
     concat (map (\<lambda>i. demo_round i (map demo_prepare [1, 2, 3])) [1, 2]) @
     concat (map (\<lambda>i. demo_round i (map demo_commit [1, 2, 3])) [1, 2])"

definition demo_end :: demo_cluster where
  "demo_end = (case cl_exec demo_setting demo_gob demo_actions demo_start of Some C \<Rightarrow> C)"

lemma demo_run: "map_option decided (cl_exec demo_setting demo_gob demo_actions demo_start) = Some [(1, demo_pp), (2, demo_pp)]"
  by code_simp

lemma demo_exec:
  "cl_exec demo_setting demo_gob demo_actions demo_start = Some demo_end" "decided demo_end = [(1, demo_pp), (2, demo_pp)]"
  using demo_run by (auto simp: demo_end_def)

lemma demo_start_init: "cl_init demo_setting demo_gob demo_start"
proof -
  have "fresh_replica demo_setting demo_gob i (replicas demo_start i)" if "honest demo_setting i" for i
  proof -
    have "i \<in> {0, 1, 2}" using that by (auto simp: honest_def demo_setting_def)
    then obtain n where n: "demo_NewNode i = Inr n" using demo_NewNode_ok by (auto simp: is_ok_iff)
    obtain fs' where "NewPBFTNode demo_vm demo_codec (Inr ([], demo_bolt_store, demo_trie_store)) demo_gob []
      demo_topo demo_cfg (demo_lp i) 7 demo_fs = (Inr n, fs')" using n by (cases "NewPBFTNode demo_vm demo_codec (Inr ([], demo_bolt_store, demo_trie_store)) demo_gob []
      demo_topo demo_cfg (demo_lp i) 7 demo_fs") (auto simp: demo_NewNode_def)
    then show ?thesis unfolding fresh_replica_def
      by (intro exI conjI) (auto simp: n demo_start_def demo_lp_def demo_cfg_def demo_sys_def demo_setting_def)
  qed
  then show ?thesis by (simp add: cl_init_def demo_start_def)
qed

lemma demo_setting_ok: "setting_ok demo_setting"
  by (simp add: setting_ok_def demo_setting_def in_int64_def)

section \<open>A leader that is one block ahead\<close>

definition demo_ahead :: demo_node where
  "demo_ahead = (let n = get_ok (demo_NewNode 0) in
     n\<lparr>nd_shard := (nd_shard n)\<lparr>bc := snd (AddBlock (bc (nd_shard n)) (demo_blk 2))\<rparr>\<rparr>)"

definition demo_behind :: demo_node where
  "demo_behind = upd_meta (\<lambda>m. m\<lparr>catchupStarted := True\<rparr>) (get_ok (demo_NewNode 1))"

lemma demo_ahead_holds:
  "\<exists>g. chain_holds (bc (nd_shard demo_ahead)) [g, demo_blk 2] \<and> Number (Header g) = 1"
proof -
  obtain n where n: "demo_NewNode 0 = Inr n" using demo_NewNode_ok by (auto simp: is_ok_iff)
  note c = demo_node_chain [OF n]
  obtain g where g: "chain_holds (bc (nd_shard n)) [g]" "Number (Header g) = 1" using c(4) by blast
  have "fst (AddBlock (bc (nd_shard (get_ok (demo_NewNode 0)))) (demo_blk 2)) = Inr ()" by code_simp
  then obtain c2 where add: "AddBlock (bc (nd_shard n)) (demo_blk 2) = (Inr (), c2)" by (metis n get_ok_Inr prod.collapse)
  have hd: "curHeader (bc (nd_shard n)) = Header g" using g(1) by (simp add: chain_holds_def)
  have h: "Header_Hash demo_codec x = Inr [ucast (Number x)]" for x by (simp add: Header_Hash_def demo_codec_def)
  have "chain_holds c2 ([g] @ [demo_blk 2])"
    by (rule AddBlock_chain_holds [OF c(1) add g(1)]) (simp_all add: c(2) h hd g(2) demo_blk_def)
  moreover have "bc (nd_shard demo_ahead) = c2" by (simp add: demo_ahead_def n add Let_def)
  ultimately show ?thesis using g(2) by auto
qed

end
