(* ===== verification/Ledger.thy ===== *)
theory Ledger
  imports Demo
begin

text \<open>
  What one shard promises about its chain of blocks and about the balances: generation, validation and
  commitment of blocks agree, the stored blocks form one linked chain, and executing transactions moves
  value without creating it, within a shard and across two of them.
\<close>

section \<open>Accounts and transactions of the examples\<close>

text \<open>With two shards the accounts with an even last byte belong to shard 0, the others to shard 1.\<close>

definition demo_addr :: "byte \<Rightarrow> address" where
  "demo_addr n = replicate 19 0 @ [n]"

definition demo_tx :: "byte \<Rightarrow> byte \<Rightarrow> int \<Rightarrow> transaction" where
  "demo_tx a b v = NewTransaction (demo_addr a) (demo_addr b) v 0 0 5"

definition demo_chain :: demo_chain where
  "demo_chain = get_ok demo_NewChain"

definition demo_gen :: "block result" where
  "demo_gen = GenerateBlock demo_chain 8 (demo_addr 9) TxBlockType [demo_tx 2 4 30, demo_tx 4 6 5] [] []"

lemma demo_gen_ok: "is_ok demo_gen"
  by code_simp

lemma demo_gen_Inr: "GenerateBlock demo_chain 8 (demo_addr 9) TxBlockType [demo_tx 2 4 30, demo_tx 4 6 5] [] [] = Inr (get_ok demo_gen)"
  using demo_gen_ok by (auto simp: is_ok_iff demo_gen_def)

lemma demo_wf: "chain_wf demo_chain"
  unfolding demo_chain_def by (rule demo_chain_wf)

lemma demo_vmi: "vmi demo_chain = demo_vm"
proof -
  obtain c where c: "demo_NewChain = Inr c" using demo_NewChain_ok by (auto simp: is_ok_iff)
  from NewChain_wf(6) [OF this [unfolded demo_NewChain_def] demo_stores_wf demo_codec_ok demo_commit_ok]
  show ?thesis by (simp add: demo_chain_def c)
qed

text \<open>A codec that can also encode one block that migrates an account of shard 1 to shard 0.\<close>

definition demo_mblk :: block where
  "demo_mblk = (demo_blk 2)\<lparr>MigratedAddrs := [demo_addr 3], MigratedStates := [NewState (demo_addr 3) 0]\<rparr>"

definition demo_mchain :: demo_chain where
  "demo_mchain = demo_chain\<lparr>codec := demo_codec\<lparr>
     blk_Encode := (\<lambda>b. if b = demo_mblk then Inr [] else blk_Encode demo_codec b),
     blk_Decode := (\<lambda>x. if x = [] then Inr demo_mblk else blk_Decode demo_codec x)\<rparr>\<rparr>"

lemma demo_mwf: "chain_wf demo_mchain"
proof -
  have "codec_ok (codec demo_mchain)" using demo_codec_ok by (auto simp: codec_ok_def demo_mchain_def demo_codec_def split: if_splits)
  then show ?thesis using demo_wf by (simp add: chain_wf_def demo_mchain_def)
qed

section \<open>Blocks\<close>

text \<open>
  C13. A block that a chain generates passes the validation of the same chain, is linked to the current
  header by its parent hash and number, and carries exactly the given transactions, accounts and states.
\<close>

theorem generated_block_valid:
  assumes "chain_wf c" "GenerateBlock c now miner bt txs addrs sts = Inr b"
  shows "ValidateBlock c b = Inr () \<and> Header_Hash (codec c) (curHeader c) = Inr (ParentBlockHash (Header b)) \<and>
    Number (Header b) = Number (curHeader c) + 1 \<and> TxList b = txs \<and> MigratedAddrs b = addrs \<and> MigratedStates b = sts"
proof -
  have "codec_ok (codec c)" using assms(1) by (simp add: chain_wf_def)
  from GenerateBlock_valid [OF this assms(2)] GenerateBlock_Inr [OF assms(2)] show ?thesis by simp
qed

theorem generated_block_valid_witness:
  "ValidateBlock demo_chain (get_ok demo_gen) = Inr () \<and> length (TxList (get_ok demo_gen)) = 2"
  using generated_block_valid [OF demo_wf demo_gen_Inr] by simp

text \<open>
  C14. The state root and the location root that \<open>GenerateBlock\<close> previews are the roots that committing the
  block computes on the same chain, although the preview changes no store and the commitment writes to
  the state database and to the location trie.
\<close>

theorem previewed_roots_are_committed:
  assumes "chain_wf c" "GenerateBlock c now miner bt txs addrs sts = Inr b" "updateTrieByBlock c b = (Inr (sr, lr), c')"
  shows "StateRoot (Header b) = sr \<and> LocationRoot (Header b) = lr"
  using GenerateBlock_roots [OF assms] by simp

theorem previewed_roots_are_committed_witness:
  "StateRoot (Header (get_ok demo_gen)) = fst (get_ok (fst (updateTrieByBlock demo_chain (get_ok demo_gen)))) \<and>
   StateRoot (Header (get_ok demo_gen)) \<noteq> []"
proof
  have "is_ok (fst (updateTrieByBlock demo_chain (get_ok demo_gen)))" by code_simp
  then obtain sr lr c' where u: "updateTrieByBlock demo_chain (get_ok demo_gen) = (Inr (sr, lr), c')"
    by (auto simp: is_ok_iff intro: prod.exhaust [of "updateTrieByBlock demo_chain (get_ok demo_gen)"])
  from previewed_roots_are_committed [OF demo_wf demo_gen_Inr this]
  show "StateRoot (Header (get_ok demo_gen)) = fst (get_ok (fst (updateTrieByBlock demo_chain (get_ok demo_gen))))"
    by (simp add: u)
  show "StateRoot (Header (get_ok demo_gen)) \<noteq> []" by code_simp
qed

text \<open>
  C15. Adding the next block extends the chain: afterwards the chain holds the old blocks and the new one
  as its head, all of them can be read from the block store, and the stores stay well formed. The
  premise on hashes says that the hash function gives the new header a new hash.
\<close>

theorem add_block_extends_chain:
  assumes "chain_wf c" "AddBlock c b = (Inr (), c')" "chain_holds c bs"
    and "Header_Hash (codec c) (curHeader c) = Inr (ParentBlockHash (Header b))"
      "Number (Header b) = Number (curHeader c) + 1"
    and "\<And>b0. b0 \<in> set bs \<Longrightarrow> Header_Hash (codec c) (Header b0) \<noteq> Header_Hash (codec c) (Header b)"
  shows "chain_holds c' (bs @ [b]) \<and> chain_wf c' \<and> curHeader c' = Header b"
  using AddBlock_chain_holds [OF assms] AddBlock_wf [OF assms(1,2)] by blast

theorem add_block_extends_chain_witness:
  "\<exists>g c'. AddBlock demo_chain (demo_blk 2) = (Inr (), c') \<and> chain_holds c' ([g] @ [demo_blk 2])"
proof -
  obtain c where c: "demo_NewChain = Inr c" using demo_NewChain_ok by (auto simp: is_ok_iff)
  note wf = NewChain_wf [OF c [unfolded demo_NewChain_def] demo_stores_wf demo_codec_ok demo_commit_ok]
  obtain g where g: "chain_holds demo_chain [g]" "Number (Header g) = 1" using wf(2) by (auto simp: demo_chain_def c)
  have "fst (AddBlock demo_chain (demo_blk 2)) = Inr ()" by code_simp
  then obtain c2 where add: "AddBlock demo_chain (demo_blk 2) = (Inr (), c2)" by (metis prod.collapse)
  have hd: "curHeader demo_chain = Header g" using g(1) by (simp add: chain_holds_def)
  have cd: "codec demo_chain = demo_codec" using wf(5) by (simp add: demo_chain_def c)
  have h: "Header_Hash demo_codec x = Inr [ucast (Number x)]" for x by (simp add: Header_Hash_def demo_codec_def)
  have "chain_holds c2 ([g] @ [demo_blk 2]) \<and> chain_wf c2 \<and> curHeader c2 = Header (demo_blk 2)"
    by (rule add_block_extends_chain [OF demo_wf add g(1)]) (simp_all add: cd h hd g(2) demo_blk_def)
  with add show ?thesis by blast
qed



text \<open>
  C17. After a block is added, the location of every account that it migrates is the shard of its
  migrated state, and the location of every other account is unchanged.
\<close>

theorem locations_after_block:
  assumes "chain_wf c" "AddBlock c b = (Inr (), c')" "distinct (MigratedAddrs b)"
  shows "(\<forall>i < length (MigratedAddrs b). acc_loc c' (MigratedAddrs b ! i) = Inr (sint (st_ShardLocation (MigratedStates b ! i)))) \<and>
    (\<forall>a. a \<notin> set (MigratedAddrs b) \<longrightarrow> acc_loc c' a = acc_loc c a)"
  using AddBlock_locations [OF assms] by blast

theorem locations_after_block_witness:
  "acc_loc demo_mchain (demo_addr 3) = Inr 1 \<and> acc_loc (snd (AddBlock demo_mchain demo_mblk)) (demo_addr 3) = Inr 0"
proof
  have "fst (AddBlock demo_mchain demo_mblk) = Inr ()" by code_simp
  then obtain c' where add: "AddBlock demo_mchain demo_mblk = (Inr (), c')" by (metis prod.collapse)
  have "distinct (MigratedAddrs demo_mblk)" by (simp add: demo_mblk_def)
  from locations_after_block [OF demo_mwf add this]
  show "acc_loc (snd (AddBlock demo_mchain demo_mblk)) (demo_addr 3) = Inr 0"
    unfolding add by (simp add: demo_mblk_def NewState_def)
qed code_simp

section \<open>Balances\<close>

text \<open>
  C18. Executing the normal and relay transactions of a block changes the sum of the balances of the
  accounts of a shard by exactly what the relay transactions carry in and out of the shard: no value is
  created or lost. The balance of an account that does not exist yet is the initial balance the code
  gives it on its first use.
\<close>

theorem block_execution_conserves_value:
  assumes "statedb_ok (vmi c)" "finite A" "Sender ` set txs \<union> Recipient ` set txs \<subseteq> A"
    and "TxType ` set txs \<subseteq> {NormalTxType, RelayTxType}" "exec_txs c ctx loc txs s = Inr s'"
    and "total (vmi c) A s + (\<Sum>tx\<leftarrow>txs. max 0 (net_flow loc (shardID c) tx)) < 2 ^ 256"
  shows "total (vmi c) A s' = total (vmi c) A s + (\<Sum>tx\<leftarrow>txs. net_flow loc (shardID c) tx)"
  using assms(4) by (intro exec_txs_flow [OF assms(1-3) _ assms(5,6)]) auto

definition demo_relay :: transaction where
  "demo_relay = (demo_tx 2 3 7)\<lparr>RelayStage := Relay1Tx, ROriginalHash := [1]\<rparr>"

definition demo_locs :: "(address, int) gomap" where
  "demo_locs = map (\<lambda>n. (demo_addr n, int (unat n) mod 2)) [2, 3, 4]"

theorem block_execution_conserves_value_witness:
  "total demo_vm {demo_addr 2, demo_addr 3, demo_addr 4}
     (get_ok (exec_txs demo_chain (getBlockCtxByBlock (demo_blk 2)) demo_locs [demo_tx 2 4 30, demo_relay] [])) =
   total demo_vm {demo_addr 2, demo_addr 3, demo_addr 4} [] - 7"
proof -
  let ?A = "{demo_addr 2, demo_addr 3, demo_addr 4}" and ?txs = "[demo_tx 2 4 30, demo_relay]"
  let ?run = "exec_txs demo_chain (getBlockCtxByBlock (demo_blk 2)) demo_locs ?txs []"
  have "is_ok ?run" by code_simp
  then have run: "?run = Inr (get_ok ?run)" by (auto simp: is_ok_iff)
  have A: "Sender ` set ?txs \<union> Recipient ` set ?txs \<subseteq> ?A"
    by (simp add: demo_relay_def demo_tx_def NewTransaction_def)
  have ty: "TxType ` set ?txs \<subseteq> {NormalTxType, RelayTxType}"
    by (simp add: TxType_def demo_relay_def demo_tx_def NewTransaction_def)
  have fl: "map (net_flow demo_locs (shardID demo_chain)) ?txs = [0, - 7]" by code_simp
  have room: "total demo_vm ?A [] < 2 ^ 256" by code_simp
  have "total (vmi demo_chain) ?A [] + (\<Sum>tx\<leftarrow>?txs. max 0 (net_flow demo_locs (shardID demo_chain) tx)) < 2 ^ 256"
    using fl room by (simp add: demo_vmi)
  from block_execution_conserves_value [OF _ _ A ty run this] show ?thesis
    using fl by (simp add: demo_vmi demo_statedb_ok)
qed

text \<open>
  C19. A relayed transfer between two shards conserves value: when the first shard executes the relay-1
  half and the second the relay-2 half that is made of it, the sum over both shards of the balance of
  each account changes by minus the value for the sender and plus the value for the recipient, and
  the sender had the value.
\<close>

theorem relay_pair_transfers:
  assumes "statedb_ok v" "RelayStage tx = Relay1Tx" "map_get locA (Sender tx) 0 = shardA"
    "relayTxExecute v locA shardA tx sA = (Inr (), sA')"
    and "map_get locB (Recipient tx) 0 = shardB" "relayTxExecute v locB shardB (tx\<lparr>RelayStage := Relay2Tx\<rparr>) sB = (Inr (), sB')"
    and "eff v sB (Recipient tx) + Value tx < 2 ^ 256"
  shows "eff v sA' a + eff v sB' a =
      eff v sA a + eff v sB a - (if a = Sender tx then Value tx else 0) + (if a = Recipient tx then Value tx else 0) \<and>
    0 \<le> Value tx \<and> Value tx \<le> eff v sA (Sender tx)"
  using relay1_eff [OF assms(1,4,2,3)] relay2_eff [OF assms(1,6)] assms(5,7) by simp

theorem relay_pair_transfers_witness:
  "eff demo_vm (snd (relayTxExecute demo_vm demo_locs 0 demo_relay [])) (demo_addr 3) +
   eff demo_vm (snd (relayTxExecute demo_vm demo_locs 1 (demo_relay\<lparr>RelayStage := Relay2Tx\<rparr>) [])) (demo_addr 3) =
   2 * 10 ^ 36 + 7"
proof -
  let ?A = "relayTxExecute demo_vm demo_locs 0 demo_relay []"
    and ?B = "relayTxExecute demo_vm demo_locs 1 (demo_relay\<lparr>RelayStage := Relay2Tx\<rparr>) []"
  have "RelayStage demo_relay = 1" "map_get demo_locs (Sender demo_relay) 0 = 0"
    "map_get demo_locs (Recipient demo_relay) 0 = 1" "fst ?A = Inr ()" "fst ?B = Inr ()"
    and room: "eff demo_vm [] (Recipient demo_relay) + Value demo_relay < 2 ^ 256"
    by code_simp+
  then have run: "?A = (Inr (), snd ?A)" "?B = (Inr (), snd ?B)" by (simp_all add: prod_eq_iff)
  have v: "demo_addr 3 \<noteq> Sender demo_relay" "demo_addr 3 = Recipient demo_relay" "Value demo_relay = 7"
    by code_simp+
  have "eff demo_vm [] (demo_addr 3) = 10 ^ 36" by code_simp
  then show ?thesis
    using relay_pair_transfers [OF demo_statedb_ok _ _ run(1) _ run(2) room, of "demo_addr 3"] by (simp add: v) code_simp
qed

text \<open>
  C20. A transfer through a broker between two shards conserves value as well: the broker is paid by the
  sender in the first shard and pays the recipient in the second. The code does not check in the
  second shard that the broker can pay, so that this is a premise.
\<close>

theorem broker_pair_transfers:
  assumes "statedb_ok v" "BrokerStage tx1 = Sigma1BrokerStage" "map_get locA (Sender tx1) 0 = shardA"
    "brokerTxExecute v locA shardA tx1 sA = (Inr (), sA')"
    and "BrokerStage tx2 = Sigma2BrokerStage" "map_get locB (Recipient tx2) 0 = shardB"
    "brokerTxExecute v locB shardB tx2 sB = (Inr (), sB')"
    and "Broker tx2 = Broker tx1" "Value tx2 = Value tx1" "Value tx2 \<le> eff v sB (Broker tx2)"
    and "eff v sA (Broker tx1) + Value tx1 < 2 ^ 256" "eff v sB (Recipient tx2) + Value tx2 < 2 ^ 256"
  shows "eff v sA' a + eff v sB' a =
      eff v sA a + eff v sB a - (if a = Sender tx1 then Value tx1 else 0) + (if a = Recipient tx2 then Value tx1 else 0)"
  using broker1_eff [OF assms(1,4,2,3)] broker2_eff [OF assms(1,7,5,6)] assms(8-12) by simp

definition demo_broker_tx :: "nat \<Rightarrow> transaction" where
  "demo_broker_tx stg = (demo_tx 2 3 7)\<lparr>BrokerStage := stg, Broker := demo_addr 4, BOriginalHash := [1]\<rparr>"

theorem broker_pair_transfers_witness:
  "eff demo_vm (snd (brokerTxExecute demo_vm demo_locs 0 (demo_broker_tx Sigma1BrokerStage) [])) (demo_addr 4) +
   eff demo_vm (snd (brokerTxExecute demo_vm demo_locs 1 (demo_broker_tx Sigma2BrokerStage) [])) (demo_addr 4) =
   2 * 10 ^ 36"
proof -
  let ?A = "brokerTxExecute demo_vm demo_locs 0 (demo_broker_tx 1) []"
    and ?B = "brokerTxExecute demo_vm demo_locs 1 (demo_broker_tx 2) []"
  have stg: "BrokerStage (demo_broker_tx 1) = 1" "BrokerStage (demo_broker_tx 2) = 2"
    and loc: "map_get demo_locs (Sender (demo_broker_tx 1)) 0 = 0" "map_get demo_locs (Recipient (demo_broker_tx 2)) 0 = 1"
    and "fst ?A = Inr ()" "fst ?B = Inr ()"
    and same: "Broker (demo_broker_tx 2) = Broker (demo_broker_tx 1)" "Value (demo_broker_tx 2) = Value (demo_broker_tx 1)"
    and room: "Value (demo_broker_tx 2) \<le> eff demo_vm [] (Broker (demo_broker_tx 2))"
      "eff demo_vm [] (Broker (demo_broker_tx 1)) + Value (demo_broker_tx 1) < 2 ^ 256"
      "eff demo_vm [] (Recipient (demo_broker_tx 2)) + Value (demo_broker_tx 2) < 2 ^ 256"
    by code_simp+
  then have run: "?A = (Inr (), snd ?A)" "?B = (Inr (), snd ?B)" by (simp_all add: prod_eq_iff)
  have "demo_addr 4 \<noteq> Sender (demo_broker_tx 1)" "demo_addr 4 \<noteq> Recipient (demo_broker_tx 2)"
    "eff demo_vm [] (demo_addr 4) = 10 ^ 36" by code_simp+
  then show ?thesis
    using broker_pair_transfers [OF demo_statedb_ok stg(1) loc(1) run(1) stg(2) loc(2) run(2) same room, of "demo_addr 4"] by simp
qed

text \<open>
  C21. Migrating an account keeps it: what the new shard reads after writing the migrated state is the
  nonce and the balance that the old shard read, whatever else its state holds.
\<close>

theorem migrated_account_kept:
  assumes "statedb_ok v" "st = readStateFromVMExecutor v a s src" "setMigratedStates2VMTrie v a (st\<lparr>st_ShardLocation := dest\<rparr>) t = (Inr (), t')"
  shows "st_Balance (readStateFromVMExecutor v a t' dest) = st_Balance st \<and> st_Nonce (readStateFromVMExecutor v a t' dest) = st_Nonce st \<and>
    st_ShardLocation (readStateFromVMExecutor v a t' dest) = dest"
proof -
  have "0 \<le> st_Balance st" "st_Balance st < 2 ^ 256"
    using uint_lt2p [of "db_GetBalance v s a"] by (simp_all add: assms(2) readStateFromVMExecutor_def)
  then show ?thesis using migrated_state_roundtrip [OF assms(1) _ _ assms(3)] by simp
qed

theorem migrated_account_kept_witness:
  "st_Balance (readStateFromVMExecutor demo_vm (demo_addr 3)
     (snd (setMigratedStates2VMTrie demo_vm (demo_addr 3)
       ((readStateFromVMExecutor demo_vm (demo_addr 3) [(demo_addr 3, 55, 2)] 1)\<lparr>st_ShardLocation := 0\<rparr>) [])) 0) = 55"
proof -
  let ?st = "readStateFromVMExecutor demo_vm (demo_addr 3) [(demo_addr 3, 55, 2)] 1"
  let ?w = "setMigratedStates2VMTrie demo_vm (demo_addr 3) (?st\<lparr>st_ShardLocation := 0\<rparr>) []"
  have "fst ?w = Inr ()" by code_simp
  then have "?w = (Inr (), snd ?w)" by (simp add: prod_eq_iff)
  note migrated_account_kept [OF demo_statedb_ok refl this, THEN conjunct1]
  also have "st_Balance ?st = 55" by code_simp
  finally show ?thesis .
qed



end
