(* ===== verification/Sharding.thy ===== *)
theory Sharding
  imports Ledger
begin

text \<open>
  What the shards promise each other: a round of a shard extends its chain, the transaction pool is a
  queue, packing a block ends and loses no transaction, relayed transactions reach the shard of their
  recipient, and the states of migrated accounts are collected whatever the order of the messages.
\<close>

section \<open>The transactions in messages\<close>

text \<open>The transactions that a message carries to a shard or back to the supervisor.\<close>

definition msg_txs :: "'p gob_api \<Rightarrow> 'p wrapped_msg \<Rightarrow> transaction list" where
  "msg_txs g w =
     (if MsgType w = ReceiveTxsMessageType then
        (case g_dec_ReceiveTxs g (Payload w) of Inr m \<Rightarrow> rt_Txs m | Inl _ \<Rightarrow> [])
      else if MsgType w = BrokerCLPATxSendAgainMessageType then
        (case g_dec_SendAgain g (Payload w) of Inr m \<Rightarrow> sa_Txs m | Inl _ \<Rightarrow> [])
      else [])"

definition sent_txs :: "'p gob_api \<Rightarrow> 'p outbox \<Rightarrow> transaction list" where
  "sent_txs g out = concat (map (\<lambda>(d, w). msg_txs g w) out)"

definition sent_to :: "'p gob_api \<Rightarrow> int \<Rightarrow> 'p outbox \<Rightarrow> transaction list" where
  "sent_to g s out = sent_txs g (filter (\<lambda>(d, w). ShardID d = s) out)"

text \<open>Every leader that a topology names is a node of its shard.\<close>

definition leaders_ok :: "topo_getter \<Rightarrow> bool" where
  "leaders_ok t \<longleftrightarrow> (\<forall>s l. GetLeader t s = Inr l \<longrightarrow> ShardID l = s)"

lemma sent_txs_simps [simp]:
  "sent_txs g [] = []" "sent_txs g (xs @ ys) = sent_txs g xs @ sent_txs g ys" "sent_txs g ((d, w) # xs) = msg_txs g w @ sent_txs g xs"
  by (simp_all add: sent_txs_def)

lemma sent_to_simps [simp]:
  "sent_to g s [] = []" "sent_to g s (xs @ ys) = sent_to g s xs @ sent_to g s ys"
  "sent_to g s ((d, w) # xs) = (if ShardID d = s then msg_txs g w else []) @ sent_to g s xs"
  by (simp_all add: sent_to_def)

lemma msg_txs_Receive:
  assumes "gob_ok g" "WrapMsg g (ReceiveTxsMsg \<lparr>rt_Txs = txs\<rparr>) = Inr w"
  shows "msg_txs g w = txs"
proof -
  from WrapMsg_MsgType [OF assms(2)] have "MsgType w = ReceiveTxsMessageType" "g_enc g (ReceiveTxsMsg \<lparr>rt_Txs = txs\<rparr>) = Inr (Payload w)"
    by (simp_all add: getMsgType_def)
  moreover from this(2) have "g_dec_ReceiveTxs g (Payload w) = Inr \<lparr>rt_Txs = txs\<rparr>" using assms(1) unfolding gob_ok_def by blast
  ultimately show ?thesis by (simp add: msg_txs_def)
qed

lemma msg_txs_SendAgain:
  assumes "gob_ok g" "WrapMsg g (BrokerCLPATxSendAgainMsg \<lparr>sa_Txs = txs\<rparr>) = Inr w"
  shows "msg_txs g w = txs"
proof -
  from WrapMsg_MsgType [OF assms(2)] have "MsgType w = BrokerCLPATxSendAgainMessageType" "g_enc g (BrokerCLPATxSendAgainMsg \<lparr>sa_Txs = txs\<rparr>) = Inr (Payload w)"
    by (simp_all add: getMsgType_def)
  moreover from this(2) have "g_dec_SendAgain g (Payload w) = Inr \<lparr>sa_Txs = txs\<rparr>" using assms(1) unfolding gob_ok_def by blast
  ultimately show ?thesis by (simp add: msg_txs_def)
qed

lemma update_fresh: "k \<notin> fst ` set m \<Longrightarrow> AList.update k v m = m @ [(k, v)]"
  by (induction m) auto

lemma nth_shift: "i < s \<Longrightarrow> (x # xs) ! nat (s - i) = xs ! nat (s - (i + 1))"
proof -
  assume "i < s"
  then have "nat (s - i) = Suc (nat (s - (i + 1)))" by linarith
  then show ?thesis by simp
qed

lemma sendTxs_loop_sent:
  assumes g: "gob_ok g" and t: "leaders_ok t"
  shows "sendTxs_loop g t i m xss = Inr m' \<Longrightarrow> \<forall>x\<in>fst ` set m. ShardID x < i \<Longrightarrow>
    \<exists>new. m' = m @ new \<and> sent_txs g new = concat xss \<and>
      (\<forall>s. sent_to g s new = (if i \<le> s \<and> s < i + int (length xss) then xss ! nat (s - i) else []))"
proof (induction xss arbitrary: i m)
  case (Cons txs rest)
  show ?case
  proof (cases "txs = []")
    case True
    have "\<forall>x\<in>fst ` set m. ShardID x < i + 1" using Cons.prems(2) by force
    from Cons.IH [OF _ this] Cons.prems(1) True obtain new where new: "m' = m @ new" "sent_txs g new = concat rest"
      "\<And>s. sent_to g s new = (if i + 1 \<le> s \<and> s < i + 1 + int (length rest) then rest ! nat (s - (i + 1)) else [])" by auto
    show ?thesis by (rule exI [of _ new]) (use True new in \<open>auto simp: nth_shift simp del: nth_Cons_pos\<close>)
  next
    case False
    with Cons.prems(1) obtain l w where l: "GetLeader t i = Inr l" and w: "WrapMsg g (ReceiveTxsMsg \<lparr>rt_Txs = txs\<rparr>) = Inr w"
      and rest: "sendTxs_loop g t (i + 1) (AList.update l w m) rest = Inr m'" by (auto split: sum.splits)
    have sl: "ShardID l = i" using t l by (simp add: leaders_ok_def)
    then have "l \<notin> fst ` set m" using Cons.prems(2) by force
    note upd = update_fresh [OF this, of w]
    have "\<forall>x\<in>fst ` set (m @ [(l, w)]). ShardID x < i + 1" using Cons.prems(2) sl by force
    from Cons.IH [OF rest [unfolded upd] this] obtain new where new: "m' = m @ (l, w) # new" "sent_txs g new = concat rest"
      "\<And>s. sent_to g s new = (if i + 1 \<le> s \<and> s < i + 1 + int (length rest) then rest ! nat (s - (i + 1)) else [])" by auto
    show ?thesis by (rule exI [of _ "(l, w) # new"]) (use new sl msg_txs_Receive [OF g w] in \<open>auto simp: nth_shift simp del: nth_Cons_pos\<close>)
  qed
qed auto

lemma SendWrappedTxs2Shards_sent:
  assumes "gob_ok g" "leaders_ok t" "SendWrappedTxs2Shards g t xss out = Inr out'"
  shows "\<exists>new. out' = out @ new \<and> sent_txs g new = concat xss \<and>
    (\<forall>s. sent_to g s new = (if 0 \<le> s \<and> s < int (length xss) then xss ! nat s else []))"
proof -
  obtain m where m: "sendTxs_loop g t 0 [] xss = Inr m" "out' = out @ m"
    using assms(3) by (auto simp: SendWrappedTxs2Shards_def MSendDifferentMessages_out split: sum.splits)
  from sendTxs_loop_sent [OF assms(1,2) m(1)] m(2) show ?thesis by auto
qed

lemma send_shards_sent:
  assumes "gob_ok (gob sh)" "leaders_ok (resolver sh)" "send_shards xss sh = (Inr (), sh')"
  shows "\<exists>new. conn sh' = conn sh @ new \<and> sent_txs (gob sh) new = concat xss \<and> txPool sh' = txPool sh \<and>
    gob sh' = gob sh \<and> resolver sh' = resolver sh"
proof -
  obtain out where o: "SendWrappedTxs2Shards (gob sh) (resolver sh) xss (conn sh) = Inr out" "sh' = sh\<lparr>conn := out\<rparr>"
    using assms(3) by (auto simp: send_shards_def split: sum.splits)
  from SendWrappedTxs2Shards_sent [OF assms(1,2) o(1)] o(2) show ?thesis by auto
qed

lemma SendAgain_sent:
  assumes "gob_ok (gob sh)" "brokerCLPATxSendAgain txs sh = (Inr (), sh')"
  shows "\<exists>new. conn sh' = conn sh @ new \<and> sent_txs (gob sh) new = txs \<and> txPool sh' = txPool sh"
proof (cases "txs = []")
  case False
  with assms(2) obtain w spv where w: "WrapMsg (gob sh) (BrokerCLPATxSendAgainMsg \<lparr>sa_Txs = txs\<rparr>) = Inr w"
    and sh': "sh' = sh\<lparr>conn := SendMsg2Dest spv w (conn sh)\<rparr>"
    by (auto simp: brokerCLPATxSendAgain_def send2Supervisor_def split: sum.splits)
  show ?thesis by (rule exI [of _ "[(spv, w)]"]) (simp add: sh' SendMsg2Dest_def msg_txs_SendAgain [OF assms(1) w])
qed (use assms(2) in \<open>simp add: brokerCLPATxSendAgain_def\<close>)

section \<open>A shard of the examples\<close>

text \<open>A shard in dynamic relay mode whose pool holds transactions of both shards.\<close>

definition demo_pool :: tx_pool where
  "demo_pool = AddTxs [demo_tx 2 4 30, demo_tx 3 4 5, demo_tx 4 3 1] (get_ok (NewTxPool (tx_Encode demo_codec) ''number''))"

definition demo_shard :: "(demo_state, demo_db, demo_buckets, demo_trie, demo_trie, demo_triedb, msg) shard" where
  "demo_shard =
     \<lparr>gob = demo_gob, conn = [], resolver = demo_topo, bc = demo_chain, txPool = demo_pool,
      amm = NewAccMigrateMetadata demo_sys (demo_lp 0),
      sh_cfg = demo_cfg\<lparr>cn_Sys := demo_sys\<lparr>ConsensusType := CLPARelayConsensus\<rparr>\<rparr>, sh_lp = demo_lp 0\<rparr>"

lemma leaders_ok_fold:
  assumes "\<And>x t. leaders_ok t \<Longrightarrow> leaders_ok (h x t)"
  shows "leaders_ok t \<Longrightarrow> leaders_ok (fold h xs t)"
  by (induction xs arbitrary: t) (simp_all add: assms)

lemma topo_add_node_leaders_ok: "leaders_ok t \<Longrightarrow> leaders_ok (topo_add_node s n t)"
  by (auto simp: leaders_ok_def GetLeader_def topo_add_node_leader split: option.splits if_splits)

lemma SetTopoGetter_leaders_ok: "leaders_ok (SetTopoGetter info t)"
proof -
  let ?step = "\<lambda>(shard, ns :: (int, string) gomap). fold (\<lambda>(node, _). topo_add_node shard node) ns"
  have "leaders_ok (fold ?step info (t\<lparr>leaders := [], shard2nodes := []\<rparr>))"
  proof (rule leaders_ok_fold)
    show "leaders_ok (t\<lparr>leaders := [], shard2nodes := []\<rparr>)" by (simp add: leaders_ok_def GetLeader_def)
    show "leaders_ok u \<Longrightarrow> leaders_ok (?step x u)" for x u
      by (cases x) (auto intro!: leaders_ok_fold topo_add_node_leaders_ok)
  qed
  then show ?thesis
    by (auto simp: SetTopoGetter_def Let_def leaders_ok_def GetLeader_def update_conv' split: option.splits if_splits)
qed

lemma demo_codec_eq: "codec demo_chain = demo_codec"
proof -
  obtain c where c: "demo_NewChain = Inr c" using demo_NewChain_ok by (auto simp: is_ok_iff)
  from NewChain_wf(5) [OF this [unfolded demo_NewChain_def] demo_stores_wf demo_codec_ok demo_commit_ok]
  show ?thesis by (simp add: demo_chain_def c)
qed

lemma demo_shard_ok:
  "pool_wf (tx_Encode (codec (bc demo_shard))) (txPool demo_shard)" "gob_ok (gob demo_shard)"
  "leaders_ok (resolver demo_shard)" "lp_ShardID (sh_lp demo_shard) \<noteq> supervisorShardID"
proof -
  have "NewTxPool (tx_Encode demo_codec) ''number'' = Inr (get_ok (NewTxPool (tx_Encode demo_codec) ''number''))"
    by (simp add: NewTxPool_def)
  from NewTxPool_wf [OF this] show "pool_wf (tx_Encode (codec (bc demo_shard))) (txPool demo_shard)"
    using qpool.add_wf by (simp add: demo_shard_def demo_pool_def demo_codec_eq)
qed (simp_all add: demo_shard_def demo_gob_ok demo_topo_def SetTopoGetter_leaders_ok demo_lp_def)

section \<open>Packing\<close>

text \<open>The transactions that a shard may pack: those whose accounts are in this shard.\<close>

definition packable :: "('s, 'd, 'db, 't, 'n, 'td, 'p) shard \<Rightarrow> transaction \<Rightarrow> bool" where
  "packable sh tx \<longleftrightarrow>
     (if ConsensusType (cn_Sys (sh_cfg sh)) = CLPARelayConsensus then relay_here (bc sh) (lp_ShardID (sh_lp sh)) tx
      else broker_here (bc sh) (lp_ShardID (sh_lp sh)) tx)"

lemma packed_relay:
  assumes wf: "pool_wf (tx_Encode (codec (bc sh))) (txPool sh)" and ok: "gob_ok (gob sh)" "leaders_ok (resolver sh)"
    and run: "packValidTxsInRelay sz sh = Some (Inr txs, sh')"
  shows "\<exists>new. conn sh' = conn sh @ new \<and> list_all (relay_here (bc sh) (lp_ShardID (sh_lp sh))) txs \<and>
    mset (queue (txPool sh)) = mset txs + mset (queue (txPool sh')) + mset (sent_txs (gob sh) new)"
proof -
  let ?i = "init_acc sh" and ?self = "lp_ShardID (sh_lp sh)"
  obtain acc where loop: "pack_loop (relay_iter (bc sh) ?self) sz 0 ?i = Some (Inr (), acc)"
    and send: "send_shards (txs2Shard acc) (sh\<lparr>txPool := pk_pool acc\<rparr>) = (Inr (), sh')" and txs: "txs = txsPacked acc"
    using run by (auto simp: packValidTxsInRelay_def split: option.splits prod.splits sum.splits)
  have "txs2Supervisor ?i = [] \<and> pool_wf (tx_Encode (codec (bc sh))) (pk_pool ?i)" using wf by (simp add: init_acc_def)
  from relay_packing.loop_conserves [OF this loop]
  have "acc_txs ?i = acc_txs acc" "txs2Supervisor acc = []" "list_all (relay_here (bc sh) ?self) txs"
    by (auto simp: txs init_acc_def list_all_iff)
  then show ?thesis using send_shards_sent [OF _ _ send] ok by (auto simp: acc_txs_def init_acc_def txs ac_simps)
qed

lemma packed_broker:
  assumes wf: "pool_wf (tx_Encode (codec (bc sh))) (txPool sh)" and ok: "gob_ok (gob sh)" "leaders_ok (resolver sh)"
    and self: "lp_ShardID (sh_lp sh) \<noteq> supervisorShardID" and run: "packValidTxsInBroker sz sh = Some (Inr txs, sh')"
  shows "\<exists>new. conn sh' = conn sh @ new \<and> list_all (broker_here (bc sh) (lp_ShardID (sh_lp sh))) txs \<and>
    mset (queue (txPool sh)) = mset txs + mset (queue (txPool sh')) + mset (sent_txs (gob sh) new)"
proof -
  let ?i = "init_acc sh" and ?self = "lp_ShardID (sh_lp sh)"
  obtain acc sh1 where loop: "pack_loop (broker_iter (bc sh) ?self) sz 0 ?i = Some (Inr (), acc)"
    and send: "send_shards (txs2Shard acc) (sh\<lparr>txPool := pk_pool acc\<rparr>) = (Inr (), sh1)"
    and again: "brokerCLPATxSendAgain (txs2Supervisor acc) sh1 = (Inr (), sh')" and txs: "txs = txsPacked acc"
    using run by (auto simp: packValidTxsInBroker_def split: option.splits prod.splits sum.splits)
  have "?self \<noteq> supervisorShardID \<and> pool_wf (tx_Encode (codec (bc sh))) (pk_pool ?i)" using wf self by (simp add: init_acc_def)
  from broker_packing.loop_conserves [OF this loop]
  have a: "acc_txs ?i = acc_txs acc" "list_all (broker_here (bc sh) ?self) txs" by (auto simp: txs init_acc_def list_all_iff)
  obtain new where new: "conn sh1 = conn sh @ new" "sent_txs (gob sh) new = concat (txs2Shard acc)" "txPool sh1 = pk_pool acc"
    "gob sh1 = gob sh" using send_shards_sent [OF _ _ send] ok by auto
  obtain new' where new': "conn sh' = conn sh1 @ new'" "sent_txs (gob sh) new' = txs2Supervisor acc" "txPool sh' = txPool sh1"
    using SendAgain_sent [OF _ again] ok(1) new(4) by auto
  show ?thesis by (rule exI [of _ "new @ new'"]) (use a new new' in \<open>auto simp: acc_txs_def init_acc_def txs ac_simps\<close>)
qed

text \<open>
  C23. Packing a block loses no transaction: every transaction of the pool is in the packed block, still
  in the pool, or in a message to another shard or back to the supervisor, and all packed transactions
  belong to this shard.
\<close>

theorem packing_loses_nothing:
  assumes "pool_wf (tx_Encode (codec (bc sh))) (txPool sh)" "gob_ok (gob sh)" "leaders_ok (resolver sh)"
    "lp_ShardID (sh_lp sh) \<noteq> supervisorShardID" "packValidTxs sz sh = Some (Inr txs, sh')"
  shows "\<exists>new. conn sh' = conn sh @ new \<and> list_all (packable sh) txs \<and>
    mset (queue (txPool sh)) = mset txs + mset (queue (txPool sh')) + mset (sent_txs (gob sh) new)"
proof (cases "ConsensusType (cn_Sys (sh_cfg sh)) = CLPARelayConsensus")
  case True
  then have "packable sh = relay_here (bc sh) (lp_ShardID (sh_lp sh))" by (auto simp: packable_def)
  then show ?thesis using packed_relay [OF assms(1-3)] assms(5) True by (simp add: packValidTxs_def)
next
  case False
  then have "packable sh = broker_here (bc sh) (lp_ShardID (sh_lp sh))" by (auto simp: packable_def)
  then show ?thesis using packed_broker [OF assms(1-4)] assms(5) False by (simp add: packValidTxs_def)
qed

theorem packing_loses_nothing_witness:
  "\<exists>txs sh' new. packValidTxs 10 demo_shard = Some (Inr txs, sh') \<and> conn sh' = new \<and> length txs = 2 \<and>
    mset (queue demo_pool) = mset txs + mset (queue (txPool sh')) + mset (sent_txs demo_gob new)"
proof -
  have "map_option (\<lambda>(r, _). case r of Inr txs \<Rightarrow> length txs | Inl _ \<Rightarrow> 0) (packValidTxs 10 demo_shard) = Some 2" by code_simp
  then obtain r sh' where r: "packValidTxs 10 demo_shard = Some (r, sh')" "(case r of Inr txs \<Rightarrow> length txs | Inl _ \<Rightarrow> 0) = 2"
    by auto
  then obtain txs where run: "packValidTxs 10 demo_shard = Some (Inr txs, sh')" "length txs = 2" by (cases r) auto
  from packing_loses_nothing [OF demo_shard_ok run(1)] run show ?thesis by (auto simp: demo_shard_def)
qed

lemma buildBlockProposal_returns:
  assumes "\<And>sz. \<exists>r. packValidTxs sz sh = Some r"
  shows "\<exists>r. buildBlockProposal t now sh = Some r"
proof -
  obtain r sh1 where "packValidTxs (BlockSizeLimit (cn_Sys (sh_cfg sh))) sh = Some (r, sh1)" using assms by force
  then show ?thesis unfolding buildBlockProposal_def by (simp split: sum.split)
qed

text \<open>
  C24. Building a proposal always returns: the packing loops end, because every iteration that goes on
  takes a transaction from the pool, even when none of the fetched transactions belongs to the shard.
\<close>

theorem build_proposal_returns:
  assumes "pool_wf (tx_Encode (codec (bc sh))) (txPool sh)" "lp_ShardID (sh_lp sh) \<noteq> supervisorShardID"
  shows "\<exists>r. BuildProposal md now sh = Some r"
proof -
  let ?i = "init_acc sh" and ?self = "lp_ShardID (sh_lp sh)"
  have i: "txs2Supervisor ?i = [] \<and> pool_wf (tx_Encode (codec (bc sh))) (pk_pool ?i)"
    "?self \<noteq> supervisorShardID \<and> pool_wf (tx_Encode (codec (bc sh))) (pk_pool ?i)" using assms by (simp_all add: init_acc_def)
  have "\<exists>r. packValidTxs sz sh = Some r" for sz
    using relay_packing.loop_returns [OF i(1), of ?self sz 0] broker_packing.loop_returns [OF i(2), of sz 0]
    by (auto simp: packValidTxs_def packValidTxsInRelay_def packValidTxsInBroker_def split: prod.splits sum.splits)
  then have "\<exists>r. buildBlockProposal t now sh = Some r" for t
    by (rule buildBlockProposal_returns)
  then show ?thesis by (auto simp: BuildProposal_def Dynamic_BuildProposal_def split: shard_mode.splits)
qed

theorem build_proposal_returns_witness:
  "\<exists>r. BuildProposal (DynamicShard RelayTxBlockOp) 8 demo_shard = Some r"
  by (rule build_proposal_returns [OF demo_shard_ok(1,4)])

section \<open>Rounds\<close>

text \<open>
  C25. A round of a shard, static or dynamic, relay or broker, extends its chain: the proposal that a
  leader builds passes the validation of every node with the same chain, and committing it makes it the
  head, with the next number and the hash of the old head as its parent hash.
\<close>

theorem round_extends_chain:
  fixes sh sh1 sh2 sh' :: "('s, 'd, 'db, 't, 'n, 'td, 'p) shard"
  assumes "chain_wf (bc sh)" "BuildProposal md now sh = Some (Inr (Some p), sh1)" "bc sh2 = bc sh"
    and "ProposalCommitAndDeliver md now' ldr p sh2 = (Inr (), sh')"
  shows "ValidateProposal p sh2 = Inr () \<and> chain_wf (bc sh') \<and> curHeader (bc sh') = Header (Block p) \<and>
    Number (curHeader (bc sh')) = Number (curHeader (bc sh)) + 1 \<and>
    Header_Hash (codec (bc sh)) (curHeader (bc sh)) = Inr (ParentBlockHash (curHeader (bc sh')))"
proof (cases md)
  case (StaticShard t)
  with assms(2,4) have b: "Some (Static_BuildProposal t now sh) = Some (Inr (Some p), sh1)"
    and c: "Static_ProposalCommitAndDeliver t now' ldr p sh2 = (Inr (), sh')"
    by (simp_all add: BuildProposal_def ProposalCommitAndDeliver_def)
  have "bc sh1 = bc sh2" using static_op.build_chain [OF b] assms(3) by simp
  then show ?thesis using static_op.round_extends [OF assms(1) b assms(3) c] static_op.proposal_valid [OF assms(1) b]
    by (simp add: ValidateProposal_def)
next
  case (DynamicShard t)
  with assms(2,4) have b: "Dynamic_BuildProposal t now sh = Some (Inr (Some p), sh1)"
    and c: "Dynamic_ProposalCommitAndDeliver t now' ldr p sh2 = (Inr (), sh')"
    by (simp_all add: BuildProposal_def ProposalCommitAndDeliver_def)
  have "bc sh1 = bc sh2" using dynamic_op.build_chain [OF b] assms(3) by simp
  then show ?thesis using dynamic_op.round_extends [OF assms(1) b assms(3) c] dynamic_op.proposal_valid [OF assms(1) b]
    by (simp add: ValidateProposal_def)
qed

theorem round_extends_chain_witness:
  "\<exists>p sh1 sh'. BuildProposal (StaticShard RelayTxBlockOp) 7 (nd_shard (get_ok (demo_NewNode 0))) = Some (Inr (Some p), sh1) \<and>
    ProposalCommitAndDeliver (StaticShard RelayTxBlockOp) 9 False p sh1 = (Inr (), sh') \<and> chain_wf (bc sh')"
proof -
  let ?sh = "nd_shard (get_ok (demo_NewNode 0))" and ?md = "StaticShard RelayTxBlockOp"
  have "(case BuildProposal ?md 7 ?sh of Some (Inr (Some p), sh1) \<Rightarrow> fst (ProposalCommitAndDeliver ?md 9 False p sh1) = Inr () | _ \<Rightarrow> False)"
    by code_simp
  then obtain p sh1 where b: "BuildProposal ?md 7 ?sh = Some (Inr (Some p), sh1)"
    and "fst (ProposalCommitAndDeliver ?md 9 False p sh1) = Inr ()" by (auto split: option.splits prod.splits sum.splits)
  then obtain sh' where c: "ProposalCommitAndDeliver ?md 9 False p sh1 = (Inr (), sh')" by (metis prod.collapse)
  obtain n where n: "demo_NewNode 0 = Inr n" using demo_NewNode_ok by (auto simp: is_ok_iff)
  have wf: "chain_wf (bc ?sh)" unfolding n get_ok_Inr by (rule demo_node_chain(1) [OF n])
  have "Static_BuildProposal RelayTxBlockOp 7 ?sh = (Inr (Some p), sh1)" using b by (simp add: BuildProposal_def)
  then have "bc sh1 = bc ?sh" by (rule Static_BuildProposal_bc)
  from round_extends_chain [OF wf b this c] b c show ?thesis by blast
qed

section \<open>The transaction pool\<close>

text \<open>
  C26. The transaction pool is a queue: whatever additions and packings are done, and whichever of them
  fail, the packed transactions followed by those still in the pool are the added ones in their order.
\<close>

theorem pool_is_fifo:
  assumes "NewTxPool enc typ = Inr t" "pool_run AddTxs PackTxs ops t = (out, t')"
  shows "out @ queue t' = pool_added ops"
  using NewTxPool_wf [OF assms(1)] qpool.run_fifo [OF _ assms(2)] by auto

theorem pool_is_fifo_witness:
  "fst (pool_run AddTxs PackTxs [OpAdd [demo_tx 2 4 1, demo_tx 4 2 2], OpPack 1, OpAdd [demo_tx 2 4 3], OpPack 5]
     (get_ok (NewTxPool (tx_Encode demo_codec) ''number''))) = [demo_tx 2 4 1, demo_tx 4 2 2, demo_tx 2 4 3]"
proof -
  let ?t = "get_ok (NewTxPool (tx_Encode demo_codec) ''number'')"
    and ?ops = "[OpAdd [demo_tx 2 4 1, demo_tx 4 2 2], OpPack 1, OpAdd [demo_tx 2 4 3], OpPack 5]"
  have new: "NewTxPool (tx_Encode demo_codec) ''number'' = Inr ?t" by (simp add: NewTxPool_def)
  obtain out t' where run: "pool_run AddTxs PackTxs ?ops ?t = (out, t')" by (rule prod.exhaust)
  have "length (queue (snd (pool_run AddTxs PackTxs ?ops ?t))) = 0" by code_simp
  then have "queue t' = []" unfolding run by simp
  with pool_is_fifo [OF new run] run show ?thesis by simp
qed

text \<open>
  The byte-limited packing of the pool takes either nothing or everything: nothing when the first
  transaction is smaller than the limit, the whole pool otherwise. (Its size test is the wrong way round.)
\<close>

theorem byte_packing_all_or_nothing:
  assumes "\<And>tx. tx \<in> set q \<Longrightarrow> is_ok (enc tx)"
  shows "packTxsByGivenBytes enc q n =
    Inr (case q of [] \<Rightarrow> ([], [])
         | tx # txs \<Rightarrow> (case enc tx of Inr b \<Rightarrow> if int (length b) < n then ([], q) else (q, [])))"
  by (rule packTxsByGivenBytes_dichotomy [OF assms])

theorem byte_packing_all_or_nothing_witness:
  "packTxsByGivenBytes (tx_Encode demo_codec) [demo_tx 2 4 1, demo_tx 4 2 2] 1000 = Inr ([], [demo_tx 2 4 1, demo_tx 4 2 2])"
  using byte_packing_all_or_nothing [of "[demo_tx 2 4 1, demo_tx 4 2 2]" "tx_Encode demo_codec" 1000]
  by (simp add: demo_codec_def is_ok_iff demo_tx_def NewTransaction_def demo_addr_def)

section \<open>Relayed transactions\<close>

text \<open>
  C28. After committing a block the leader sends every relay-1 transaction whose recipient is located in
  shard \<open>s\<close> to that shard, as a relay-2 transaction, in order, and nothing else to it.
\<close>

theorem relayed_txs_reach_recipient:
  assumes "gob_ok (gob sh)" "leaders_ok (resolver sh)" "sendRelayedTxs b txs sh = (Inr (), sh')"
    and "0 \<le> s" "s < sh_ShardNum sh"
  shows "\<exists>loc new. getAccountLocationsInTxs (bc sh) (TxList b) = Inr loc \<and> conn sh' = conn sh @ new \<and>
    sent_to (gob sh) s new = map (\<lambda>tx. tx\<lparr>RelayStage := Relay2Tx\<rparr>) (filter (\<lambda>tx. map_of loc (Recipient tx) = Some s) txs)"
proof -
  obtain loc xss out where loc: "getAccountLocationsInTxs (bc sh) (TxList b) = Inr loc"
    and xss: "relayed_loop loc (replicate (nat (sh_ShardNum sh)) []) txs = Inr xss"
    and out: "SendWrappedTxs2Shards (gob sh) (resolver sh) xss (conn sh) = Inr out" "sh' = sh\<lparr>conn := out\<rparr>"
    using assms(3) by (auto simp: sendRelayedTxs_def split: sum.splits)
  obtain new where new: "out = conn sh @ new"
    "sent_to (gob sh) s new = (if 0 \<le> s \<and> s < int (length xss) then xss ! nat s else [])"
    using SendWrappedTxs2Shards_sent [OF assms(1,2) out(1)] by blast
  from relayed_loop_Inr [OF xss] assms(4,5) new loc out(2) show ?thesis by auto
qed

theorem relayed_txs_reach_recipient_witness:
  "\<exists>new. conn (snd (sendRelayedTxs ((demo_blk 2)\<lparr>TxList := [demo_relay]\<rparr>) [demo_relay] demo_shard)) = new \<and>
    sent_to demo_gob 1 new = [demo_relay\<lparr>RelayStage := Relay2Tx\<rparr>]"
proof -
  let ?b = "(demo_blk 2)\<lparr>TxList := [demo_relay]\<rparr>"
  have "fst (sendRelayedTxs ?b [demo_relay] demo_shard) = Inr ()" by code_simp
  then have run: "sendRelayedTxs ?b [demo_relay] demo_shard = (Inr (), snd (sendRelayedTxs ?b [demo_relay] demo_shard))"
    by (simp add: prod_eq_iff)
  have n: "1 < sh_ShardNum demo_shard" by code_simp
  have l: "map_option (\<lambda>m. map_of m (Recipient demo_relay)) (case getAccountLocationsInTxs (bc demo_shard) (TxList ?b) of Inr m \<Rightarrow> Some m | _ \<Rightarrow> None) =
    Some (Some 1)" by code_simp
  from relayed_txs_reach_recipient [OF demo_shard_ok(2,3) run _ n] l show ?thesis by (auto simp: demo_shard_def)
qed

text \<open>
  Preparing a block for relaying keeps the order of the transactions: those of other shards are left
  out, transactions within the shard and relayed ones are kept as they are, and a transaction to an account of
  another shard becomes a relay-1 transaction that carries the hash of the original.
\<close>

theorem relay_marking:
  assumes "modifyTxRelayOpt c txs = Inr out"
  shows "\<exists>loc. getAccountLocationsInTxs c txs = Inr loc \<and>
    list_all2 (relay_image (codec c) loc) (filter (relay_kept (shardID c) loc) txs) out"
proof -
  obtain loc where loc: "getAccountLocationsInTxs c txs = Inr loc" "modify_relay_loop (codec c) (shardID c) loc [] txs = Inr out"
    using assms by (auto simp: modifyTxRelayOpt_def split: sum.splits)
  from modify_relay_loop_Inr [OF loc(2)] loc(1) show ?thesis by auto
qed

theorem relay_marking_witness:
  "\<exists>loc. getAccountLocationsInTxs demo_chain [demo_tx 2 4 30, demo_tx 3 4 5, demo_tx 4 3 1] = Inr loc \<and>
    list_all2 (relay_image demo_codec loc) (filter (relay_kept 0 loc) [demo_tx 2 4 30, demo_tx 3 4 5, demo_tx 4 3 1])
      (get_ok (modifyTxRelayOpt demo_chain [demo_tx 2 4 30, demo_tx 3 4 5, demo_tx 4 3 1]))"
proof -
  let ?txs = "[demo_tx 2 4 30, demo_tx 3 4 5, demo_tx 4 3 1]"
  have "is_ok (modifyTxRelayOpt demo_chain ?txs)" by code_simp
  then have "modifyTxRelayOpt demo_chain ?txs = Inr (get_ok (modifyTxRelayOpt demo_chain ?txs))" by (auto simp: is_ok_iff)
  moreover have "shardID demo_chain = 0" by code_simp
  ultimately show ?thesis using relay_marking [of demo_chain ?txs] by (simp add: demo_codec_eq)
qed

section \<open>Account migration\<close>

text \<open>
  C30. The account states of an epoch change are collected whatever the order in which the messages of the
  shards and the start message of the supervisor arrive: messages that come before the start are kept
  and replayed.
\<close>

theorem migration_order_irrelevant:
  assumes "rs_Epoch cr = Epoch am + 1" "in_int64 (Epoch am + 1)"
    and "list_all (\<lambda>m. msg_valid am m \<and> am_Epoch m = Epoch am + 1) ms" "distinct (map am_SrcShard ms)"
    and "MigratedAccountStates am = []" "map_get (unhandledStateMsg am) (Epoch am + 1) [] = []"
    and "mset (pre @ post) = mset ms"
    and "am' = fold amm_step (map EvStates pre @ [EvStart cr] @ map EvStates post) am"
  shows "map_of (MigratedAccountStates am') = map_of (map (\<lambda>m. (am_SrcShard m, am_AccountStates m)) ms) \<and>
    Epoch am' = Epoch am + 1 \<and> CurModifiedMap am' = rs_ModifiedMap cr \<and> MigrationReady am'"
proof -
  have ok: "\<forall>m\<in>set (pre @ post). msg_valid am m \<and> am_Epoch m = Epoch am + 1"
    using assms(3) mset_eq_setD [OF assms(7)] by (simp add: list_all_iff)
  note run = migration_run [OF assms(1,2) ok assms(5,6)]
  have "distinct (map am_SrcShard (pre @ post))"
    using assms(4) mset_eq_imp_distinct_iff [of "map am_SrcShard (pre @ post)" "map am_SrcShard ms"] assms(7) by (metis mset_map)
  note perm = put_states_perm [OF this assms(7)]
  have "map_of (put_states ms []) = map_of (rev (map (\<lambda>m. (am_SrcShard m, am_AccountStates m)) ms))"
    by (rule ext) (simp add: put_states_lookup split: option.split)
  also have "\<dots> = map_of (map (\<lambda>m. (am_SrcShard m, am_AccountStates m)) ms)"
    using assms(4) by (intro map_of_rev_distinct) (simp add: comp_def)
  finally show ?thesis using perm run unfolding assms(8) by simp
qed

definition demo_states :: "int \<Rightarrow> account_migration_msg" where
  "demo_states s = \<lparr>am_SrcShard = s, am_DestShard = 0, am_Epoch = 1,
     am_AccountStates = [(demo_addr (word_of_int s), NewState (demo_addr (word_of_int s)) 1)]\<rparr>"

theorem migration_order_irrelevant_witness:
  "map_of (MigratedAccountStates (fold amm_step [EvStates (demo_states 1), EvStart \<lparr>rs_Epoch = 1, rs_ModifiedMap = []\<rparr>,
      EvStates (demo_states 0)] (NewAccMigrateMetadata demo_sys (demo_lp 0)))) 1 = Some (am_AccountStates (demo_states 1))"
proof -
  let ?am = "NewAccMigrateMetadata demo_sys (demo_lp 0)" and ?cr = "\<lparr>rs_Epoch = 1, rs_ModifiedMap = []\<rparr> :: clpa_repartition_start_msg"
  let ?am' = "fold amm_step (map EvStates [demo_states 1] @ [EvStart ?cr] @ map EvStates [demo_states 0]) ?am"
  have "map_of (MigratedAccountStates ?am') = map_of (map (\<lambda>m. (am_SrcShard m, am_AccountStates m)) [demo_states 0, demo_states 1]) \<and>
    Epoch ?am' = Epoch ?am + 1 \<and> CurModifiedMap ?am' = rs_ModifiedMap ?cr \<and> MigrationReady ?am'"
    by (rule migration_order_irrelevant [OF _ _ _ _ _ _ _ refl])
      (simp_all add: NewAccMigrateMetadata_def in_int64_def demo_states_def msg_valid_def demo_lp_def demo_sys_def map_get_def)
  then show ?thesis by (simp add: demo_states_def)
qed

end
