(* ===== verification/Clpa.thy ===== *)
theory Clpa
  imports Chain
begin

text \<open>
  The constrained label propagation algorithm that assigns accounts to shards
  (\<open>pkg/partition/graph.go\<close> and \<open>pkg/partition/clpa.go\<close>).

  The operations of \<open>float64\<close> are fields of \<open>float_api\<close>; what the development uses of them is \<open>float_ok\<close>: half
  integers below \<open>2 ^ 52\<close> are exact. The order in which a \<open>range\<close> loop visits the vertices is a parameter of
  \<open>CLPAPartition\<close>. An index out of range is a panic, as in Go, and the invariant shows that it does not occur.
\<close>

section \<open>Loops and slices\<close>

fun foldM_res :: "('a \<Rightarrow> 's \<Rightarrow> 's result) \<Rightarrow> 'a list \<Rightarrow> 's \<Rightarrow> 's result" where
  "foldM_res h [] s = Inr s"
| "foldM_res h (x # xs) s = (case h x s of Inl e \<Rightarrow> Inl e | Inr s' \<Rightarrow> foldM_res h xs s')"

definition idx_ok :: "int \<Rightarrow> 'a list \<Rightarrow> bool" where
  "idx_ok i xs \<longleftrightarrow> 0 \<le> i \<and> i < int (length xs)"

definition idx_get :: "int \<Rightarrow> 'a list \<Rightarrow> 'a result" where
  "idx_get i xs = (if idx_ok i xs then Inr (xs ! nat i) else Inl (Panic ''index out of range''))"

definition idx_upd :: "int \<Rightarrow> ('a \<Rightarrow> 'a) \<Rightarrow> 'a list \<Rightarrow> 'a list result" where
  "idx_upd i h xs = (if idx_ok i xs then Inr (xs[nat i := h (xs ! nat i)]) else Inl (Panic ''index out of range''))"

lemma foldM_res_append:
  "foldM_res h (xs @ ys) s = (case foldM_res h xs s of Inl e \<Rightarrow> Inl e | Inr s' \<Rightarrow> foldM_res h ys s')"
  by (induction xs arbitrary: s) (auto split: sum.splits)

text \<open>The rule for loops: an invariant that every iteration keeps.\<close>

lemma foldM_res_inv:
  assumes "P s" "\<And>x s. x \<in> set xs \<Longrightarrow> P s \<Longrightarrow> \<exists>s'. h x s = Inr s' \<and> P s'"
  shows "\<exists>s'. foldM_res h xs s = Inr s' \<and> P s'"
  using assms by (induction xs arbitrary: s) (auto, metis sum.simps(6))

lemma idx_upd_ok: "idx_ok i xs \<Longrightarrow> idx_upd i h xs = Inr (xs[nat i := h (xs ! nat i)])"
  by (simp add: idx_upd_def)

lemma idx_get_ok: "idx_ok i xs \<Longrightarrow> idx_get i xs = Inr (xs ! nat i)"
  by (simp add: idx_get_def)

section \<open>Graphs\<close>

record vertex =
  Addr :: address

record graph =
  VertexSet :: "vertex list"
  EdgeSet :: "(vertex, vertex list) gomap"

definition NewGraph :: graph where
  "NewGraph = \<lparr>VertexSet = [], EdgeSet = []\<rparr>"

definition AddVertex :: "vertex \<Rightarrow> graph \<Rightarrow> graph" where
  "AddVertex v g = g\<lparr>VertexSet := (if v \<in> set (VertexSet g) then VertexSet g else VertexSet g @ [v])\<rparr>"

definition append_edge :: "vertex \<Rightarrow> vertex \<Rightarrow> (vertex, vertex list) gomap \<Rightarrow> (vertex, vertex list) gomap" where
  "append_edge u v es = AList.update u (map_get es u [] @ [v]) es"

definition Graph_AddEdge :: "vertex \<Rightarrow> vertex \<Rightarrow> graph \<Rightarrow> graph" where
  "Graph_AddEdge u v g =
     (let g1 = AddVertex v (AddVertex u g)
      in g1\<lparr>EdgeSet := append_edge v u (append_edge u v (EdgeSet g1))\<rparr>)"

section \<open>The state of the algorithm\<close>

record 'f float_api =
  fl_of_int :: "int \<Rightarrow> 'f"
  fl_add :: "'f \<Rightarrow> 'f \<Rightarrow> 'f"
  fl_sub :: "'f \<Rightarrow> 'f \<Rightarrow> 'f"
  fl_mul :: "'f \<Rightarrow> 'f \<Rightarrow> 'f"
  fl_div :: "'f \<Rightarrow> 'f \<Rightarrow> 'f"
  fl_less :: "'f \<Rightarrow> 'f \<Rightarrow> bool"
  fl_min :: "'f \<Rightarrow> 'f \<Rightarrow> 'f"

definition updateThreshold :: int where "updateThreshold = 50"

record 'f clpa_state =
  netGraph :: graph
  partitionMap :: "(vertex, int) gomap"
  shardWeight :: "'f list"
  vertexNumInShard :: "int list"
  minShardWeight :: 'f
  crossShardEdgeNum :: 'f
  maxIterations :: int
  weightPenalty :: 'f
  cl_shardNum :: int

definition NewCLPAState :: "'f float_api \<Rightarrow> 'f \<Rightarrow> int \<Rightarrow> int \<Rightarrow> 'f clpa_state result" where
  "NewCLPAState fl wp maxIter shardNum =
     (if shardNum < 0 then Inl (Panic ''makeslice: len out of range'')
      else Inr \<lparr>netGraph = NewGraph, partitionMap = [], shardWeight = replicate (nat shardNum) (fl_of_int fl 0),
                vertexNumInShard = replicate (nat shardNum) 0, minShardWeight = fl_of_int fl 0,
                crossShardEdgeNum = fl_of_int fl 0, maxIterations = maxIter, weightPenalty = wp,
                cl_shardNum = shardNum\<rparr>)"

definition getVertexLocation :: "'f clpa_state \<Rightarrow> vertex \<Rightarrow> int" where
  "getVertexLocation cs v =
     (case map_of (partitionMap cs) v of Some l \<Rightarrow> l | None \<Rightarrow> DefaultAccountLoc (Addr v) (cl_shardNum cs))"

definition addVertex :: "vertex \<Rightarrow> 'f clpa_state \<Rightarrow> 'f clpa_state result" where
  "addVertex v cs =
     (let cs1 = cs\<lparr>netGraph := AddVertex v (netGraph cs)\<rparr> in
      case map_of (partitionMap cs) v of
        Some _ \<Rightarrow> Inr cs1
      | None \<Rightarrow>
          (let loc = DefaultAccountLoc (Addr v) (cl_shardNum cs) in
           case idx_upd loc (\<lambda>n. n + 1) (vertexNumInShard cs) of
             Inl e \<Rightarrow> Inl e
           | Inr ns \<Rightarrow> Inr (cs1\<lparr>partitionMap := AList.update v loc (partitionMap cs), vertexNumInShard := ns\<rparr>)))"

definition add_missing :: "vertex \<Rightarrow> 'f clpa_state \<Rightarrow> 'f clpa_state result" where
  "add_missing v cs = (if v \<in> set (VertexSet (netGraph cs)) then Inr cs else addVertex v cs)"

definition AddEdge :: "vertex \<Rightarrow> vertex \<Rightarrow> 'f clpa_state \<Rightarrow> 'f clpa_state result" where
  "AddEdge u v cs =
     (case add_missing u cs of Inl e \<Rightarrow> Inl e
      | Inr cs1 \<Rightarrow> (case add_missing v cs1 of Inl e \<Rightarrow> Inl e
                   | Inr cs2 \<Rightarrow> Inr (cs2\<lparr>netGraph := Graph_AddEdge u v (netGraph cs2)\<rparr>)))"

section \<open>Weights\<close>

definition slices_Min :: "'f float_api \<Rightarrow> 'f list \<Rightarrow> 'f result" where
  "slices_Min fl xs =
     (case xs of [] \<Rightarrow> Inl (Panic ''slices.Min: empty list'')
      | y # ys \<Rightarrow> Inr (fold (\<lambda>z m. fl_min fl m z) ys y))"

definition count_edge :: "'f clpa_state \<Rightarrow> vertex \<Rightarrow> vertex \<Rightarrow> int list \<times> int list \<Rightarrow> (int list \<times> int list) result" where
  "count_edge cs v u = (\<lambda>(crossEdge, interEdge).
     let vShard = getVertexLocation cs v; uShard = getVertexLocation cs u in
     if vShard \<noteq> uShard
     then (case idx_upd vShard (\<lambda>n. n + 1) crossEdge of Inl e \<Rightarrow> Inl e | Inr c \<Rightarrow> Inr (c, interEdge))
     else (case idx_upd vShard (\<lambda>n. n + 1) interEdge of Inl e \<Rightarrow> Inl e | Inr i \<Rightarrow> Inr (crossEdge, i)))"

definition count_edges :: "'f clpa_state \<Rightarrow> (int list \<times> int list) result" where
  "count_edges cs =
     foldM_res (\<lambda>(v, lst). foldM_res (count_edge cs v) lst) (EdgeSet (netGraph cs))
       (replicate (nat (cl_shardNum cs)) 0, replicate (nat (cl_shardNum cs)) 0)"

definition computeEdges2Shard :: "'f float_api \<Rightarrow> 'f clpa_state \<Rightarrow> 'f clpa_state result" where
  "computeEdges2Shard fl cs =
     (case count_edges cs of Inl e \<Rightarrow> Inl e
      | Inr (crossEdge, interEdge) \<Rightarrow>
          (let cross = fold (\<lambda>val acc. fl_add fl acc (fl_div fl (fl_of_int fl val) (fl_of_int fl 2))) crossEdge (fl_of_int fl 0);
               sw = map2 (\<lambda>c i. fl_add fl (fl_of_int fl c) (fl_div fl (fl_of_int fl i) (fl_of_int fl 2))) crossEdge interEdge
           in (case slices_Min fl sw of Inl e \<Rightarrow> Inl e
               | Inr m \<Rightarrow> Inr (cs\<lparr>shardWeight := sw, crossShardEdgeNum := cross, minShardWeight := m\<rparr>))))"

definition adjacent :: "'f clpa_state \<Rightarrow> vertex \<Rightarrow> vertex list" where
  "adjacent cs v = map_get (EdgeSet (netGraph cs)) v []"

definition recompute_step ::
  "'f float_api \<Rightarrow> 'f clpa_state \<Rightarrow> int \<Rightarrow> int \<Rightarrow> vertex \<Rightarrow> 'f list \<Rightarrow> 'f list result" where
  "recompute_step fl cs newShard old u sw =
     (let uShard = getVertexLocation cs u; one = fl_of_int fl 1;
          inc = idx_upd newShard (\<lambda>x. fl_add fl x one); dec = idx_upd old (\<lambda>x. fl_sub fl x one)
      in if uShard \<noteq> newShard \<and> uShard \<noteq> old then (case inc sw of Inl e \<Rightarrow> Inl e | Inr sw' \<Rightarrow> dec sw')
         else if uShard = newShard then dec sw
         else inc sw)"

definition changeShardRecompute :: "'f float_api \<Rightarrow> vertex \<Rightarrow> int \<Rightarrow> 'f clpa_state \<Rightarrow> 'f clpa_state result" where
  "changeShardRecompute fl v old cs =
     (case foldM_res (recompute_step fl cs (getVertexLocation cs v) old) (adjacent cs v) (shardWeight cs) of
        Inl e \<Rightarrow> Inl e
      | Inr sw \<Rightarrow> (case slices_Min fl sw of Inl e \<Rightarrow> Inl e
                  | Inr m \<Rightarrow> Inr (cs\<lparr>shardWeight := sw, minShardWeight := m\<rparr>)))"

section \<open>The algorithm\<close>

definition getShardScore :: "'f float_api \<Rightarrow> 'f clpa_state \<Rightarrow> vertex \<Rightarrow> int \<Rightarrow> 'f result" where
  "getShardScore fl cs v uShard =
     (let vOutdegree = int (length (adjacent cs v));
          edge2uShard = int (length (filter (\<lambda>u. getVertexLocation cs u = uShard) (adjacent cs v)))
      in case idx_get uShard (shardWeight cs) of Inl e \<Rightarrow> Inl e
         | Inr w \<Rightarrow>
             Inr (fl_mul fl (fl_div fl (fl_of_int fl edge2uShard) (fl_of_int fl vOutdegree))
                    (fl_sub fl (fl_of_int fl 1) (fl_div fl (fl_mul fl (weightPenalty cs) w) (minShardWeight cs)))))"

definition score_step ::
  "'f float_api \<Rightarrow> 'f clpa_state \<Rightarrow> vertex \<Rightarrow> vertex \<Rightarrow> (int, 'f) gomap \<times> 'f \<times> int \<Rightarrow> ((int, 'f) gomap \<times> 'f \<times> int) result" where
  "score_step fl cs v u = (\<lambda>(neighborShardScore, maxScore, maxScoreShard).
     let uShard = getVertexLocation cs u in
     if uShard = getVertexLocation cs v \<or> map_of neighborShardScore uShard \<noteq> None
     then Inr (neighborShardScore, maxScore, maxScoreShard)
     else (case getShardScore fl cs v uShard of Inl e \<Rightarrow> Inl e
           | Inr s \<Rightarrow> if fl_less fl maxScore s then Inr (AList.update uShard s neighborShardScore, s, uShard)
                     else Inr (AList.update uShard s neighborShardScore, maxScore, maxScoreShard)))"

definition best_shard :: "'f float_api \<Rightarrow> 'f clpa_state \<Rightarrow> vertex \<Rightarrow> int result" where
  "best_shard fl cs v =
     (case foldM_res (score_step fl cs v) (adjacent cs v) ([], fl_of_int fl (- 9999), getVertexLocation cs v) of
        Inl e \<Rightarrow> Inl e | Inr (_, _, s) \<Rightarrow> Inr s)"

type_synonym 'f clpa_loop = "'f clpa_state \<times> (address, int) gomap \<times> (vertex, int) gomap"

definition move_vertex :: "'f float_api \<Rightarrow> vertex \<Rightarrow> int \<Rightarrow> 'f clpa_loop \<Rightarrow> 'f clpa_loop result" where
  "move_vertex fl v dest = (\<lambda>(cs, ret, updateTimes).
     let now = getVertexLocation cs v;
         cs1 = cs\<lparr>partitionMap := AList.update v dest (partitionMap cs)\<rparr>;
         ret1 = AList.update (Addr v) dest ret;
         ut1 = AList.update v (map_get updateTimes v 0 + 1) updateTimes
     in case idx_upd now (\<lambda>n. n - 1) (vertexNumInShard cs1) of Inl e \<Rightarrow> Inl e
        | Inr ns \<Rightarrow>
          (case idx_upd dest (\<lambda>n. n + 1) ns of Inl e \<Rightarrow> Inl e
           | Inr ns' \<Rightarrow>
             (case changeShardRecompute fl v now (cs1\<lparr>vertexNumInShard := ns'\<rparr>) of Inl e \<Rightarrow> Inl e
              | Inr cs2 \<Rightarrow> Inr (cs2, ret1, ut1))))"

definition visit_vertex :: "'f float_api \<Rightarrow> vertex \<Rightarrow> 'f clpa_loop \<Rightarrow> 'f clpa_loop result" where
  "visit_vertex fl v = (\<lambda>(cs, ret, updateTimes).
     if map_get updateTimes v 0 \<ge> updateThreshold then Inr (cs, ret, updateTimes)
     else (case best_shard fl cs v of Inl e \<Rightarrow> Inl e
           | Inr maxScoreShard \<Rightarrow>
               if getVertexLocation cs v = maxScoreShard then Inr (cs, ret, updateTimes)
               else (case idx_get (getVertexLocation cs v) (vertexNumInShard cs) of Inl e \<Rightarrow> Inl e
                     | Inr n \<Rightarrow> if n > 1 then move_vertex fl v maxScoreShard (cs, ret, updateTimes)
                               else Inr (cs, ret, updateTimes))))"

definition prune :: "(address, int) gomap \<Rightarrow> (address, int) gomap \<Rightarrow> (address, int) gomap" where
  "prune originalLoc ret = fold (\<lambda>(acc, loc) r. if map_get r acc 0 = loc then AList.delete acc r else r) originalLoc ret"

definition CLPAPartition ::
  "'f float_api \<Rightarrow> (nat \<Rightarrow> vertex list) \<Rightarrow> 'f clpa_state \<Rightarrow> ((address, int) gomap \<times> 'f \<times> 'f clpa_state) result" where
  "CLPAPartition fl order cs =
     (case computeEdges2Shard fl cs of Inl e \<Rightarrow> Inl e
      | Inr cs0 \<Rightarrow>
        (let originalLoc = fold (\<lambda>v m. AList.update (Addr v) (getVertexLocation cs0 v) m) (VertexSet (netGraph cs0)) [] in
         case foldM_res (\<lambda>i. foldM_res (visit_vertex fl) (order i)) [0..<nat (maxIterations cs0)] (cs0, [], []) of Inl e \<Rightarrow> Inl e
         | Inr (cs1, ret, _) \<Rightarrow>
           (case computeEdges2Shard fl cs1 of Inl e \<Rightarrow> Inl e
            | Inr cs2 \<Rightarrow> Inr (prune originalLoc ret, crossShardEdgeNum cs2, cs2))))"

section \<open>Invariant\<close>

definition edges_ok :: "graph \<Rightarrow> bool" where
  "edges_ok g \<longleftrightarrow> distinct (map fst (EdgeSet g)) \<and> fst ` set (EdgeSet g) \<subseteq> set (VertexSet g) \<and>
     (\<forall>u v. count_list (map_get (EdgeSet g) u []) v = count_list (map_get (EdgeSet g) v []) u)"

definition clpa_inv :: "'f clpa_state \<Rightarrow> bool" where
  "clpa_inv cs \<longleftrightarrow> 0 < cl_shardNum cs \<and> int (length (shardWeight cs)) = cl_shardNum cs \<and>
     int (length (vertexNumInShard cs)) = cl_shardNum cs \<and> distinct (VertexSet (netGraph cs)) \<and>
     fst ` set (partitionMap cs) = set (VertexSet (netGraph cs)) \<and>
     (\<forall>l\<in>snd ` set (partitionMap cs). 0 \<le> l \<and> l < cl_shardNum cs) \<and>
     (\<forall>k<length (vertexNumInShard cs).
        vertexNumInShard cs ! k = int (card {v \<in> set (VertexSet (netGraph cs)). getVertexLocation cs v = int k})) \<and>
     edges_ok (netGraph cs)"

text \<open>Two states that differ in their weights only.\<close>

definition same_places :: "'f clpa_state \<Rightarrow> 'f clpa_state \<Rightarrow> bool" where
  "same_places cs cs' \<longleftrightarrow> netGraph cs' = netGraph cs \<and> partitionMap cs' = partitionMap cs \<and>
     vertexNumInShard cs' = vertexNumInShard cs \<and> cl_shardNum cs' = cl_shardNum cs \<and>
     length (shardWeight cs') = length (shardWeight cs) \<and> maxIterations cs' = maxIterations cs"

lemma same_places_loc: "same_places cs cs' \<Longrightarrow> getVertexLocation cs' = getVertexLocation cs"
  unfolding getVertexLocation_def by (rule ext) (simp add: same_places_def cong: option.case_cong)

lemma same_places_inv: "same_places cs cs' \<Longrightarrow> clpa_inv cs \<Longrightarrow> clpa_inv cs'"
  using same_places_loc [of cs cs'] by (simp add: same_places_def clpa_inv_def)

lemma clpa_invD:
  assumes "clpa_inv cs"
  shows clpa_pos: "0 < cl_shardNum cs"
    and clpa_lengths: "int (length (shardWeight cs)) = cl_shardNum cs" "int (length (vertexNumInShard cs)) = cl_shardNum cs"
    and clpa_distinct: "distinct (VertexSet (netGraph cs))"
    and clpa_places: "fst ` set (partitionMap cs) = set (VertexSet (netGraph cs))"
    and clpa_count: "k < length (vertexNumInShard cs) \<Longrightarrow>
      vertexNumInShard cs ! k = int (card {v \<in> set (VertexSet (netGraph cs)). getVertexLocation cs v = int k})"
    and clpa_edges: "edges_ok (netGraph cs)"
  using assms by (simp_all add: clpa_inv_def)

lemma loc_range:
  assumes "clpa_inv cs"
  shows "0 \<le> getVertexLocation cs v" "getVertexLocation cs v < cl_shardNum cs"
proof -
  have "0 \<le> getVertexLocation cs v \<and> getVertexLocation cs v < cl_shardNum cs"
  proof (cases "map_of (partitionMap cs) v")
    case None
    then show ?thesis using DefaultAccountLoc_range [OF clpa_pos [OF assms]] by (simp add: getVertexLocation_def)
  next
    case (Some l)
    then have "l \<in> snd ` set (partitionMap cs)" by (metis image_eqI map_of_SomeD snd_conv)
    then have "0 \<le> l \<and> l < cl_shardNum cs" using assms unfolding clpa_inv_def by blast
    then show ?thesis using Some by (simp add: getVertexLocation_def)
  qed
  then show "0 \<le> getVertexLocation cs v" "getVertexLocation cs v < cl_shardNum cs" by simp_all
qed

lemma loc_idx:
  assumes "clpa_inv cs"
  shows "idx_ok (getVertexLocation cs v) (shardWeight cs)" "idx_ok (getVertexLocation cs v) (vertexNumInShard cs)"
  using loc_range [OF assms, of v] clpa_lengths [OF assms] by (simp_all add: idx_ok_def)

lemma NewCLPAState_inv: "0 < n \<Longrightarrow> NewCLPAState fl wp mi n = Inr cs \<Longrightarrow> clpa_inv cs"
  by (auto simp: NewCLPAState_def clpa_inv_def edges_ok_def NewGraph_def map_get_def)

subsection \<open>Weights\<close>

lemma slices_Min_total: "xs \<noteq> [] \<Longrightarrow> \<exists>m. slices_Min fl xs = Inr m"
  by (cases xs) (simp_all add: slices_Min_def)

lemma count_edges_total:
  assumes "clpa_inv cs"
  shows "\<exists>c i. count_edges cs = Inr (c, i) \<and> int (length c) = cl_shardNum cs \<and> int (length i) = cl_shardNum cs"
proof -
  let ?P = "\<lambda>(c :: int list, i :: int list). int (length c) = cl_shardNum cs \<and> int (length i) = cl_shardNum cs"
  have step: "\<exists>ci'. count_edge cs v u ci = Inr ci' \<and> ?P ci'" if "?P ci" for v u ci
    using that loc_range [OF assms, of v] by (auto simp: count_edge_def idx_upd_def idx_ok_def Let_def)
  have "\<exists>ci'. count_edges cs = Inr ci' \<and> ?P ci'" unfolding count_edges_def
  proof (rule foldM_res_inv)
    fix x ci assume "?P ci"
    then have "\<exists>ci'. foldM_res (count_edge cs v) lst ci = Inr ci' \<and> ?P ci'" for v lst
      by (rule foldM_res_inv) (rule step)
    then show "\<exists>ci'. (case x of (v, lst) \<Rightarrow> foldM_res (count_edge cs v) lst) ci = Inr ci' \<and> ?P ci'"
      by (cases x) simp
  qed (use clpa_pos [OF assms] in simp)
  then show ?thesis by auto
qed

lemma computeEdges2Shard_total:
  assumes "clpa_inv cs"
  shows "\<exists>cs'. computeEdges2Shard fl cs = Inr cs' \<and> same_places cs cs'"
proof -
  obtain c i where ci: "count_edges cs = Inr (c, i)" "int (length c) = cl_shardNum cs" "int (length i) = cl_shardNum cs"
    using count_edges_total [OF assms] by blast
  let ?sw = "map2 (\<lambda>c i. fl_add fl (fl_of_int fl c) (fl_div fl (fl_of_int fl i) (fl_of_int fl 2))) c i"
  have l: "length ?sw = length (shardWeight cs)" using ci clpa_lengths [OF assms] by simp
  then have "?sw \<noteq> []" using clpa_pos [OF assms] clpa_lengths(1) [OF assms] by auto
  from slices_Min_total [OF this] obtain m where "slices_Min fl ?sw = Inr m" by blast
  then show ?thesis using ci l by (simp add: computeEdges2Shard_def same_places_def Let_def)
qed

lemma changeShardRecompute_total:
  assumes "clpa_inv cs" "0 \<le> old" "old < cl_shardNum cs"
  shows "\<exists>cs'. changeShardRecompute fl v old cs = Inr cs' \<and> same_places cs cs'"
proof -
  let ?P = "\<lambda>sw :: 'a list. int (length sw) = cl_shardNum cs"
  have step: "\<exists>sw'. recompute_step fl cs (getVertexLocation cs v) old u sw = Inr sw' \<and> ?P sw'" if "?P sw" for u sw
    using that loc_range [OF assms(1), of v] assms(2,3) by (auto simp: recompute_step_def idx_upd_def idx_ok_def Let_def)
  obtain sw where sw: "foldM_res (recompute_step fl cs (getVertexLocation cs v) old) (adjacent cs v) (shardWeight cs) = Inr sw" "?P sw"
    using foldM_res_inv [where P = ?P and h = "recompute_step fl cs (getVertexLocation cs v) old", OF clpa_lengths(1) [OF assms(1)]] step by blast
  then have "sw \<noteq> []" using clpa_pos [OF assms(1)] by auto
  from slices_Min_total [OF this] obtain m where "slices_Min fl sw = Inr m" by blast
  then show ?thesis using sw clpa_lengths(1) [OF assms(1)] by (simp add: changeShardRecompute_def same_places_def)
qed

subsection \<open>Choosing a shard\<close>

lemma best_shard_total:
  assumes "clpa_inv cs"
  shows "\<exists>s. best_shard fl cs v = Inr s \<and> 0 \<le> s \<and> s < cl_shardNum cs"
proof -
  let ?P = "\<lambda>(m :: (int, 'a) gomap, x :: 'a, s). 0 \<le> s \<and> s < cl_shardNum cs"
  have score: "\<exists>x. getShardScore fl cs v (getVertexLocation cs u) = Inr x" for u
    using loc_idx(1) [OF assms, of u] by (simp add: getShardScore_def idx_get_def Let_def)
  have step: "\<exists>z'. score_step fl cs v u z = Inr z' \<and> ?P z'" if "?P z" for u z
    using that score [of u] loc_range [OF assms, of u] by (auto simp: score_step_def Let_def split: if_splits)
  have "\<exists>z. foldM_res (score_step fl cs v) (adjacent cs v) ([], fl_of_int fl (- 9999), getVertexLocation cs v) = Inr z \<and> ?P z"
    by (rule foldM_res_inv) (use loc_range [OF assms, of v] step in auto)
  then show ?thesis by (auto simp: best_shard_def)
qed

subsection \<open>Moving a vertex\<close>

lemma loc_update:
  "getVertexLocation (cs\<lparr>partitionMap := AList.update v d (partitionMap cs), vertexNumInShard := ns\<rparr>) u =
   (if u = v then d else getVertexLocation cs u)"
  by (simp add: getVertexLocation_def AList_update_lookup cong: option.case_cong)

lemma card_move:
  assumes "finite V" "v \<in> V" "now = loc v" "now \<noteq> d"
  shows "int (card {u \<in> V. (if u = v then d else loc u) = k}) =
    int (card {u \<in> V. loc u = k}) + (if k = d then 1 else 0) - (if k = now then 1 else 0)"
proof -
  have split: "int (card {u \<in> V. g u = k}) = int (card {u \<in> V - {v}. g u = k}) + (if g v = k then 1 else 0)" for g
  proof -
    have "{u \<in> V. g u = k} = (if g v = k then insert v {u \<in> V - {v}. g u = k} else {u \<in> V - {v}. g u = k})"
      using assms(2) by auto
    then show ?thesis using assms(1) by simp
  qed
  have "{u \<in> V - {v}. (if u = v then d else loc u) = k} = {u \<in> V - {v}. loc u = k}" by auto
  then show ?thesis using split [of "\<lambda>u. if u = v then d else loc u"] split [of loc] assms(3,4) by auto
qed

lemma snd_update: "snd ` set (AList.update k v m) \<subseteq> insert v (snd ` set m)"
  by (induction m) auto

lemma move_inv:
  assumes inv: "clpa_inv cs" and v: "v \<in> set (VertexSet (netGraph cs))" and d: "0 \<le> d" "d < cl_shardNum cs"
    and ne: "getVertexLocation cs v \<noteq> d"
  defines "ns \<equiv> vertexNumInShard cs" and "now \<equiv> nat (getVertexLocation cs v)"
  shows "clpa_inv (cs\<lparr>partitionMap := AList.update v d (partitionMap cs),
    vertexNumInShard := (ns[now := ns ! now - 1])[nat d := ns[now := ns ! now - 1] ! nat d + 1]\<rparr>)"
    (is "clpa_inv ?cs'")
proof -
  let ?V = "set (VertexSet (netGraph cs))"
  have r: "0 \<le> getVertexLocation cs v" "getVertexLocation cs v < cl_shardNum cs" by (rule loc_range [OF inv])+
  have lns: "int (length ns) = cl_shardNum cs" using clpa_lengths(2) [OF inv] by (simp add: ns_def)
  have "vertexNumInShard ?cs' ! k = int (card {u \<in> ?V. getVertexLocation ?cs' u = int k})" if k: "k < length ns" for k
  proof -
    have "int (card {u \<in> ?V. getVertexLocation ?cs' u = int k}) =
        int (card {u \<in> ?V. getVertexLocation cs u = int k}) + (if int k = d then 1 else 0) -
        (if int k = getVertexLocation cs v then 1 else 0)"
      unfolding loc_update by (rule card_move) (use v ne in auto)
    also have "int (card {u \<in> ?V. getVertexLocation cs u = int k}) = ns ! k"
      using clpa_count [OF inv, of k] k by (simp add: ns_def)
    finally show ?thesis using r d k lns by (auto simp: now_def nth_list_update)
  qed
  moreover have "0 \<le> l \<and> l < cl_shardNum cs" if "l \<in> snd ` set (AList.update v d (partitionMap cs))" for l
    using subsetD [OF snd_update that] d inv unfolding clpa_inv_def by auto
  moreover have "fst ` set (AList.update v d (partitionMap cs)) = ?V"
    using clpa_places [OF inv] v by (simp add: fst_set_AList_update insert_absorb)
  ultimately show ?thesis using clpa_pos [OF inv] clpa_lengths(1) [OF inv] lns clpa_distinct [OF inv] clpa_edges [OF inv]
    unfolding clpa_inv_def by simp
qed

lemma move_vertex_spec:
  assumes inv: "clpa_inv cs" and v: "v \<in> set (VertexSet (netGraph cs))" and d: "0 \<le> d" "d < cl_shardNum cs"
    and ne: "getVertexLocation cs v \<noteq> d"
  shows "\<exists>cs'. move_vertex fl v d (cs, ret, ut) =
      Inr (cs', AList.update (Addr v) d ret, AList.update v (map_get ut v 0 + 1) ut) \<and> clpa_inv cs' \<and>
    netGraph cs' = netGraph cs \<and> cl_shardNum cs' = cl_shardNum cs \<and>
    getVertexLocation cs' = (getVertexLocation cs)(v := d)"
proof -
  let ?ns = "vertexNumInShard cs" and ?now = "getVertexLocation cs v"
  let ?ns1 = "?ns[nat ?now := ?ns ! nat ?now - 1]"
  let ?cs1 = "cs\<lparr>partitionMap := AList.update v d (partitionMap cs), vertexNumInShard := ?ns1[nat d := ?ns1 ! nat d + 1]\<rparr>"
  note r = loc_range [OF inv, of v]
  have inv1: "clpa_inv ?cs1" by (rule move_inv [OF assms])
  have loc1: "getVertexLocation ?cs1 = (getVertexLocation cs)(v := d)" by (rule ext) (simp add: loc_update)
  obtain cs' where cs': "changeShardRecompute fl v ?now ?cs1 = Inr cs'" "same_places ?cs1 cs'"
    using changeShardRecompute_total [OF inv1, of ?now] r by auto
  have "idx_ok ?now ?ns" "idx_ok d ?ns1" using loc_idx(2) [OF inv, of v] d clpa_lengths(2) [OF inv] by (simp_all add: idx_ok_def)
  then have run: "move_vertex fl v d (cs, ret, ut) =
      Inr (cs', AList.update (Addr v) d ret, AList.update v (map_get ut v 0 + 1) ut)"
    using cs'(1) by (simp add: move_vertex_def Let_def idx_upd_ok)
  show ?thesis using run same_places_inv [OF cs'(2) inv1] same_places_loc [OF cs'(2)] loc1 cs'(2)
    by (auto simp: same_places_def)
qed

subsection \<open>The loop\<close>

text \<open>What the loop keeps, compared with the state before it.\<close>

definition loop_inv :: "'f clpa_state \<Rightarrow> 'f clpa_loop \<Rightarrow> bool" where
  "loop_inv cs0 = (\<lambda>(cs, ret, ut).
     let V = set (VertexSet (netGraph cs0)); loc0 = getVertexLocation cs0; loc = getVertexLocation cs in
     clpa_inv cs \<and> netGraph cs = netGraph cs0 \<and> cl_shardNum cs = cl_shardNum cs0 \<and>
     (\<forall>v. loc v = (case map_of ret (Addr v) of None \<Rightarrow> loc0 v | Some s \<Rightarrow> s)) \<and>
     fst ` set ret \<subseteq> Addr ` V \<and> loc0 ` V \<subseteq> loc ` V)"

lemma Addr_inject [simp]: "Addr u = Addr v \<longleftrightarrow> (u :: vertex) = v"
  by (metis vertex.equality old.unit.exhaust)

lemma visit_vertex_inv:
  assumes li: "loop_inv cs0 (cs, ret, ut)" and v: "v \<in> set (VertexSet (netGraph cs0))"
  shows "\<exists>z. visit_vertex fl v (cs, ret, ut) = Inr z \<and> loop_inv cs0 z"
proof -
  let ?V = "set (VertexSet (netGraph cs0))" and ?loc = "getVertexLocation cs" and ?orig = "getVertexLocation cs0"
  have inv: "clpa_inv cs" and g: "netGraph cs = netGraph cs0" "cl_shardNum cs = cl_shardNum cs0"
    and ret: "\<And>u. ?loc u = (case map_of ret (Addr u) of None \<Rightarrow> ?orig u | Some s \<Rightarrow> s)"
    and dom: "fst ` set ret \<subseteq> Addr ` ?V" and occ: "?orig ` ?V \<subseteq> ?loc ` ?V"
    using li unfolding loop_inv_def Let_def prod.case by blast+
  obtain d where d: "best_shard fl cs v = Inr d" "0 \<le> d" "d < cl_shardNum cs" using best_shard_total [OF inv] by blast
  note now = idx_get_ok [OF loc_idx(2) [OF inv, of v]]
  show ?thesis
  proof (cases "\<not> map_get ut v 0 \<ge> updateThreshold \<and> ?loc v \<noteq> d \<and> vertexNumInShard cs ! nat (?loc v) > 1")
    case False
    then have "visit_vertex fl v (cs, ret, ut) = Inr (cs, ret, ut)" using d(1) now by (auto simp: visit_vertex_def)
    with li show ?thesis by blast
  next
    case True
    obtain cs' where run: "move_vertex fl v d (cs, ret, ut) =
        Inr (cs', AList.update (Addr v) d ret, AList.update v (map_get ut v 0 + 1) ut)"
      and cs': "clpa_inv cs'" "netGraph cs' = netGraph cs" "cl_shardNum cs' = cl_shardNum cs"
        "getVertexLocation cs' = ?loc(v := d)"
      using move_vertex_spec [OF inv _ d(2,3)] v g True by metis
    have "1 < card {u \<in> ?V. ?loc u = ?loc v}"
      using clpa_count [OF inv, of "nat (?loc v)"] True loc_idx(2) [OF inv, of v] g loc_range(1) [OF inv, of v]
      by (simp add: idx_ok_def nat_less_iff)
    then have "\<not> {u \<in> ?V. ?loc u = ?loc v} \<subseteq> {v}"
      using card_mono [of "{v}" "{u \<in> ?V. ?loc u = ?loc v}"] by (auto simp del: subset_singleton_iff)
    then obtain w where w: "w \<in> ?V" "?loc w = ?loc v" "w \<noteq> v" by blast
    have "?orig ` ?V \<subseteq> (?loc(v := d)) ` ?V"
    proof
      fix k assume "k \<in> ?orig ` ?V"
      then obtain u where u: "u \<in> ?V" "k = ?loc u" using occ by blast
      show "k \<in> (?loc(v := d)) ` ?V"
        by (rule image_eqI [of _ _ "if u = v then w else u"]) (use u w in auto)
    qed
    moreover have "visit_vertex fl v (cs, ret, ut) = move_vertex fl v d (cs, ret, ut)"
      using d(1) now True by (simp add: visit_vertex_def)
    moreover have "(?loc(v := d)) u = (case map_of (AList.update (Addr v) d ret) (Addr u) of None \<Rightarrow> ?orig u | Some s \<Rightarrow> s)" for u
      using ret [of u] by (simp add: AList_update_lookup)
    moreover have "fst ` set (AList.update (Addr v) d ret) \<subseteq> Addr ` ?V" using dom v by (simp add: fst_set_AList_update)
    ultimately have "loop_inv cs0 (cs', AList.update (Addr v) d ret, AList.update v (map_get ut v 0 + 1) ut)"
      using cs'(1-3) g by (simp add: loop_inv_def Let_def cs'(4) del: fun_upd_apply)
    with run \<open>visit_vertex fl v (cs, ret, ut) = move_vertex fl v d (cs, ret, ut)\<close> show ?thesis by auto
  qed
qed

lemma prune_lookup:
  assumes "distinct (map fst os)"
  shows "map_of (prune os ret) a =
    (case map_of os a of Some l \<Rightarrow> if map_get ret a 0 = l then None else map_of ret a | None \<Rightarrow> map_of ret a)"
  using assms
proof (induction os arbitrary: ret)
  case (Cons x os)
  obtain b l where x: "x = (b, l)" by fastforce
  have fresh: "map_of os b = None" using Cons.prems x by (simp add: map_of_eq_None_iff)
  let ?r = "if map_get ret b 0 = l then AList.delete b ret else ret"
  have "prune (x # os) ret = prune os ?r" by (simp add: prune_def x)
  moreover have "map_of ?r a = (if a = b \<and> map_get ret b 0 = l then None else map_of ret a)" by (simp add: AList_delete_lookup)
  moreover from this have "a \<noteq> b \<Longrightarrow> map_get ?r a 0 = map_get ret a 0" by (simp add: map_get_def)
  ultimately show ?case using Cons.IH [of ?r] Cons.prems fresh by (auto simp: x split: option.splits)
qed (simp add: prune_def)

lemma vertex_eta [simp]: "\<lparr>Addr = Addr v\<rparr> = (v :: vertex)"
  by (cases v) simp

lemma original_locs:
  fixes h :: "vertex \<Rightarrow> 'b"
  shows "map_of (fold (\<lambda>v m. AList.update (Addr v) (h v) m) vs m0) a =
    (if a \<in> Addr ` set vs then Some (h \<lparr>Addr = a\<rparr>) else map_of m0 a)"
  by (induction vs arbitrary: m0) (auto simp: AList_update_lookup)

lemma original_distinct:
  "distinct (map fst m0) \<Longrightarrow> distinct (map fst (fold (\<lambda>v m. AList.update (Addr v) (h v) m) vs m0))"
  by (induction vs arbitrary: m0) simp_all

lemma CLPAPartition_spec:
  assumes inv: "clpa_inv cs" and ord: "\<And>i. set (order i) \<subseteq> set (VertexSet (netGraph cs))"
  shows "\<exists>ret cross cs'. CLPAPartition fl order cs = Inr (ret, cross, cs') \<and> clpa_inv cs' \<and> netGraph cs' = netGraph cs \<and>
    cl_shardNum cs' = cl_shardNum cs \<and>
    (\<forall>v. case map_of ret (Addr v) of
        None \<Rightarrow> getVertexLocation cs' v = getVertexLocation cs v
      | Some s \<Rightarrow> v \<in> set (VertexSet (netGraph cs)) \<and> getVertexLocation cs' v = s \<and> s \<noteq> getVertexLocation cs v) \<and>
    getVertexLocation cs ` set (VertexSet (netGraph cs)) \<subseteq> getVertexLocation cs' ` set (VertexSet (netGraph cs))"
proof -
  let ?V = "set (VertexSet (netGraph cs))" and ?loc = "getVertexLocation cs"
  obtain cs0 where c0: "computeEdges2Shard fl cs = Inr cs0" "same_places cs cs0" using computeEdges2Shard_total [OF inv] by blast
  note inv0 = same_places_inv [OF c0(2) inv] and loc0 = same_places_loc [OF c0(2)]
  have g0: "netGraph cs0 = netGraph cs" "cl_shardNum cs0 = cl_shardNum cs" using c0(2) by (simp_all add: same_places_def)
  have step: "\<exists>z'. foldM_res (visit_vertex fl) (order i) z = Inr z' \<and> loop_inv cs0 z'" if "loop_inv cs0 z" for i z
  proof (rule foldM_res_inv [where P = "loop_inv cs0", OF that])
    fix v z assume v: "v \<in> set (order i)" and z: "loop_inv cs0 z"
    have "v \<in> set (VertexSet (netGraph cs0))" using ord v g0 by auto
    then show "\<exists>z'. visit_vertex fl v z = Inr z' \<and> loop_inv cs0 z'" using z by (cases z) (metis visit_vertex_inv)
  qed
  have "loop_inv cs0 (cs0, [], [])" using inv0 by (simp add: loop_inv_def Let_def)
  then obtain z where z: "foldM_res (\<lambda>i. foldM_res (visit_vertex fl) (order i)) [0..<nat (maxIterations cs0)] (cs0, [], []) = Inr z"
    "loop_inv cs0 z"
    using foldM_res_inv [where P = "loop_inv cs0" and h = "\<lambda>i. foldM_res (visit_vertex fl) (order i)"] step by blast
  obtain cs1 ret ut where z': "z = (cs1, ret, ut)" by (rule prod_cases3)
  have inv1: "clpa_inv cs1" and g1: "netGraph cs1 = netGraph cs" "cl_shardNum cs1 = cl_shardNum cs"
    and ret: "\<And>v. getVertexLocation cs1 v = (case map_of ret (Addr v) of None \<Rightarrow> ?loc v | Some s \<Rightarrow> s)"
    and dom: "fst ` set ret \<subseteq> Addr ` ?V" and occ: "?loc ` ?V \<subseteq> getVertexLocation cs1 ` ?V"
    using z(2) unfolding z' loop_inv_def Let_def prod.case g0 loc0 by blast+
  obtain cs2 where c2: "computeEdges2Shard fl cs1 = Inr cs2" "same_places cs1 cs2" using computeEdges2Shard_total [OF inv1] by blast
  let ?os = "fold (\<lambda>v m. AList.update (Addr v) (getVertexLocation cs0 v) m) (VertexSet (netGraph cs0)) []"
  have run: "CLPAPartition fl order cs = Inr (prune ?os ret, crossShardEdgeNum cs2, cs2)"
    using c0(1) z(1) z' c2(1) by (simp add: CLPAPartition_def Let_def)
  have look: "map_of (prune ?os ret) (Addr v) =
      (if v \<in> ?V then if map_get ret (Addr v) 0 = ?loc v then None else map_of ret (Addr v) else map_of ret (Addr v))" for v
    by (subst prune_lookup) (auto simp: original_locs original_distinct g0 loc0)
  have out: "case map_of (prune ?os ret) (Addr v) of
        None \<Rightarrow> getVertexLocation cs2 v = ?loc v
      | Some s \<Rightarrow> v \<in> ?V \<and> getVertexLocation cs2 v = s \<and> s \<noteq> ?loc v" for v
  proof -
    have "v \<in> ?V" if "map_of ret (Addr v) = Some s" for s
    proof -
      have "Addr v \<in> fst ` set ret" using map_of_SomeD [OF that] by force
      then show ?thesis using dom by auto
    qed
    then show ?thesis using ret [of v] unfolding look same_places_loc [OF c2(2)] by (auto simp: map_get_def split: option.splits if_splits)
  qed
  have g2: "netGraph cs2 = netGraph cs" "cl_shardNum cs2 = cl_shardNum cs" using c2(2) g1 by (simp_all add: same_places_def)
  have occ2: "?loc ` ?V \<subseteq> getVertexLocation cs2 ` ?V" unfolding same_places_loc [OF c2(2)] by (rule occ)
  show ?thesis
    by (rule exI [of _ "prune ?os ret"], rule exI [of _ "crossShardEdgeNum cs2"], rule exI [of _ cs2], intro conjI allI)
      (rule run same_places_inv [OF c2(2) inv1] g2 occ2 out)+
qed

subsection \<open>Adding edges\<close>

lemma addVertex_inv:
  assumes inv: "clpa_inv cs" and v: "v \<notin> set (VertexSet (netGraph cs))"
  shows "\<exists>cs'. addVertex v cs = Inr cs' \<and> clpa_inv cs' \<and> getVertexLocation cs' = getVertexLocation cs \<and>
    netGraph cs' = AddVertex v (netGraph cs) \<and> cl_shardNum cs' = cl_shardNum cs"
proof -
  let ?d = "DefaultAccountLoc (Addr v) (cl_shardNum cs)" and ?V = "set (VertexSet (netGraph cs))" and ?ns = "vertexNumInShard cs"
  have none: "map_of (partitionMap cs) v = None" using v clpa_places [OF inv] by (simp add: map_of_eq_None_iff)
  have r: "0 \<le> ?d" "?d < cl_shardNum cs" using DefaultAccountLoc_range [OF clpa_pos [OF inv]] by simp_all
  let ?cs = "cs\<lparr>netGraph := AddVertex v (netGraph cs), partitionMap := AList.update v ?d (partitionMap cs),
    vertexNumInShard := ?ns[nat ?d := ?ns ! nat ?d + 1]\<rparr>"
  have ok: "idx_ok ?d ?ns" using r clpa_lengths(2) [OF inv] by (simp add: idx_ok_def)
  then have run: "addVertex v cs = Inr ?cs" using none by (simp add: addVertex_def idx_upd_ok Let_def)
  have loc: "getVertexLocation ?cs = getVertexLocation cs"
    using none by (intro ext) (simp add: getVertexLocation_def AList_update_lookup cong: option.case_cong)
  have lv: "getVertexLocation cs v = ?d" using none by (simp add: getVertexLocation_def)
  have "(?ns[nat ?d := ?ns ! nat ?d + 1]) ! k = int (card {u \<in> insert v ?V. getVertexLocation cs u = int k})" if k: "k < length ?ns" for k
  proof -
    have "{u \<in> insert v ?V. getVertexLocation cs u = int k} =
      (if int k = ?d then insert v {u \<in> ?V. getVertexLocation cs u = int k} else {u \<in> ?V. getVertexLocation cs u = int k})"
      using lv by auto
    then show ?thesis using clpa_count [OF inv k] k r(1) v by (auto simp: nth_list_update)
  qed
  moreover have "0 \<le> l \<and> l < cl_shardNum cs" if "l \<in> snd ` set (AList.update v ?d (partitionMap cs))" for l
    using subsetD [OF snd_update that] r inv unfolding clpa_inv_def by auto
  moreover have "edges_ok (AddVertex v (netGraph cs))" using clpa_edges [OF inv] by (auto simp: edges_ok_def AddVertex_def)
  moreover have "fst ` set (AList.update v ?d (partitionMap cs)) = insert v ?V"
    using clpa_places [OF inv] by (simp add: fst_set_AList_update)
  moreover have "VertexSet (AddVertex v (netGraph cs)) = VertexSet (netGraph cs) @ [v]" using v by (simp add: AddVertex_def)
  ultimately have "clpa_inv ?cs" using clpa_pos [OF inv] clpa_lengths [OF inv] clpa_distinct [OF inv] v
    unfolding clpa_inv_def loc by simp
  then show ?thesis using run loc by simp
qed

lemma add_missing_inv:
  assumes "clpa_inv cs"
  shows "\<exists>cs'. add_missing v cs = Inr cs' \<and> clpa_inv cs' \<and> getVertexLocation cs' = getVertexLocation cs \<and>
    netGraph cs' = AddVertex v (netGraph cs) \<and> cl_shardNum cs' = cl_shardNum cs"
  using assms addVertex_inv [OF assms, of v] by (auto simp: add_missing_def AddVertex_def)

lemma append_edge_get: "map_get (append_edge u v es) w [] = map_get es w [] @ (if w = u then [v] else [])"
  by (simp add: append_edge_def map_get_update)

lemma edges_ok_AddEdge:
  assumes "edges_ok g" "u \<in> set (VertexSet g)" "v \<in> set (VertexSet g)"
  shows "edges_ok (g\<lparr>EdgeSet := append_edge v u (append_edge u v (EdgeSet g))\<rparr>)"
proof -
  have "fst ` set (append_edge v u (append_edge u v (EdgeSet g))) = {u, v} \<union> fst ` set (EdgeSet g)"
    by (auto simp: append_edge_def fst_set_AList_update)
  then have "fst ` set (append_edge v u (append_edge u v (EdgeSet g))) \<subseteq> set (VertexSet g)"
    using assms by (simp add: edges_ok_def)
  moreover have "distinct (map fst (append_edge v u (append_edge u v (EdgeSet g))))"
    using assms(1) by (simp add: edges_ok_def append_edge_def)
  ultimately show ?thesis using assms(1) by (simp add: edges_ok_def append_edge_get)
qed

lemma AddEdge_inv:
  assumes inv: "clpa_inv cs"
  shows "\<exists>cs'. AddEdge u v cs = Inr cs' \<and> clpa_inv cs' \<and> getVertexLocation cs' = getVertexLocation cs \<and>
    {u, v} \<subseteq> set (VertexSet (netGraph cs')) \<and> cl_shardNum cs' = cl_shardNum cs"
proof -
  obtain cs1 where 1: "add_missing u cs = Inr cs1" "clpa_inv cs1" "getVertexLocation cs1 = getVertexLocation cs"
    "netGraph cs1 = AddVertex u (netGraph cs)" "cl_shardNum cs1 = cl_shardNum cs" using add_missing_inv [OF inv] by blast
  obtain cs2 where 2: "add_missing v cs1 = Inr cs2" "clpa_inv cs2" "getVertexLocation cs2 = getVertexLocation cs1"
    "netGraph cs2 = AddVertex v (netGraph cs1)" "cl_shardNum cs2 = cl_shardNum cs1" using add_missing_inv [OF 1(2)] by blast
  have mem: "u \<in> set (VertexSet (netGraph cs2))" "v \<in> set (VertexSet (netGraph cs2))"
    using 1(4) 2(4) by (simp_all add: AddVertex_def)
  let ?g = "netGraph cs2\<lparr>EdgeSet := append_edge v u (append_edge u v (EdgeSet (netGraph cs2)))\<rparr>"
  have g: "Graph_AddEdge u v (netGraph cs2) = ?g" using mem by (simp add: Graph_AddEdge_def AddVertex_def Let_def)
  have loc: "getVertexLocation (cs2\<lparr>netGraph := ?g\<rparr>) = getVertexLocation cs2"
    by (simp add: getVertexLocation_def fun_eq_iff cong: option.case_cong)
  have "clpa_inv (cs2\<lparr>netGraph := ?g\<rparr>)" using 2(2) edges_ok_AddEdge [OF clpa_edges [OF 2(2)] mem]
    unfolding clpa_inv_def loc by simp
  then show ?thesis using 1 2 mem loc g by (simp add: AddEdge_def)
qed

section \<open>Incremental weights\<close>

text \<open>
  \<open>changeShardRecompute\<close> updates the weights of the shards when one vertex moves; \<open>computeEdges2Shard\<close> computes them
  from the graph. Twice the weight of shard \<open>k\<close> is an integer: an edge end in \<open>k\<close> counts two when the other end is in
  another shard and one when it is in the same shard.
\<close>

definition half :: "'f float_api \<Rightarrow> int \<Rightarrow> 'f" where
  "half fl n = fl_div fl (fl_of_int fl n) (fl_of_int fl 2)"

text \<open>Half integers up to \<open>2 ^ 52\<close> are exact in \<open>float64\<close>, and so are their sums and differences.\<close>

definition small :: "int \<Rightarrow> bool" where
  "small n \<longleftrightarrow> \<bar>n\<bar> \<le> 2 ^ 52"

definition float_ok :: "'f float_api \<Rightarrow> bool" where
  "float_ok fl \<longleftrightarrow>
     (\<forall>a. small (2 * a) \<longrightarrow> fl_of_int fl a = half fl (2 * a)) \<and>
     (\<forall>a b. small a \<longrightarrow> small b \<longrightarrow> small (a + b) \<longrightarrow> fl_add fl (half fl a) (half fl b) = half fl (a + b)) \<and>
     (\<forall>a b. small a \<longrightarrow> small b \<longrightarrow> small (a - b) \<longrightarrow> fl_sub fl (half fl a) (half fl b) = half fl (a - b))"

lemma float_okD:
  assumes "float_ok fl"
  shows fl_int: "small (2 * a) \<Longrightarrow> fl_of_int fl a = half fl (2 * a)"
    and fl_plus: "small a \<Longrightarrow> small b \<Longrightarrow> small (a + b) \<Longrightarrow> fl_add fl (half fl a) (half fl b) = half fl (a + b)"
    and fl_minus: "small a \<Longrightarrow> small b \<Longrightarrow> small (a - b) \<Longrightarrow> fl_sub fl (half fl a) (half fl b) = half fl (a - b)"
  using assms unfolding float_ok_def by blast+

definition edge_weight :: "(vertex \<Rightarrow> int) \<Rightarrow> int \<Rightarrow> vertex \<Rightarrow> vertex \<Rightarrow> int" where
  "edge_weight loc k v u = (if loc v \<noteq> k then 0 else if loc u = k then 1 else 2)"

definition double_weight :: "(vertex, vertex list) gomap \<Rightarrow> (vertex \<Rightarrow> int) \<Rightarrow> int \<Rightarrow> int" where
  "double_weight es loc k = (\<Sum>(v, us)\<leftarrow>es. \<Sum>u\<leftarrow>us. edge_weight loc k v u)"

definition edge_ends :: "(vertex, vertex list) gomap \<Rightarrow> int" where
  "edge_ends es = (\<Sum>(v, us)\<leftarrow>es. int (length us))"

definition loop_free :: "graph \<Rightarrow> bool" where
  "loop_free g \<longleftrightarrow> (\<forall>v. v \<notin> set (map_get (EdgeSet g) v []))"

lemma double_weight_le: "double_weight es loc k \<le> 2 * edge_ends es" "0 \<le> double_weight es loc k"
proof -
  have "(\<Sum>u\<leftarrow>us. edge_weight loc k v u) \<le> 2 * int (length us) \<and> 0 \<le> (\<Sum>u\<leftarrow>us. edge_weight loc k v u)" for v us
    by (induction us) (auto simp: edge_weight_def)
  then show "double_weight es loc k \<le> 2 * edge_ends es" "0 \<le> double_weight es loc k"
    unfolding double_weight_def edge_ends_def by (induction es) (auto simp: add_mono algebra_simps)
qed

subsection \<open>Counting from the graph\<close>

lemma count_edge_counts:
  assumes "count_edge cs v u (c, i) = Inr (c', i')" "length c = length i" "k < length c"
  shows "2 * c' ! k + i' ! k = 2 * c ! k + i ! k + edge_weight (getVertexLocation cs) (int k) v u \<and>
    length c' = length c \<and> length i' = length i \<and> c ! k \<le> c' ! k \<and> i ! k \<le> i' ! k"
  using assms by (auto simp: count_edge_def idx_upd_def idx_ok_def edge_weight_def Let_def nth_list_update split: if_splits)

lemma count_edge_list:
  "foldM_res (count_edge cs v) us (c, i) = Inr (c', i') \<Longrightarrow> length c = length i \<Longrightarrow> k < length c \<Longrightarrow>
   2 * c' ! k + i' ! k = 2 * c ! k + i ! k + (\<Sum>u\<leftarrow>us. edge_weight (getVertexLocation cs) (int k) v u) \<and>
   length c' = length c \<and> length i' = length i \<and> c ! k \<le> c' ! k \<and> i ! k \<le> i' ! k"
proof (induction us arbitrary: c i)
  case (Cons u us)
  obtain c1 i1 where 1: "count_edge cs v u (c, i) = Inr (c1, i1)" "foldM_res (count_edge cs v) us (c1, i1) = Inr (c', i')"
    using Cons.prems(1) by (auto split: sum.splits)
  note s = count_edge_counts [OF 1(1) Cons.prems(2,3)]
  with Cons.IH [OF 1(2)] Cons.prems(2,3) show ?case by force
qed simp

lemma count_edges_list:
  "foldM_res (\<lambda>(v, us). foldM_res (count_edge cs v) us) es (c, i) = Inr (c', i') \<Longrightarrow> length c = length i \<Longrightarrow> k < length c \<Longrightarrow>
   2 * c' ! k + i' ! k = 2 * c ! k + i ! k + double_weight es (getVertexLocation cs) (int k) \<and>
   length c' = length c \<and> length i' = length i \<and> c ! k \<le> c' ! k \<and> i ! k \<le> i' ! k"
proof (induction es arbitrary: c i)
  case (Cons e es)
  obtain v us where e: "e = (v, us)" by fastforce
  obtain c1 i1 where 1: "foldM_res (count_edge cs v) us (c, i) = Inr (c1, i1)"
    "foldM_res (\<lambda>(v, us). foldM_res (count_edge cs v) us) es (c1, i1) = Inr (c', i')"
    using Cons.prems(1) by (auto simp: e split: sum.splits)
  note s = count_edge_list [OF 1(1) Cons.prems(2,3)]
  with Cons.IH [OF 1(2)] Cons.prems(2,3) show ?case by (force simp: double_weight_def e)
qed (simp add: double_weight_def)

lemma count_edge_length: "count_edge cs v u ci = Inr ci' \<Longrightarrow> map_prod length length ci' = map_prod length length ci"
  by (cases ci) (auto simp: count_edge_def idx_upd_def Let_def split: if_splits)

lemma foldM_res_same:
  assumes "\<And>x s s'. h x s = Inr s' \<Longrightarrow> m s' = m s"
  shows "foldM_res h xs s = Inr s' \<Longrightarrow> m s' = m s"
  by (induction xs arbitrary: s) (auto split: sum.splits dest: assms)

lemma count_edges_length:
  assumes "count_edges cs = Inr (c, i)"
  shows "length c = nat (cl_shardNum cs)" "length i = nat (cl_shardNum cs)"
proof -
  have step: "(case x of (v, us) \<Rightarrow> foldM_res (count_edge cs v) us) z = Inr z' \<Longrightarrow> map_prod length length z' = map_prod length length z"
    for x z z' by (cases x) (simp, rule foldM_res_same [OF count_edge_length])
  have "map_prod length length (c, i) = map_prod length length
      (replicate (nat (cl_shardNum cs)) (0 :: int), replicate (nat (cl_shardNum cs)) (0 :: int))"
    by (rule foldM_res_same [OF step assms [unfolded count_edges_def]])
  then show "length c = nat (cl_shardNum cs)" "length i = nat (cl_shardNum cs)" by simp_all
qed

lemma computeEdges2Shard_weights:
  assumes fl: "float_ok fl" and few: "2 * edge_ends (EdgeSet (netGraph cs)) \<le> 2 ^ 52"
    and run: "computeEdges2Shard fl cs = Inr cs'" and k: "k < length (shardWeight cs')"
  shows "shardWeight cs' ! k = half fl (double_weight (EdgeSet (netGraph cs)) (getVertexLocation cs) (int k))"
proof -
  let ?n = "nat (cl_shardNum cs)"
  obtain c i where ci: "count_edges cs = Inr (c, i)" using run by (auto simp: computeEdges2Shard_def split: sum.splits)
  then have sw: "shardWeight cs' = map2 (\<lambda>c i. fl_add fl (fl_of_int fl c) (fl_div fl (fl_of_int fl i) (fl_of_int fl 2))) c i"
    using run by (auto simp: computeEdges2Shard_def Let_def split: sum.splits)
  have len: "length c = ?n" "length i = ?n" by (rule count_edges_length [OF ci])+
  have cnt: "2 * c ! j + i ! j = double_weight (EdgeSet (netGraph cs)) (getVertexLocation cs) (int j) \<and>
      0 \<le> c ! j \<and> 0 \<le> i ! j" if "j < ?n" for j
    using count_edges_list [OF ci [unfolded count_edges_def], of j] that by auto
  from len have kn: "k < ?n" using k sw by simp
  note c = cnt [OF kn] and w = double_weight_le(1) [of "EdgeSet (netGraph cs)" "getVertexLocation cs" "int k"]
  have "small (2 * c ! k)" "small (i ! k)" "small (2 * c ! k + i ! k)" using c w few by (simp_all add: small_def)
  then have "fl_add fl (fl_of_int fl (c ! k)) (half fl (i ! k)) = half fl (2 * c ! k + i ! k)"
    by (simp add: fl_int [OF fl] fl_plus [OF fl])
  then show ?thesis using c kn len by (simp add: sw half_def)
qed

subsection \<open>Moving one vertex\<close>

lemma sum_list_count:
  fixes h :: "'a \<Rightarrow> int"
  assumes "finite S" "set xs \<subseteq> S"
  shows "(\<Sum>x\<leftarrow>xs. h x) = (\<Sum>x\<in>S. int (count_list xs x) * h x)"
  using assms(2)
proof (induction xs)
  case (Cons a xs)
  have "(\<Sum>x\<in>S. int (count_list (a # xs) x) * h x) = (\<Sum>x\<in>S. int (count_list xs x) * h x + (if x = a then h x else 0))"
    by (rule sum.cong) (auto simp: algebra_simps)
  then show ?case using Cons assms(1) by (simp add: sum.distrib)
qed simp

lemma sum_list_single: "(\<Sum>u\<leftarrow>xs. if u = v then c else 0) = int (count_list xs v) * c"
  by (induction xs) (auto simp: algebra_simps)

lemma sum_list_keys:
  fixes F :: "'k \<Rightarrow> 'v list \<Rightarrow> int"
  assumes "distinct (map fst es)"
  shows "(\<Sum>(x, us)\<leftarrow>es. F x us) = (\<Sum>x\<in>fst ` set es. F x (map_get es x []))"
  using assms
proof (induction es)
  case (Cons e es)
  obtain x us where e: "e = (x, us)" by fastforce
  have "x \<notin> fst ` set es" using Cons.prems e by simp
  then have "(\<Sum>y\<in>fst ` set es. F y (map_get (e # es) y [])) = (\<Sum>y\<in>fst ` set es. F y (map_get es y []))"
    by (intro sum.cong) (auto simp: e map_get_def)
  then show ?case using Cons \<open>x \<notin> fst ` set es\<close> by (simp add: e map_get_def)
qed simp

definition weight_change :: "(vertex \<Rightarrow> int) \<Rightarrow> int \<Rightarrow> int \<Rightarrow> int \<Rightarrow> vertex \<Rightarrow> int" where
  "weight_change loc old d k u = (if k = d \<and> loc u \<noteq> d then 2 else 0) - (if k = old \<and> loc u \<noteq> old then 2 else 0)"

lemma double_weight_move:
  assumes ok: "edges_ok g" "loop_free g" and d: "loc v \<noteq> d"
  shows "double_weight (EdgeSet g) (loc(v := d)) k =
    double_weight (EdgeSet g) loc k + (\<Sum>u\<leftarrow>map_get (EdgeSet g) v []. weight_change loc (loc v) d k u)"
proof -
  let ?es = "EdgeSet g" and ?adj = "\<lambda>x. map_get (EdgeSet g) x []" and ?K = "fst ` set (EdgeSet g)"
  let ?A = "\<lambda>x u. edge_weight (loc(v := d)) k x u - edge_weight loc k x u"
  have dist: "distinct (map fst ?es)" and sym: "\<And>x y. count_list (?adj x) y = count_list (?adj y) x"
    using ok(1) by (simp_all add: edges_ok_def)
  have key: "x \<in> ?K" if "?adj x \<noteq> []" for x
    using that by (cases "map_of ?es x") (auto simp: map_get_def dest!: map_of_SomeD intro: rev_image_eqI)
  have nv: "v \<notin> set (?adj v)" using ok(2) by (simp add: loop_free_def)
  have adjK: "set (?adj v) \<subseteq> ?K - {v}"
  proof
    fix u assume u: "u \<in> set (?adj v)"
    then have "count_list (?adj u) v \<noteq> 0" using sym [of u v] by (simp add: count_list_0_iff)
    then have "?adj u \<noteq> []" by auto
    then show "u \<in> ?K - {v}" using key [of u] nv u by auto
  qed
  have other: "(\<Sum>u\<leftarrow>?adj x. ?A x u) = int (count_list (?adj x) v) * ?A x v" if "x \<noteq> v" for x
  proof -
    have e: "?A x u = (if u = v then ?A x v else 0)" for u using that by (simp add: edge_weight_def)
    have "(\<Sum>u\<leftarrow>?adj x. ?A x u) = (\<Sum>u\<leftarrow>?adj x. if u = v then ?A x v else 0)"
      by (intro arg_cong [of _ _ sum_list] map_cong refl) (rule e)
    also have "\<dots> = int (count_list (?adj x) v) * ?A x v" by (rule sum_list_single)
    finally show ?thesis .
  qed
  have "double_weight ?es (loc(v := d)) k - double_weight ?es loc k = (\<Sum>x\<in>?K. \<Sum>u\<leftarrow>?adj x. ?A x u)"
    unfolding double_weight_def sum_list_keys [OF dist] by (simp add: sum_subtractf sum_list_subtractf)
  also have "\<dots> = (\<Sum>u\<leftarrow>?adj v. ?A v u) + (\<Sum>x\<in>?K - {v}. \<Sum>u\<leftarrow>?adj x. ?A x u)"
  proof (cases "v \<in> ?K")
    case False
    then have "?adj v = []" using key by blast
    with False show ?thesis by simp
  qed (simp add: sum.remove)
  also have "(\<Sum>x\<in>?K - {v}. \<Sum>u\<leftarrow>?adj x. ?A x u) = (\<Sum>x\<in>?K - {v}. int (count_list (?adj v) x) * ?A x v)"
    by (rule sum.cong) (use other sym in auto)
  also have "\<dots> = (\<Sum>u\<leftarrow>?adj v. ?A u v)" by (rule sum_list_count [symmetric]) (use adjK in auto)
  also have "(\<Sum>u\<leftarrow>?adj v. ?A v u) + (\<Sum>u\<leftarrow>?adj v. ?A u v) = (\<Sum>u\<leftarrow>?adj v. ?A v u + ?A u v)"
    by (simp add: sum_list_addf)
  also have "\<dots> = (\<Sum>u\<leftarrow>?adj v. weight_change loc (loc v) d k u)"
    by (intro arg_cong [of _ _ sum_list] map_cong refl) (use nv d in \<open>auto simp: edge_weight_def weight_change_def\<close>)
  finally show ?thesis by linarith
qed

lemma recompute_fold:
  assumes fl: "float_ok fl" and n: "idx_ok d sw" "idx_ok old sw" "d \<noteq> old"
    and W: "\<And>k. k < length sw \<Longrightarrow> sw ! k = half fl (W (int k)) \<and> \<bar>W (int k)\<bar> + 2 * int (length us) + 2 \<le> 2 ^ 52"
    and loc: "\<And>u. u \<in> set us \<Longrightarrow> getVertexLocation cs u = loc u"
    and run: "foldM_res (recompute_step fl cs d old) us sw = Inr sw'" and k: "k < length sw'"
  shows "length sw' = length sw \<and> sw' ! k = half fl (W (int k) + (\<Sum>u\<leftarrow>us. weight_change loc old d (int k) u))"
  using n W loc run
proof (induction us arbitrary: sw W)
  case Nil
  then show ?case using k by simp
next
  case (Cons u us)
  obtain sw1 where 1: "recompute_step fl cs d old u sw = Inr sw1" "foldM_res (recompute_step fl cs d old) us sw1 = Inr sw'"
    using Cons.prems(6) by (auto split: sum.splits)
  let ?W = "\<lambda>k. W k + weight_change loc old d k u"
  have one: "fl_of_int fl 1 = half fl 2" using fl_int [OF fl, of 1] by (simp add: small_def)
  have inc: "fl_add fl (half fl w) (half fl 2) = half fl (w + 2)" "fl_sub fl (half fl w) (half fl 2) = half fl (w - 2)"
    if "\<bar>w\<bar> + 2 \<le> 2 ^ 52" for w
    using that fl_plus [OF fl, of w 2] fl_minus [OF fl, of w 2] by (auto simp: small_def)
  have lu: "getVertexLocation cs u = loc u" using Cons.prems(5) by simp
  have len: "length sw1 = length sw" using 1(1) by (auto simp: recompute_step_def idx_upd_def Let_def split: if_splits)
  have "sw1 ! j = half fl (?W (int j))" if j: "j < length sw" for j
  proof -
    have w: "sw ! j = half fl (W (int j))" "\<bar>W (int j)\<bar> + 2 \<le> 2 ^ 52" using Cons.prems(4) [OF j] by simp_all
    have "nat d = j \<longleftrightarrow> int j = d" "nat old = j \<longleftrightarrow> int j = old" using Cons.prems(1,2) by (auto simp: idx_ok_def)
    then have ix: "nat d = j \<longleftrightarrow> int j = d" "nat old = j \<longleftrightarrow> int j = old" "nat d \<noteq> nat old" using Cons.prems(1-3) by (auto simp: idx_ok_def)
    consider "loc u \<noteq> d" "loc u \<noteq> old" | "loc u = d" | "loc u = old" by blast
    then show ?thesis
    proof cases
      case 1
      then have "sw1 = (sw[nat d := fl_add fl (sw ! nat d) (half fl 2)])[nat old := fl_sub fl (sw ! nat old) (half fl 2)]"
        using \<open>recompute_step fl cs d old u sw = Inr sw1\<close> Cons.prems(1,2) ix(3)
        by (simp add: recompute_step_def lu one idx_upd_def idx_ok_def Let_def)
      then show ?thesis using 1 ix j w inc [OF w(2)] Cons.prems(3) by (auto simp: weight_change_def nth_list_update)
    next
      case 2
      then have "sw1 = sw[nat old := fl_sub fl (sw ! nat old) (half fl 2)]"
        using \<open>recompute_step fl cs d old u sw = Inr sw1\<close> Cons.prems(1-3)
        by (simp add: recompute_step_def lu one idx_upd_def idx_ok_def Let_def)
      then show ?thesis using 2 ix j w inc [OF w(2)] Cons.prems(3) by (auto simp: weight_change_def nth_list_update)
    next
      case 3
      then have "sw1 = sw[nat d := fl_add fl (sw ! nat d) (half fl 2)]"
        using \<open>recompute_step fl cs d old u sw = Inr sw1\<close> Cons.prems(1-3)
        by (simp add: recompute_step_def lu one idx_upd_def idx_ok_def Let_def)
      then show ?thesis using 3 ix j w inc [OF w(2)] Cons.prems(3) by (auto simp: weight_change_def nth_list_update)
    qed
  qed
  moreover have "\<bar>?W j\<bar> + 2 * int (length us) + 2 \<le> 2 ^ 52" if "\<bar>W j\<bar> + 2 * int (length (u # us)) + 2 \<le> 2 ^ 52" for j
    using that Cons.prems(3) by (auto simp: weight_change_def)
  ultimately have W1: "sw1 ! j = half fl (?W (int j)) \<and> \<bar>?W (int j)\<bar> + 2 * int (length us) + 2 \<le> 2 ^ 52" if "j < length sw1" for j
    using Cons.prems(4) [of j] that len by simp
  have "idx_ok d sw1" "idx_ok old sw1" using Cons.prems(1,2) len by (simp_all add: idx_ok_def)
  from Cons.IH [OF this Cons.prems(3) W1 _ 1(2)] Cons.prems(5) len show ?case by (simp add: add.assoc)
qed

text \<open>The weights of a state are those of its graph.\<close>

definition weights_current :: "'f float_api \<Rightarrow> 'f clpa_state \<Rightarrow> bool" where
  "weights_current fl cs \<longleftrightarrow>
     (case computeEdges2Shard fl cs of Inl _ \<Rightarrow> False
      | Inr cs' \<Rightarrow> shardWeight cs' = shardWeight cs \<and> minShardWeight cs' = minShardWeight cs)"

lemma adjacent_length: "int (length (map_get es v [])) \<le> edge_ends es"
proof -
  have "0 \<le> edge_ends es" for es :: "(vertex, vertex list) gomap" unfolding edge_ends_def by (induction es) auto
  then show ?thesis by (induction es) (auto simp: map_get_def edge_ends_def add_increasing)
qed

lemma move_vertex_weights:
  assumes fl: "float_ok fl" and inv: "clpa_inv cs" and lf: "loop_free (netGraph cs)"
    and few: "4 * edge_ends (EdgeSet (netGraph cs)) + 2 \<le> 2 ^ 52" and cur: "weights_current fl cs"
    and v: "v \<in> set (VertexSet (netGraph cs))" and d: "0 \<le> d" "d < cl_shardNum cs" "getVertexLocation cs v \<noteq> d"
    and run: "move_vertex fl v d (cs, ret, ut) = Inr (cs', ret', ut')"
  shows "weights_current fl cs'"
proof -
  let ?es = "EdgeSet (netGraph cs)" and ?loc = "getVertexLocation cs" and ?us = "map_get (EdgeSet (netGraph cs)) v []"
  let ?W = "double_weight ?es ?loc"
  have inv': "clpa_inv cs'" and g': "netGraph cs' = netGraph cs" "cl_shardNum cs' = cl_shardNum cs"
    and loc': "getVertexLocation cs' = ?loc(v := d)" using move_vertex_spec [OF inv v d, of fl ret ut] run by auto
  obtain cs1 where c1: "changeShardRecompute fl v (?loc v) cs1 = Inr cs'" "shardWeight cs1 = shardWeight cs"
    "netGraph cs1 = netGraph cs" "getVertexLocation cs1 = ?loc(v := d)"
    using run by (auto simp: move_vertex_def Let_def loc_update fun_eq_iff split: sum.splits)
  obtain sw m where sw: "foldM_res (recompute_step fl cs1 d (?loc v)) ?us (shardWeight cs) = Inr sw"
    "slices_Min fl sw = Inr m" "shardWeight cs' = sw" "minShardWeight cs' = m"
    using c1 by (auto simp: changeShardRecompute_def adjacent_def split: sum.splits)
  obtain csa where csa: "computeEdges2Shard fl cs = Inr csa" "shardWeight csa = shardWeight cs"
    using cur by (auto simp: weights_current_def split: sum.splits)
  obtain csb where csb: "computeEdges2Shard fl cs' = Inr csb" "same_places cs' csb" using computeEdges2Shard_total [OF inv'] by blast
  have nv: "v \<notin> set ?us" using lf by (simp add: loop_free_def)
  have few2: "2 * edge_ends ?es \<le> 2 ^ 52" using few double_weight_le [of ?es ?loc 0] by simp
  have W: "shardWeight cs ! k = half fl (?W (int k)) \<and> \<bar>?W (int k)\<bar> + 2 * int (length ?us) + 2 \<le> 2 ^ 52" if "k < length (shardWeight cs)" for k
    using computeEdges2Shard_weights [OF fl few2 csa(1), of k] csa(2) that double_weight_le [of ?es ?loc "int k"]
      adjacent_length [of ?es v] few by simp
  have len: "length sw = length (shardWeight cs)" using sw(3) clpa_lengths(1) [OF inv'] clpa_lengths(1) [OF inv] g' by simp
  have idx: "idx_ok d (shardWeight cs)" "idx_ok (?loc v) (shardWeight cs)" "d \<noteq> ?loc v"
    using d clpa_lengths(1) [OF inv] loc_idx(1) [OF inv] by (auto simp: idx_ok_def)
  have locu: "getVertexLocation cs1 u = ?loc u" if "u \<in> set ?us" for u using that c1(4) nv by auto
  have fold: "sw ! k = half fl (?W (int k) + (\<Sum>u\<leftarrow>?us. weight_change ?loc (?loc v) d (int k) u))" if "k < length sw" for k
    using recompute_fold [OF fl idx W locu sw(1) that] by simp
  have "shardWeight csb = sw"
  proof (rule nth_equalityI)
    show "length (shardWeight csb) = length sw" using csb(2) sw(3) by (simp add: same_places_def)
    fix k assume "k < length (shardWeight csb)"
    then show "shardWeight csb ! k = sw ! k"
      using computeEdges2Shard_weights [OF fl _ csb(1), of k] few2 fold [of k] csb(2) sw(3) g'
        double_weight_move [where loc = ?loc and v = v and d = d, OF clpa_edges [OF inv] lf d(3)] by (simp add: loc' same_places_def)
  qed
  moreover have "slices_Min fl (shardWeight csb) = Inr (minShardWeight csb)"
    using csb(1) by (auto simp: computeEdges2Shard_def Let_def split: sum.splits)
  ultimately show ?thesis using csb(1) sw(2-4) by (simp add: weights_current_def)
qed

lemma weights_current_recomputed:
  assumes "clpa_inv cs" "computeEdges2Shard fl cs = Inr cs1"
  shows "weights_current fl cs1"
proof -
  obtain c i m where r: "count_edges cs = Inr (c, i)" "slices_Min fl (shardWeight cs1) = Inr m" "minShardWeight cs1 = m"
    "shardWeight cs1 = map2 (\<lambda>c i. fl_add fl (fl_of_int fl c) (fl_div fl (fl_of_int fl i) (fl_of_int fl 2))) c i"
    using assms(2) by (auto simp: computeEdges2Shard_def Let_def split: sum.splits)
  have pl: "same_places cs cs1" using computeEdges2Shard_total [OF assms(1), of fl] assms(2) by auto
  then have "count_edges cs1 = count_edges cs"
    using same_places_loc [OF pl] by (simp add: count_edges_def count_edge_def [abs_def] same_places_def)
  then show ?thesis using r by (simp add: weights_current_def computeEdges2Shard_def Let_def)
qed

end
