(* ===== verification/Tx_Source.thy ===== *)
theory Tx_Source
  imports Config
begin

text \<open>
  \<open>supervisor/txsource\<close>: where the supervisor takes its transactions from. A \<open>csv.Reader\<close> is the list of the answers
  it has left, and its end is \<open>io.EOF\<close>; the answers of the clock and of \<open>crypto/rand\<close> are the fields of \<open>source_env\<close>, numbered
  in the order of the calls. The redrawing loop of the random source may run forever, so reading returns an option.

  The interface \<open>TxSource\<close> is the locale \<open>tx_provider\<close>: no read returns more than was asked for. Its client lemmas count
  what a sequence of reads injects. It is interpreted on the model's \<open>ReadTxs\<close>.
\<close>

section \<open>Environment\<close>

record source_env =
  src_Now :: "nat \<Rightarrow> gotime"
  rand_Read :: "nat \<Rightarrow> byte \<times> byte"
  rand_Int :: "nat \<Rightarrow> int"

section \<open>The CSV source\<close>

record csv_source =
  cs_count :: int
  cs_cr :: "string list result list"
  cs_done :: bool
  cs_excludeContractTxs :: bool

definition io_EOF :: goerror where "io_EOF = Errorf ''EOF''"

text \<open>\<open>strings.EqualFold\<close> against a word of ASCII letters without special case foldings.\<close>

definition lower :: "char \<Rightarrow> char" where
  "lower c = (let n = of_char c :: nat in if 65 \<le> n \<and> n \<le> 90 then char_of (n + 32) else c)"

definition EqualFold :: "string \<Rightarrow> string \<Rightarrow> bool" where
  "EqualFold s t \<longleftrightarrow> map lower s = map lower t"

definition NewCSVSource ::
  "(string \<Rightarrow> string list result list result) \<Rightarrow> string \<Rightarrow> bool \<Rightarrow> csv_source result" where
  "NewCSVSource os_Open filename exclude =
     (case os_Open filename of Inl e \<Rightarrow> Inl (Wrapf ''failed to open dataset file'' e)
      | Inr [] \<Rightarrow> Inl (Wrapf ''failed to read the first line'' io_EOF)
      | Inr (Inl e # _) \<Rightarrow> Inl (Wrapf ''failed to read the first line'' e)
      | Inr (Inr _ # ls) \<Rightarrow> Inr \<lparr>cs_count = 1, cs_cr = ls, cs_done = False, cs_excludeContractTxs = exclude\<rparr>)"

definition line2Tx :: "gotime \<Rightarrow> string list \<Rightarrow> int \<Rightarrow> bool \<Rightarrow> transaction result" where
  "line2Tx now line cnt exclude =
     (if length line \<le> 12 then Inl (Panic ''index out of range'') else
      let fromAddrStr = line ! 3; toAddrStr = line ! 4; toCreateStr = line ! 5; callingFuncStr = line ! 12;
          hasCallData = (callingFuncStr \<noteq> '''' \<and> \<not> EqualFold callingFuncStr ''none'' \<and> \<not> EqualFold callingFuncStr ''0x'');
          hasToCreate = (toCreateStr \<noteq> '''' \<and> \<not> EqualFold toCreateStr ''none'');
          hasToAddr = (toAddrStr \<noteq> '''' \<and> \<not> EqualFold toAddrStr ''none'');
          fromIsContract = (line ! 6 = ''1'');
          toIsContract = (line ! 7 = ''1'');
          isContractRelated = (\<not> hasToAddr \<and> hasToCreate \<or> fromIsContract \<or> toIsContract)
      in if isContractRelated \<and> exclude then Inl (Errorf ''contract transactions have been filtered'')
         else if hasToAddr \<and> fromAddrStr = toAddrStr then Inl (Errorf ''sender and recipient are the same'')
         else (case big_SetString (line ! 8) of None \<Rightarrow> Inl (Errorf ''failed to parse value'')
         | Some val \<Rightarrow>
           (case Hex2Addr fromAddrStr of Inl e \<Rightarrow> Inl (Wrapf ''failed to parse sender address'' e)
            | Inr senderAddr \<Rightarrow>
              (case (if hasToAddr then wrap_err ''failed to parse receiver address'' (Hex2Addr toAddrStr)
                     else if \<not> hasToCreate then Inl (Errorf ''missing account address'')
                     else Inr EmptyAccountAddr) of
                 Inl e \<Rightarrow> Inl e
               | Inr receiverAddr \<Rightarrow>
                   (let tx = NewTransaction senderAddr receiverAddr val 0 (word_of_int cnt) now in
                    if hasCallData then
                      (case Hex2Bytes callingFuncStr of Inl e \<Rightarrow> Inl (Wrapf ''failed to parse calling function'' e)
                       | Inr data \<Rightarrow> Inr (tx\<lparr>Data := data\<rparr>))
                    else Inr tx)))))"

text \<open>The loop of \<open>ReadTxs\<close> over the lines the reader still has.\<close>

fun csv_loop ::
  "(nat \<Rightarrow> gotime) \<Rightarrow> int \<Rightarrow> transaction list \<Rightarrow> string list result list \<Rightarrow> csv_source \<Rightarrow>
   transaction list result \<times> csv_source" where
  "csv_loop clk sz ret [] ds =
     (Inr ret, if int (length ret) < sz then ds\<lparr>cs_cr := [], cs_done := True\<rparr> else ds\<lparr>cs_cr := []\<rparr>)"
| "csv_loop clk sz ret (l # ls) ds =
     (if \<not> int (length ret) < sz then (Inr ret, ds\<lparr>cs_cr := l # ls\<rparr>)
      else (case l of
              Inl e \<Rightarrow> (Inl (Wrapf ''failed to read dataset file'' e), ds\<lparr>cs_cr := ls, cs_done := True\<rparr>)
            | Inr txLine \<Rightarrow>
                (case line2Tx (clk (length ls)) txLine (cs_count ds) (cs_excludeContractTxs ds) of
                   Inl (Panic p) \<Rightarrow> (Inl (Panic p), ds\<lparr>cs_cr := ls\<rparr>)
                 | Inl _ \<Rightarrow> csv_loop clk sz ret ls ds
                 | Inr tx \<Rightarrow> csv_loop clk sz (ret @ [tx]) ls (ds\<lparr>cs_count := wrap64 (cs_count ds + 1)\<rparr>))))"

definition CSV_ReadTxs :: "source_env \<Rightarrow> int \<Rightarrow> csv_source \<Rightarrow> transaction list result \<times> csv_source" where
  "CSV_ReadTxs env sz ds =
     (if cs_done ds then (Inr [], ds)
      else if sz < 0 then (Inl (Panic ''makeslice: cap out of range''), ds)
      else csv_loop (src_Now env) sz [] (cs_cr ds) ds)"

section \<open>The random source\<close>

text \<open>The positions in the streams of random answers are part of the state.\<close>

record random_source =
  rs_count :: int
  rs_reads :: nat
  rs_ints :: nat

definition NewRandomSource :: random_source where
  "NewRandomSource = \<lparr>rs_count = 1, rs_reads = 0, rs_ints = 0\<rparr>"

definition accountPrefixZeroBytes :: nat where "accountPrefixZeroBytes = 18"
definition upperBoundTransferAmount :: int where "upperBoundTransferAmount = 1000"

definition rand_addr :: "byte \<times> byte \<Rightarrow> address" where
  "rand_addr b = replicate accountPrefixZeroBytes 0 @ [fst b, snd b]"

partial_function (option) draw_receiver :: "(nat \<Rightarrow> byte \<times> byte) \<Rightarrow> address \<Rightarrow> nat \<Rightarrow> (address \<times> nat) option" where
  [code]: "draw_receiver rd sender i =
     (if rand_addr (rd i) = sender then draw_receiver rd sender (i + 1) else Some (rand_addr (rd i), i + 1))"

text \<open>
  \<open>int64(float64(amount) * 0.1)\<close>: the double \<open>0.1\<close> is \<open>3602879701896397 / 2 ^ 55\<close>. For the amounts drawn here rounding the
  product to a double cannot cross an integer, so the truncation of the exact product is the result.
\<close>

definition fee_of :: "int \<Rightarrow> int" where
  "fee_of amount = amount * 3602879701896397 div 2 ^ 55"

definition generateRandomTransaction ::
  "source_env \<Rightarrow> int \<Rightarrow> nat \<Rightarrow> nat \<Rightarrow> (transaction \<times> nat) option" where
  "generateRandomTransaction env c i k =
     (let sender = rand_addr (rand_Read env i) in
      case draw_receiver (rand_Read env) sender (i + 1) of None \<Rightarrow> None
      | Some (receiver, i') \<Rightarrow>
          (let amount = rand_Int env k mod upperBoundTransferAmount + 1
           in Some (NewTransaction sender receiver amount (fee_of amount) (word_of_int c) (src_Now env k), i')))"

fun random_loop :: "source_env \<Rightarrow> nat \<Rightarrow> random_source \<Rightarrow> (transaction list \<times> random_source) option" where
  "random_loop env 0 r = Some ([], r)"
| "random_loop env (Suc n) r =
     (case generateRandomTransaction env (rs_count r) (rs_reads r) (rs_ints r) of None \<Rightarrow> None
      | Some (tx, i) \<Rightarrow>
        (case random_loop env n (r\<lparr>rs_count := wrap64 (rs_count r + 1), rs_reads := i, rs_ints := rs_ints r + 1\<rparr>) of
           None \<Rightarrow> None | Some (txs, r') \<Rightarrow> Some (tx # txs, r')))"

definition Random_ReadTxs :: "source_env \<Rightarrow> int \<Rightarrow> random_source \<Rightarrow> (transaction list result \<times> random_source) option" where
  "Random_ReadTxs env sz r =
     (if sz < 0 then Some (Inl (Panic ''makeslice: len out of range''), r)
      else (case random_loop env (nat sz) r of None \<Rightarrow> None | Some (txs, r') \<Rightarrow> Some (Inr txs, r')))"

section \<open>The interface\<close>

abbreviation (input) "csv_Key \<equiv> ''csv_source''"
abbreviation (input) "random_Key \<equiv> ''random_source''"

datatype tx_source = CSVSource csv_source | RandomSource random_source | NoOperationTxSource

definition NewTxSource ::
  "(string \<Rightarrow> string list result list result) \<Rightarrow> string \<Rightarrow> string \<Rightarrow> bool \<Rightarrow> tx_source result" where
  "NewTxSource os_Open typ filename exclude =
     (if typ = csv_Key then
        (case NewCSVSource os_Open filename exclude of Inl e \<Rightarrow> Inl (Wrapf ''failed to create CSV source'' e)
         | Inr cs \<Rightarrow> Inr (CSVSource cs))
      else if typ = random_Key then Inr (RandomSource NewRandomSource)
      else Inr NoOperationTxSource)"

definition ReadTxs :: "source_env \<Rightarrow> int \<Rightarrow> tx_source \<Rightarrow> (transaction list result \<times> tx_source) option" where
  "ReadTxs env sz ts =
     (case ts of
        CSVSource ds \<Rightarrow> (case CSV_ReadTxs env sz ds of (r, ds') \<Rightarrow> Some (r, CSVSource ds'))
      | RandomSource rs \<Rightarrow> (case Random_ReadTxs env sz rs of None \<Rightarrow> None | Some (r, rs') \<Rightarrow> Some (r, RandomSource rs'))
      | NoOperationTxSource \<Rightarrow> Some (Inr [], ts))"

section \<open>Lemmas\<close>

lemma wrap_err_no_panic [simp]: "wrap_err m r \<noteq> Inl (Panic p)"
  by (cases r) simp_all

lemma line2Tx_no_panic: "12 < length line \<Longrightarrow> line2Tx now line c ex \<noteq> Inl (Panic p)"
  by (auto simp: line2Tx_def Let_def split: option.splits sum.splits if_splits)

lemma csv_loop_length:
  "csv_loop clk sz ret ls ds = (Inr txs, ds') \<Longrightarrow> int (length ret) \<le> sz \<Longrightarrow> int (length txs) \<le> sz"
  by (induction clk sz ret ls ds rule: csv_loop.induct) (auto split: if_splits sum.splits goerror.splits)

lemma random_loop_length: "random_loop env n r = Some (txs, r') \<Longrightarrow> length txs = n"
  by (induction n arbitrary: r txs) (auto split: option.splits prod.splits)

text \<open>A source whose rows all have the thirteen columns that are looked at.\<close>

definition source_ok :: "tx_source \<Rightarrow> bool" where
  "source_ok ts \<longleftrightarrow>
     (case ts of
        CSVSource ds \<Rightarrow> (\<forall>l\<in>set (cs_cr ds). case l of Inr row \<Rightarrow> 12 < length row | Inl e \<Rightarrow> (\<forall>p. e \<noteq> Panic p))
      | _ \<Rightarrow> True)"

lemma csv_loop_no_panic:
  assumes "csv_loop clk sz ret ls ds = (r, ds')" "\<forall>l\<in>set ls. case l of Inr row \<Rightarrow> 12 < length row | Inl e \<Rightarrow> (\<forall>p. e \<noteq> Panic p)"
  shows "r \<noteq> Inl (Panic p) \<and> set (cs_cr ds') \<subseteq> set ls"
  using assms
proof (induction clk sz ret ls ds rule: csv_loop.induct)
  case (2 clk sz ret l ls ds)
  show ?case
  proof (cases "int (length ret) < sz")
    case True
    show ?thesis
    proof (cases l)
      case (Inr txLine)
      then have "12 < length txLine" using "2.prems"(2) by simp
      note np = line2Tx_no_panic [OF this]
      show ?thesis
      proof (cases "line2Tx (clk (length ls)) txLine (cs_count ds) (cs_excludeContractTxs ds)")
        case (Inl e)
        then have ne: "e \<noteq> Panic q" for q using np by auto
        then have "csv_loop clk sz ret ls ds = (r, ds')" using "2.prems"(1) True Inr Inl by (cases e) auto
        moreover have "csv_loop clk sz ret ls ds = (r, ds') \<Longrightarrow> r \<noteq> Inl (Panic p) \<and> set (cs_cr ds') \<subseteq> set ls"
          using "2.IH"(1,2) [of txLine e] True Inr Inl ne "2.prems"(2) by (cases e) auto
        ultimately show ?thesis by auto
      next
        case tx: (Inr tx)
        then show ?thesis using "2.IH"(3) [of txLine tx] "2.prems" True Inr by auto
      qed
    qed (use "2.prems" True in auto)
  qed (use "2.prems" in auto)
qed auto

text \<open>The contract of \<open>TxSource\<close> and what its client, a committee that reads \<open>min(speed, unsent)\<close> at a time, gets from it.\<close>

locale tx_provider =
  fixes read_src :: "int \<Rightarrow> 's \<Rightarrow> (transaction list result \<times> 's) option"
    and src_inv :: "'s \<Rightarrow> bool"
  assumes read_bound: "read_src n s = Some (Inr txs, s') \<Longrightarrow> 0 \<le> n \<Longrightarrow> int (length txs) \<le> n"
    and read_inv: "src_inv s \<Longrightarrow> read_src n s = Some (r, s') \<Longrightarrow> src_inv s'"
    and read_safe: "src_inv s \<Longrightarrow> 0 \<le> n \<Longrightarrow> read_src n s = Some (r, s') \<Longrightarrow> r \<noteq> Inl (Panic p)"
begin

lemma read_min:
  assumes "read_src (min speed unsent) s = Some (Inr txs, s')" "0 \<le> speed" "0 \<le> unsent" "in_int64 unsent"
  shows "0 \<le> wrap64 (unsent - int (length txs))" "wrap64 (unsent - int (length txs)) = unsent - int (length txs)"
    "in_int64 (wrap64 (unsent - int (length txs)))" "int (length txs) \<le> speed"
proof -
  have l: "int (length txs) \<le> min speed unsent" using read_bound [OF assms(1)] assms(2,3) by simp
  then have "in_int64 (unsent - int (length txs))" using assms(3,4) by (auto simp: in_int64_def)
  then show "wrap64 (unsent - int (length txs)) = unsent - int (length txs)" by simp
  then show "0 \<le> wrap64 (unsent - int (length txs))" "int (length txs) \<le> speed" using l by simp_all
qed simp

end

lemma ReadTxs_bound: "ReadTxs env n s = Some (Inr txs, s') \<Longrightarrow> 0 \<le> n \<Longrightarrow> int (length txs) \<le> n"
  by (auto simp: ReadTxs_def CSV_ReadTxs_def Random_ReadTxs_def csv_loop_length random_loop_length
    split: tx_source.splits prod.splits option.splits if_splits)

lemma ReadTxs_ok:
  assumes "source_ok s" "ReadTxs env n s = Some (r, s')"
  shows "source_ok s'" "0 \<le> n \<Longrightarrow> r \<noteq> Inl (Panic p)"
proof -
  have "source_ok s' \<and> (0 \<le> n \<longrightarrow> r \<noteq> Inl (Panic p))"
  proof (cases s)
    case (CSVSource ds)
    obtain r' ds' where run: "CSV_ReadTxs env n ds = (r', ds')" by (rule prod.exhaust)
    have s': "s' = tx_source.CSVSource ds'" "r = r'" using assms(2) CSVSource run by (auto simp: ReadTxs_def)
    have "csv_loop (src_Now env) n [] (cs_cr ds) ds = (r, ds') \<Longrightarrow> r \<noteq> Inl (Panic p) \<and> set (cs_cr ds') \<subseteq> set (cs_cr ds)"
      using csv_loop_no_panic [of "src_Now env" n "[]" "cs_cr ds" ds r ds' p] assms(1) CSVSource by (simp add: source_ok_def)
    then show ?thesis using run s' assms(1) CSVSource by (auto simp: CSV_ReadTxs_def source_ok_def split: if_splits)
  qed (use assms in \<open>auto simp: ReadTxs_def Random_ReadTxs_def source_ok_def split: option.splits if_splits\<close>)
  then show "source_ok s'" "0 \<le> n \<Longrightarrow> r \<noteq> Inl (Panic p)" by simp_all
qed

interpretation src: tx_provider "ReadTxs env" source_ok for env
  by unfold_locales (use ReadTxs_bound ReadTxs_ok in blast)+

text \<open>Reading from the random source returns as soon as the generator does not repeat the sender's bytes forever.\<close>

lemma draw_receiver_returns:
  "rand_addr (rd (i + n)) \<noteq> sender \<Longrightarrow> \<exists>a j. draw_receiver rd sender i = Some (a, j) \<and> a \<noteq> sender \<and> i < j"
proof (induction n arbitrary: i)
  case 0
  then show ?case by (simp add: draw_receiver.simps [of rd sender i])
next
  case (Suc n)
  show ?case
  proof (cases "rand_addr (rd i) = sender")
    case True
    from Suc.IH [of "i + 1"] Suc.prems obtain a j where "draw_receiver rd sender (i + 1) = Some (a, j)" "a \<noteq> sender" "i + 1 < j" by auto
    then show ?thesis using True by (simp add: draw_receiver.simps [of rd sender i])
  next
    case False
    then show ?thesis by (simp add: draw_receiver.simps [of rd sender i])
  qed
qed

definition never_stuck :: "source_env \<Rightarrow> bool" where
  "never_stuck env \<longleftrightarrow> (\<forall>i. \<exists>n. rand_Read env (i + 1 + n) \<noteq> rand_Read env i)"

lemma rand_addr_inj: "rand_addr a = rand_addr b \<longleftrightarrow> a = b"
  by (auto simp: rand_addr_def prod_eq_iff)

lemma fee_of_tenth: "0 \<le> a \<Longrightarrow> a \<le> 1000 \<Longrightarrow> fee_of a = a div 10"
proof -
  assume a: "0 \<le> a" "a \<le> 1000"
  have "10 * (a * 3602879701896397) = a * (2 ^ 55 + 2)" by simp
  moreover have "10 * (a div 10) + a mod 10 = a" "a mod 10 < 10" "0 \<le> a mod 10" by simp_all
  ultimately have "2 ^ 55 * (a div 10) \<le> a * 3602879701896397" "a * 3602879701896397 < 2 ^ 55 * (a div 10) + 2 ^ 55" using a by auto
  then show ?thesis unfolding fee_of_def by (intro int_div_pos_eq [where r = "a * 3602879701896397 - 2 ^ 55 * (a div 10)"]) simp_all
qed

end
