(* ===== verification/Committee.thy ===== *)
theory Committee
  imports Sharding Clpa Tx_Source
begin

text \<open>
  \<open>supervisor/committee\<close>: the parts that all committees share (\<open>committee.go\<close>, \<open>partitionrunner.go\<close>) and the two
  committees of the relay mechanism (\<open>staticrelay.go\<close>, \<open>clparelay.go\<close>). The fields that every committee has are the record
  \<open>committee\<close>, which the others extend. What the clock, the random number generators and the iteration order of Go's maps
  answer during one call of \<open>SendTxsAndConsensus\<close> is the record \<open>com_env\<close>.

  The lemmas show that packing by shard keeps every transaction whose shard exists, in its order, that a
  successful dispatch hands each shard's leader exactly the transactions located there, that what is unsent never becomes
  negative, and that blocks are counted towards stopping only once everything is sent.
\<close>

section \<open>Shared parts\<close>

definition stopThresholdPerShard :: int where "stopThresholdPerShard = 5"
definition clpaMaxIterations :: int where "clpaMaxIterations = 100"

definition clpaWeightPenalty :: "'f float_api \<Rightarrow> 'f" where
  "clpaWeightPenalty fl = fl_div fl (fl_of_int fl 1) (fl_of_int fl 2)"

record stop_logic =
  stopThreshold :: int
  stopCnt :: int

record com_env =
  ce_src :: source_env
  ce_mark :: gotime
  ce_now :: gotime
  ce_order :: "nat \<Rightarrow> vertex list"
  ce_clk :: "nat \<Rightarrow> gotime"
  ce_rnd :: "nat \<Rightarrow> nat"
  ce_shuffle :: "nat \<Rightarrow> address list \<Rightarrow> address list"

record 'p committee =
  cm_r :: topo_getter
  cm_conn :: "'p outbox"
  cm_gob :: "'p gob_api"
  cm_txSource :: tx_source
  cm_sl :: stop_logic
  cm_unsentTxNum :: int
  cm_cfg :: supervisor_cfg

abbreviation cm_shards :: "('p, 'x) committee_scheme \<Rightarrow> int" where
  "cm_shards c \<equiv> ShardNum (sv_Sys (cm_cfg c))"

definition put_shard :: "int \<Rightarrow> (transaction \<Rightarrow> int) \<Rightarrow> transaction \<Rightarrow> transaction list list \<Rightarrow> transaction list list" where
  "put_shard n locFunc tx shardTxs =
     (let shardID = locFunc tx in
      if shardID < 0 \<or> shardID \<ge> n then shardTxs else shardTxs[nat shardID := shardTxs ! nat shardID @ [tx]])"

definition packShardTxs :: "transaction list \<Rightarrow> int \<Rightarrow> (transaction \<Rightarrow> int) \<Rightarrow> transaction list list result" where
  "packShardTxs txs shardNumber locFunc =
     (if shardNumber < 0 then Inl (Panic ''makeslice: len out of range'')
      else Inr (fold (put_shard shardNumber locFunc) txs (replicate (nat shardNumber) [])))"

definition transferMapBytes2Addr :: "(address, int) gomap \<Rightarrow> (address, int) gomap" where
  "transferMapBytes2Addr src = fold (\<lambda>(k, v). AList.update k v) src []"

text \<open>The end of every \<open>readTxsAndSend\<close>: pack, send, and count the transactions that were read.\<close>

definition dispatch ::
  "nat \<Rightarrow> transaction list \<Rightarrow> (transaction \<Rightarrow> int) \<Rightarrow> ('p, 'x) committee_scheme \<Rightarrow> unit result \<times> ('p, 'x) committee_scheme" where
  "dispatch n sendTxs locFunc c =
     (case packShardTxs sendTxs (cm_shards c) locFunc of Inl e \<Rightarrow> (Inl e, c)
      | Inr shardTxs \<Rightarrow>
        (case SendWrappedTxs2Shards (cm_gob c) (cm_r c) shardTxs (cm_conn c) of
           Inl e \<Rightarrow> (Inl (Wrapf ''failed to send txs to shards'' e), c)
         | Inr out \<Rightarrow> (Inr (), c\<lparr>cm_conn := out, cm_unsentTxNum := wrap64 (cm_unsentTxNum c - int n)\<rparr>)))"

definition count_block :: "nat \<Rightarrow> ('p, 'x) committee_scheme \<Rightarrow> ('p, 'x) committee_scheme" where
  "count_block n c =
     (if cm_unsentTxNum c \<le> 0 \<and> n = 0 then c\<lparr>cm_sl := (cm_sl c)\<lparr>stopCnt := wrap64 (stopCnt (cm_sl c) + 1)\<rparr>\<rparr>
      else if cm_unsentTxNum c \<le> 0 then c\<lparr>cm_sl := (cm_sl c)\<lparr>stopCnt := 0\<rparr>\<rparr>
      else c)"

definition ShouldStop :: "('p, 'x) committee_scheme \<Rightarrow> bool" where
  "ShouldStop c \<longleftrightarrow> stopCnt (cm_sl c) \<ge> stopThreshold (cm_sl c)"

definition read_next ::
  "com_env \<Rightarrow> ('p, 'x) committee_scheme \<Rightarrow> (transaction list result \<times> ('p, 'x) committee_scheme) option" where
  "read_next env c =
     (case ReadTxs (ce_src env) (min (TxInjectionSpeed (cm_cfg c)) (cm_unsentTxNum c)) (cm_txSource c) of
        None \<Rightarrow> None
      | Some (r, src') \<Rightarrow> Some (r, c\<lparr>cm_txSource := src'\<rparr>))"

section \<open>The static relay committee\<close>

definition NewStaticRelayCommittee ::
  "(string \<Rightarrow> string list result list result) \<Rightarrow> 'p outbox \<Rightarrow> topo_getter \<Rightarrow> 'p gob_api \<Rightarrow> supervisor_cfg \<Rightarrow> 'p committee result" where
  "NewStaticRelayCommittee os_Open out r g scfg =
     (case NewTxSource os_Open (TxSourceType scfg) (TxSourceFile scfg) (ExcludeContractTxs scfg) of
        Inl e \<Rightarrow> Inl (Wrapf ''NewTxSource failed'' e)
      | Inr ts \<Rightarrow>
          Inr \<lparr>cm_r = r, cm_conn = out, cm_gob = g, cm_txSource = ts,
               cm_sl = \<lparr>stopThreshold = wrap64 (ShardNum (sv_Sys scfg) * stopThresholdPerShard), stopCnt = 0\<rparr>,
               cm_unsentTxNum = TxNumber scfg, cm_cfg = scfg\<rparr>)"

definition StaticRelay_getTxLoc :: "('p, 'x) committee_scheme \<Rightarrow> transaction \<Rightarrow> int" where
  "StaticRelay_getTxLoc c tx = DefaultAccountLoc (Sender tx) (cm_shards c)"

definition StaticRelay_readTxsAndSend :: "com_env \<Rightarrow> 'p committee \<Rightarrow> (unit result \<times> 'p committee) option" where
  "StaticRelay_readTxsAndSend env c =
     (case read_next env c of None \<Rightarrow> None
      | Some (Inl e, c1) \<Rightarrow> Some (Inl (Wrapf ''failed to read txs'' e), c1)
      | Some (Inr txs, c1) \<Rightarrow> Some (dispatch (length txs) txs (StaticRelay_getTxLoc c1) c1))"

definition StaticRelay_SendTxsAndConsensus :: "com_env \<Rightarrow> 'p committee \<Rightarrow> (unit result \<times> 'p committee) option" where
  "StaticRelay_SendTxsAndConsensus env c =
     map_option (apfst (wrap_err ''readTxsAndSend failed'')) (StaticRelay_readTxsAndSend env c)"

definition relay_tx_count :: "relay_block_info_msg \<Rightarrow> nat" where
  "relay_tx_count b = length (ri_InnerShardTxs b) + length (ri_Relay1Txs b) + length (ri_Relay2Txs b)"

definition StaticRelay_HandleMsg :: "'p wrapped_msg \<Rightarrow> 'p committee \<Rightarrow> unit result \<times> 'p committee" where
  "StaticRelay_HandleMsg m c =
     (if MsgType m \<noteq> RelayBlockInfoMessageType then (Inr (), c)
      else (case g_dec_RelayBlockInfo (cm_gob c) (Payload m) of
              Inl e \<Rightarrow> (Inl (Wrapf ''decode relayBlockInfoMsg'' e), c)
            | Inr bInfo \<Rightarrow> (Inr (), count_block (relay_tx_count bInfo) c)))"

section \<open>The partition runner\<close>

record 'f partition_runner =
  pr_state :: "'f clpa_state"
  pr_lastRunTime :: gotime
  pr_epochSynced :: bool
  pr_supervisorEpoch :: int
  pr_shardEpoch :: "int list"

definition CheckEpochSyncAndMark :: "gotime \<Rightarrow> 'f partition_runner \<Rightarrow> bool \<times> 'f partition_runner" where
  "CheckEpochSyncAndMark now p =
     (if pr_epochSynced p then (True, p)
      else if list_ex (\<lambda>epochID. epochID \<noteq> pr_supervisorEpoch p) (pr_shardEpoch p) then (False, p)
      else (True, p\<lparr>pr_epochSynced := True, pr_lastRunTime := now\<rparr>))"

text \<open>\<open>time.Time.Sub\<close> saturates; \<open>Duration.Seconds\<close> adds the whole seconds and the rest.\<close>

definition time_Sub :: "gotime \<Rightarrow> gotime \<Rightarrow> int" where
  "time_Sub t u = max (- (2 ^ 63)) (min (2 ^ 63 - 1) (t - u))"

definition Duration_Seconds :: "'f float_api \<Rightarrow> int \<Rightarrow> 'f" where
  "Duration_Seconds fl d =
     fl_add fl (fl_of_int fl (go_div d (10 ^ 9))) (fl_div fl (fl_of_int fl (go_rem d (10 ^ 9))) (fl_of_int fl (10 ^ 9)))"

section \<open>The CLPA relay committee\<close>

record ('p, 'f) clpa_committee = "'p committee" +
  cm_fl :: "'f float_api"
  cm_pr :: "'f partition_runner"

definition new_runner :: "'f float_api \<Rightarrow> gotime \<Rightarrow> int \<Rightarrow> 'f partition_runner result" where
  "new_runner fl now shardNum =
     (case NewCLPAState fl (clpaWeightPenalty fl) clpaMaxIterations shardNum of Inl e \<Rightarrow> Inl e
      | Inr cs \<Rightarrow> Inr \<lparr>pr_state = cs, pr_lastRunTime = now, pr_epochSynced = False, pr_supervisorEpoch = 0,
                      pr_shardEpoch = replicate (nat shardNum) 0\<rparr>)"

definition NewCLPARelayCommittee ::
  "(string \<Rightarrow> string list result list result) \<Rightarrow> 'f float_api \<Rightarrow> gotime \<Rightarrow> 'p outbox \<Rightarrow> topo_getter \<Rightarrow> 'p gob_api \<Rightarrow>
   supervisor_cfg \<Rightarrow> ('p, 'f) clpa_committee result" where
  "NewCLPARelayCommittee os_Open fl now out r g scfg =
     (case NewTxSource os_Open (TxSourceType scfg) (TxSourceFile scfg) (ExcludeContractTxs scfg) of
        Inl e \<Rightarrow> Inl (Wrapf ''NewTxSource failed'' e)
      | Inr ts \<Rightarrow>
        (case new_runner fl now (ShardNum (sv_Sys scfg)) of Inl e \<Rightarrow> Inl e
         | Inr pr \<Rightarrow>
          Inr \<lparr>cm_r = r, cm_conn = out, cm_gob = g, cm_txSource = ts,
               cm_sl = \<lparr>stopThreshold = wrap64 (ShardNum (sv_Sys scfg) * stopThresholdPerShard), stopCnt = 0\<rparr>,
               cm_unsentTxNum = TxNumber scfg, cm_cfg = scfg, cm_fl = fl, cm_pr = pr\<rparr>))"

definition clpa_loc :: "('p, 'f, 'x) clpa_committee_scheme \<Rightarrow> address \<Rightarrow> int" where
  "clpa_loc c a = getVertexLocation (pr_state (cm_pr c)) \<lparr>Addr = a\<rparr>"

definition getTxLocByCLPAState :: "('p, 'f, 'x) clpa_committee_scheme \<Rightarrow> transaction \<Rightarrow> int" where
  "getTxLocByCLPAState c tx = clpa_loc c (Sender tx)"

definition add_edges :: "transaction list \<Rightarrow> 'f clpa_state \<Rightarrow> 'f clpa_state result" where
  "add_edges txs cs = foldM_res (\<lambda>tx. AddEdge \<lparr>Addr = Sender tx\<rparr> \<lparr>Addr = Recipient tx\<rparr>) txs cs"

definition CLPARelay_readTxsAndSend ::
  "com_env \<Rightarrow> ('p, 'f) clpa_committee \<Rightarrow> (unit result \<times> ('p, 'f) clpa_committee) option" where
  "CLPARelay_readTxsAndSend env c =
     (case read_next env c of None \<Rightarrow> None
      | Some (Inl e, c1) \<Rightarrow> Some (Inl (Wrapf ''failed to read txs'' e), c1)
      | Some (Inr txs, c1) \<Rightarrow> Some (dispatch (length txs) txs (getTxLocByCLPAState c1) c1))"

definition repartition ::
  "com_env \<Rightarrow> ('p, 'f, 'x) clpa_committee_scheme \<Rightarrow> unit result \<times> ('p, 'f, 'x) clpa_committee_scheme" where
  "repartition env c =
     (case CLPAPartition (cm_fl c) (ce_order env) (pr_state (cm_pr c)) of Inl e \<Rightarrow> (Inl e, c)
      | Inr (modifiedMap, _, cs) \<Rightarrow>
          (let ep = wrap64 (pr_supervisorEpoch (cm_pr c) + 1);
               c1 = c\<lparr>cm_pr := (cm_pr c)\<lparr>pr_state := cs, pr_supervisorEpoch := ep\<rparr>\<rparr>
           in case WrapMsg (cm_gob c) (CLPARepartitionStartMsg
                     \<lparr>rs_Epoch = ep, rs_ModifiedMap = transferMapBytes2Addr modifiedMap\<rparr>) of
                Inl e \<Rightarrow> (Inl (Wrapf ''wrapMsg failed'' e), c1)
              | Inr w \<Rightarrow>
                  (Inr (), c1\<lparr>cm_conn := GroupBroadcastMessage (GetAllLeaders (cm_r c)) w (cm_conn c),
                             cm_pr := (cm_pr c1)\<lparr>pr_epochSynced := False\<rparr>,
                             cm_sl := (cm_sl c)\<lparr>stopCnt := 0\<rparr>\<rparr>)))"

text \<open>The control flow that both CLPA committees have in \<open>SendTxsAndConsensus\<close>.\<close>

definition clpa_turn ::
  "(com_env \<Rightarrow> ('p, 'f, 'x) clpa_committee_scheme \<Rightarrow> unit result \<times> ('p, 'f, 'x) clpa_committee_scheme) \<Rightarrow>
   (com_env \<Rightarrow> ('p, 'f, 'x) clpa_committee_scheme \<Rightarrow> (unit result \<times> ('p, 'f, 'x) clpa_committee_scheme) option) \<Rightarrow>
   com_env \<Rightarrow> ('p, 'f, 'x) clpa_committee_scheme \<Rightarrow> (unit result \<times> ('p, 'f, 'x) clpa_committee_scheme) option" where
  "clpa_turn repart readTxsAndSend env c =
     (case CheckEpochSyncAndMark (ce_mark env) (cm_pr c) of
        (False, p) \<Rightarrow> Some (Inr (), c\<lparr>cm_pr := p\<rparr>)
      | (True, p) \<Rightarrow>
          (let c1 = c\<lparr>cm_pr := p\<rparr> in
           if fl_less (cm_fl c) (fl_of_int (cm_fl c) (EpochDuration (cm_cfg c)))
                (Duration_Seconds (cm_fl c) (time_Sub (ce_now env) (pr_lastRunTime p)))
           then Some (apfst (wrap_err ''repartition failed'') (repart env c1))
           else map_option (apfst (wrap_err ''readTxsAndSend failed'')) (readTxsAndSend env c1)))"

definition CLPARelay_SendTxsAndConsensus ::
  "com_env \<Rightarrow> ('p, 'f) clpa_committee \<Rightarrow> (unit result \<times> ('p, 'f) clpa_committee) option" where
  "CLPARelay_SendTxsAndConsensus = clpa_turn repartition CLPARelay_readTxsAndSend"

definition see_epoch :: "int \<Rightarrow> int \<Rightarrow> 'f partition_runner \<Rightarrow> 'f partition_runner result" where
  "see_epoch sid ep p =
     (case idx_upd sid (\<lambda>e. max e ep) (pr_shardEpoch p) of Inl e \<Rightarrow> Inl e | Inr es \<Rightarrow> Inr (p\<lparr>pr_shardEpoch := es\<rparr>))"

definition CLPARelay_HandleMsg ::
  "'p wrapped_msg \<Rightarrow> ('p, 'f) clpa_committee \<Rightarrow> unit result \<times> ('p, 'f) clpa_committee" where
  "CLPARelay_HandleMsg m c =
     (if MsgType m \<noteq> RelayBlockInfoMessageType then (Inr (), c)
      else (case g_dec_RelayBlockInfo (cm_gob c) (Payload m) of
              Inl e \<Rightarrow> (Inl (Wrapf ''decode relayBlockInfoMsg'' e), c)
            | Inr bInfo \<Rightarrow>
                if ri_ShardID bInfo \<ge> cm_shards c then (Inl (Errorf ''shard out of range''), c)
                else (case see_epoch (ri_ShardID bInfo) (ri_Epoch bInfo) (cm_pr c) of Inl e \<Rightarrow> (Inl e, c)
                | Inr p \<Rightarrow>
                    (let c1 = count_block (relay_tx_count bInfo) (c\<lparr>cm_pr := p\<rparr>) in
                     case add_edges (ri_InnerShardTxs bInfo @ ri_Relay2Txs bInfo) (pr_state p) of Inl e \<Rightarrow> (Inl e, c1)
                     | Inr cs \<Rightarrow> (Inr (), c1\<lparr>cm_pr := p\<lparr>pr_state := cs\<rparr>\<rparr>)))))"

section \<open>Packing and sending\<close>

lemma put_shard_length [simp]: "length (put_shard n loc tx xss) = length xss"
  by (simp add: put_shard_def Let_def)

lemma fold_put_shard:
  "length xss = nat n \<Longrightarrow> length (fold (put_shard n loc) txs xss) = nat n \<and>
   (\<forall>k<nat n. fold (put_shard n loc) txs xss ! k = xss ! k @ filter (\<lambda>tx. loc tx = int k) txs)"
proof (induction txs arbitrary: xss)
  case (Cons tx txs)
  have "put_shard n loc tx xss ! k = xss ! k @ (if loc tx = int k then [tx] else [])" if "k < nat n" for k
    using that Cons.prems by (auto simp: put_shard_def Let_def nth_list_update)
  with Cons.IH [of "put_shard n loc tx xss"] Cons.prems show ?case by auto
qed simp

lemma packShardTxs_eq:
  "0 \<le> n \<Longrightarrow> packShardTxs txs n loc = Inr (map (\<lambda>k. filter (\<lambda>tx. loc tx = int k) txs) [0..<nat n])"
  using fold_put_shard [of "replicate (nat n) []" n loc txs] by (auto simp: packShardTxs_def intro!: nth_equalityI)

lemma mset_classes:
  "mset (concat (map (\<lambda>k. filter (\<lambda>x. g x = int k) xs) [0..<n])) = mset (filter (\<lambda>x. 0 \<le> g x \<and> g x < int n) xs)"
proof (induction n)
  case (Suc n)
  have "filter (\<lambda>x. 0 \<le> g x \<and> g x < int (Suc n)) xs = filter (\<lambda>x. (0 \<le> g x \<and> g x < int n) \<or> g x = int n) xs"
    by (rule filter_cong) auto
  moreover have "mset (filter (\<lambda>x. (0 \<le> g x \<and> g x < int n) \<or> g x = int n) xs) =
      mset (filter (\<lambda>x. 0 \<le> g x \<and> g x < int n) xs) + mset (filter (\<lambda>x. g x = int n) xs)"
    by (induction xs) auto
  ultimately show ?case using Suc by simp
qed simp

text \<open>A successful dispatch: the leader of each shard gets the transactions located there, in their order, and no other shard gets them.\<close>

lemma dispatch_Inr:
  assumes ok: "gob_ok (cm_gob c)" "leaders_ok (cm_r c)" and run: "dispatch n txs loc c = (Inr (), c')"
  obtains new where "c' = c\<lparr>cm_conn := cm_conn c @ new, cm_unsentTxNum := wrap64 (cm_unsentTxNum c - int n)\<rparr>"
    "\<And>s. sent_to (cm_gob c) s new = (if 0 \<le> s \<and> s < cm_shards c then filter (\<lambda>tx. loc tx = s) txs else [])"
    "mset (sent_txs (cm_gob c) new) = mset (filter (\<lambda>tx. 0 \<le> loc tx \<and> loc tx < cm_shards c) txs)"
proof -
  have n: "0 \<le> cm_shards c" using run by (auto simp: dispatch_def packShardTxs_def split: if_splits)
  let ?xss = "map (\<lambda>k. filter (\<lambda>tx. loc tx = int k) txs) [0..<nat (cm_shards c)]"
  obtain out where out: "SendWrappedTxs2Shards (cm_gob c) (cm_r c) ?xss (cm_conn c) = Inr out"
    "c' = c\<lparr>cm_conn := out, cm_unsentTxNum := wrap64 (cm_unsentTxNum c - int n)\<rparr>"
    using run by (auto simp: dispatch_def packShardTxs_eq [OF n] split: sum.splits)
  from SendWrappedTxs2Shards_sent [OF ok out(1)] obtain new where new: "out = cm_conn c @ new" "sent_txs (cm_gob c) new = concat ?xss"
    "\<And>s. sent_to (cm_gob c) s new = (if 0 \<le> s \<and> s < int (length ?xss) then ?xss ! nat s else [])" by blast
  show ?thesis
  proof (rule that [of new])
    show "c' = c\<lparr>cm_conn := cm_conn c @ new, cm_unsentTxNum := wrap64 (cm_unsentTxNum c - int n)\<rparr>" using out(2) new(1) by simp
    show "mset (sent_txs (cm_gob c) new) = mset (filter (\<lambda>tx. 0 \<le> loc tx \<and> loc tx < cm_shards c) txs)"
      using mset_classes [of loc txs "nat (cm_shards c)"] n unfolding new(2) by simp
    show "sent_to (cm_gob c) s new = (if 0 \<le> s \<and> s < cm_shards c then filter (\<lambda>tx. loc tx = s) txs else [])" for s
      using n by (simp add: new(3))
  qed
qed

lemma dispatch_Inl: "dispatch n txs loc c = (Inl e, c') \<Longrightarrow> c' = c"
  by (auto simp: dispatch_def split: sum.splits)

section \<open>What every committee keeps\<close>

text \<open>
  What is unsent is never negative, so no read asks a source for a negative number, and blocks count towards stopping only
  after the last transaction is sent.
\<close>

definition base_ok :: "('p, 'x) committee_scheme \<Rightarrow> bool" where
  "base_ok c \<longleftrightarrow> 0 \<le> cm_unsentTxNum c \<and> in_int64 (cm_unsentTxNum c) \<and> 0 \<le> TxInjectionSpeed (cm_cfg c) \<and>
     0 < stopThreshold (cm_sl c) \<and> (0 < stopCnt (cm_sl c) \<longrightarrow> cm_unsentTxNum c = 0)"

text \<open>Two states that agree on the shared fields.\<close>

definition same_base :: "('p, 'x) committee_scheme \<Rightarrow> ('p, 'y) committee_scheme \<Rightarrow> bool" where
  "same_base c c' \<longleftrightarrow> cm_r c' = cm_r c \<and> cm_conn c' = cm_conn c \<and> cm_gob c' = cm_gob c \<and> cm_txSource c' = cm_txSource c \<and>
     cm_sl c' = cm_sl c \<and> cm_unsentTxNum c' = cm_unsentTxNum c \<and> cm_cfg c' = cm_cfg c"

lemma same_base_refl [simp]: "same_base c c"
  by (simp add: same_base_def)

lemma same_base_trans: "same_base a b \<Longrightarrow> same_base b c \<Longrightarrow> same_base a c"
  by (simp add: same_base_def)

lemma same_base_ok: "same_base c c' \<Longrightarrow> base_ok c' = base_ok c \<and> cm_unsentTxNum c' = cm_unsentTxNum c"
  by (simp add: same_base_def base_ok_def)

lemma base_ok_stop: "base_ok c \<Longrightarrow> ShouldStop c \<Longrightarrow> cm_unsentTxNum c = 0"
  by (auto simp: base_ok_def ShouldStop_def)

lemma count_block_ok [inv_rules]: "base_ok c \<Longrightarrow> base_ok (count_block n c) \<and> cm_unsentTxNum (count_block n c) = cm_unsentTxNum c"
  by (auto simp: base_ok_def count_block_def)

lemma count_block_fields [simp]:
  "cm_conn (count_block n c) = cm_conn c" "cm_gob (count_block n c) = cm_gob c" "cm_r (count_block n c) = cm_r c"
  "cm_cfg (count_block n c) = cm_cfg c" "cm_unsentTxNum (count_block n c) = cm_unsentTxNum c"
  "cm_txSource (count_block n c) = cm_txSource c" "committee.more (count_block n c) = committee.more c"
  by (auto simp: count_block_def)

lemma read_next_Inr:
  assumes "read_next env c = Some (Inr txs, c1)" "base_ok c"
  obtains src' where "c1 = c\<lparr>cm_txSource := src'\<rparr>" "int (length txs) \<le> cm_unsentTxNum c" "base_ok c1"
proof -
  obtain src' where r: "ReadTxs (ce_src env) (min (TxInjectionSpeed (cm_cfg c)) (cm_unsentTxNum c)) (cm_txSource c) = Some (Inr txs, src')"
    "c1 = c\<lparr>cm_txSource := src'\<rparr>" using assms(1) by (auto simp: read_next_def split: option.splits)
  have "int (length txs) \<le> cm_unsentTxNum c" using src.read_bound [OF r(1)] assms(2) by (simp add: base_ok_def)
  then show ?thesis using that [of src'] r(2) assms(2) by (simp add: base_ok_def)
qed

lemma read_next_Inl:
  assumes "read_next env c = Some (Inl e, c1)" "base_ok c"
  shows "base_ok c1 \<and> cm_unsentTxNum c1 = cm_unsentTxNum c \<and> cm_conn c1 = cm_conn c \<and> cm_gob c1 = cm_gob c \<and> cm_r c1 = cm_r c \<and> cm_cfg c1 = cm_cfg c"
  using assms by (auto simp: read_next_def base_ok_def split: option.splits)

lemma dispatch_ok:
  assumes run: "dispatch n txs loc c = (r, c')" and ok: "base_ok c" "int n \<le> cm_unsentTxNum c"
  shows "base_ok c' \<and> cm_unsentTxNum c' = (if is_ok r then cm_unsentTxNum c - int n else cm_unsentTxNum c)"
proof (cases r)
  case (Inl e)
  then show ?thesis using dispatch_Inl [of n txs loc c e c'] run ok by simp
next
  case (Inr u)
  then obtain out where c': "c' = c\<lparr>cm_conn := out, cm_unsentTxNum := wrap64 (cm_unsentTxNum c - int n)\<rparr>"
    using run by (auto simp: dispatch_def split: sum.splits)
  have "in_int64 (cm_unsentTxNum c - int n)" using ok by (auto simp: base_ok_def in_int64_def)
  then show ?thesis using ok Inr by (auto simp: c' base_ok_def)
qed

lemma StaticRelay_HandleMsg_ok [inv_rules]:
  "base_ok c \<Longrightarrow> StaticRelay_HandleMsg m c = (r, c') \<Longrightarrow> base_ok c' \<and> cm_unsentTxNum c' = cm_unsentTxNum c"
  by (auto simp: StaticRelay_HandleMsg_def count_block_ok split: if_splits sum.splits)

text \<open>The shape of \<open>readTxsAndSend\<close>: an error of the source is passed on, and the rest works on what was read.\<close>

lemma read_then_ok:
  assumes ok: "base_ok c"
    and run: "(case read_next env c of None \<Rightarrow> None
      | Some (Inl e, c1) \<Rightarrow> Some (Inl (Wrapf msg e), c1)
      | Some (Inr txs, c1) \<Rightarrow> Some (K txs c1)) = Some (r, c')"
    and K: "\<And>txs c1. base_ok c1 \<Longrightarrow> int (length txs) \<le> cm_unsentTxNum c1 \<Longrightarrow> K txs c1 = (r, c') \<Longrightarrow>
      base_ok c' \<and> cm_unsentTxNum c' \<le> cm_unsentTxNum c1"
  shows "base_ok c' \<and> cm_unsentTxNum c' \<le> cm_unsentTxNum c"
proof -
  obtain q c1 where rd: "read_next env c = Some (q, c1)" using run by (auto split: option.splits)
  show ?thesis
  proof (cases q)
    case (Inl e)
    then show ?thesis using read_next_Inl [OF rd [unfolded Inl] ok] run rd by auto
  next
    case (Inr txs)
    obtain src' where c1: "c1 = c\<lparr>cm_txSource := src'\<rparr>" "int (length txs) \<le> cm_unsentTxNum c" "base_ok c1"
      by (rule read_next_Inr [OF rd [unfolded Inr] ok])
    have "K txs c1 = (r, c')" using run rd Inr by simp
    from K [OF c1(3) _ this] c1(1,2) show ?thesis by simp
  qed
qed

lemma dispatch_shrinks:
  "dispatch n txs loc c = (r, c') \<Longrightarrow> base_ok c \<Longrightarrow> int n \<le> cm_unsentTxNum c \<Longrightarrow> base_ok c' \<and> cm_unsentTxNum c' \<le> cm_unsentTxNum c"
  using dispatch_ok [of n txs loc c r c'] by (auto split: if_splits)

lemma StaticRelay_Send_ok [inv_rules]:
  assumes ok: "base_ok c" and run: "StaticRelay_SendTxsAndConsensus env c = Some (r, c')"
  shows "base_ok c' \<and> cm_unsentTxNum c' \<le> cm_unsentTxNum c"
proof -
  obtain r' where "StaticRelay_readTxsAndSend env c = Some (r', c')" using run by (auto simp: StaticRelay_SendTxsAndConsensus_def)
  from read_then_ok [OF ok this [unfolded StaticRelay_readTxsAndSend_def] dispatch_shrinks] show ?thesis .
qed

section \<open>Epochs\<close>

lemma CheckEpochSyncAndMark_spec:
  "CheckEpochSyncAndMark now p = (b, p') \<Longrightarrow>
   pr_state p' = pr_state p \<and> pr_supervisorEpoch p' = pr_supervisorEpoch p \<and> pr_shardEpoch p' = pr_shardEpoch p \<and>
   pr_epochSynced p' = b \<and> (b \<longrightarrow> pr_epochSynced p \<or> (\<forall>e\<in>set (pr_shardEpoch p). e = pr_supervisorEpoch p))"
  by (auto simp: CheckEpochSyncAndMark_def list_ex_iff split: if_splits)

lemma repartition_fields:
  assumes "repartition env c = (r, c')"
  shows "cm_unsentTxNum c' = cm_unsentTxNum c" "cm_cfg c' = cm_cfg c" "cm_gob c' = cm_gob c" "cm_r c' = cm_r c"
    "cm_fl c' = cm_fl c" "clpa_committee.more c' = clpa_committee.more c" "stopThreshold (cm_sl c') = stopThreshold (cm_sl c)"
    "stopCnt (cm_sl c') \<in> {0, stopCnt (cm_sl c)}" "pr_shardEpoch (cm_pr c') = pr_shardEpoch (cm_pr c)"
  using assms by (auto simp: repartition_def Let_def split: sum.splits prod.splits)

lemma repartition_ok: "base_ok c \<Longrightarrow> repartition env c = (r, c') \<Longrightarrow> base_ok c' \<and> cm_unsentTxNum c' = cm_unsentTxNum c"
  using repartition_fields [of env c r c'] by (auto simp: base_ok_def)

lemma clpa_turn_ok:
  assumes ok: "base_ok c" and run: "clpa_turn repartition rd env c = Some (r, c')"
    and rd: "\<And>c c' r. base_ok c \<Longrightarrow> rd env c = Some (r, c') \<Longrightarrow> base_ok c' \<and> cm_unsentTxNum c' \<le> cm_unsentTxNum c"
  shows "base_ok c' \<and> cm_unsentTxNum c' \<le> cm_unsentTxNum c"
proof -
  obtain b p where p: "CheckEpochSyncAndMark (ce_mark env) (cm_pr c) = (b, p)" by (rule prod.exhaust)
  let ?c1 = "c\<lparr>cm_pr := p\<rparr>"
  have ok1: "base_ok ?c1" using ok by (simp add: base_ok_def)
  consider "c' = ?c1" | q where "repartition env ?c1 = (q, c')" | q where "rd env ?c1 = Some (q, c')"
    using run p by (cases "repartition env ?c1") (auto simp: clpa_turn_def Let_def split: if_splits bool.splits)
  then show ?thesis
  proof cases
    case 2
    from repartition_ok [OF ok1 this] show ?thesis by simp
  next
    case 3
    from rd [OF ok1 this] show ?thesis by simp
  qed (use ok1 in simp)
qed

lemma CLPARelay_read_ok:
  "base_ok c \<Longrightarrow> CLPARelay_readTxsAndSend env c = Some (r, c') \<Longrightarrow> base_ok c' \<and> cm_unsentTxNum c' \<le> cm_unsentTxNum c"
  unfolding CLPARelay_readTxsAndSend_def by (erule (1) read_then_ok) (rule dispatch_shrinks)

lemma CLPARelay_Send_ok [inv_rules]:
  "base_ok c \<Longrightarrow> CLPARelay_SendTxsAndConsensus env c = Some (r, c') \<Longrightarrow> base_ok c' \<and> cm_unsentTxNum c' \<le> cm_unsentTxNum c"
  unfolding CLPARelay_SendTxsAndConsensus_def by (rule clpa_turn_ok [OF _ _ CLPARelay_read_ok])

lemma base_ok_pr [simp]: "base_ok (c\<lparr>cm_pr := p\<rparr>) = base_ok c"
  by (simp add: base_ok_def)

lemma CLPARelay_HandleMsg_ok [inv_rules]:
  "base_ok c \<Longrightarrow> CLPARelay_HandleMsg m c = (r, c') \<Longrightarrow> base_ok c' \<and> cm_unsentTxNum c' = cm_unsentTxNum c"
  using count_block_ok [of "c\<lparr>cm_pr := p\<rparr>" for p]
  by (auto simp: CLPARelay_HandleMsg_def Let_def split: if_splits sum.splits)

end
