(* ===== verification/Broker_Manager.thy ===== *)
theory Broker_Manager
  imports Chain
begin

text \<open>
  The manager of the brokers (\<open>pkg/broker/broker.go\<close>): it turns a cross-shard transaction into a raw broker
  transaction and follows its two halves until both are confirmed. The hash of a transaction is the
  hash field of the codec; the answers of the random number generator, the clock and the broker file are parameters.
\<close>

section \<open>State\<close>

abbreviation (input) stageWaitConfirm1 :: int where "stageWaitConfirm1 \<equiv> 1"
abbreviation (input) stageWaitConfirm2 :: int where "stageWaitConfirm2 \<equiv> 2"

record tx_info_stage =
  rawTx :: transaction
  confirmStage :: int

record manager =
  broker2Nonce :: "(address, 64 word) gomap"
  unconfirmedTxInfo :: "(bytes, tx_info_stage) gomap"
  readyBroker1TxHashes :: "bytes list"
  readyBroker2TxHashes :: "bytes list"
  brokers :: "address list"

text \<open>\<open>strings.TrimSpace\<close> on ASCII text.\<close>

definition is_space :: "char \<Rightarrow> bool" where
  "is_space c \<longleftrightarrow> of_char c \<in> {9, 10, 11, 12, 13, 32 :: nat}"

definition TrimSpace :: "string \<Rightarrow> string" where
  "TrimSpace s = rev (dropWhile is_space (rev (dropWhile is_space s)))"

fun read_brokers :: "int \<Rightarrow> string list \<Rightarrow> (address, 64 word) gomap \<Rightarrow> (address, 64 word) gomap result" where
  "read_brokers num [] bs = Inr bs"
| "read_brokers num (l # ls) bs =
     (let line = TrimSpace l in
      if line = '''' then read_brokers num ls bs
      else (case Hex2Addr line of Inl e \<Rightarrow> Inl (Wrapf ''invalid broker address'' e)
            | Inr addr \<Rightarrow>
                (let bs' = AList.update addr 0 bs in
                 if int (length bs') \<ge> num then Inr bs' else read_brokers num ls bs')))"

text \<open>The file is its lines and the error of the scanner, which is looked at after the loop.\<close>

definition readBrokersFromFile ::
  "(string list \<times> unit result) result \<Rightarrow> int \<Rightarrow> (address, 64 word) gomap result" where
  "readBrokersFromFile file num =
     (case file of Inl e \<Rightarrow> Inl (Wrapf ''open broker file'' e)
      | Inr (lines, scan_err) \<Rightarrow>
        (case read_brokers num lines [] of Inl e \<Rightarrow> Inl e
         | Inr bs \<Rightarrow>
           (case scan_err of Inl e \<Rightarrow> Inl (Wrapf ''read broker file'' e) | Inr _ \<Rightarrow> Inr bs)))"

definition NewBrokerManager :: "(string list \<times> unit result) result \<Rightarrow> int \<Rightarrow> manager result" where
  "NewBrokerManager file num =
     (case readBrokersFromFile file num of Inl e \<Rightarrow> Inl (Wrapf ''read brokers'' e)
      | Inr bs \<Rightarrow> Inr \<lparr>broker2Nonce = bs, unconfirmedTxInfo = [], readyBroker1TxHashes = [], readyBroker2TxHashes = [],
                      brokers = map fst bs\<rparr>)"

definition IsBroker :: "manager \<Rightarrow> address \<Rightarrow> bool" where
  "IsBroker s addr \<longleftrightarrow> map_of (broker2Nonce s) addr \<noteq> None"

definition GetBrokers :: "manager \<Rightarrow> address list" where
  "GetBrokers s = brokers s"

section \<open>Operations\<close>

definition CreateRawTx :: "'t codec \<Rightarrow> transaction \<Rightarrow> address \<Rightarrow> manager \<Rightarrow> transaction result \<times> manager" where
  "CreateRawTx cd tx brokerAddr s =
     (case Tx_Hash cd tx of Inl e \<Rightarrow> (Inl (Wrapf ''calc hash'' e), s)
      | Inr th \<Rightarrow>
        if \<not> IsBroker s brokerAddr then (Inl (Errorf ''not a broker address''), s)
        else if map_of (unconfirmedTxInfo s) th \<noteq> None
          then (Inl (Errorf ''tx hash already exists in the unconfirmed tx set''), s)
        else (let nonce = map_get (broker2Nonce s) brokerAddr 0 + 1;
                  raw = tx\<lparr>BrokerStage := RawTxBrokerStage, Broker := brokerAddr, BOriginalHash := th,
                           OriginalTxCreateTime := CreateTime tx, NonceBroker := nonce, HeightLock := 0, HeightCurrent := 0\<rparr>
              in (Inr raw,
                  s\<lparr>broker2Nonce := AList.update brokerAddr nonce (broker2Nonce s),
                    unconfirmedTxInfo := AList.update th \<lparr>rawTx = raw, confirmStage = stageWaitConfirm1\<rparr> (unconfirmedTxInfo s),
                    readyBroker1TxHashes := readyBroker1TxHashes s @ [th]\<rparr>)))"

text \<open>The \<open>i\<close>-th answer of \<open>rand.Intn\<close> is \<open>rnd i\<close> reduced to its range; with no broker at all \<open>rand.Intn\<close> panics.\<close>

fun CreateRawTxsRandomBroker ::
  "'t codec \<Rightarrow> (nat \<Rightarrow> nat) \<Rightarrow> nat \<Rightarrow> transaction list \<Rightarrow> manager \<Rightarrow> transaction list result \<times> manager" where
  "CreateRawTxsRandomBroker cd rnd i [] s = (Inr [], s)"
| "CreateRawTxsRandomBroker cd rnd i (tx # txs) s =
     (if brokers s = [] then (Inl (Panic ''invalid argument to Intn''), s)
      else (case CreateRawTx cd tx (brokers s ! (rnd i mod length (brokers s))) s of
              (Inl e, s') \<Rightarrow> (Inl (Wrapf ''CreateRawTx failed'' e), s')
            | (Inr raw, s') \<Rightarrow>
                (case CreateRawTxsRandomBroker cd rnd (i + 1) txs s' of
                   (Inl e, s'') \<Rightarrow> (Inl e, s'') | (Inr raws, s'') \<Rightarrow> (Inr (raw # raws), s''))))"

definition createBroker1Tx :: "manager \<Rightarrow> gotime \<Rightarrow> bytes \<Rightarrow> transaction result" where
  "createBroker1Tx s now txHash =
     (case map_of (unconfirmedTxInfo s) txHash of None \<Rightarrow> Inl (Errorf ''not a recorded raw tx'')
      | Some info \<Rightarrow>
          if confirmStage info \<noteq> stageWaitConfirm1 then Inl (Errorf ''invalid confirm stage'')
          else Inr ((rawTx info)\<lparr>BrokerStage := Sigma1BrokerStage, CreateTime := now\<rparr>))"

definition createBroker2Tx :: "manager \<Rightarrow> gotime \<Rightarrow> bytes \<Rightarrow> transaction result" where
  "createBroker2Tx s now txHash =
     (case map_of (unconfirmedTxInfo s) txHash of None \<Rightarrow> Inl (Errorf ''not a recorded raw tx'')
      | Some info \<Rightarrow>
          if confirmStage info \<noteq> stageWaitConfirm2 then Inl (Errorf ''invalid confirm stage'')
          else Inr ((rawTx info)\<lparr>BrokerStage := Sigma2BrokerStage, CreateTime := now\<rparr>))"

text \<open>The loops over the ready hashes log an error and go on; \<open>clk i\<close> is the time of the \<open>i\<close>-th creation.\<close>

fun create_ready :: "(gotime \<Rightarrow> bytes \<Rightarrow> transaction result) \<Rightarrow> (nat \<Rightarrow> gotime) \<Rightarrow> nat \<Rightarrow> bytes list \<Rightarrow> transaction list" where
  "create_ready mk clk i [] = []"
| "create_ready mk clk i (h # hs) =
     (case mk (clk i) h of Inl _ \<Rightarrow> create_ready mk clk (i + 1) hs | Inr tx \<Rightarrow> tx # create_ready mk clk (i + 1) hs)"

definition CreateBrokerTxs :: "(nat \<Rightarrow> gotime) \<Rightarrow> manager \<Rightarrow> (transaction list \<times> transaction list) \<times> manager" where
  "CreateBrokerTxs clk s =
     (let b1Txs = create_ready (createBroker1Tx s) clk 0 (readyBroker1TxHashes s);
          s1 = s\<lparr>readyBroker1TxHashes := []\<rparr>;
          b2Txs = create_ready (createBroker2Tx s1) clk (length (readyBroker1TxHashes s)) (readyBroker2TxHashes s1)
      in ((b1Txs, b2Txs), s1\<lparr>readyBroker2TxHashes := []\<rparr>))"

definition ConfirmBrokerTx :: "transaction \<Rightarrow> manager \<Rightarrow> unit result \<times> manager" where
  "ConfirmBrokerTx tx s =
     (if \<not> IsBroker s (Broker tx) then (Inl (Errorf ''not a broker address''), s)
      else (case map_of (unconfirmedTxInfo s) (BOriginalHash tx) of None \<Rightarrow> (Inl (Errorf ''not a recorded tx''), s)
      | Some info \<Rightarrow>
          if confirmStage info = stageWaitConfirm1 then
            (if BrokerStage tx \<noteq> Sigma1BrokerStage then (Inl (Errorf ''invalid confirm stage, expect wait-confirm-1''), s)
             else (Inr (), s\<lparr>unconfirmedTxInfo := AList.update (BOriginalHash tx) (info\<lparr>confirmStage := stageWaitConfirm2\<rparr>)
                               (unconfirmedTxInfo s),
                             readyBroker2TxHashes := readyBroker2TxHashes s @ [BOriginalHash tx]\<rparr>))
          else if confirmStage info = stageWaitConfirm2 then
            (if BrokerStage tx \<noteq> Sigma2BrokerStage then (Inl (Errorf ''invalid confirm stage, expect wait-confirm-2''), s)
             else (Inr (), s\<lparr>unconfirmedTxInfo := AList.delete (BOriginalHash tx) (unconfirmedTxInfo s)\<rparr>))
          else (Inl (Errorf ''invalid confirm stage''), s)))"

definition IsFinished :: "manager \<Rightarrow> bool" where
  "IsFinished s \<longleftrightarrow> unconfirmedTxInfo s = [] \<and> readyBroker1TxHashes s = [] \<and> readyBroker2TxHashes s = []"

section \<open>Invariant\<close>

definition stage_of :: "manager \<Rightarrow> bytes \<Rightarrow> int option" where
  "stage_of s h = map_option confirmStage (map_of (unconfirmedTxInfo s) h)"

definition in_stage :: "manager \<Rightarrow> int \<Rightarrow> bytes set" where
  "in_stage s n = {h. stage_of s h = Some n}"

definition bm_inv :: "manager \<Rightarrow> bool" where
  "bm_inv s \<longleftrightarrow> distinct (readyBroker1TxHashes s) \<and> distinct (readyBroker2TxHashes s) \<and>
     set (readyBroker1TxHashes s) \<subseteq> in_stage s stageWaitConfirm1 \<and> set (readyBroker2TxHashes s) \<subseteq> in_stage s stageWaitConfirm2 \<and>
     (\<forall>h info. map_of (unconfirmedTxInfo s) h = Some info \<longrightarrow>
        BOriginalHash (rawTx info) = h \<and> (confirmStage info = stageWaitConfirm1 \<or> confirmStage info = stageWaitConfirm2))"

lemma finite_in_stage [simp]: "finite (in_stage s n)"
proof -
  have "in_stage s n \<subseteq> fst ` set (unconfirmedTxInfo s)"
    by (auto simp: in_stage_def stage_of_def dest!: map_of_SomeD intro: rev_image_eqI)
  then show ?thesis by (rule finite_subset) simp
qed

lemma stage_of_update:
  "stage_of (s\<lparr>unconfirmedTxInfo := AList.update h i m\<rparr>) x = (if x = h then Some (confirmStage i) else map_option confirmStage (map_of m x))"
  by (simp add: stage_of_def AList_update_lookup)

lemma NewBrokerManager_inv: "NewBrokerManager file num = Inr s \<Longrightarrow> bm_inv s \<and> in_stage s n = {}"
  by (auto simp: NewBrokerManager_def bm_inv_def in_stage_def stage_of_def split: sum.splits)

lemma CreateRawTx_Inr:
  assumes "CreateRawTx cd tx b s = (Inr raw, s')" "bm_inv s"
  shows "\<exists>h. Tx_Hash cd tx = Inr h \<and> stage_of s h = None \<and> stage_of s' = (stage_of s)(h \<mapsto> 1) \<and> bm_inv s' \<and>
    readyBroker1TxHashes s' = readyBroker1TxHashes s @ [h] \<and> readyBroker2TxHashes s' = readyBroker2TxHashes s"
proof -
  obtain h where h: "Tx_Hash cd tx = Inr h" "map_of (unconfirmedTxInfo s) h = None"
    and s': "s' = s\<lparr>broker2Nonce := broker2Nonce s', unconfirmedTxInfo := AList.update h \<lparr>rawTx = raw, confirmStage = 1\<rparr> (unconfirmedTxInfo s),
      readyBroker1TxHashes := readyBroker1TxHashes s @ [h]\<rparr>" and raw: "BOriginalHash raw = h"
    using assms(1) by (auto simp: CreateRawTx_def Let_def split: sum.splits if_splits)
  have st: "stage_of s' = (stage_of s)(h \<mapsto> 1)" by (rule ext) (subst s', simp add: stage_of_def AList_update_lookup)
  have rd: "readyBroker1TxHashes s' = readyBroker1TxHashes s @ [h]" "readyBroker2TxHashes s' = readyBroker2TxHashes s"
    by (subst s', simp)+
  have none: "stage_of s h = None" using h(2) by (simp add: stage_of_def)
  have un: "map_of (unconfirmedTxInfo s') = (map_of (unconfirmedTxInfo s))(h \<mapsto> \<lparr>rawTx = raw, confirmStage = 1\<rparr>)"
    by (rule ext) (subst s', simp add: AList_update_lookup)
  have "bm_inv s'" using assms(2) none raw unfolding bm_inv_def rd un in_stage_def st by (auto simp: in_stage_def)
  with h(1) none st rd show ?thesis by blast
qed

lemma create_ready_all:
  assumes "\<And>h t. h \<in> set hs \<Longrightarrow> \<exists>tx. mk t h = Inr tx \<and> BOriginalHash tx = h"
  shows "map BOriginalHash (create_ready mk clk i hs) = hs"
  using assms
proof (induction hs arbitrary: i)
  case (Cons h hs)
  obtain tx where "mk (clk i) h = Inr tx" "BOriginalHash tx = h" using Cons.prems [of h] by auto
  with Cons show ?case by simp
qed simp

lemma CreateBrokerTxs_spec:
  assumes inv: "bm_inv s" and run: "CreateBrokerTxs clk s = ((b1, b2), s')"
  shows "map BOriginalHash b1 = readyBroker1TxHashes s" "map BOriginalHash b2 = readyBroker2TxHashes s"
    "bm_inv s'" "stage_of s' = stage_of s" "readyBroker1TxHashes s' = []" "readyBroker2TxHashes s' = []"
proof -
  have s': "s' = s\<lparr>readyBroker1TxHashes := [], readyBroker2TxHashes := []\<rparr>"
    and b: "b1 = create_ready (createBroker1Tx s) clk 0 (readyBroker1TxHashes s)"
      "b2 = create_ready (createBroker2Tx (s\<lparr>readyBroker1TxHashes := []\<rparr>)) clk (length (readyBroker1TxHashes s)) (readyBroker2TxHashes s)"
    using run by (auto simp: CreateBrokerTxs_def Let_def)
  have info: "\<exists>info. map_of (unconfirmedTxInfo s) h = Some info \<and> confirmStage info = n \<and> BOriginalHash (rawTx info) = h"
    if "h \<in> in_stage s n" for h n using that inv by (auto simp: in_stage_def stage_of_def bm_inv_def)
  have r: "set (readyBroker1TxHashes s) \<subseteq> in_stage s 1" "set (readyBroker2TxHashes s) \<subseteq> in_stage s 2"
    using inv by (simp_all add: bm_inv_def)
  show "map BOriginalHash b1 = readyBroker1TxHashes s" unfolding b
    by (rule create_ready_all) (use info [of _ 1] r(1) in \<open>fastforce simp: createBroker1Tx_def\<close>)
  show "map BOriginalHash b2 = readyBroker2TxHashes s" unfolding b
    by (rule create_ready_all) (use info [of _ 2] r(2) in \<open>fastforce simp: createBroker2Tx_def\<close>)
  show "bm_inv s'" using inv by (simp add: s' bm_inv_def in_stage_def stage_of_def)
  show "stage_of s' = stage_of s" by (simp add: s' stage_of_def fun_eq_iff)
qed (use run in \<open>auto simp: CreateBrokerTxs_def Let_def\<close>)

lemma ConfirmBrokerTx_Inr:
  assumes run: "ConfirmBrokerTx tx s = (Inr (), s')" and inv: "bm_inv s"
    and sent: "BOriginalHash tx \<notin> set (readyBroker1TxHashes s) \<union> set (readyBroker2TxHashes s)"
  defines "h \<equiv> BOriginalHash tx"
  shows "bm_inv s' \<and> readyBroker1TxHashes s' = readyBroker1TxHashes s \<and>
    (stage_of s h = Some 1 \<and> BrokerStage tx = Sigma1BrokerStage \<and> stage_of s' = (stage_of s)(h \<mapsto> 2) \<and>
       readyBroker2TxHashes s' = readyBroker2TxHashes s @ [h]
     \<or> stage_of s h = Some 2 \<and> BrokerStage tx = Sigma2BrokerStage \<and> stage_of s' = (stage_of s)(h := None) \<and>
       readyBroker2TxHashes s' = readyBroker2TxHashes s)"
proof -
  obtain info where info: "map_of (unconfirmedTxInfo s) h = Some info"
    using run by (auto simp: ConfirmBrokerTx_def h_def split: if_splits option.splits)
  have raw: "BOriginalHash (rawTx info) = h" using inv info by (simp add: bm_inv_def)
  consider (one) "confirmStage info = 1" "BrokerStage tx = Sigma1BrokerStage"
      "s' = s\<lparr>unconfirmedTxInfo := AList.update h (info\<lparr>confirmStage := 2\<rparr>) (unconfirmedTxInfo s),
        readyBroker2TxHashes := readyBroker2TxHashes s @ [h]\<rparr>"
    | (two) "confirmStage info = 2" "BrokerStage tx = Sigma2BrokerStage"
      "s' = s\<lparr>unconfirmedTxInfo := AList.delete h (unconfirmedTxInfo s)\<rparr>"
    using run info by (auto simp: ConfirmBrokerTx_def h_def split: if_splits)
  then show ?thesis
  proof cases
    case one
    have st: "stage_of s' = (stage_of s)(h \<mapsto> 2)" by (rule ext) (simp add: one stage_of_def AList_update_lookup)
    have un: "map_of (unconfirmedTxInfo s') = (map_of (unconfirmedTxInfo s))(h \<mapsto> info\<lparr>confirmStage := 2\<rparr>)"
      by (rule ext) (simp add: one AList_update_lookup)
    have "bm_inv s'" using inv sent raw unfolding bm_inv_def un in_stage_def st by (auto simp: one h_def in_stage_def)
    then show ?thesis using one st info by (simp add: stage_of_def)
  next
    case two
    have st: "stage_of s' = (stage_of s)(h := None)" by (rule ext) (simp add: two stage_of_def AList_delete_lookup)
    have un: "map_of (unconfirmedTxInfo s') = (map_of (unconfirmedTxInfo s))(h := None)"
      by (rule ext) (simp add: two AList_delete_lookup)
    have "bm_inv s'" using inv sent unfolding bm_inv_def un in_stage_def st by (auto simp: two h_def in_stage_def)
    then show ?thesis using two st info by (simp add: stage_of_def)
  qed
qed

section \<open>The life of a raw transaction\<close>

text \<open>
  A run of the manager logs the hashes of the raw transactions it creates, of the halves it emits and of the
  halves it confirms. A half is confirmed only after it was emitted, since the confirmation comes with a block.
\<close>

datatype bm_op = BCreate transaction address | BEmit "nat \<Rightarrow> gotime" | BConfirm transaction

record bm_log =
  lg_mgr :: manager
  created :: "bytes list"
  emitted1 :: "bytes list"
  confirmed1 :: "bytes list"
  emitted2 :: "bytes list"
  confirmed2 :: "bytes list"

definition bm_step :: "'t codec \<Rightarrow> bm_op \<Rightarrow> bm_log \<Rightarrow> bm_log" where
  "bm_step cd op lg =
     (case op of
        BCreate tx b \<Rightarrow>
          (case CreateRawTx cd tx b (lg_mgr lg) of
             (Inl _, s) \<Rightarrow> lg\<lparr>lg_mgr := s\<rparr>
           | (Inr raw, s) \<Rightarrow> lg\<lparr>lg_mgr := s, created := created lg @ [BOriginalHash raw]\<rparr>)
      | BEmit clk \<Rightarrow>
          (case CreateBrokerTxs clk (lg_mgr lg) of
             ((b1, b2), s) \<Rightarrow> lg\<lparr>lg_mgr := s, emitted1 := emitted1 lg @ map BOriginalHash b1,
                              emitted2 := emitted2 lg @ map BOriginalHash b2\<rparr>)
      | BConfirm tx \<Rightarrow>
          (case ConfirmBrokerTx tx (lg_mgr lg) of
             (Inl _, s) \<Rightarrow> lg\<lparr>lg_mgr := s\<rparr>
           | (Inr _, s) \<Rightarrow>
               if BrokerStage tx = Sigma1BrokerStage then lg\<lparr>lg_mgr := s, confirmed1 := confirmed1 lg @ [BOriginalHash tx]\<rparr>
               else lg\<lparr>lg_mgr := s, confirmed2 := confirmed2 lg @ [BOriginalHash tx]\<rparr>))"

definition after_emission :: "bm_op \<Rightarrow> bm_log \<Rightarrow> bool" where
  "after_emission op lg \<longleftrightarrow>
     (case op of BConfirm tx \<Rightarrow>
        BOriginalHash tx \<notin> set (readyBroker1TxHashes (lg_mgr lg)) \<union> set (readyBroker2TxHashes (lg_mgr lg))
      | _ \<Rightarrow> True)"

fun bm_run :: "'t codec \<Rightarrow> bm_op list \<Rightarrow> bm_log \<Rightarrow> bm_log option" where
  "bm_run cd [] lg = Some lg"
| "bm_run cd (op # ops) lg = (if after_emission op lg then bm_run cd ops (bm_step cd op lg) else None)"

definition bm_start :: "manager \<Rightarrow> bm_log" where
  "bm_start s = \<lparr>lg_mgr = s, created = [], emitted1 = [], confirmed1 = [], emitted2 = [], confirmed2 = []\<rparr>"

definition log_inv :: "bm_log \<Rightarrow> bool" where
  "log_inv lg \<longleftrightarrow> bm_inv (lg_mgr lg) \<and>
     mset (created lg) = mset (emitted1 lg) + mset (readyBroker1TxHashes (lg_mgr lg)) \<and>
     mset (created lg) = mset (confirmed1 lg) + mset_set (in_stage (lg_mgr lg) stageWaitConfirm1) \<and>
     mset (confirmed1 lg) = mset (emitted2 lg) + mset (readyBroker2TxHashes (lg_mgr lg)) \<and>
     mset (confirmed1 lg) = mset (confirmed2 lg) + mset_set (in_stage (lg_mgr lg) stageWaitConfirm2)"

lemma in_stage_put:
  "stage_of s' = (stage_of s)(h \<mapsto> n) \<Longrightarrow> in_stage s' m = (if m = n then insert h (in_stage s m) else in_stage s m - {h})"
  by (auto simp: in_stage_def)

lemma in_stage_drop: "stage_of s' = (stage_of s)(h := None) \<Longrightarrow> in_stage s' m = in_stage s m - {h}"
  by (auto simp: in_stage_def)

lemma mset_set_take: "finite A \<Longrightarrow> h \<in> A \<Longrightarrow> mset_set A = add_mset h (mset_set (A - {h}))"
  using mset_set.insert [of "A - {h}" h] by (simp add: insert_absorb)

lemma log_invD:
  assumes "log_inv lg"
  shows "bm_inv (lg_mgr lg)"
    "mset (created lg) = mset (emitted1 lg) + mset (readyBroker1TxHashes (lg_mgr lg))"
    "mset (created lg) = mset (confirmed1 lg) + mset_set (in_stage (lg_mgr lg) stageWaitConfirm1)"
    "mset (confirmed1 lg) = mset (emitted2 lg) + mset (readyBroker2TxHashes (lg_mgr lg))"
    "mset (confirmed1 lg) = mset (confirmed2 lg) + mset_set (in_stage (lg_mgr lg) stageWaitConfirm2)"
  using assms unfolding log_inv_def by blast+

lemma bm_step_inv:
  assumes inv: "log_inv lg" and ok: "after_emission op lg"
  shows "log_inv (bm_step cd op lg)"
proof (cases op)
  case (BCreate tx b)
  have bm: "bm_inv (lg_mgr lg)" using inv by (simp add: log_inv_def)
  obtain r s where run: "CreateRawTx cd tx b (lg_mgr lg) = (r, s)" by (rule prod.exhaust)
  show ?thesis
  proof (cases r)
    case (Inl e)
    then have "s = lg_mgr lg" using run by (auto simp: CreateRawTx_def Let_def split: sum.splits if_splits)
    then show ?thesis using inv Inl run BCreate by (simp add: bm_step_def)
  next
    case (Inr raw)
    obtain h where h: "Tx_Hash cd tx = Inr h" "stage_of (lg_mgr lg) h = None" "stage_of s = (stage_of (lg_mgr lg))(h \<mapsto> 1)"
      "bm_inv s" "readyBroker1TxHashes s = readyBroker1TxHashes (lg_mgr lg) @ [h]" "readyBroker2TxHashes s = readyBroker2TxHashes (lg_mgr lg)"
      using CreateRawTx_Inr [OF run [unfolded Inr] bm] by blast
    have raw: "BOriginalHash raw = h" using run Inr h(1) by (auto simp: CreateRawTx_def Let_def split: if_splits)
    have "h \<notin> in_stage (lg_mgr lg) n" for n using h(2) by (simp add: in_stage_def)
    then have st: "mset_set (in_stage s 1) = add_mset h (mset_set (in_stage (lg_mgr lg) 1))" "in_stage s 2 = in_stage (lg_mgr lg) 2"
      by (simp_all add: in_stage_put [OF h(3)])
    have lg': "bm_step cd op lg = lg\<lparr>lg_mgr := s, created := created lg @ [h]\<rparr>"
      by (simp add: BCreate bm_step_def run Inr raw)
    show ?thesis unfolding lg' log_inv_def
    proof (intro conjI)
      show "bm_inv (lg_mgr (lg\<lparr>lg_mgr := s, created := created lg @ [h]\<rparr>))" using h(4) by simp
    qed (use log_invD(2) [OF inv] h(5) in simp, use log_invD(3) [OF inv] st(1) in simp,
         use log_invD(4) [OF inv] h(6) in simp, use log_invD(5) [OF inv] st(2) in simp)
  qed
next
  case (BEmit clk)
  have bm: "bm_inv (lg_mgr lg)" using inv by (simp add: log_inv_def)
  obtain b1 b2 s where run: "CreateBrokerTxs clk (lg_mgr lg) = ((b1, b2), s)" by (metis surj_pair)
  note sp = CreateBrokerTxs_spec [OF bm run]
  have lg': "bm_step cd op lg = lg\<lparr>lg_mgr := s, emitted1 := emitted1 lg @ readyBroker1TxHashes (lg_mgr lg),
      emitted2 := emitted2 lg @ readyBroker2TxHashes (lg_mgr lg)\<rparr>"
    by (simp add: BEmit bm_step_def run sp(1,2))
  have st: "in_stage s n = in_stage (lg_mgr lg) n" for n by (simp add: in_stage_def sp(4))
  show ?thesis unfolding lg' log_inv_def
    by (intro conjI; simp add: sp(3,5,6) st) (use log_invD(2) [OF inv] in simp, use log_invD(3) [OF inv] in simp,
        use log_invD(4) [OF inv] in simp, use log_invD(5) [OF inv] in simp)
next
  case (BConfirm tx)
  have bm: "bm_inv (lg_mgr lg)" using inv by (simp add: log_inv_def)
  obtain r s where run: "ConfirmBrokerTx tx (lg_mgr lg) = (r, s)" by (rule prod.exhaust)
  show ?thesis
  proof (cases r)
    case (Inl e)
    then have "s = lg_mgr lg" using run by (auto simp: ConfirmBrokerTx_def split: option.splits if_splits)
    then show ?thesis using inv Inl run BConfirm by (simp add: bm_step_def)
  next
    case (Inr u)
    let ?h = "BOriginalHash tx"
    have c: "bm_inv s" "readyBroker1TxHashes s = readyBroker1TxHashes (lg_mgr lg)"
      "stage_of (lg_mgr lg) ?h = Some 1 \<and> BrokerStage tx = Sigma1BrokerStage \<and> stage_of s = (stage_of (lg_mgr lg))(?h \<mapsto> 2) \<and>
         readyBroker2TxHashes s = readyBroker2TxHashes (lg_mgr lg) @ [?h]
       \<or> stage_of (lg_mgr lg) ?h = Some 2 \<and> BrokerStage tx = Sigma2BrokerStage \<and> stage_of s = (stage_of (lg_mgr lg))(?h := None) \<and>
         readyBroker2TxHashes s = readyBroker2TxHashes (lg_mgr lg)"
      using ConfirmBrokerTx_Inr [of tx "lg_mgr lg" s] run Inr bm ok BConfirm by (auto simp: after_emission_def)
    from c(3) show ?thesis
    proof (elim disjE conjE)
      assume st: "stage_of (lg_mgr lg) ?h = Some 1" "BrokerStage tx = Sigma1BrokerStage"
        "stage_of s = (stage_of (lg_mgr lg))(?h \<mapsto> 2)" "readyBroker2TxHashes s = readyBroker2TxHashes (lg_mgr lg) @ [?h]"
      have i: "?h \<in> in_stage (lg_mgr lg) 1" "?h \<notin> in_stage (lg_mgr lg) 2" using st(1) by (simp_all add: in_stage_def)
      note m = mset_set_take [OF finite_in_stage i(1)]
      have st': "mset_set (in_stage s 2) = add_mset ?h (mset_set (in_stage (lg_mgr lg) 2))" "in_stage s 1 = in_stage (lg_mgr lg) 1 - {?h}"
        using i by (simp_all add: in_stage_put [OF st(3)])
      have lg': "bm_step cd op lg = lg\<lparr>lg_mgr := s, confirmed1 := confirmed1 lg @ [?h]\<rparr>"
        by (simp add: BConfirm bm_step_def run Inr st(2))
      show ?thesis unfolding lg' log_inv_def
        by (intro conjI) (use c(1) in simp, use log_invD(2) [OF inv] c(2) in simp, use log_invD(3) [OF inv] m st'(2) in simp,
            use log_invD(4) [OF inv] st(4) in simp, use log_invD(5) [OF inv] st'(1) in simp)
    next
      assume st: "stage_of (lg_mgr lg) ?h = Some 2" "BrokerStage tx = Sigma2BrokerStage"
        "stage_of s = (stage_of (lg_mgr lg))(?h := None)" "readyBroker2TxHashes s = readyBroker2TxHashes (lg_mgr lg)"
      have i: "?h \<notin> in_stage (lg_mgr lg) 1" "?h \<in> in_stage (lg_mgr lg) 2" using st(1) by (simp_all add: in_stage_def)
      note m = mset_set_take [OF finite_in_stage i(2)]
      have st': "in_stage s 1 = in_stage (lg_mgr lg) 1" "in_stage s 2 = in_stage (lg_mgr lg) 2 - {?h}"
        using i by (simp_all add: in_stage_drop [OF st(3)])
      have lg': "bm_step cd op lg = lg\<lparr>lg_mgr := s, confirmed2 := confirmed2 lg @ [?h]\<rparr>"
        by (simp add: BConfirm bm_step_def run Inr st(2))
      show ?thesis unfolding lg' log_inv_def
        by (intro conjI) (use c(1) in simp, use log_invD(2) [OF inv] c(2) in simp, use log_invD(3) [OF inv] st'(1) in simp,
            use log_invD(4) [OF inv] st(4) in simp, use log_invD(5) [OF inv] m st'(2) in simp)
    qed
  qed
qed

lemma bm_run_inv: "log_inv lg \<Longrightarrow> bm_run cd ops lg = Some lg' \<Longrightarrow> log_inv lg'"
proof (induction ops arbitrary: lg)
  case (Cons op ops)
  then have "after_emission op lg" "bm_run cd ops (bm_step cd op lg) = Some lg'" by (auto split: if_splits)
  then show ?case by (rule Cons.IH [OF bm_step_inv [OF Cons.prems(1)]])
qed simp

lemma bm_start_inv: "NewBrokerManager file num = Inr s \<Longrightarrow> log_inv (bm_start s)"
  by (auto simp: log_inv_def bm_start_def NewBrokerManager_def bm_inv_def in_stage_def stage_of_def split: sum.splits)

text \<open>The two halves of a raw transaction differ in their stage and their time only.\<close>

lemma broker_halves:
  assumes "createBroker1Tx s t1 h = Inr b1" "createBroker2Tx s' t2 h = Inr b2"
    and "map_option rawTx (map_of (unconfirmedTxInfo s') h) = map_option rawTx (map_of (unconfirmedTxInfo s) h)"
  shows "b2 = b1\<lparr>BrokerStage := Sigma2BrokerStage, CreateTime := t2\<rparr>" "BrokerStage b1 = Sigma1BrokerStage"
  using assms by (auto simp: createBroker1Tx_def createBroker2Tx_def split: option.splits if_splits)

end
