(* ===== verification/Broker_Committee.thy ===== *)
theory Broker_Committee
  imports Committee Broker_Manager
begin

text \<open>
  The two committees of the broker mechanism (\<open>supervisor/committee/staticbroker.go\<close>, \<open>clpabroker.go\<close>,
  \<open>brokermsgutil.go\<close>). They turn cross-shard transactions into raw broker transactions, send the halves that the manager
  has ready and confirm the halves that the shards report.

  The static committee also keeps the balance of each broker in each shard and what is promised of it. The
  lemmas show that both committees keep the contract of the shared fields.
\<close>

section \<open>The static broker committee\<close>

record 'p broker_committee = "'p committee" +
  bManager :: manager
  brokerBalances :: "(address, int list) gomap"
  pendingDeductions :: "(address, int list) gomap"

definition brokerBlockTxCount :: "broker_block_info_msg \<Rightarrow> nat" where
  "brokerBlockTxCount b = length (bi_InnerShardTxs b) + length (bi_Broker1Txs b) + length (bi_Broker2Txs b) +
     length (bi_Relay1Txs b) + length (bi_Relay2Txs b)"

definition BrokerInitBalance :: int where
  "BrokerInitBalance = (case big_SetString BrokerInitBalanceStr of Some b \<Rightarrow> b | None \<Rightarrow> 0)"

definition NewStaticBrokerCommittee ::
  "(string \<Rightarrow> string list result list result) \<Rightarrow> (string \<Rightarrow> (string list \<times> unit result) result) \<Rightarrow> 'p outbox \<Rightarrow>
   topo_getter \<Rightarrow> 'p gob_api \<Rightarrow> supervisor_cfg \<Rightarrow> 'p broker_committee result" where
  "NewStaticBrokerCommittee os_Open broker_file out r g scfg =
     (case NewTxSource os_Open (TxSourceType scfg) (TxSourceFile scfg) (ExcludeContractTxs scfg) of
        Inl e \<Rightarrow> Inl (Wrapf ''NewTxSource failed'' e)
      | Inr ts \<Rightarrow>
        (case NewBrokerManager (broker_file (BrokerFilePath scfg)) (BrokerNum scfg) of
           Inl e \<Rightarrow> Inl (Wrapf ''NewBrokerManager failed'' e)
         | Inr bs \<Rightarrow>
             if ShardNum (sv_Sys scfg) < 0 \<and> GetBrokers bs \<noteq> [] then Inl (Panic ''makeslice: len out of range'')
             else
             (let n = nat (ShardNum (sv_Sys scfg)) in
              Inr \<lparr>cm_r = r, cm_conn = out, cm_gob = g, cm_txSource = ts,
                   cm_sl = \<lparr>stopThreshold = wrap64 (ShardNum (sv_Sys scfg) * stopThresholdPerShard), stopCnt = 0\<rparr>,
                   cm_unsentTxNum = TxNumber scfg, cm_cfg = scfg, bManager = bs,
                   brokerBalances = fold (\<lambda>b. AList.update b (replicate n BrokerInitBalance)) (GetBrokers bs) [],
                   pendingDeductions = fold (\<lambda>b. AList.update b (replicate n 0)) (GetBrokers bs) []\<rparr>)))"

text \<open>\<open>m[b][shard]\<close> of a map of slices: a missing entry is a nil slice, so indexing it panics.\<close>

definition cell_get :: "address \<Rightarrow> int \<Rightarrow> (address, int list) gomap \<Rightarrow> int result" where
  "cell_get b s m = idx_get s (map_get m b [])"

definition cell_upd :: "address \<Rightarrow> int \<Rightarrow> (int \<Rightarrow> int) \<Rightarrow> (address, int list) gomap \<Rightarrow> (address, int list) gomap result" where
  "cell_upd b s h m = (case idx_upd s h (map_get m b []) of Inl e \<Rightarrow> Inl e | Inr xs \<Rightarrow> Inr (AList.update b xs m))"

text \<open>The loop that looks for a broker with enough money in the shard of the recipient.\<close>

fun find_broker ::
  "'t codec \<Rightarrow> transaction \<Rightarrow> int \<Rightarrow> address list \<Rightarrow> 'p broker_committee \<Rightarrow> (bool \<times> 'p broker_committee) result" where
  "find_broker cd tx recipientShard [] c = Inr (False, c)"
| "find_broker cd tx recipientShard (bAddr # rest) c =
     (case cell_get bAddr recipientShard (brokerBalances c) of Inl e \<Rightarrow> Inl e
      | Inr balance \<Rightarrow>
        (case cell_get bAddr recipientShard (pendingDeductions c) of Inl e \<Rightarrow> Inl e
         | Inr pending \<Rightarrow>
             if balance - pending \<ge> Value tx then
               (case cell_upd bAddr recipientShard (\<lambda>p. p + Value tx) (pendingDeductions c) of Inl e \<Rightarrow> Inl e
                | Inr pd \<Rightarrow>
                    (case CreateRawTx cd tx bAddr (bManager c) of
                       (Inl _, bm) \<Rightarrow> find_broker cd tx recipientShard rest (c\<lparr>pendingDeductions := pd, bManager := bm\<rparr>)
                     | (Inr _, bm) \<Rightarrow> Inr (True, c\<lparr>pendingDeductions := pd, bManager := bm\<rparr>)))
             else find_broker cd tx recipientShard rest c))"

definition fallback_tx :: "'t codec \<Rightarrow> transaction \<Rightarrow> transaction" where
  "fallback_tx cd tx = tx\<lparr>RelayStage := Relay1Tx, ROriginalHash := (case Tx_Hash cd tx of Inl _ \<Rightarrow> [] | Inr th \<Rightarrow> th)\<rparr>"

fun assign_cross ::
  "'t codec \<Rightarrow> com_env \<Rightarrow> nat \<Rightarrow> transaction list \<Rightarrow> 'p broker_committee \<Rightarrow> (transaction list \<times> 'p broker_committee) result" where
  "assign_cross cd env i [] c = Inr ([], c)"
| "assign_cross cd env i (tx # txs) c =
     (case find_broker cd tx (DefaultAccountLoc (Recipient tx) (cm_shards c)) (ce_shuffle env i (GetBrokers (bManager c))) c of
        Inl e \<Rightarrow> Inl e
      | Inr (found, c1) \<Rightarrow>
        (case assign_cross cd env (i + 1) txs c1 of Inl e \<Rightarrow> Inl e
         | Inr (relTxs, c2) \<Rightarrow> Inr (if found then relTxs else fallback_tx cd tx # relTxs, c2)))"

definition cross_tx :: "manager \<Rightarrow> (address \<Rightarrow> int) \<Rightarrow> transaction \<Rightarrow> bool" where
  "cross_tx bm loc tx \<longleftrightarrow> \<not> (loc (Sender tx) = loc (Recipient tx) \<or> IsBroker bm (Sender tx) \<or> IsBroker bm (Recipient tx))"

definition StaticBroker_classifyTxs :: "'p broker_committee \<Rightarrow> transaction list \<Rightarrow> transaction list \<times> transaction list" where
  "StaticBroker_classifyTxs c txs =
     (let cross = cross_tx (bManager c) (\<lambda>a. DefaultAccountLoc a (cm_shards c))
      in (filter (\<lambda>tx. \<not> cross tx) txs, filter cross txs))"

definition StaticBroker_getTxLoc :: "'p broker_committee \<Rightarrow> transaction \<Rightarrow> int" where
  "StaticBroker_getTxLoc c tx =
     (let shardNumber = cm_shards c; txType = TxType tx in
      if txType = NormalTxType \<or> txType = RelayTxType \<and> RelayStage tx = Relay1Tx then DefaultAccountLoc (Sender tx) shardNumber
      else if txType = RelayTxType \<and> RelayStage tx = Relay2Tx then DefaultAccountLoc (Recipient tx) shardNumber
      else if BrokerStage tx = Sigma1BrokerStage then DefaultAccountLoc (Sender tx) shardNumber
      else DefaultAccountLoc (Recipient tx) shardNumber)"

definition StaticBroker_readTxsAndSend ::
  "'t codec \<Rightarrow> com_env \<Rightarrow> 'p broker_committee \<Rightarrow> (unit result \<times> 'p broker_committee) option" where
  "StaticBroker_readTxsAndSend cd env c =
     (case read_next env c of None \<Rightarrow> None
      | Some (Inl e, c1) \<Rightarrow> Some (Inl (Wrapf ''failed to read txs'' e), c1)
      | Some (Inr txs, c1) \<Rightarrow>
          Some (case StaticBroker_classifyTxs c1 txs of (inTxs, crossTxs) \<Rightarrow>
            (case assign_cross cd env 0 crossTxs c1 of Inl e \<Rightarrow> (Inl e, c1)
             | Inr (relTxs, c2) \<Rightarrow>
               (case CreateBrokerTxs (ce_clk env) (bManager c2) of ((b1s, b2s), bm) \<Rightarrow>
                  (let c3 = c2\<lparr>bManager := bm\<rparr>
                   in dispatch (length txs) (inTxs @ relTxs @ b1s @ b2s) (StaticBroker_getTxLoc c3) c3)))))"

definition StaticBroker_SendTxsAndConsensus ::
  "'t codec \<Rightarrow> com_env \<Rightarrow> 'p broker_committee \<Rightarrow> (unit result \<times> 'p broker_committee) option" where
  "StaticBroker_SendTxsAndConsensus cd env c =
     map_option (apfst (wrap_err ''readTxsAndSend failed'')) (StaticBroker_readTxsAndSend cd env c)"

definition confirm_broker1 :: "int \<Rightarrow> transaction \<Rightarrow> 'p broker_committee \<Rightarrow> 'p broker_committee result" where
  "confirm_broker1 sid tx c =
     (case ConfirmBrokerTx tx (bManager c) of
        (Inl _, bm) \<Rightarrow> Inr (c\<lparr>bManager := bm\<rparr>)
      | (Inr _, bm) \<Rightarrow>
        (case cell_upd (Broker tx) sid (\<lambda>x. x + Value tx) (brokerBalances c) of Inl e \<Rightarrow> Inl e
         | Inr bal \<Rightarrow> Inr (c\<lparr>bManager := bm, brokerBalances := bal\<rparr>)))"

definition confirm_broker2 :: "int \<Rightarrow> transaction \<Rightarrow> 'p broker_committee \<Rightarrow> 'p broker_committee result" where
  "confirm_broker2 sid tx c =
     (case ConfirmBrokerTx tx (bManager c) of
        (Inl _, bm) \<Rightarrow> Inr (c\<lparr>bManager := bm\<rparr>)
      | (Inr _, bm) \<Rightarrow>
        (case cell_upd (Broker tx) sid (\<lambda>x. x - Value tx) (brokerBalances c) of Inl e \<Rightarrow> Inl e
         | Inr bal \<Rightarrow>
           (case cell_upd (Broker tx) sid (\<lambda>p. if p - Value tx < 0 then 0 else p - Value tx) (pendingDeductions c) of Inl e \<Rightarrow> Inl e
            | Inr pd \<Rightarrow> Inr (c\<lparr>bManager := bm, brokerBalances := bal, pendingDeductions := pd\<rparr>))))"

definition StaticBroker_handleBlock :: "broker_block_info_msg \<Rightarrow> 'p broker_committee \<Rightarrow> 'p broker_committee result" where
  "StaticBroker_handleBlock bInfo c =
     (case foldM_res (confirm_broker1 (bi_ShardID bInfo)) (bi_Broker1Txs bInfo) (count_block (brokerBlockTxCount bInfo) c) of
        Inl e \<Rightarrow> Inl e
      | Inr c1 \<Rightarrow> foldM_res (confirm_broker2 (bi_ShardID bInfo)) (bi_Broker2Txs bInfo) c1)"

definition StaticBroker_HandleMsg :: "'p wrapped_msg \<Rightarrow> 'p broker_committee \<Rightarrow> unit result \<times> 'p broker_committee" where
  "StaticBroker_HandleMsg m c =
     (if MsgType m \<noteq> BrokerBlockInfoMessageType then (Inr (), c)
      else (case g_dec_BrokerBlockInfo (cm_gob c) (Payload m) of
              Inl e \<Rightarrow> (Inl (Wrapf ''decode relayBlockInfoMsg'' e), c)
            | Inr bInfo \<Rightarrow> (case StaticBroker_handleBlock bInfo c of Inl e \<Rightarrow> (Inl e, c) | Inr c' \<Rightarrow> (Inr (), c'))))"

definition StaticBroker_ShouldStop :: "'p broker_committee \<Rightarrow> bool" where
  "StaticBroker_ShouldStop c \<longleftrightarrow> stopCnt (cm_sl c) \<ge> stopThreshold (cm_sl c) \<and> IsFinished (bManager c)"

section \<open>The CLPA broker committee\<close>

record ('p, 'f) clpa_broker = "('p, 'f) clpa_committee" +
  cb_bManager :: manager

definition NewCLPABrokerCommittee ::
  "(string \<Rightarrow> string list result list result) \<Rightarrow> (string \<Rightarrow> (string list \<times> unit result) result) \<Rightarrow> 'f float_api \<Rightarrow> gotime \<Rightarrow>
   'p outbox \<Rightarrow> topo_getter \<Rightarrow> 'p gob_api \<Rightarrow> supervisor_cfg \<Rightarrow> ('p, 'f) clpa_broker result" where
  "NewCLPABrokerCommittee os_Open broker_file fl now out r g scfg =
     (case NewTxSource os_Open (TxSourceType scfg) (TxSourceFile scfg) (ExcludeContractTxs scfg) of
        Inl e \<Rightarrow> Inl (Wrapf ''NewTxSource failed'' e)
      | Inr ts \<Rightarrow>
        (case NewBrokerManager (broker_file (BrokerFilePath scfg)) (BrokerNum scfg) of
           Inl e \<Rightarrow> Inl (Wrapf ''NewBrokerManager failed'' e)
         | Inr bs \<Rightarrow>
           (case new_runner fl now (ShardNum (sv_Sys scfg)) of Inl e \<Rightarrow> Inl e
            | Inr pr \<Rightarrow>
              Inr \<lparr>cm_r = r, cm_conn = out, cm_gob = g, cm_txSource = ts,
                   cm_sl = \<lparr>stopThreshold = wrap64 (ShardNum (sv_Sys scfg) * stopThresholdPerShard), stopCnt = 0\<rparr>,
                   cm_unsentTxNum = TxNumber scfg, cm_cfg = scfg, cm_fl = fl, cm_pr = pr, cb_bManager = bs\<rparr>)))"

definition CLPABroker_classifyTxs :: "('p, 'f) clpa_broker \<Rightarrow> transaction list \<Rightarrow> transaction list \<times> transaction list" where
  "CLPABroker_classifyTxs c txs =
     (let cross = cross_tx (cb_bManager c) (clpa_loc c) in (filter (\<lambda>tx. \<not> cross tx) txs, filter cross txs))"

definition CLPABroker_getTxLoc :: "('p, 'f) clpa_broker \<Rightarrow> transaction \<Rightarrow> int" where
  "CLPABroker_getTxLoc c tx =
     (if TxType tx = NormalTxType then clpa_loc c (Sender tx)
      else if BrokerStage tx = Sigma1BrokerStage then clpa_loc c (Sender tx)
      else clpa_loc c (Recipient tx))"

text \<open>A panic passes through the callers, whatever they would wrap an error with.\<close>

primrec panics :: "goerror \<Rightarrow> bool" where
  "panics (Errorf _) = False"
| "panics (Wrapf _ e) = panics e"
| "panics (Panic _) = True"

definition is_panic :: "'a result \<Rightarrow> bool" where
  "is_panic r \<longleftrightarrow> (case r of Inl e \<Rightarrow> panics e | Inr _ \<Rightarrow> False)"

definition CLPABroker_readTxsAndSend ::
  "'t codec \<Rightarrow> com_env \<Rightarrow> ('p, 'f) clpa_broker \<Rightarrow> (unit result \<times> ('p, 'f) clpa_broker) option" where
  "CLPABroker_readTxsAndSend cd env c =
     (case read_next env c of None \<Rightarrow> None
      | Some (Inl e, c1) \<Rightarrow> Some (Inl (Wrapf ''failed to read txs'' e), c1)
      | Some (Inr txs, c1) \<Rightarrow>
          Some (case CLPABroker_classifyTxs c1 txs of (inTxs, crossTxs) \<Rightarrow>
            (case CreateRawTxsRandomBroker cd (ce_rnd env) 0 crossTxs (cb_bManager c1) of (r, bm) \<Rightarrow>
              if is_panic r then (map_sum id (\<lambda>_. ()) r, c1)
              else (case CreateBrokerTxs (ce_clk env) bm of ((b1s, b2s), bm') \<Rightarrow>
                (let c2 = c1\<lparr>cb_bManager := bm'\<rparr>
                 in dispatch (length txs) (inTxs @ b1s @ b2s) (CLPABroker_getTxLoc c2) c2)))))"

definition CLPABroker_repartition ::
  "com_env \<Rightarrow> ('p, 'f) clpa_broker \<Rightarrow> unit result \<times> ('p, 'f) clpa_broker" where
  "CLPABroker_repartition = repartition"

definition CLPABroker_SendTxsAndConsensus ::
  "'t codec \<Rightarrow> com_env \<Rightarrow> ('p, 'f) clpa_broker \<Rightarrow> (unit result \<times> ('p, 'f) clpa_broker) option" where
  "CLPABroker_SendTxsAndConsensus cd = clpa_turn CLPABroker_repartition (CLPABroker_readTxsAndSend cd)"

text \<open>A failed confirmation is logged and leaves the manager as it is.\<close>

definition CLPABroker_handleBlockInfoMsg :: "broker_block_info_msg \<Rightarrow> ('p, 'f) clpa_broker \<Rightarrow> ('p, 'f) clpa_broker result" where
  "CLPABroker_handleBlockInfoMsg bInfo c =
     (if bi_ShardID bInfo \<ge> cm_shards c then Inr c
      else (case see_epoch (bi_ShardID bInfo) (bi_Epoch bInfo) (cm_pr c) of Inl e \<Rightarrow> Inl e
      | Inr p \<Rightarrow>
          (let n = length (bi_InnerShardTxs bInfo) + length (bi_Broker1Txs bInfo) + length (bi_Broker2Txs bInfo);
               c1 = count_block n (c\<lparr>cm_pr := p\<rparr>)
           in if cm_unsentTxNum c \<le> 0 \<and> n = 0 then Inr c1
              else (case add_edges (bi_InnerShardTxs bInfo @ bi_Broker2Txs bInfo) (pr_state p) of Inl e \<Rightarrow> Inl e
              | Inr cs \<Rightarrow>
                  Inr (c1\<lparr>cm_pr := p\<lparr>pr_state := cs\<rparr>,
                         cb_bManager := fold (\<lambda>tx bm. snd (ConfirmBrokerTx tx bm)) (bi_Broker1Txs bInfo @ bi_Broker2Txs bInfo)
                                          (cb_bManager c)\<rparr>)))))"

definition handleTxSendAgainMsg ::
  "'t codec \<Rightarrow> (nat \<Rightarrow> nat) \<Rightarrow> broker_clpa_tx_send_again_msg \<Rightarrow> ('p, 'f) clpa_broker \<Rightarrow> unit result \<times> ('p, 'f) clpa_broker" where
  "handleTxSendAgainMsg cd rnd tsa c =
     (case CreateRawTxsRandomBroker cd rnd 0 (sa_Txs tsa) (cb_bManager c) of
        (r, bm) \<Rightarrow> (if is_panic r then map_sum id (\<lambda>_. ()) r else Inr (), c\<lparr>cb_bManager := bm\<rparr>))"

definition CLPABroker_HandleMsg ::
  "'t codec \<Rightarrow> (nat \<Rightarrow> nat) \<Rightarrow> 'p wrapped_msg \<Rightarrow> ('p, 'f) clpa_broker \<Rightarrow> unit result \<times> ('p, 'f) clpa_broker" where
  "CLPABroker_HandleMsg cd rnd m c =
     (if MsgType m = BrokerBlockInfoMessageType then
        (case g_dec_BrokerBlockInfo (cm_gob c) (Payload m) of
           Inl e \<Rightarrow> (Inl (Wrapf ''decode relayBlockInfoMsg failed'' e), c)
         | Inr bInfo \<Rightarrow> (case CLPABroker_handleBlockInfoMsg bInfo c of Inl e \<Rightarrow> (Inl e, c) | Inr c' \<Rightarrow> (Inr (), c')))
      else if MsgType m = BrokerCLPATxSendAgainMessageType then
        (case g_dec_SendAgain (cm_gob c) (Payload m) of
           Inl e \<Rightarrow> (Inl (Wrapf ''decode relayBlockInfoMsg failed'' e), c)
         | Inr tsa \<Rightarrow> handleTxSendAgainMsg cd rnd tsa c)
      else (Inr (), c))"

section \<open>What both committees keep\<close>

lemma find_broker_base: "find_broker cd tx s bs c = Inr (b, c') \<Longrightarrow> same_base c c' \<and> brokerBalances c' = brokerBalances c"
  by (induction cd tx s bs c rule: find_broker.induct)
    (auto split: sum.splits if_splits prod.splits simp: same_base_def)

lemma assign_cross_base: "assign_cross cd env i txs c = Inr (rel, c') \<Longrightarrow> same_base c c' \<and> brokerBalances c' = brokerBalances c"
proof (induction txs arbitrary: i c rel)
  case (Cons tx txs)
  from Cons.prems obtain f c1 rel1 where f: "find_broker cd tx (DefaultAccountLoc (Recipient tx) (cm_shards c))
      (ce_shuffle env i (GetBrokers (bManager c))) c = Inr (f, c1)" "assign_cross cd env (i + 1) txs c1 = Inr (rel1, c')"
    by (auto split: sum.splits prod.splits)
  from find_broker_base [OF f(1)] Cons.IH [OF f(2)] show ?case by (auto intro: same_base_trans)
qed simp

lemma confirm_base:
  "confirm_broker1 sid tx c = Inr c' \<Longrightarrow> same_base c c'" "confirm_broker2 sid tx c = Inr c' \<Longrightarrow> same_base c c'"
  by (auto simp: confirm_broker1_def confirm_broker2_def same_base_def split: prod.splits sum.splits)

lemma foldM_base:
  assumes "\<And>x c c'. h x c = Inr c' \<Longrightarrow> same_base c c'"
  shows "foldM_res h xs c = Inr c' \<Longrightarrow> same_base c c'"
proof (induction xs arbitrary: c)
  case (Cons x xs)
  then obtain c1 where "h x c = Inr c1" "foldM_res h xs c1 = Inr c'" by (auto split: sum.splits)
  with assms Cons.IH show ?case by (blast intro: same_base_trans)
qed simp

lemma StaticBroker_Send_ok [inv_rules]:
  assumes ok: "base_ok c" and run: "StaticBroker_SendTxsAndConsensus cd env c = Some (r, c')"
  shows "base_ok c' \<and> cm_unsentTxNum c' \<le> cm_unsentTxNum c"
proof -
  obtain r' where "StaticBroker_readTxsAndSend cd env c = Some (r', c')" using run by (auto simp: StaticBroker_SendTxsAndConsensus_def)
  then show ?thesis unfolding StaticBroker_readTxsAndSend_def
  proof (rule read_then_ok [OF ok])
    fix txs and c1 :: "'a broker_committee"
    assume c1: "base_ok c1" "int (length txs) \<le> cm_unsentTxNum c1"
      and K: "(case StaticBroker_classifyTxs c1 txs of (inTxs, crossTxs) \<Rightarrow>
            (case assign_cross cd env 0 crossTxs c1 of Inl e \<Rightarrow> (Inl e, c1)
             | Inr (relTxs, c2) \<Rightarrow>
               (case CreateBrokerTxs (ce_clk env) (bManager c2) of ((b1s, b2s), bm) \<Rightarrow>
                  (let c3 = c2\<lparr>bManager := bm\<rparr>
                   in dispatch (length txs) (inTxs @ relTxs @ b1s @ b2s) (StaticBroker_getTxLoc c3) c3)))) = (r', c')"
    show "base_ok c' \<and> cm_unsentTxNum c' \<le> cm_unsentTxNum c1"
    proof (cases "assign_cross cd env 0 (snd (StaticBroker_classifyTxs c1 txs)) c1")
      case (Inl e)
      then show ?thesis using K c1 by (auto split: prod.splits)
    next
      case (Inr q)
      obtain rel c2 where q: "q = (rel, c2)" by (rule prod.exhaust)
      from assign_cross_base [OF Inr [unfolded q]] have b: "same_base c1 c2" by simp
      obtain sends loc bm where "dispatch (length txs) sends loc (c2\<lparr>bManager := bm\<rparr>) = (r', c')"
        using K Inr q by (auto simp: Let_def split: prod.splits)
      moreover have "same_base c1 (c2\<lparr>bManager := bm\<rparr>)" using b by (simp add: same_base_def)
      ultimately show ?thesis using dispatch_shrinks c1 by (metis same_base_ok)
    qed
  qed
qed

lemma StaticBroker_HandleMsg_ok [inv_rules]:
  assumes ok: "base_ok c" and run: "StaticBroker_HandleMsg m c = (r, c')"
  shows "base_ok c' \<and> cm_unsentTxNum c' = cm_unsentTxNum c"
proof (cases "c' = c")
  case False
  then obtain b where "StaticBroker_handleBlock b c = Inr c'"
    using run by (auto simp: StaticBroker_HandleMsg_def split: if_splits sum.splits)
  then obtain c1 where c1: "foldM_res (confirm_broker1 (bi_ShardID b)) (bi_Broker1Txs b) (count_block (brokerBlockTxCount b) c) = Inr c1"
    "foldM_res (confirm_broker2 (bi_ShardID b)) (bi_Broker2Txs b) c1 = Inr c'" by (auto simp: StaticBroker_handleBlock_def split: sum.splits)
  have "same_base (count_block (brokerBlockTxCount b) c) c'"
    using foldM_base [OF confirm_base(1) c1(1)] foldM_base [OF confirm_base(2) c1(2)] by (rule same_base_trans)
  from same_base_ok [OF this] count_block_ok [OF ok] show ?thesis by simp
qed (use ok in simp)

lemma CLPABroker_read_ok:
  "base_ok c \<Longrightarrow> CLPABroker_readTxsAndSend cd env c = Some (r, c') \<Longrightarrow> base_ok c' \<and> cm_unsentTxNum c' \<le> cm_unsentTxNum c"
  unfolding CLPABroker_readTxsAndSend_def
proof (erule (1) read_then_ok)
  fix txs and c1 :: "('a, 'b) clpa_broker"
  assume c1: "base_ok c1" "int (length txs) \<le> cm_unsentTxNum c1"
    and K: "(case CLPABroker_classifyTxs c1 txs of (inTxs, crossTxs) \<Rightarrow>
            (case CreateRawTxsRandomBroker cd (ce_rnd env) 0 crossTxs (cb_bManager c1) of (r, bm) \<Rightarrow>
              if is_panic r then (map_sum id (\<lambda>_. ()) r, c1)
              else (case CreateBrokerTxs (ce_clk env) bm of ((b1s, b2s), bm') \<Rightarrow>
                (let c2 = c1\<lparr>cb_bManager := bm'\<rparr>
                 in dispatch (length txs) (inTxs @ b1s @ b2s) (CLPABroker_getTxLoc c2) c2)))) = (r, c')"
  then consider "c' = c1" | sends loc bm where "dispatch (length txs) sends loc (c1\<lparr>cb_bManager := bm\<rparr>) = (r, c')"
    by (auto simp: Let_def split: prod.splits if_splits)
  then show "base_ok c' \<and> cm_unsentTxNum c' \<le> cm_unsentTxNum c1"
  proof cases
    case 2
    have "same_base c1 (c1\<lparr>cb_bManager := bm\<rparr>)" by (simp add: same_base_def)
    with dispatch_shrinks [OF 2] c1 show ?thesis by (metis same_base_ok)
  qed (use c1 in simp)
qed

lemma CLPABroker_Send_ok [inv_rules]:
  "base_ok c \<Longrightarrow> CLPABroker_SendTxsAndConsensus cd env c = Some (r, c') \<Longrightarrow> base_ok c' \<and> cm_unsentTxNum c' \<le> cm_unsentTxNum c"
  unfolding CLPABroker_SendTxsAndConsensus_def CLPABroker_repartition_def by (rule clpa_turn_ok [OF _ _ CLPABroker_read_ok])

lemma CLPABroker_HandleMsg_ok [inv_rules]:
  assumes ok: "base_ok c" and run: "CLPABroker_HandleMsg cd rnd m c = (r, c')"
  shows "base_ok c' \<and> cm_unsentTxNum c' = cm_unsentTxNum c"
proof -
  have bm: "same_base c (c\<lparr>cb_bManager := bm\<rparr>)" for bm by (simp add: same_base_def)
  consider "c' = c" | b where "CLPABroker_handleBlockInfoMsg b c = Inr c'" | bm where "c' = c\<lparr>cb_bManager := bm\<rparr>"
    using run by (auto simp: CLPABroker_HandleMsg_def handleTxSendAgainMsg_def split: if_splits sum.splits prod.splits)
  then show ?thesis
  proof cases
    case 2
    then consider "c' = c" | n p where "c' = count_block n (c\<lparr>cm_pr := p\<rparr>)" | n p q bm where "c' = (count_block n (c\<lparr>cm_pr := p\<rparr>))\<lparr>cm_pr := q, cb_bManager := bm\<rparr>"
      by (auto simp: CLPABroker_handleBlockInfoMsg_def Let_def split: if_splits sum.splits)
    then show ?thesis
    proof cases
      case 3
      have "same_base (count_block n (c\<lparr>cm_pr := p\<rparr>)) c'" by (simp add: 3 same_base_def)
      from same_base_ok [OF this] count_block_ok [of "c\<lparr>cm_pr := p\<rparr>" n] ok show ?thesis by simp
    qed (use ok count_block_ok [of "c\<lparr>cm_pr := p\<rparr>" n for p n] in auto)
  next
    case 3
    then show ?thesis using ok same_base_ok [OF bm] by simp
  qed (use ok in simp)
qed

end
