(* ===== verification/Broker_Money.thy ===== *)
theory Broker_Money
  imports Broker_Committee
begin

text \<open>
  The balances of \<open>supervisor/committee/staticbroker.go\<close>: in each shard a broker has a balance and a
  part of it that is promised to raw transactions on their way. The invariant \<open>solvent\<close> says that what unfinished
  raw transactions need is promised and that what is promised is there. The lemmas show that it is kept by sending
  and by honest block reports, so that no balance ever becomes negative.
\<close>

section \<open>The money of the brokers\<close>

definition cell :: "(address, int list) gomap \<Rightarrow> address \<Rightarrow> int \<Rightarrow> int" where
  "cell m b s = map_get m b [] ! nat s"

lemma cell_get_Inr: "cell_get b s m = Inr x \<Longrightarrow> x = cell m b s"
  by (auto simp: cell_get_def idx_get_def cell_def split: if_splits)

lemma cell_upd_Inr:
  assumes "cell_upd b s h m = Inr m'"
  shows "0 \<le> s" "s < int (length (map_get m b []))" "length (map_get m' a []) = length (map_get m a [])"
    "0 \<le> z \<Longrightarrow> cell m' a z = (if a = b \<and> z = s then h (cell m b s) else cell m a z)"
proof -
  have i: "idx_ok s (map_get m b [])" and m': "m' = AList.update b ((map_get m b [])[nat s := h (map_get m b [] ! nat s)]) m"
    using assms by (auto simp: cell_upd_def idx_upd_def split: sum.splits if_splits)
  then show r: "0 \<le> s" "s < int (length (map_get m b []))" by (auto simp: idx_ok_def)
  show "length (map_get m' a []) = length (map_get m a [])" by (simp add: m' map_get_update)
  show "0 \<le> z \<Longrightarrow> cell m' a z = (if a = b \<and> z = s then h (cell m b s) else cell m a z)"
    using r by (auto simp: m' map_get_update cell_def)
qed

text \<open>What is held for unfinished raw transactions is promised, and what is promised is there.\<close>

definition money_ok ::
  "int \<Rightarrow> (address \<Rightarrow> bool) \<Rightarrow> (address \<Rightarrow> int \<Rightarrow> int) \<Rightarrow> (address, int list) gomap \<Rightarrow> (address, int list) gomap \<Rightarrow> bool" where
  "money_ok n isb hl bal pd \<longleftrightarrow>
     (\<forall>b. isb b \<longrightarrow> int (length (map_get bal b [])) = n \<and> int (length (map_get pd b [])) = n \<and>
        (\<forall>s. 0 \<le> s \<longrightarrow> s < n \<longrightarrow> hl b s \<le> cell pd b s \<and> cell pd b s \<le> cell bal b s))"

lemma money_reserve:
  assumes "money_ok n isb hl bal pd" "0 \<le> v" "cell bal b s - cell pd b s \<ge> v" "cell_upd b s (\<lambda>p. p + v) pd = Inr pd'"
  shows "money_ok n isb (\<lambda>a z. hl a z + (if a = b \<and> z = s then v else 0)) bal pd'" "money_ok n isb hl bal pd'"
  using assms(1-3) cell_upd_Inr(3,4) [OF assms(4)] by (auto simp: money_ok_def add_increasing2)

lemma money_credit:
  assumes "money_ok n isb hl bal pd" "0 \<le> v" "cell_upd b s (\<lambda>x. x + v) bal = Inr bal'"
  shows "money_ok n isb hl bal' pd"
  using assms(1,2) cell_upd_Inr(3,4) [OF assms(3)] by (fastforce simp: money_ok_def)

lemma money_release:
  assumes "money_ok n isb hl bal pd" "\<And>a z. hl' a z \<le> hl a z"
  shows "money_ok n isb hl' bal pd"
  unfolding money_ok_def
proof (intro allI impI conjI)
  fix a z assume "isb a" "0 \<le> z" "z < n"
  then have "hl a z \<le> cell pd a z" using assms(1) by (simp add: money_ok_def)
  with assms(2) show "hl' a z \<le> cell pd a z" by (rule order_trans)
qed (use assms(1) in \<open>auto simp: money_ok_def\<close>)

lemma money_settle:
  assumes "money_ok n isb hl bal pd" "cell_upd b s (\<lambda>x. x - v) bal = Inr bal'"
    and "cell_upd b s (\<lambda>p. if p - v < 0 then 0 else p - v) pd = Inr pd'"
    and "\<And>a z. hl' a z = hl a z - (if a = b \<and> z = s then v else 0)" "\<And>a z. 0 \<le> hl' a z"
  shows "money_ok n isb hl' bal' pd'"
  unfolding money_ok_def
proof (intro allI impI conjI)
  fix a z assume a: "isb a" "0 \<le> z" "z < n"
  have m: "hl a z \<le> cell pd a z" "cell pd a z \<le> cell bal a z" using assms(1) a by (auto simp: money_ok_def)
  have h: "0 \<le> hl a z - (if a = b \<and> z = s then v else 0)" using assms(4,5) by metis
  show "hl' a z \<le> cell pd' a z" "cell pd' a z \<le> cell bal' a z"
    using m h cell_upd_Inr(4) [OF assms(2) a(2), of a] cell_upd_Inr(4) [OF assms(3) a(2), of a] assms(4) [of a z]
    by (auto split: if_splits)
qed (use assms(1) cell_upd_Inr(3) [OF assms(2)] cell_upd_Inr(3) [OF assms(3)] in \<open>auto simp: money_ok_def\<close>)

definition share :: "(address \<Rightarrow> int) \<Rightarrow> address \<Rightarrow> int \<Rightarrow> transaction \<Rightarrow> int" where
  "share loc b s tx = (if Broker tx = b \<and> loc (Recipient tx) = s then Value tx else 0)"

definition held :: "(address \<Rightarrow> int) \<Rightarrow> (bytes, tx_info_stage) gomap \<Rightarrow> address \<Rightarrow> int \<Rightarrow> int" where
  "held loc m b s = (\<Sum>(h, i)\<leftarrow>m. share loc b s (rawTx i))"

lemma held_fresh: "map_of m h = None \<Longrightarrow> held loc (AList.update h i m) b s = held loc m b s + share loc b s (rawTx i)"
  by (simp add: held_def update_fresh map_of_eq_None_iff)

lemma held_same: "map_of m h = Some i \<Longrightarrow> rawTx i' = rawTx i \<Longrightarrow> held loc (AList.update h i' m) b s = held loc m b s"
  by (induction m) (auto simp: held_def)

lemma delete_absent: "h \<notin> fst ` set m \<Longrightarrow> AList.delete h m = m"
  by (induction m) (auto simp: AList.delete_eq)

lemma held_delete:
  "distinct (map fst m) \<Longrightarrow> map_of m h = Some i \<Longrightarrow> held loc (AList.delete h m) b s = held loc m b s - share loc b s (rawTx i)"
  by (induction m) (auto simp: held_def delete_absent)

lemma held_nonneg: "\<forall>i\<in>snd ` set m. 0 \<le> Value (rawTx i) \<Longrightarrow> 0 \<le> held loc m b s"
  by (induction m) (auto simp: held_def share_def)

lemma values_update: "\<forall>i\<in>snd ` set m. P i \<Longrightarrow> P x \<Longrightarrow> \<forall>i\<in>snd ` set (AList.update h x m). P i"
  by (induction m) auto

lemma values_delete: "\<forall>i\<in>snd ` set m. P i \<Longrightarrow> \<forall>i\<in>snd ` set (AList.delete h m). P i"
  by (auto simp: AList.delete_eq)

definition mgr_ok :: "manager \<Rightarrow> bool" where
  "mgr_ok bm \<longleftrightarrow> distinct (map fst (unconfirmedTxInfo bm)) \<and> (\<forall>i\<in>snd ` set (unconfirmedTxInfo bm). 0 \<le> Value (rawTx i)) \<and>
     set (brokers bm) \<subseteq> Collect (IsBroker bm)"

definition committee_loc :: "('p, 'x) committee_scheme \<Rightarrow> address \<Rightarrow> int" where
  "committee_loc c a = DefaultAccountLoc a (cm_shards c)"

definition solvent :: "'p broker_committee \<Rightarrow> bool" where
  "solvent c \<longleftrightarrow> mgr_ok (bManager c) \<and>
     money_ok (cm_shards c) (IsBroker (bManager c)) (held (committee_loc c) (unconfirmedTxInfo (bManager c)))
       (brokerBalances c) (pendingDeductions c)"

lemma CreateRawTx_money:
  assumes "CreateRawTx cd tx b bm = (r, bm')" "mgr_ok bm" "0 \<le> Value tx"
  shows "mgr_ok bm' \<and> IsBroker bm' = IsBroker bm \<and> brokers bm' = brokers bm \<and>
    held loc (unconfirmedTxInfo bm') a z = held loc (unconfirmedTxInfo bm) a z +
      (if is_ok r \<and> a = b \<and> z = loc (Recipient tx) then Value tx else 0)"
proof (cases r)
  case (Inl e)
  then have "bm' = bm" using assms(1) by (auto simp: CreateRawTx_def Let_def split: sum.splits if_splits)
  then show ?thesis using assms(2) Inl by simp
next
  case (Inr raw)
  obtain h where h: "map_of (unconfirmedTxInfo bm) h = None" "IsBroker bm b" and raw: "Broker raw = b" "Recipient raw = Recipient tx" "Value raw = Value tx"
    and bm': "brokers bm' = brokers bm" "unconfirmedTxInfo bm' = AList.update h \<lparr>rawTx = raw, confirmStage = 1\<rparr> (unconfirmedTxInfo bm)"
      "broker2Nonce bm' = AList.update b (NonceBroker raw) (broker2Nonce bm)"
    using assms(1) Inr by (auto simp: CreateRawTx_def Let_def split: sum.splits if_splits)
  have isb: "IsBroker bm' = IsBroker bm" using h(2) by (auto simp: IsBroker_def bm'(3) AList_update_lookup fun_eq_iff)
  note m = assms(2) [unfolded mgr_ok_def]
  have v: "\<forall>i\<in>snd ` set (unconfirmedTxInfo bm'). 0 \<le> Value (rawTx i)" unfolding bm'(2)
    by (rule values_update) (use m raw(3) assms(3) in \<open>blast, simp\<close>)
  have "mgr_ok bm'" unfolding mgr_ok_def isb
    by (intro conjI v) (use m in \<open>simp add: bm'(2) distinct_update\<close>, use m bm'(1) in simp)
  moreover have "held loc (unconfirmedTxInfo bm') a z = held loc (unconfirmedTxInfo bm) a z + (if a = b \<and> z = loc (Recipient tx) then Value tx else 0)"
    unfolding bm'(2) held_fresh [OF h(1)] using raw by (auto simp: share_def)
  ultimately show ?thesis using isb bm'(1) Inr by simp
qed

lemma find_broker_solvent:
  assumes "solvent c" "0 \<le> Value tx" "s = committee_loc c (Recipient tx)" "find_broker cd tx s bs c = Inr (fd, c')"
  shows "solvent c' \<and> brokers (bManager c') = brokers (bManager c)"
  using assms
proof (induction cd tx s bs c rule: find_broker.induct)
  case (2 cd tx s b rest c)
  obtain bal pen where g: "cell_get b s (brokerBalances c) = Inr bal" "cell_get b s (pendingDeductions c) = Inr pen"
    using "2.prems"(4) by (auto split: sum.splits)
  note cells = cell_get_Inr [OF g(1)] cell_get_Inr [OF g(2)]
  show ?case
  proof (cases "bal - pen \<ge> Value tx")
    case True
    obtain pd where pd: "cell_upd b s (\<lambda>p. p + Value tx) (pendingDeductions c) = Inr pd"
      using "2.prems"(4) g True by (auto split: sum.splits)
    obtain r bm where cr: "CreateRawTx cd tx b (bManager c) = (r, bm)" by (rule prod.exhaust)
    let ?c1 = "c\<lparr>pendingDeductions := pd, bManager := bm\<rparr>"
    have m: "mgr_ok (bManager c)" and mo: "money_ok (cm_shards c) (IsBroker (bManager c)) (held (committee_loc c) (unconfirmedTxInfo (bManager c)))
       (brokerBalances c) (pendingDeductions c)" using "2.prems"(1) by (simp_all add: solvent_def)
    note cm = CreateRawTx_money [OF cr m "2.prems"(2), of "committee_loc c"]
    note res = money_reserve [OF mo "2.prems"(2) True [unfolded cells] pd]
    have h: "held (committee_loc c) (unconfirmedTxInfo bm) = (\<lambda>a z. held (committee_loc c) (unconfirmedTxInfo (bManager c)) a z +
      (if is_ok r \<and> a = b \<and> z = s then Value tx else 0))" using cm "2.prems"(3) by (simp add: fun_eq_iff)
    have cl: "committee_loc ?c1 = committee_loc c" by (simp add: committee_loc_def fun_eq_iff)
    have sol: "solvent ?c1" unfolding solvent_def using cm res by (cases r) (simp_all add: cl h)
    show ?thesis
    proof (cases r)
      case (Inl e)
      then have "find_broker cd tx s rest ?c1 = Inr (fd, c')" using "2.prems"(4) g True pd cr by simp
      from "2.IH"(1) [OF g True pd _ _ sol "2.prems"(2) _ this] cr Inl cm "2.prems"(3) cl show ?thesis by simp
    next
      case (Inr u)
      then show ?thesis using "2.prems"(4) g True pd cr sol cm by auto
    qed
  next
    case False
    then have "find_broker cd tx s rest c = Inr (fd, c')" using "2.prems"(4) g by simp
    from "2.IH"(2) [OF g False "2.prems"(1-3) this] show ?thesis .
  qed
qed simp

lemma assign_cross_solvent:
  "solvent c \<Longrightarrow> \<forall>tx\<in>set txs. 0 \<le> Value tx \<Longrightarrow> assign_cross cd env i txs c = Inr (rel, c') \<Longrightarrow> solvent c'"
proof (induction txs arbitrary: i c rel)
  case (Cons tx txs)
  from Cons.prems(3) obtain fd c1 rel1 where f: "find_broker cd tx (DefaultAccountLoc (Recipient tx) (cm_shards c))
      (ce_shuffle env i (GetBrokers (bManager c))) c = Inr (fd, c1)" "assign_cross cd env (i + 1) txs c1 = Inr (rel1, c')"
    by (auto split: sum.splits prod.splits)
  have "solvent c1" using find_broker_solvent [OF Cons.prems(1) _ _ f(1)] Cons.prems(2) by (simp add: committee_loc_def)
  from Cons.IH [OF this _ f(2)] Cons.prems(2) show ?case by simp
qed simp

lemma solvent_cong:
  assumes "solvent c" "cm_cfg c' = cm_cfg c" "unconfirmedTxInfo (bManager c') = unconfirmedTxInfo (bManager c)"
    "broker2Nonce (bManager c') = broker2Nonce (bManager c)" "brokers (bManager c') = brokers (bManager c)"
    "brokerBalances c' = brokerBalances c" "pendingDeductions c' = pendingDeductions c"
  shows "solvent c'"
proof -
  have "IsBroker (bManager c') = IsBroker (bManager c)" "committee_loc c' = committee_loc c"
    using assms(2,4) by (simp_all add: IsBroker_def committee_loc_def fun_eq_iff)
  then show ?thesis using assms by (simp add: solvent_def mgr_ok_def)
qed

lemma CreateBrokerTxs_fields:
  "CreateBrokerTxs clk bm = (bs, bm') \<Longrightarrow> unconfirmedTxInfo bm' = unconfirmedTxInfo bm \<and> broker2Nonce bm' = broker2Nonce bm \<and> brokers bm' = brokers bm"
  by (auto simp: CreateBrokerTxs_def Let_def)

lemma dispatch_solvent:
  assumes "dispatch n txs loc c = (r, c')" "solvent c"
  shows "solvent c'"
proof (cases "c' = c")
  case False
  then obtain out u where "c' = c\<lparr>cm_conn := out, cm_unsentTxNum := u\<rparr>" using assms(1) by (auto simp: dispatch_def split: sum.splits)
  then show ?thesis using assms(2) by (intro solvent_cong [OF assms(2)]) simp_all
qed (use assms(2) in simp)

lemma StaticBroker_Send_solvent:
  assumes sol: "solvent c" and run: "StaticBroker_SendTxsAndConsensus cd env c = Some (r, c')"
    and pos: "\<And>txs c1. read_next env c = Some (Inr txs, c1) \<Longrightarrow> \<forall>tx\<in>set txs. 0 \<le> Value tx"
  shows "solvent c'"
proof -
  obtain r' where run': "StaticBroker_readTxsAndSend cd env c = Some (r', c')" using run by (auto simp: StaticBroker_SendTxsAndConsensus_def)
  obtain q c1 where rd: "read_next env c = Some (q, c1)" using run' by (auto simp: StaticBroker_readTxsAndSend_def split: option.splits)
  have sol1: "solvent c1" by (rule solvent_cong [OF sol]) (use rd in \<open>auto simp: read_next_def split: option.splits\<close>)
  show ?thesis
  proof (cases q)
    case (Inl e)
    then show ?thesis using run' rd sol1 by (auto simp: StaticBroker_readTxsAndSend_def)
  next
    case (Inr txs)
    define cross where "cross = snd (StaticBroker_classifyTxs c1 txs)"
    have v: "\<forall>tx\<in>set cross. 0 \<le> Value tx" using pos [OF rd [unfolded Inr]] by (auto simp: cross_def StaticBroker_classifyTxs_def Let_def)
    show ?thesis
    proof (cases "assign_cross cd env 0 cross c1")
      case e: (Inl e)
      then show ?thesis using run' rd Inr sol1 by (auto simp: StaticBroker_readTxsAndSend_def cross_def split: prod.splits)
    next
      case a: (Inr q2)
      obtain rel c2 where q2: "q2 = (rel, c2)" by (rule prod.exhaust)
      have sol2: "solvent c2" by (rule assign_cross_solvent [OF sol1 v a [unfolded q2]])
      obtain b1s b2s bm where cb: "CreateBrokerTxs (ce_clk env) (bManager c2) = ((b1s, b2s), bm)" by (metis surj_pair)
      have "solvent (c2\<lparr>bManager := bm\<rparr>)" by (rule solvent_cong [OF sol2]) (use CreateBrokerTxs_fields [OF cb] in simp_all)
      moreover obtain sends loc where "dispatch (length txs) sends loc (c2\<lparr>bManager := bm\<rparr>) = (r', c')"
        using run' rd Inr a q2 cb by (auto simp: StaticBroker_readTxsAndSend_def cross_def Let_def split: prod.splits)
      ultimately show ?thesis using dispatch_solvent by blast
    qed
  qed
qed

text \<open>
  A block report that names the halves that were sent: the second halves carry the value, the broker and the recipient of
  their raw transaction, and are reported by the shard of the recipient.
\<close>

definition matches :: "'p broker_committee \<Rightarrow> int \<Rightarrow> transaction \<Rightarrow> bool" where
  "matches c sid tx \<longleftrightarrow> BrokerStage tx = Sigma2BrokerStage \<and>
     (\<forall>i. map_of (unconfirmedTxInfo (bManager c)) (BOriginalHash tx) = Some i \<longrightarrow>
        Value tx = Value (rawTx i) \<and> Broker tx = Broker (rawTx i) \<and> committee_loc c (Recipient (rawTx i)) = sid)"

definition honest_block :: "'p broker_committee \<Rightarrow> broker_block_info_msg \<Rightarrow> bool" where
  "honest_block c b \<longleftrightarrow> (\<forall>tx\<in>set (bi_Broker1Txs b). 0 \<le> Value tx) \<and> (\<forall>tx\<in>set (bi_Broker2Txs b). matches c (bi_ShardID b) tx)"

definition raws_shrink :: "'p broker_committee \<Rightarrow> 'p broker_committee \<Rightarrow> bool" where
  "raws_shrink c c' \<longleftrightarrow> cm_cfg c' = cm_cfg c \<and>
     (\<forall>h i'. map_of (unconfirmedTxInfo (bManager c')) h = Some i' \<longrightarrow>
        (\<exists>i. map_of (unconfirmedTxInfo (bManager c)) h = Some i \<and> rawTx i' = rawTx i))"

lemma matches_shrink: "raws_shrink c c' \<Longrightarrow> matches c sid tx \<Longrightarrow> matches c' sid tx"
  unfolding raws_shrink_def matches_def committee_loc_def by metis

lemma ConfirmBrokerTx_cases:
  assumes "ConfirmBrokerTx tx bm = (r, bm')"
  obtains "r \<noteq> Inr ()" "bm' = bm"
  | i where "r = Inr ()" "IsBroker bm (Broker tx)" "map_of (unconfirmedTxInfo bm) (BOriginalHash tx) = Some i" "BrokerStage tx = Sigma1BrokerStage"
      "bm' = bm\<lparr>unconfirmedTxInfo := AList.update (BOriginalHash tx) (i\<lparr>confirmStage := 2\<rparr>) (unconfirmedTxInfo bm),
              readyBroker2TxHashes := readyBroker2TxHashes bm @ [BOriginalHash tx]\<rparr>"
  | i where "r = Inr ()" "IsBroker bm (Broker tx)" "map_of (unconfirmedTxInfo bm) (BOriginalHash tx) = Some i" "BrokerStage tx = Sigma2BrokerStage"
      "bm' = bm\<lparr>unconfirmedTxInfo := AList.delete (BOriginalHash tx) (unconfirmedTxInfo bm)\<rparr>"
  using assms by (auto simp: ConfirmBrokerTx_def split: if_splits option.splits)

lemma ConfirmBrokerTx_money:
  assumes "ConfirmBrokerTx tx bm = (r, bm')" "mgr_ok bm"
  shows "mgr_ok bm' \<and> IsBroker bm' = IsBroker bm \<and>
    (r = Inr () \<longrightarrow> (\<exists>i. map_of (unconfirmedTxInfo bm) (BOriginalHash tx) = Some i \<and> 0 \<le> Value (rawTx i) \<and>
       (\<forall>loc a z. held loc (unconfirmedTxInfo bm') a z =
         held loc (unconfirmedTxInfo bm) a z - (if BrokerStage tx = Sigma2BrokerStage then share loc a z (rawTx i) else 0)))) \<and>
    (r \<noteq> Inr () \<longrightarrow> bm' = bm) \<and>
    (\<forall>h i'. map_of (unconfirmedTxInfo bm') h = Some i' \<longrightarrow> (\<exists>i. map_of (unconfirmedTxInfo bm) h = Some i \<and> rawTx i' = rawTx i))"
  using assms(1)
proof (cases rule: ConfirmBrokerTx_cases)
  case 1
  then show ?thesis using assms(2) by simp
next
  case (2 i)
  note m = assms(2) [unfolded mgr_ok_def]
  have isb: "IsBroker bm' = IsBroker bm" by (simp add: 2(5) IsBroker_def fun_eq_iff)
  have pos: "0 \<le> Value (rawTx i)" using m 2(3) by (force dest: map_of_SomeD)
  moreover have un: "unconfirmedTxInfo bm' = AList.update (BOriginalHash tx) (i\<lparr>confirmStage := 2\<rparr>) (unconfirmedTxInfo bm)"
    by (simp add: 2(5))
  ultimately have v: "\<forall>i\<in>snd ` set (unconfirmedTxInfo bm'). 0 \<le> Value (rawTx i)" unfolding un
    by (intro values_update) (use m in \<open>blast, simp\<close>)
  have "mgr_ok bm'" unfolding mgr_ok_def isb
    by (intro conjI v) (use m in \<open>simp add: 2(5) distinct_update\<close>, use m in \<open>simp add: 2(5)\<close>)
  then show ?thesis using isb 2 pos by (auto simp: held_same AList_update_lookup)
next
  case (3 i)
  note m = assms(2) [unfolded mgr_ok_def]
  have isb: "IsBroker bm' = IsBroker bm" by (simp add: 3(5) IsBroker_def fun_eq_iff)
  have un: "unconfirmedTxInfo bm' = AList.delete (BOriginalHash tx) (unconfirmedTxInfo bm)" by (simp add: 3(5))
  have v: "\<forall>i\<in>snd ` set (unconfirmedTxInfo bm'). 0 \<le> Value (rawTx i)" unfolding un by (rule values_delete) (use m in blast)
  have "mgr_ok bm'" unfolding mgr_ok_def isb
    by (intro conjI v) (use m in \<open>simp add: un distinct_delete\<close>, use m in \<open>simp add: 3(5)\<close>)
  moreover have "0 \<le> Value (rawTx i)" using m 3(3) by (force dest: map_of_SomeD)
  ultimately show ?thesis using isb 3 m by (auto simp: held_delete AList_delete_lookup)
qed

lemma confirm_broker1_solvent:
  assumes sol: "solvent c" and v: "0 \<le> Value tx" and run: "confirm_broker1 sid tx c = Inr c'"
  shows "solvent c' \<and> raws_shrink c c'"
proof -
  obtain r bm where cf: "ConfirmBrokerTx tx (bManager c) = (r, bm)" by (rule prod.exhaust)
  note so = sol [unfolded solvent_def] and cm = ConfirmBrokerTx_money [OF cf conjunct1 [OF sol [unfolded solvent_def]]]
  let ?bal = "brokerBalances c'"
  have c': "c' = c\<lparr>bManager := bm, brokerBalances := ?bal\<rparr>"
    and bal: "?bal = brokerBalances c \<or> cell_upd (Broker tx) sid (\<lambda>x. x + Value tx) (brokerBalances c) = Inr ?bal"
    using run cf by (cases r; auto simp: confirm_broker1_def split: sum.splits)+
  have "money_ok (cm_shards c) (IsBroker (bManager c)) (held (committee_loc c) (unconfirmedTxInfo (bManager c))) ?bal (pendingDeductions c)"
    using bal
  proof
    assume "?bal = brokerBalances c"
    then show ?thesis using so by simp
  qed (rule money_credit [OF conjunct2 [OF so] v])
  moreover have "held (committee_loc c) (unconfirmedTxInfo bm) a z \<le> held (committee_loc c) (unconfirmedTxInfo (bManager c)) a z" for a z
    using cm by (cases "r = Inr ()") (auto simp: share_def)
  ultimately have "money_ok (cm_shards c) (IsBroker bm) (held (committee_loc c) (unconfirmedTxInfo bm)) ?bal (pendingDeductions c)"
    using cm money_release by metis
  moreover have "committee_loc c' = committee_loc c" by (subst c') (simp add: committee_loc_def fun_eq_iff)
  moreover have "bManager c' = bm" "cm_cfg c' = cm_cfg c" "pendingDeductions c' = pendingDeductions c" by (subst c', simp)+
  ultimately show ?thesis using cm by (simp add: solvent_def raws_shrink_def)
qed

lemma confirm_broker2_solvent:
  assumes sol: "solvent c" and mt: "matches c sid tx" and run: "confirm_broker2 sid tx c = Inr c'"
  shows "solvent c' \<and> raws_shrink c c'"
proof -
  obtain r bm where cf: "ConfirmBrokerTx tx (bManager c) = (r, bm)" by (rule prod.exhaust)
  note so = sol [unfolded solvent_def] and cm = ConfirmBrokerTx_money [OF cf conjunct1 [OF sol [unfolded solvent_def]]]
  show ?thesis
  proof (cases "r = Inr ()")
    case False
    then have "c' = c\<lparr>bManager := bm\<rparr>" "bm = bManager c" using run cf cm by (auto simp: confirm_broker2_def split: sum.splits)
    then show ?thesis using sol by (simp add: raws_shrink_def)
  next
    case True
    obtain i where i: "map_of (unconfirmedTxInfo (bManager c)) (BOriginalHash tx) = Some i" "0 \<le> Value (rawTx i)"
      "\<And>loc a z. held loc (unconfirmedTxInfo bm) a z = held loc (unconfirmedTxInfo (bManager c)) a z -
         (if BrokerStage tx = Sigma2BrokerStage then share loc a z (rawTx i) else 0)" using cm True by blast
    have tx: "BrokerStage tx = Sigma2BrokerStage" "Value tx = Value (rawTx i)" "Broker tx = Broker (rawTx i)"
      "committee_loc c (Recipient (rawTx i)) = sid" using mt i(1) by (simp_all add: matches_def)
    obtain bal pd where c': "c' = c\<lparr>bManager := bm, brokerBalances := bal, pendingDeductions := pd\<rparr>"
      and u: "cell_upd (Broker tx) sid (\<lambda>x. x - Value tx) (brokerBalances c) = Inr bal"
        "cell_upd (Broker tx) sid (\<lambda>p. if p - Value tx < 0 then 0 else p - Value tx) (pendingDeductions c) = Inr pd"
      using run cf True by (auto simp: confirm_broker2_def split: sum.splits)
    have nn: "0 \<le> held loc (unconfirmedTxInfo bm) a z" for loc a z using cm by (intro held_nonneg) (simp add: mgr_ok_def)
    have sub: "held (committee_loc c) (unconfirmedTxInfo bm) a z = held (committee_loc c) (unconfirmedTxInfo (bManager c)) a z -
        (if a = Broker tx \<and> z = sid then Value tx else 0)" for a z
      unfolding i(3) using tx by (auto simp: share_def)
    have "money_ok (cm_shards c) (IsBroker (bManager c)) (held (committee_loc c) (unconfirmedTxInfo bm)) bal pd"
      by (rule money_settle [OF conjunct2 [OF so] u sub nn])
    moreover have "committee_loc c' = committee_loc c" by (simp add: c' committee_loc_def fun_eq_iff)
    ultimately show ?thesis using cm c' by (simp add: solvent_def raws_shrink_def)
  qed
qed

lemma raws_shrink_trans: "raws_shrink a b \<Longrightarrow> raws_shrink b c \<Longrightarrow> raws_shrink a c"
  unfolding raws_shrink_def by metis

lemma raws_shrink_refl [simp]: "raws_shrink c c"
  by (simp add: raws_shrink_def)

text \<open>A property of single confirmations that keeps the raw transactions carries over to the loop.\<close>

lemma foldM_solvent:
  assumes step: "\<And>x c c'. x \<in> set xs \<Longrightarrow> solvent c \<Longrightarrow> raws_shrink c0 c \<Longrightarrow> h x c = Inr c' \<Longrightarrow> solvent c' \<and> raws_shrink c c'"
  shows "solvent c \<Longrightarrow> raws_shrink c0 c \<Longrightarrow> foldM_res h xs c = Inr c' \<Longrightarrow> solvent c' \<and> raws_shrink c0 c'"
  using step
proof (induction xs arbitrary: c)
  case (Cons x xs)
  from Cons.prems(3) obtain c1 where c1: "h x c = Inr c1" "foldM_res h xs c1 = Inr c'" by (auto split: sum.splits)
  have s1: "solvent c1 \<and> raws_shrink c c1" using Cons.prems(4) [OF _ Cons.prems(1,2) c1(1)] by simp
  from s1 Cons.prems(2) have "raws_shrink c0 c1" using raws_shrink_trans by blast
  with s1 show ?case by (intro Cons.IH [OF _ _ c1(2)]) (simp, simp, meson Cons.prems(4) list.set_intros(2))
qed simp

lemma StaticBroker_handleBlock_solvent:
  assumes sol: "solvent c" and hon: "honest_block c b" and run: "StaticBroker_handleBlock b c = Inr c'"
  shows "solvent c'"
proof -
  let ?c0 = "count_block (brokerBlockTxCount b) c"
  have f: "bManager ?c0 = bManager c" "brokerBalances ?c0 = brokerBalances c" "pendingDeductions ?c0 = pendingDeductions c"
    by (simp_all add: count_block_def)
  have s0: "solvent ?c0" by (rule solvent_cong [OF sol]) (simp_all add: f)
  have r0: "raws_shrink c ?c0" by (simp add: raws_shrink_def f)
  obtain c1 where c1: "foldM_res (confirm_broker1 (bi_ShardID b)) (bi_Broker1Txs b) ?c0 = Inr c1"
    "foldM_res (confirm_broker2 (bi_ShardID b)) (bi_Broker2Txs b) c1 = Inr c'"
    using run by (auto simp: StaticBroker_handleBlock_def split: sum.splits)
  have "solvent c1 \<and> raws_shrink c c1"
    by (rule foldM_solvent [OF _ s0 r0 c1(1)]) (rule confirm_broker1_solvent, use hon in \<open>auto simp: honest_block_def\<close>)
  moreover have "solvent c' \<and> raws_shrink c c'" if "solvent c1" "raws_shrink c c1"
    by (rule foldM_solvent [OF _ that c1(2)])
      (rule confirm_broker2_solvent, assumption, rule matches_shrink, use hon in \<open>auto simp: honest_block_def\<close>)
  ultimately show ?thesis by blast
qed

section \<open>Runs of the static broker committee\<close>

definition honest_msg :: "'p broker_committee \<Rightarrow> 'p wrapped_msg \<Rightarrow> bool" where
  "honest_msg c m \<longleftrightarrow>
     (MsgType m = BrokerBlockInfoMessageType \<longrightarrow>
        (case g_dec_BrokerBlockInfo (cm_gob c) (Payload m) of Inl _ \<Rightarrow> True | Inr b \<Rightarrow> honest_block c b))"

definition reads_money :: "com_env \<Rightarrow> 'p broker_committee \<Rightarrow> bool" where
  "reads_money env c \<longleftrightarrow> (case read_next env c of Some (Inr txs, _) \<Rightarrow> \<forall>tx\<in>set txs. 0 \<le> Value tx | _ \<Rightarrow> True)"

inductive sb_step :: "'t codec \<Rightarrow> 'p broker_committee \<Rightarrow> 'p broker_committee \<Rightarrow> bool" for cd where
  send: "StaticBroker_SendTxsAndConsensus cd env c = Some (r, c') \<Longrightarrow> reads_money env c \<Longrightarrow> sb_step cd c c'"
| report: "StaticBroker_HandleMsg m c = (r, c') \<Longrightarrow> honest_msg c m \<Longrightarrow> sb_step cd c c'"

inductive_cases sb_stepE: "sb_step cd c c'"

lemma sb_step_solvent:
  assumes "sb_step cd c c'" "solvent c"
  shows "solvent c'"
  using assms(1)
proof cases
  case (send env r)
  show ?thesis by (rule StaticBroker_Send_solvent [OF assms(2) send(1)]) (use send(2) in \<open>simp add: reads_money_def\<close>)
next
  case (report m r)
  show ?thesis
  proof (cases "c' = c")
    case False
    then obtain b where "g_dec_BrokerBlockInfo (cm_gob c) (Payload m) = Inr b" "MsgType m = BrokerBlockInfoMessageType"
      "StaticBroker_handleBlock b c = Inr c'" using report(1) by (auto simp: StaticBroker_HandleMsg_def split: if_splits sum.splits)
    then show ?thesis using report(2) StaticBroker_handleBlock_solvent [OF assms(2)] by (simp add: honest_msg_def)
  qed (use assms(2) in simp)
qed

lemma sb_run_solvent: "(sb_step cd)\<^sup>*\<^sup>* c c' \<Longrightarrow> solvent c \<Longrightarrow> solvent c'"
  by (induction rule: rtranclp_induct) (auto intro: sb_step_solvent)

lemma fold_update_lookup:
  "map_get (fold (\<lambda>b. AList.update b x) bs m) a [] = (if a \<in> set bs then x else map_get m a [])"
  by (induction bs arbitrary: m) (auto simp: map_get_update)

lemma BrokerInitBalance_pos: "0 \<le> BrokerInitBalance"
  by (simp add: BrokerInitBalance_def BrokerInitBalanceStr_def big_SetString_def dec_digit_def)

lemma NewStaticBrokerCommittee_solvent:
  assumes "NewStaticBrokerCommittee os_Open bf out r g scfg = Inr c"
  shows "solvent c" "0 \<le> cm_shards c \<or> brokers (bManager c) = []"
proof -
  obtain bs where bs: "NewBrokerManager (bf (BrokerFilePath scfg)) (BrokerNum scfg) = Inr bs" "bManager c = bs" "cm_cfg c = scfg"
    "brokerBalances c = fold (\<lambda>b. AList.update b (replicate (nat (ShardNum (sv_Sys scfg))) BrokerInitBalance)) (brokers bs) []"
    "pendingDeductions c = fold (\<lambda>b. AList.update b (replicate (nat (ShardNum (sv_Sys scfg))) 0)) (brokers bs) []"
    and n: "0 \<le> ShardNum (sv_Sys scfg) \<or> brokers bs = []"
    using assms by (auto simp: NewStaticBrokerCommittee_def GetBrokers_def Let_def split: sum.splits if_splits)
  then show "0 \<le> cm_shards c \<or> brokers (bManager c) = []" by simp
  have m: "unconfirmedTxInfo bs = []" "brokers bs = map fst (broker2Nonce bs)" using bs(1) by (auto simp: NewBrokerManager_def split: sum.splits)
  have isb: "IsBroker bs b \<longleftrightarrow> b \<in> set (brokers bs)" for b by (simp add: IsBroker_def m(2) map_of_eq_None_iff)
  show "solvent c" unfolding solvent_def mgr_ok_def money_ok_def bs(2-5) isb
    using n m(1) isb BrokerInitBalance_pos by (auto simp: fold_update_lookup held_def cell_def)
qed

section \<open>Where the transactions go\<close>

lemma CreateRawTx_ready:
  "CreateRawTx cd tx b bm = (r, bm') \<Longrightarrow>
   (case r of Inl _ \<Rightarrow> bm' = bm
    | Inr _ \<Rightarrow> \<exists>h. Tx_Hash cd tx = Inr h \<and> readyBroker1TxHashes bm' = readyBroker1TxHashes bm @ [h] \<and> readyBroker2TxHashes bm' = readyBroker2TxHashes bm)"
  by (auto simp: CreateRawTx_def Let_def split: sum.splits if_splits)

lemma CreateRawTx_inv: "CreateRawTx cd tx b bm = (r, bm') \<Longrightarrow> bm_inv bm \<Longrightarrow> bm_inv bm'"
proof (cases r)
  case (Inl e)
  assume "CreateRawTx cd tx b bm = (r, bm')" "bm_inv bm"
  then show ?thesis using CreateRawTx_ready [of cd tx b bm r bm'] Inl by simp
next
  case (Inr raw)
  assume "CreateRawTx cd tx b bm = (r, bm')" "bm_inv bm"
  then show ?thesis using CreateRawTx_Inr [of cd tx b bm raw bm'] Inr by blast
qed

lemma find_broker_ready:
  "find_broker cd tx s bs c = Inr (fd, c') \<Longrightarrow> bm_inv (bManager c) \<Longrightarrow>
   bm_inv (bManager c') \<and> readyBroker2TxHashes (bManager c') = readyBroker2TxHashes (bManager c) \<and>
   (if fd then \<exists>h. Tx_Hash cd tx = Inr h \<and> readyBroker1TxHashes (bManager c') = readyBroker1TxHashes (bManager c) @ [h]
    else readyBroker1TxHashes (bManager c') = readyBroker1TxHashes (bManager c))"
proof (induction cd tx s bs c rule: find_broker.induct)
  case (2 cd tx s b rest c)
  obtain bal pen where g: "cell_get b s (brokerBalances c) = Inr bal" "cell_get b s (pendingDeductions c) = Inr pen"
    using "2.prems"(1) by (auto split: sum.splits)
  show ?case
  proof (cases "bal - pen \<ge> Value tx")
    case True
    obtain pd where pd: "cell_upd b s (\<lambda>p. p + Value tx) (pendingDeductions c) = Inr pd"
      using "2.prems"(1) g True by (auto split: sum.splits)
    obtain r bm where cr: "CreateRawTx cd tx b (bManager c) = (r, bm)" by (rule prod.exhaust)
    note rd = CreateRawTx_ready [OF cr] CreateRawTx_inv [OF cr "2.prems"(2)]
    show ?thesis
    proof (cases r)
      case (Inl e)
      let ?c1 = "c\<lparr>pendingDeductions := pd, bManager := bm\<rparr>"
      have "find_broker cd tx s rest ?c1 = Inr (fd, c')" using "2.prems"(1) g True pd cr Inl by simp
      from "2.IH"(1) [OF g True pd _ _ this] cr Inl rd show ?thesis by (cases fd) simp_all
    next
      case (Inr u)
      then show ?thesis using "2.prems"(1) g True pd cr rd by auto
    qed
  next
    case False
    then have "find_broker cd tx s rest c = Inr (fd, c')" using "2.prems"(1) g by simp
    from "2.IH"(2) [OF g False this "2.prems"(2)] show ?thesis .
  qed
qed simp

text \<open>Every cross-shard transaction becomes a raw broker transaction or falls back to a relay transaction, never both.\<close>

lemma assign_cross_split:
  "assign_cross cd env i txs c = Inr (rel, c') \<Longrightarrow> bm_inv (bManager c) \<Longrightarrow>
   bm_inv (bManager c') \<and> readyBroker2TxHashes (bManager c') = readyBroker2TxHashes (bManager c) \<and>
   (\<exists>brokered rel0 hs. mset txs = mset brokered + mset rel0 \<and> rel = map (fallback_tx cd) rel0 \<and>
      map (Tx_Hash cd) brokered = map Inr hs \<and> readyBroker1TxHashes (bManager c') = readyBroker1TxHashes (bManager c) @ hs)"
proof (induction txs arbitrary: i c rel)
  case (Cons tx txs)
  from Cons.prems(1) obtain fd c1 rel1 where f: "find_broker cd tx (DefaultAccountLoc (Recipient tx) (cm_shards c))
      (ce_shuffle env i (GetBrokers (bManager c))) c = Inr (fd, c1)" "assign_cross cd env (i + 1) txs c1 = Inr (rel1, c')"
    and rel: "rel = (if fd then rel1 else fallback_tx cd tx # rel1)" by (auto split: sum.splits prod.splits)
  note fr = find_broker_ready [OF f(1) Cons.prems(2)]
  from Cons.IH [OF f(2)] fr obtain brokered rel0 hs where ih: "bm_inv (bManager c')"
    "readyBroker2TxHashes (bManager c') = readyBroker2TxHashes (bManager c)" "mset txs = mset brokered + mset rel0"
    "rel1 = map (fallback_tx cd) rel0" "map (Tx_Hash cd) brokered = map Inr hs"
    "readyBroker1TxHashes (bManager c') = readyBroker1TxHashes (bManager c1) @ hs" by auto
  show ?case
  proof (cases fd)
    case True
    then obtain h where h: "Tx_Hash cd tx = Inr h" "readyBroker1TxHashes (bManager c1) = readyBroker1TxHashes (bManager c) @ [h]" using fr by auto
    have "\<exists>brokered rel0 hs. mset (tx # txs) = mset brokered + mset rel0 \<and> rel = map (fallback_tx cd) rel0 \<and>
      map (Tx_Hash cd) brokered = map Inr hs \<and> readyBroker1TxHashes (bManager c') = readyBroker1TxHashes (bManager c) @ hs"
      by (rule exI [of _ "tx # brokered"], rule exI [of _ rel0], rule exI [of _ "h # hs"]) (use ih h rel True in simp)
    then show ?thesis using ih(1,2) by blast
  next
    case False
    have "\<exists>brokered rel0 hs. mset (tx # txs) = mset brokered + mset rel0 \<and> rel = map (fallback_tx cd) rel0 \<and>
      map (Tx_Hash cd) brokered = map Inr hs \<and> readyBroker1TxHashes (bManager c') = readyBroker1TxHashes (bManager c) @ hs"
      by (rule exI [of _ brokered], rule exI [of _ "tx # rel0"], rule exI [of _ hs]) (use ih rel fr False in simp)
    then show ?thesis using ih(1,2) by blast
  qed
qed simp

text \<open>What one successful call sends: the local transactions, the fallbacks, and the halves that are ready.\<close>

lemma StaticBroker_Send_sent:
  assumes ok: "gob_ok (cm_gob c)" "leaders_ok (cm_r c)" "0 < cm_shards c" "bm_inv (bManager c)"
    and rd: "read_next env c = Some (Inr txs, c1)" and run: "StaticBroker_readTxsAndSend cd env c = Some (Inr (), c')"
  obtains new brokered rel0 hs b1s b2s where "cm_conn c' = cm_conn c @ new"
    "mset txs = mset (filter (\<lambda>tx. \<not> cross_tx (bManager c) (committee_loc c) tx) txs) + mset brokered + mset rel0"
    "mset (sent_txs (cm_gob c) new) = mset (filter (\<lambda>tx. \<not> cross_tx (bManager c) (committee_loc c) tx) txs) +
       mset (map (fallback_tx cd) rel0) + mset b1s + mset b2s"
    "map (Tx_Hash cd) brokered = map Inr hs" "map BOriginalHash b1s = readyBroker1TxHashes (bManager c) @ hs"
    "map BOriginalHash b2s = readyBroker2TxHashes (bManager c)" "bm_inv (bManager c')"
    "\<And>s. sent_to (cm_gob c) s new = filter (\<lambda>tx. StaticBroker_getTxLoc c' tx = s) (sent_to (cm_gob c) s new)"
proof -
  obtain src' where c1: "c1 = c\<lparr>cm_txSource := src'\<rparr>" using rd by (auto simp: read_next_def split: option.splits)
  let ?cross = "cross_tx (bManager c) (committee_loc c)"
  have cl: "StaticBroker_classifyTxs c1 txs = (filter (\<lambda>tx. \<not> ?cross tx) txs, filter ?cross txs)"
    by (simp add: StaticBroker_classifyTxs_def c1 committee_loc_def [abs_def] Let_def)
  obtain rel c2 where a: "assign_cross cd env 0 (filter ?cross txs) c1 = Inr (rel, c2)"
    using run rd cl by (auto simp: StaticBroker_readTxsAndSend_def split: sum.splits)
  note base = conjunct1 [OF assign_cross_base [OF a]]
  have inv1: "bm_inv (bManager c1)" using ok(4) c1 by simp
  obtain brokered rel0 hs where sp: "bm_inv (bManager c2)" "readyBroker2TxHashes (bManager c2) = readyBroker2TxHashes (bManager c)"
    "mset (filter ?cross txs) = mset brokered + mset rel0" "rel = map (fallback_tx cd) rel0" "map (Tx_Hash cd) brokered = map Inr hs"
    "readyBroker1TxHashes (bManager c2) = readyBroker1TxHashes (bManager c) @ hs"
    using assign_cross_split [OF a inv1] c1 by auto
  obtain b1s b2s bm where cb: "CreateBrokerTxs (ce_clk env) (bManager c2) = ((b1s, b2s), bm)" by (metis surj_pair)
  note cbs = CreateBrokerTxs_spec [OF sp(1) cb]
  let ?c3 = "c2\<lparr>bManager := bm\<rparr>" and ?sends = "filter (\<lambda>tx. \<not> ?cross tx) txs @ rel @ b1s @ b2s"
  have d: "dispatch (length txs) ?sends (StaticBroker_getTxLoc ?c3) ?c3 = (Inr (), c')"
    using run rd cl a cb by (simp add: StaticBroker_readTxsAndSend_def Let_def)
  have f3: "cm_gob ?c3 = cm_gob c" "cm_r ?c3 = cm_r c" "cm_conn ?c3 = cm_conn c" "cm_cfg ?c3 = cm_cfg c"
    using base c1 by (simp_all add: same_base_def)
  obtain new where new: "c' = ?c3\<lparr>cm_conn := cm_conn ?c3 @ new, cm_unsentTxNum := wrap64 (cm_unsentTxNum ?c3 - int (length txs))\<rparr>"
    "\<And>s. sent_to (cm_gob ?c3) s new = (if 0 \<le> s \<and> s < cm_shards ?c3 then filter (\<lambda>tx. StaticBroker_getTxLoc ?c3 tx = s) ?sends else [])"
    "mset (sent_txs (cm_gob ?c3) new) = mset (filter (\<lambda>tx. 0 \<le> StaticBroker_getTxLoc ?c3 tx \<and> StaticBroker_getTxLoc ?c3 tx < cm_shards ?c3) ?sends)"
    by (rule dispatch_Inr [OF _ _ d]) (use ok(1,2) f3 in simp_all)
  have "0 < cm_shards ?c3" using ok(3) f3 by simp
  then have rg: "0 \<le> StaticBroker_getTxLoc ?c3 tx \<and> StaticBroker_getTxLoc ?c3 tx < cm_shards ?c3" for tx
    using DefaultAccountLoc_range [of "cm_shards ?c3"] by (simp add: StaticBroker_getTxLoc_def Let_def)
  have loc': "StaticBroker_getTxLoc c' = StaticBroker_getTxLoc ?c3" by (simp add: new(1) StaticBroker_getTxLoc_def fun_eq_iff Let_def)
  show ?thesis
  proof (rule that [of new brokered rel0 b1s b2s hs])
    show "cm_conn c' = cm_conn c @ new" using new(1) f3 by simp
    show "mset txs = mset (filter (\<lambda>tx. \<not> ?cross tx) txs) + mset brokered + mset rel0"
      unfolding mset_partition_filter [of ?cross txs, symmetric] sp(3) by (simp only: union_ac)
    show "mset (sent_txs (cm_gob c) new) = mset (filter (\<lambda>tx. \<not> ?cross tx) txs) + mset (map (fallback_tx cd) rel0) + mset b1s + mset b2s"
      using new(3) f3(1) rg sp(4) by (simp add: union_ac)
    show "bm_inv (bManager c')" using cbs(3) new(1) by simp
    show "sent_to (cm_gob c) s new = filter (\<lambda>tx. StaticBroker_getTxLoc c' tx = s) (sent_to (cm_gob c) s new)" for s
      using new(2) [of s] f3(1) unfolding loc' by simp
  qed (use sp cbs in simp_all)
qed

end
