(* ===== verification/Measure.thy ===== *)
theory Measure
  imports Committee
begin

text \<open>
  \<open>supervisor/measure\<close>: the statistics of the relay mechanism (\<open>relaystats.go\<close>) and of the broker mechanism
  (\<open>brokerstats.go\<close>). A map of counters per epoch is an association list and adding to it wraps around at 64 bits.
  The \<open>float64\<close> arithmetic of the averages is the parameter \<open>float_api\<close> and \<open>%.2f\<close> is the parameter \<open>fmt2f\<close>. An error of
  writing a line is logged only, so the file system passes through.

  The lemmas show that the counters are the sums over all reports, that the life cycle of a cross-shard transaction is
  open exactly while one of its halves is missing, in whatever order the halves are reported, and that the detail file gets
  one line for each completed pair.
\<close>

section \<open>Shared parts\<close>

definition counter_add :: "int \<Rightarrow> int \<Rightarrow> (int, int) gomap \<Rightarrow> (int, int) gomap" where
  "counter_add k n m = AList.update k (wrap64 (map_get m k 0 + n)) m"

definition earliest :: "int \<Rightarrow> gotime \<Rightarrow> (int, gotime) gomap \<Rightarrow> (int, gotime) gomap" where
  "earliest k t m =
     (case map_of m k of None \<Rightarrow> AList.update k t m | Some start \<Rightarrow> if t < start then AList.update k t m else m)"

definition latest :: "int \<Rightarrow> gotime \<Rightarrow> (int, gotime) gomap \<Rightarrow> (int, gotime) gomap" where
  "latest k t m =
     (case map_of m k of None \<Rightarrow> AList.update k t m | Some stop \<Rightarrow> if stop < t then AList.update k t m else m)"

text \<open>
  One half of a pair arrives: the first opens the life cycle, the second completes it. The completed life cycle is written
  and deleted.
\<close>

definition note_half :: "('l \<Rightarrow> 'l) \<Rightarrow> 'l \<Rightarrow> bytes \<Rightarrow> (bytes, 'l) gomap \<Rightarrow> 'l option \<times> (bytes, 'l) gomap" where
  "note_half upd fresh h m =
     (case map_of m h of None \<Rightarrow> (None, AList.update h (upd fresh) m) | Some tc \<Rightarrow> (Some (upd tc), AList.delete h m))"

definition Sprintf_t :: "bool \<Rightarrow> string" where
  "Sprintf_t b = (if b then ''true'' else ''false'')"

section \<open>Relay statistics\<close>

record relay_life =
  rl_CreateTime :: gotime
  rl_CommitTime :: gotime
  rl_InnerPropose :: gotime
  rl_Relay1Propose :: gotime
  rl_Relay2Propose :: gotime
  rl_Relay1Commit :: gotime
  rl_Relay2Commit :: gotime
  rl_isCross :: bool

definition relay_life0 :: relay_life where
  "relay_life0 = \<lparr>rl_CreateTime = 0, rl_CommitTime = 0, rl_InnerPropose = 0, rl_Relay1Propose = 0, rl_Relay2Propose = 0,
     rl_Relay1Commit = 0, rl_Relay2Commit = 0, rl_isCross = False\<rparr>"

definition relay_detailTxInfoPath :: string where "relay_detailTxInfoPath = ''relay_stats_detail_tx_info.csv''"
definition relay_briefTxInfoPath :: string where "relay_briefTxInfoPath = ''relay_stats_brief_info.csv''"

definition relay_detailTxInfoMeasures :: "string list" where
  "relay_detailTxInfoMeasures =
     [''OriginalHash'', ''Tx create time'', ''Tx finally commit time'', ''Is cross-shard tx or not'',
      ''Inner shard tx block propose time'', ''Relay1 block propose time'', ''Relay1 tx commit time'',
      ''Relay2 block propose time'', ''Relay2 tx commit time'']"

record relay_stats =
  rs_relay1TCLSum :: "(int, int) gomap"
  rs_relay2TCLSum :: "(int, int) gomap"
  rs_innerShardTCLSum :: "(int, int) gomap"
  rs_innerShardTxNum :: "(int, int) gomap"
  rs_relay1TxNum :: "(int, int) gomap"
  rs_relay2TxNum :: "(int, int) gomap"
  rs_epochStartTime :: "(int, gotime) gomap"
  rs_epochEndTime :: "(int, gotime) gomap"
  rs_txLifecycles :: "(bytes, relay_life) gomap"
  rs_outputDir :: string
  rs_cs :: string

definition NewRelayStats :: "string \<Rightarrow> filesys \<Rightarrow> relay_stats result \<times> filesys" where
  "NewRelayStats outputDir fs =
     (case NewCSVSeqWriter (path_Join outputDir relay_detailTxInfoPath) relay_detailTxInfoMeasures fs of
        (Inl e, fs1) \<Rightarrow> (Inl (Wrapf ''error creating CSV sequence writer'' e), fs1)
      | (Inr w, fs1) \<Rightarrow>
          (Inr \<lparr>rs_relay1TCLSum = [], rs_relay2TCLSum = [], rs_innerShardTCLSum = [], rs_innerShardTxNum = [],
                rs_relay1TxNum = [], rs_relay2TxNum = [], rs_epochStartTime = [], rs_epochEndTime = [],
                rs_txLifecycles = [], rs_outputDir = outputDir, rs_cs = w\<rparr>, fs1))"

definition relay_line :: "filesys \<Rightarrow> bytes \<Rightarrow> relay_life \<Rightarrow> string list" where
  "relay_line fs h tc =
     [hex_EncodeToString h, ConvertTime2Str fs (rl_CreateTime tc), ConvertTime2Str fs (rl_CommitTime tc),
      Sprintf_t (rl_isCross tc), ConvertTime2Str fs (rl_InnerPropose tc), ConvertTime2Str fs (rl_Relay1Propose tc),
      ConvertTime2Str fs (rl_Relay1Commit tc), ConvertTime2Str fs (rl_Relay2Propose tc), ConvertTime2Str fs (rl_Relay2Commit tc)]"

definition relay_writeTxInfo :: "relay_stats \<Rightarrow> bytes \<Rightarrow> relay_life \<Rightarrow> filesys \<Rightarrow> unit result \<times> filesys" where
  "relay_writeTxInfo r h tc fs = apfst (wrap_err ''WriteLine2CSV failed'') (WriteLine2CSV (rs_cs r) (relay_line fs h tc) fs)"

definition updateRelayTxTCLByTxLifecycle :: "relay_life \<Rightarrow> int \<Rightarrow> relay_stats \<Rightarrow> relay_stats" where
  "updateRelayTxTCLByTxLifecycle tc ep r =
     r\<lparr>rs_relay1TCLSum := counter_add ep (time_Sub (rl_Relay1Commit tc) (rl_CreateTime tc)) (rs_relay1TCLSum r),
       rs_relay2TCLSum := counter_add ep (time_Sub (rl_Relay2Commit tc) (rl_Relay1Commit tc)) (rs_relay2TCLSum r)\<rparr>"

definition relay_inner ::
  "'t codec \<Rightarrow> relay_block_info_msg \<Rightarrow> transaction \<Rightarrow> relay_stats \<times> filesys \<Rightarrow> relay_stats \<times> filesys" where
  "relay_inner cd b tx = (\<lambda>(r, fs).
     case Tx_Hash cd tx of Inl _ \<Rightarrow> (r, fs)
     | Inr th \<Rightarrow>
         (let tc = relay_life0\<lparr>rl_CreateTime := CreateTime tx, rl_InnerPropose := ri_BlockProposeTime b,
                               rl_CommitTime := ri_BlockCommitTime b, rl_isCross := False\<rparr>
          in (r\<lparr>rs_innerShardTCLSum :=
                 counter_add (ri_Epoch b) (time_Sub (ri_BlockCommitTime b) (CreateTime tx)) (rs_innerShardTCLSum r),
               rs_txLifecycles := AList.delete th (AList.update th tc (rs_txLifecycles r))\<rparr>,
              snd (relay_writeTxInfo r th tc fs))))"

definition relay_half ::
  "(relay_life \<Rightarrow> relay_life) \<Rightarrow> int \<Rightarrow> transaction \<Rightarrow> relay_stats \<times> filesys \<Rightarrow> relay_stats \<times> filesys" where
  "relay_half upd ep tx = (\<lambda>(r, fs).
     case note_half upd (relay_life0\<lparr>rl_CreateTime := CreateTime tx, rl_isCross := True\<rparr>) (ROriginalHash tx) (rs_txLifecycles r) of
       (None, m) \<Rightarrow> (r\<lparr>rs_txLifecycles := m\<rparr>, fs)
     | (Some tc, m) \<Rightarrow>
         ((updateRelayTxTCLByTxLifecycle tc ep r)\<lparr>rs_txLifecycles := m\<rparr>, snd (relay_writeTxInfo r (ROriginalHash tx) tc fs)))"

definition relay1_seen :: "relay_block_info_msg \<Rightarrow> relay_life \<Rightarrow> relay_life" where
  "relay1_seen b tc = tc\<lparr>rl_Relay1Propose := ri_BlockProposeTime b, rl_Relay1Commit := ri_BlockCommitTime b\<rparr>"

definition relay2_seen :: "relay_block_info_msg \<Rightarrow> relay_life \<Rightarrow> relay_life" where
  "relay2_seen b tc = tc\<lparr>rl_Relay2Propose := ri_BlockProposeTime b, rl_Relay2Commit := ri_BlockCommitTime b,
     rl_CommitTime := ri_BlockCommitTime b\<rparr>"

definition relay_counts :: "relay_block_info_msg \<Rightarrow> relay_stats \<Rightarrow> relay_stats" where
  "relay_counts b r =
     r\<lparr>rs_epochStartTime := earliest (ri_Epoch b) (ri_BlockProposeTime b) (rs_epochStartTime r),
       rs_epochEndTime := latest (ri_Epoch b) (ri_BlockCommitTime b) (rs_epochEndTime r),
       rs_relay1TxNum := counter_add (ri_Epoch b) (int (length (ri_Relay1Txs b))) (rs_relay1TxNum r),
       rs_relay2TxNum := counter_add (ri_Epoch b) (int (length (ri_Relay2Txs b))) (rs_relay2TxNum r),
       rs_innerShardTxNum := counter_add (ri_Epoch b) (int (length (ri_InnerShardTxs b))) (rs_innerShardTxNum r)\<rparr>"

definition relay_record :: "'t codec \<Rightarrow> relay_block_info_msg \<Rightarrow> relay_stats \<times> filesys \<Rightarrow> relay_stats \<times> filesys" where
  "relay_record cd b = (\<lambda>(r, fs).
     fold (relay_half (relay2_seen b) (ri_Epoch b)) (ri_Relay2Txs b)
       (fold (relay_half (relay1_seen b) (ri_Epoch b)) (ri_Relay1Txs b)
         (fold (relay_inner cd b) (ri_InnerShardTxs b) (relay_counts b r, fs))))"

definition relay_UpdateMeasureRecord ::
  "'t codec \<Rightarrow> 'p gob_api \<Rightarrow> 'p wrapped_msg \<Rightarrow> relay_stats \<times> filesys \<Rightarrow> unit result \<times> relay_stats \<times> filesys" where
  "relay_UpdateMeasureRecord cd g m st =
     (if MsgType m \<noteq> RelayBlockInfoMessageType then (Inr (), st)
      else (case g_dec_RelayBlockInfo g (Payload m) of
              Inl e \<Rightarrow> (Inl (Wrapf ''decode relayBlockInfoMsg'' e), st)
            | Inr b \<Rightarrow> (Inr (), relay_record cd b st)))"

definition relay_measureName :: "string list" where
  "relay_measureName =
     [''EpochID'', ''Total tx # in this epoch'', ''Inner-shard tx # in this epoch'', ''Relay1 tx # in this epoch'',
      ''Relay2 tx # in this epoch'', ''Epoch start time'', ''Epoch end time'', ''Avg. TPS of this epoch (txs per second)'',
      ''CTX ratio of this epoch'', ''Avg. TCL of this epoch (nanosecond)'', ''Avg. inner-shard TCL of this epoch (nanosecond)'',
      ''Avg. relay1 TCL of this epoch (nanosecond)'', ''Avg. relay2 TCL of this epoch (nanosecond)'']"

definition relay_epoch_line :: "'f float_api \<Rightarrow> ('f \<Rightarrow> string) \<Rightarrow> filesys \<Rightarrow> relay_stats \<Rightarrow> int \<Rightarrow> string list" where
  "relay_epoch_line fl fmt2f fs r ep =
     (let f = fl_of_int fl; start = map_get (rs_epochStartTime r) ep 0; stop = map_get (rs_epochEndTime r) ep 0;
          n1 = map_get (rs_relay1TxNum r) ep 0; n2 = map_get (rs_relay2TxNum r) ep 0; ni = map_get (rs_innerShardTxNum r) ep 0;
          epochDuration = Duration_Seconds fl (time_Sub stop start);
          ctxCnt = fl_div fl (f (wrap64 (n1 + n2))) (f 2);
          totalTxCnt = fl_add fl (f ni) ctxCnt;
          relay1TCL = f (map_get (rs_relay1TCLSum r) ep 0); relay2TCL = f (map_get (rs_relay2TCLSum r) ep 0);
          innerShardTCL = f (map_get (rs_innerShardTCLSum r) ep 0);
          totalTCL = fl_add fl (fl_add fl relay1TCL relay2TCL) innerShardTCL
      in [Sprintf_d ep, fmt2f totalTxCnt, Sprintf_d ni, Sprintf_d n1, Sprintf_d n2, time_Format fs start, time_Format fs stop,
          fmt2f (fl_div fl totalTxCnt epochDuration), fmt2f (fl_div fl ctxCnt totalTxCnt), fmt2f (fl_div fl totalTCL totalTxCnt),
          fmt2f (fl_div fl innerShardTCL (f ni)), fmt2f (fl_div fl relay1TCL (f n1)), fmt2f (fl_div fl relay2TCL (f n2))])"

definition relay_outputBriefEpochInfo ::
  "'f float_api \<Rightarrow> ('f \<Rightarrow> string) \<Rightarrow> string \<Rightarrow> relay_stats \<Rightarrow> filesys \<Rightarrow> unit result \<times> filesys" where
  "relay_outputBriefEpochInfo fl fmt2f fp r fs =
     WriteAllToCSV fp relay_measureName (map (relay_epoch_line fl fmt2f fs r) (sort (map fst (rs_epochStartTime r)))) fs"

definition relay_OutputResultAndClose ::
  "'f float_api \<Rightarrow> ('f \<Rightarrow> string) \<Rightarrow> unit result \<Rightarrow> relay_stats \<Rightarrow> filesys \<Rightarrow> unit result \<times> filesys" where
  "relay_OutputResultAndClose fl fmt2f file_Close r fs =
     (case relay_outputBriefEpochInfo fl fmt2f (path_Join (rs_outputDir r) relay_briefTxInfoPath) r fs of
        (Inl e, fs1) \<Rightarrow> (Inl (Wrapf ''failed to output BriefEpochInfo'' e), fs1)
      | (Inr _, fs1) \<Rightarrow> (file_Close, fs1))"

section \<open>Broker statistics\<close>

record broker_life =
  bl_CreateTime :: gotime
  bl_CommitTime :: gotime
  bl_InnerPropose :: gotime
  bl_Broker1Create :: gotime
  bl_Broker2Create :: gotime
  bl_Broker1Propose :: gotime
  bl_Broker2Propose :: gotime
  bl_Broker1Commit :: gotime
  bl_Broker2Commit :: gotime
  bl_isBroker :: bool
  bl_mechanism :: string

definition broker_life0 :: broker_life where
  "broker_life0 = \<lparr>bl_CreateTime = 0, bl_CommitTime = 0, bl_InnerPropose = 0, bl_Broker1Create = 0, bl_Broker2Create = 0,
     bl_Broker1Propose = 0, bl_Broker2Propose = 0, bl_Broker1Commit = 0, bl_Broker2Commit = 0, bl_isBroker = False, bl_mechanism = []\<rparr>"

definition broker_detailTxInfoPath :: string where "broker_detailTxInfoPath = ''broker_stats_detail_tx_info.csv''"
definition broker_briefTxInfoPath :: string where "broker_briefTxInfoPath = ''broker_stats_brief_info.csv''"

definition broker_detailTxInfoMeasures :: "string list" where
  "broker_detailTxInfoMeasures =
     [''OriginalHash'', ''Mechanism'', ''Tx create time'', ''Tx finally commit time'', ''Is broker tx or not'',
      ''Inner shard tx block propose time'', ''Broker1 tx create time'', ''Broker1 block propose time'', ''Broker1 tx commit time'',
      ''Broker2 tx create time'', ''Broker2 block propose time'', ''Broker2 tx commit time'']"

record broker_stats =
  bs_broker1TCLSum :: "(int, int) gomap"
  bs_broker2TCLSum :: "(int, int) gomap"
  bs_innerShardTCLSum :: "(int, int) gomap"
  bs_relayFallbackTCLSum :: "(int, int) gomap"
  bs_innerShardTxNum :: "(int, int) gomap"
  bs_broker1TxNum :: "(int, int) gomap"
  bs_broker2TxNum :: "(int, int) gomap"
  bs_relayFallbackTxNum :: "(int, int) gomap"
  bs_epochStartTime :: "(int, gotime) gomap"
  bs_epochEndTime :: "(int, gotime) gomap"
  bs_txLifecycles :: "(bytes, broker_life) gomap"
  bs_outputDir :: string
  bs_cs :: string

definition NewBrokerStats :: "string \<Rightarrow> filesys \<Rightarrow> broker_stats result \<times> filesys" where
  "NewBrokerStats outputDir fs =
     (case NewCSVSeqWriter (path_Join outputDir broker_detailTxInfoPath) broker_detailTxInfoMeasures fs of
        (Inl e, fs1) \<Rightarrow> (Inl (Wrapf ''error creating CSV sequence writer'' e), fs1)
      | (Inr w, fs1) \<Rightarrow>
          (Inr \<lparr>bs_broker1TCLSum = [], bs_broker2TCLSum = [], bs_innerShardTCLSum = [], bs_relayFallbackTCLSum = [],
                bs_innerShardTxNum = [], bs_broker1TxNum = [], bs_broker2TxNum = [], bs_relayFallbackTxNum = [],
                bs_epochStartTime = [], bs_epochEndTime = [], bs_txLifecycles = [], bs_outputDir = outputDir, bs_cs = w\<rparr>, fs1))"

definition broker_line :: "filesys \<Rightarrow> bytes \<Rightarrow> broker_life \<Rightarrow> string list" where
  "broker_line fs h tc =
     [hex_EncodeToString h, bl_mechanism tc, ConvertTime2Str fs (bl_CreateTime tc), ConvertTime2Str fs (bl_CommitTime tc),
      Sprintf_t (bl_isBroker tc), ConvertTime2Str fs (bl_InnerPropose tc), ConvertTime2Str fs (bl_Broker1Create tc),
      ConvertTime2Str fs (bl_Broker1Propose tc), ConvertTime2Str fs (bl_Broker1Commit tc), ConvertTime2Str fs (bl_Broker2Create tc),
      ConvertTime2Str fs (bl_Broker2Propose tc), ConvertTime2Str fs (bl_Broker2Commit tc)]"

definition broker_writeTxInfo :: "broker_stats \<Rightarrow> bytes \<Rightarrow> broker_life \<Rightarrow> filesys \<Rightarrow> unit result \<times> filesys" where
  "broker_writeTxInfo s h tc fs = apfst (wrap_err ''WriteLine2CSV failed'') (WriteLine2CSV (bs_cs s) (broker_line fs h tc) fs)"

definition whole_life :: "broker_block_info_msg \<Rightarrow> string \<Rightarrow> transaction \<Rightarrow> broker_life" where
  "whole_life b mech tx = broker_life0\<lparr>bl_CreateTime := CreateTime tx, bl_InnerPropose := bi_BlockProposeTime b,
     bl_CommitTime := bi_BlockCommitTime b, bl_mechanism := mech\<rparr>"

definition broker_inner ::
  "'t codec \<Rightarrow> broker_block_info_msg \<Rightarrow> transaction \<Rightarrow> broker_stats \<times> filesys \<Rightarrow> broker_stats \<times> filesys" where
  "broker_inner cd b tx = (\<lambda>(s, fs).
     case Tx_Hash cd tx of Inl _ \<Rightarrow> (s, fs)
     | Inr th \<Rightarrow>
         (s\<lparr>bs_innerShardTCLSum :=
             counter_add (bi_Epoch b) (time_Sub (bi_BlockCommitTime b) (CreateTime tx)) (bs_innerShardTCLSum s)\<rparr>,
          snd (broker_writeTxInfo s th (whole_life b ''InnerShard'' tx) fs)))"

definition broker_fallback ::
  "'t codec \<Rightarrow> broker_block_info_msg \<Rightarrow> transaction \<Rightarrow> broker_stats \<times> filesys \<Rightarrow> broker_stats \<times> filesys" where
  "broker_fallback cd b tx = (\<lambda>(s, fs).
     case Tx_Hash cd tx of Inl _ \<Rightarrow> (s, fs)
     | Inr th \<Rightarrow>
         (let recordHash = (if 0 < length (ROriginalHash tx) then ROriginalHash tx else th)
          in (s\<lparr>bs_relayFallbackTCLSum :=
                 counter_add (bi_Epoch b) (time_Sub (bi_BlockCommitTime b) (CreateTime tx)) (bs_relayFallbackTCLSum s)\<rparr>,
              snd (broker_writeTxInfo s recordHash (whole_life b ''FallbackToRelay'' tx) fs))))"

definition broker_half ::
  "(transaction \<Rightarrow> broker_life \<Rightarrow> broker_life) \<Rightarrow> (transaction \<Rightarrow> broker_stats \<Rightarrow> broker_stats) \<Rightarrow> transaction \<Rightarrow>
   broker_stats \<times> filesys \<Rightarrow> broker_stats \<times> filesys" where
  "broker_half upd tcl tx = (\<lambda>(s, fs).
     case note_half (upd tx) (broker_life0\<lparr>bl_CreateTime := OriginalTxCreateTime tx, bl_isBroker := True, bl_mechanism := ''Broker''\<rparr>)
            (BOriginalHash tx) (bs_txLifecycles s) of
       (None, m) \<Rightarrow> ((tcl tx s)\<lparr>bs_txLifecycles := m\<rparr>, fs)
     | (Some tc, m) \<Rightarrow> ((tcl tx s)\<lparr>bs_txLifecycles := m\<rparr>, snd (broker_writeTxInfo s (BOriginalHash tx) tc fs)))"

definition broker1_seen :: "broker_block_info_msg \<Rightarrow> transaction \<Rightarrow> broker_life \<Rightarrow> broker_life" where
  "broker1_seen b tx tc = tc\<lparr>bl_Broker1Create := CreateTime tx, bl_Broker1Propose := bi_BlockProposeTime b,
     bl_Broker1Commit := bi_BlockCommitTime b\<rparr>"

definition broker2_seen :: "broker_block_info_msg \<Rightarrow> transaction \<Rightarrow> broker_life \<Rightarrow> broker_life" where
  "broker2_seen b tx tc = tc\<lparr>bl_Broker2Create := CreateTime tx, bl_Broker2Propose := bi_BlockProposeTime b,
     bl_Broker2Commit := bi_BlockCommitTime b, bl_CommitTime := bi_BlockCommitTime b\<rparr>"

definition broker1_tcl :: "broker_block_info_msg \<Rightarrow> transaction \<Rightarrow> broker_stats \<Rightarrow> broker_stats" where
  "broker1_tcl b tx s = s\<lparr>bs_broker1TCLSum :=
     counter_add (bi_Epoch b) (time_Sub (bi_BlockCommitTime b) (CreateTime tx)) (bs_broker1TCLSum s)\<rparr>"

definition broker2_tcl :: "broker_block_info_msg \<Rightarrow> transaction \<Rightarrow> broker_stats \<Rightarrow> broker_stats" where
  "broker2_tcl b tx s = s\<lparr>bs_broker2TCLSum :=
     counter_add (bi_Epoch b) (time_Sub (bi_BlockCommitTime b) (CreateTime tx)) (bs_broker2TCLSum s)\<rparr>"

definition broker_counts :: "broker_block_info_msg \<Rightarrow> broker_stats \<Rightarrow> broker_stats" where
  "broker_counts b s =
     s\<lparr>bs_epochStartTime := earliest (bi_Epoch b) (bi_BlockProposeTime b) (bs_epochStartTime s),
       bs_epochEndTime := latest (bi_Epoch b) (bi_BlockCommitTime b) (bs_epochEndTime s),
       bs_broker1TxNum := counter_add (bi_Epoch b) (int (length (bi_Broker1Txs b))) (bs_broker1TxNum s),
       bs_broker2TxNum := counter_add (bi_Epoch b) (int (length (bi_Broker2Txs b))) (bs_broker2TxNum s),
       bs_innerShardTxNum := counter_add (bi_Epoch b) (int (length (bi_InnerShardTxs b))) (bs_innerShardTxNum s)\<rparr>"

definition broker_record :: "'t codec \<Rightarrow> broker_block_info_msg \<Rightarrow> broker_stats \<times> filesys \<Rightarrow> broker_stats \<times> filesys" where
  "broker_record cd b = (\<lambda>(s, fs).
     let (s1, fs1) = fold (broker_inner cd b) (bi_InnerShardTxs b) (broker_counts b s, fs);
         s2 = s1\<lparr>bs_relayFallbackTxNum := counter_add (bi_Epoch b) (int (length (bi_Relay2Txs b))) (bs_relayFallbackTxNum s1)\<rparr>
     in fold (broker_half (broker2_seen b) (broker2_tcl b)) (bi_Broker2Txs b)
          (fold (broker_half (broker1_seen b) (broker1_tcl b)) (bi_Broker1Txs b)
            (fold (broker_fallback cd b) (bi_Relay2Txs b) (s2, fs1))))"

definition broker_UpdateMeasureRecord ::
  "'t codec \<Rightarrow> 'p gob_api \<Rightarrow> 'p wrapped_msg \<Rightarrow> broker_stats \<times> filesys \<Rightarrow> unit result \<times> broker_stats \<times> filesys" where
  "broker_UpdateMeasureRecord cd g m st =
     (if MsgType m \<noteq> BrokerBlockInfoMessageType then (Inr (), st)
      else (case g_dec_BrokerBlockInfo g (Payload m) of
              Inl e \<Rightarrow> (Inl (Wrapf ''decode brokerBlockInfoMsg'' e), st)
            | Inr b \<Rightarrow> (Inr (), broker_record cd b st)))"

definition broker_measureName :: "string list" where
  "broker_measureName =
     [''EpochID'', ''Total tx # in this epoch'', ''Inner-shard tx # in this epoch'', ''Broker1 tx # in this epoch'',
      ''Broker2 tx # in this epoch'', ''Fallback-to-relay tx # in this epoch'', ''Epoch start time'', ''Epoch end time'',
      ''Avg. TPS of this epoch (txs per second)'', ''CTX ratio of this epoch'', ''Avg. TCL of this epoch (second)'',
      ''Avg. inner-shard TCL of this epoch (second)'', ''Avg. broker1 TCL of this epoch (second)'',
      ''Avg. broker2 TCL of this epoch (second)'', ''Avg. fallback-to-relay TCL of this epoch (second)'']"

definition avgDurationPerTx :: "'f float_api \<Rightarrow> ('f \<Rightarrow> string) \<Rightarrow> int \<Rightarrow> int \<Rightarrow> string" where
  "avgDurationPerTx fl fmt2f dsum n =
     (if n \<le> 0 then ''0.00'' else fmt2f (fl_div fl (fl_of_int fl dsum) (fl_of_int fl n)))"

definition broker_epoch_line :: "'f float_api \<Rightarrow> ('f \<Rightarrow> string) \<Rightarrow> filesys \<Rightarrow> broker_stats \<Rightarrow> int \<Rightarrow> string list" where
  "broker_epoch_line fl fmt2f fs s ep =
     (let f = fl_of_int fl; get = (\<lambda>m. map_get m ep 0); start = get (bs_epochStartTime s); stop = get (bs_epochEndTime s);
          n1 = get (bs_broker1TxNum s); n2 = get (bs_broker2TxNum s); ni = get (bs_innerShardTxNum s);
          nr = get (bs_relayFallbackTxNum s);
          epochDuration = Duration_Seconds fl (time_Sub stop start);
          ctxCnt = fl_div fl (f (wrap64 (n1 + n2))) (f 2);
          totalTxCnt = fl_add fl (fl_add fl (f ni) ctxCnt) (f nr);
          totalTCL = fl_add fl (fl_add fl (fl_add fl (f (get (bs_broker1TCLSum s))) (f (get (bs_broker2TCLSum s))))
                       (f (get (bs_innerShardTCLSum s)))) (f (get (bs_relayFallbackTCLSum s)))
      in [Sprintf_d ep, fmt2f totalTxCnt, Sprintf_d ni, Sprintf_d n1, Sprintf_d n2, Sprintf_d nr,
          time_Format fs start, time_Format fs stop,
          fmt2f (fl_div fl totalTxCnt epochDuration), fmt2f (fl_div fl ctxCnt totalTxCnt), fmt2f (fl_div fl totalTCL totalTxCnt),
          avgDurationPerTx fl fmt2f (get (bs_innerShardTCLSum s)) ni, avgDurationPerTx fl fmt2f (get (bs_broker1TCLSum s)) n1,
          avgDurationPerTx fl fmt2f (get (bs_broker2TCLSum s)) n2, avgDurationPerTx fl fmt2f (get (bs_relayFallbackTCLSum s)) nr])"

definition broker_outputBriefEpochInfo ::
  "'f float_api \<Rightarrow> ('f \<Rightarrow> string) \<Rightarrow> string \<Rightarrow> broker_stats \<Rightarrow> filesys \<Rightarrow> unit result \<times> filesys" where
  "broker_outputBriefEpochInfo fl fmt2f fp s fs =
     WriteAllToCSV fp broker_measureName (map (broker_epoch_line fl fmt2f fs s) (sort (map fst (bs_epochStartTime s)))) fs"

definition broker_OutputResultAndClose ::
  "'f float_api \<Rightarrow> ('f \<Rightarrow> string) \<Rightarrow> unit result \<Rightarrow> broker_stats \<Rightarrow> filesys \<Rightarrow> unit result \<times> filesys" where
  "broker_OutputResultAndClose fl fmt2f file_Close s fs =
     (case broker_outputBriefEpochInfo fl fmt2f (path_Join (bs_outputDir s) broker_briefTxInfoPath) s fs of
        (Inl e, fs1) \<Rightarrow> (Inl (Wrapf ''failed to output BriefEpochInfo'' e), fs1)
      | (Inr _, fs1) \<Rightarrow> (file_Close, fs1))"

section \<open>Counters\<close>

lemma wrap64_add: "wrap64 (wrap64 a + b) = wrap64 (a + b)"
proof -
  have "wrap64 a + b + 2 ^ 63 = (a + 2 ^ 63) mod 2 ^ 64 + b" by (simp add: wrap64_def)
  then have "(wrap64 a + b + 2 ^ 63) mod 2 ^ 64 = (a + b + 2 ^ 63) mod 2 ^ 64" by (simp add: mod_simps algebra_simps)
  then show ?thesis by (simp add: wrap64_def [of "wrap64 a + b"] wrap64_def [of "a + b"])
qed

lemma wrap64_idem: "wrap64 (wrap64 a) = wrap64 a"
  by simp

text \<open>A counter that each message adds to in its epoch.\<close>

lemma counter_fold:
  assumes step: "\<And>b st. get (u b st) = counter_add (ep b) (n b) (get st)"
  shows "map_get (get (fold u bs st)) e 0 = (if \<forall>b\<in>set bs. ep b \<noteq> e then map_get (get st) e 0
    else wrap64 (map_get (get st) e 0 + (\<Sum>b\<leftarrow>filter (\<lambda>b. ep b = e) bs. n b)))"
proof (induction bs arbitrary: st)
  case (Cons b bs)
  have "map_get (get (u b st)) e 0 = (if ep b = e then wrap64 (map_get (get st) e 0 + n b) else map_get (get st) e 0)"
    by (simp add: step counter_add_def map_get_update)
  with Cons.IH [of "u b st"] show ?case by (auto simp: wrap64_add add.assoc)
qed simp

section \<open>Pairs\<close>

lemma note_half_open:
  "note_half upd fresh k m = (res, m') \<Longrightarrow> (map_of m' h \<noteq> None) = ((map_of m h \<noteq> None) \<noteq> (k = h)) \<and> (res \<noteq> None) = (map_of m k \<noteq> None)"
  by (auto simp: note_half_def AList_update_lookup AList_delete_lookup split: option.splits if_splits)

definition lines_for :: "filesys \<Rightarrow> string \<Rightarrow> bytes \<Rightarrow> nat" where
  "lines_for fs w h = length (filter (\<lambda>row. take 1 row = [hex_EncodeToString h]) (map_get (files fs) w []))"

definition writes_ok :: "filesys \<Rightarrow> bool" where
  "writes_ok fs \<longleftrightarrow> (\<forall>p row. os_Write fs p row = Inr ())"

lemma hex_inj: "hex_EncodeToString a = hex_EncodeToString b \<Longrightarrow> a = b"
proof -
  assume "hex_EncodeToString a = hex_EncodeToString b"
  then have "hex_DecodeString (hex_EncodeToString a) = hex_DecodeString (hex_EncodeToString b)" by (rule arg_cong)
  then show "a = b" unfolding hex_Decode_Encode by (rule Inr_inject)
qed

lemma write_line:
  assumes "writes_ok fs" "take 1 row = [hex_EncodeToString k]"
  shows "writes_ok (snd (write_row w row fs)) \<and> lines_for (snd (write_row w row fs)) w h = lines_for fs w h + (if k = h then 1 else 0)"
  using assms by (auto simp: writes_ok_def write_row_def lines_for_def map_get_update dest: hex_inj)

lemma relay_write:
  assumes "writes_ok fs"
  shows "writes_ok (snd (relay_writeTxInfo r k tc fs)) \<and>
    lines_for (snd (relay_writeTxInfo r k tc fs)) (rs_cs r) h = lines_for fs (rs_cs r) h + (if k = h then 1 else 0)"
  using write_line [OF assms, of "relay_line fs k tc" k "rs_cs r" h] by (simp add: relay_writeTxInfo_def WriteLine2CSV_def relay_line_def)

lemma broker_write:
  assumes "writes_ok fs"
  shows "writes_ok (snd (broker_writeTxInfo s k tc fs)) \<and>
    lines_for (snd (broker_writeTxInfo s k tc fs)) (bs_cs s) h = lines_for fs (bs_cs s) h + (if k = h then 1 else 0)"
  using write_line [OF assms, of "broker_line fs k tc" k "bs_cs s" h] by (simp add: broker_writeTxInfo_def WriteLine2CSV_def broker_line_def)

text \<open>The halves of a hash that were seen: two for each line, one for an open life cycle.\<close>

definition relay_seen :: "bytes \<Rightarrow> relay_stats \<times> filesys \<Rightarrow> nat" where
  "relay_seen h st = 2 * lines_for (snd st) (rs_cs (fst st)) h + (if map_of (rs_txLifecycles (fst st)) h \<noteq> None then 1 else 0)"

definition broker_seen :: "bytes \<Rightarrow> broker_stats \<times> filesys \<Rightarrow> nat" where
  "broker_seen h st = 2 * lines_for (snd st) (bs_cs (fst st)) h + (if map_of (bs_txLifecycles (fst st)) h \<noteq> None then 1 else 0)"

definition relay_st_ok :: "string \<Rightarrow> relay_stats \<times> filesys \<Rightarrow> bool" where
  "relay_st_ok w st \<longleftrightarrow> writes_ok (snd st) \<and> rs_cs (fst st) = w"

definition broker_st_ok :: "string \<Rightarrow> broker_stats \<times> filesys \<Rightarrow> bool" where
  "broker_st_ok w st \<longleftrightarrow> writes_ok (snd st) \<and> bs_cs (fst st) = w"

lemma relay_half_seen:
  assumes "relay_st_ok w st"
  shows "relay_st_ok w (relay_half upd ep tx st) \<and> relay_seen h (relay_half upd ep tx st) = relay_seen h st + (if ROriginalHash tx = h then 1 else 0)"
proof -
  obtain r fs where st: "st = (r, fs)" by (rule prod.exhaust)
  let ?fresh = "relay_life0\<lparr>rl_CreateTime := CreateTime tx, rl_isCross := True\<rparr>"
  obtain res m where n: "note_half upd ?fresh (ROriginalHash tx) (rs_txLifecycles r) = (res, m)" by (rule prod.exhaust)
  have wk: "writes_ok fs" "rs_cs r = w" using assms by (simp_all add: relay_st_ok_def st)
  note op = note_half_open [OF n, of h]
  show ?thesis
  proof (cases res)
    case None
    then show ?thesis using op wk by (cases "ROriginalHash tx = h") (auto simp: st relay_half_def n relay_seen_def relay_st_ok_def)
  next
    case (Some tc)
    then show ?thesis using op wk relay_write [OF wk(1), of r "ROriginalHash tx" tc h]
      by (cases "ROriginalHash tx = h") (auto simp: st relay_half_def n relay_seen_def relay_st_ok_def updateRelayTxTCLByTxLifecycle_def)
  qed
qed

lemma relay_inner_seen:
  assumes "relay_st_ok w st" "Tx_Hash cd tx \<noteq> Inr h"
  shows "relay_st_ok w (relay_inner cd b tx st) \<and> relay_seen h (relay_inner cd b tx st) = relay_seen h st"
proof -
  obtain r fs where st: "st = (r, fs)" by (rule prod.exhaust)
  have wk: "writes_ok fs" "rs_cs r = w" using assms by (simp_all add: relay_st_ok_def st)
  show ?thesis
  proof (cases "Tx_Hash cd tx")
    case (Inr th)
    then have "th \<noteq> h" using assms(2) by simp
    then show ?thesis using wk Inr relay_write [OF wk(1), of r th _ h]
      by (simp add: st relay_inner_def Let_def relay_seen_def relay_st_ok_def AList_delete_lookup AList_update_lookup)
  qed (use wk in \<open>simp add: st relay_inner_def relay_seen_def relay_st_ok_def\<close>)
qed

text \<open>Folding a step that adds one for each item with the hash.\<close>

lemma fold_seen:
  assumes "\<And>x st. x \<in> set xs \<Longrightarrow> P st \<Longrightarrow> P (g x st) \<and> seen (g x st) = seen st + (if k x = Some h then 1 else (0::nat))" "P st"
  shows "P (fold g xs st) \<and> seen (fold g xs st) = seen st + length (filter (\<lambda>x. k x = Some h) xs)"
  using assms by (induction xs arbitrary: st) auto

definition relay_halves :: "bytes \<Rightarrow> relay_block_info_msg \<Rightarrow> nat" where
  "relay_halves h b = length (filter (\<lambda>tx. ROriginalHash tx = h) (ri_Relay1Txs b @ ri_Relay2Txs b))"

lemma relay_record_seen:
  assumes ok: "relay_st_ok w st" and inner: "\<forall>tx\<in>set (ri_InnerShardTxs b). Tx_Hash cd tx \<noteq> Inr h"
  shows "relay_st_ok w (relay_record cd b st) \<and> relay_seen h (relay_record cd b st) = relay_seen h st + relay_halves h b"
proof -
  obtain r fs where st: "st = (r, fs)" by (rule prod.exhaust)
  let ?a = "(relay_counts b r, fs)"
  have a: "relay_st_ok w ?a" "relay_seen h ?a = relay_seen h st" using ok by (simp_all add: st relay_st_ok_def relay_seen_def relay_counts_def)
  let ?b = "fold (relay_inner cd b) (ri_InnerShardTxs b) ?a"
  have bb: "relay_st_ok w ?b \<and> relay_seen h ?b = relay_seen h ?a + length (filter (\<lambda>x. None = Some h) (ri_InnerShardTxs b))"
    by (rule fold_seen [where P = "relay_st_ok w" and seen = "relay_seen h"]) (use relay_inner_seen [where cd = cd and h = h and b = b] inner a(1) in \<open>simp_all del: split_paired_All\<close>)
  let ?c = "fold (relay_half (relay1_seen b) (ri_Epoch b)) (ri_Relay1Txs b) ?b"
  have c: "relay_st_ok w ?c \<and> relay_seen h ?c = relay_seen h ?b + length (filter (\<lambda>x. Some (ROriginalHash x) = Some h) (ri_Relay1Txs b))"
    by (rule fold_seen [where P = "relay_st_ok w" and seen = "relay_seen h"]) (use relay_half_seen bb in auto)
  let ?d = "fold (relay_half (relay2_seen b) (ri_Epoch b)) (ri_Relay2Txs b) ?c"
  have d: "relay_st_ok w ?d \<and> relay_seen h ?d = relay_seen h ?c + length (filter (\<lambda>x. Some (ROriginalHash x) = Some h) (ri_Relay2Txs b))"
    by (rule fold_seen [where P = "relay_st_ok w" and seen = "relay_seen h"]) (use relay_half_seen c in auto)
  have e: "relay_record cd b st = ?d" by (simp add: relay_record_def st)
  show ?thesis unfolding e using a bb c d by (simp add: relay_halves_def)
qed

lemma relay_fold_seen:
  "relay_st_ok w st \<Longrightarrow> \<forall>b\<in>set bs. \<forall>tx\<in>set (ri_InnerShardTxs b). Tx_Hash cd tx \<noteq> Inr h \<Longrightarrow>
   relay_seen h (fold (relay_record cd) bs st) = relay_seen h st + (\<Sum>b\<leftarrow>bs. relay_halves h b)"
proof (induction bs arbitrary: st)
  case (Cons b bs)
  have "relay_st_ok w (relay_record cd b st) \<and> relay_seen h (relay_record cd b st) = relay_seen h st + relay_halves h b"
    by (rule relay_record_seen [OF Cons.prems(1)]) (use Cons.prems(2) in simp)
  with Cons.IH [of "relay_record cd b st"] Cons.prems(2) show ?case by simp
qed simp

text \<open>The counters of a record do not change while its transactions are gone through.\<close>

lemma fold_keeps: "(\<And>x st. x \<in> set xs \<Longrightarrow> get (g x st) = get st) \<Longrightarrow> get (fold g xs st) = get st"
  by (induction xs arbitrary: st) auto

lemma relay_record_counts:
  "rs_relay1TxNum (fst (relay_record cd b st)) = counter_add (ri_Epoch b) (int (length (ri_Relay1Txs b))) (rs_relay1TxNum (fst st))"
  "rs_relay2TxNum (fst (relay_record cd b st)) = counter_add (ri_Epoch b) (int (length (ri_Relay2Txs b))) (rs_relay2TxNum (fst st))"
  "rs_innerShardTxNum (fst (relay_record cd b st)) = counter_add (ri_Epoch b) (int (length (ri_InnerShardTxs b))) (rs_innerShardTxNum (fst st))"
proof -
  let ?get = "\<lambda>st :: relay_stats \<times> filesys. (rs_relay1TxNum (fst st), rs_relay2TxNum (fst st), rs_innerShardTxNum (fst st))"
  have i: "?get (relay_inner cd b tx st) = ?get st" for tx st by (cases st) (simp add: relay_inner_def Let_def split: sum.splits)
  have h: "?get (relay_half u e tx st) = ?get st" for u e tx st
    by (cases st) (simp add: relay_half_def updateRelayTxTCLByTxLifecycle_def split: prod.splits option.splits)
  have "?get (relay_record cd b st) = ?get (relay_counts b (fst st), snd st)"
    unfolding relay_record_def case_prod_beta by (simp only: fold_keeps [where get = ?get] h i)
  then show "rs_relay1TxNum (fst (relay_record cd b st)) = counter_add (ri_Epoch b) (int (length (ri_Relay1Txs b))) (rs_relay1TxNum (fst st))"
    "rs_relay2TxNum (fst (relay_record cd b st)) = counter_add (ri_Epoch b) (int (length (ri_Relay2Txs b))) (rs_relay2TxNum (fst st))"
    "rs_innerShardTxNum (fst (relay_record cd b st)) = counter_add (ri_Epoch b) (int (length (ri_InnerShardTxs b))) (rs_innerShardTxNum (fst st))"
    by (simp_all add: relay_counts_def)
qed

lemma broker_half_seen:
  assumes "broker_st_ok w st" and tcl: "\<And>s. bs_cs (tcl tx s) = bs_cs s"
  shows "broker_st_ok w (broker_half upd tcl tx st) \<and> broker_seen h (broker_half upd tcl tx st) = broker_seen h st + (if BOriginalHash tx = h then 1 else 0)"
proof -
  obtain r fs where st: "st = (r, fs)" by (rule prod.exhaust)
  let ?fresh = "broker_life0\<lparr>bl_CreateTime := OriginalTxCreateTime tx, bl_isBroker := True, bl_mechanism := ''Broker''\<rparr>"
  obtain res m where n: "note_half (upd tx) ?fresh (BOriginalHash tx) (bs_txLifecycles r) = (res, m)" by (rule prod.exhaust)
  have wk: "writes_ok fs" "bs_cs r = w" using assms by (simp_all add: broker_st_ok_def st)
  note op = note_half_open [OF n, of h]
  show ?thesis
  proof (cases res)
    case None
    then show ?thesis using op wk tcl by (cases "BOriginalHash tx = h") (auto simp: st broker_half_def n broker_seen_def broker_st_ok_def)
  next
    case (Some tc)
    then show ?thesis using op wk tcl broker_write [OF wk(1), of r "BOriginalHash tx" tc h]
      by (cases "BOriginalHash tx = h") (auto simp: st broker_half_def n broker_seen_def broker_st_ok_def)
  qed
qed

lemma broker_whole_seen:
  assumes "broker_st_ok w st" "Tx_Hash cd tx \<noteq> Inr h" "ROriginalHash tx \<noteq> h"
  shows "broker_st_ok w (broker_inner cd b tx st) \<and> broker_seen h (broker_inner cd b tx st) = broker_seen h st"
    "broker_st_ok w (broker_fallback cd b tx st) \<and> broker_seen h (broker_fallback cd b tx st) = broker_seen h st"
proof -
  obtain r fs where st: "st = (r, fs)" by (rule prod.exhaust)
  have wk: "writes_ok fs" "bs_cs r = w" using assms by (simp_all add: broker_st_ok_def st)
  have *: "writes_ok (snd (broker_writeTxInfo r k tc fs)) \<and> lines_for (snd (broker_writeTxInfo r k tc fs)) w h = lines_for fs w h"
    if "k \<noteq> h" for k tc using broker_write [OF wk(1), of r k tc h] that wk(2) by simp
  show "broker_st_ok w (broker_inner cd b tx st) \<and> broker_seen h (broker_inner cd b tx st) = broker_seen h st"
    "broker_st_ok w (broker_fallback cd b tx st) \<and> broker_seen h (broker_fallback cd b tx st) = broker_seen h st"
    using wk assms(2,3) * by (auto simp: st broker_inner_def broker_fallback_def Let_def broker_seen_def broker_st_ok_def split: sum.splits)
qed

definition broker_halves :: "bytes \<Rightarrow> broker_block_info_msg \<Rightarrow> nat" where
  "broker_halves h b = length (filter (\<lambda>tx. BOriginalHash tx = h) (bi_Broker1Txs b @ bi_Broker2Txs b))"

text \<open>The transactions that are written at once have other hashes.\<close>

definition broker_apart :: "'t codec \<Rightarrow> bytes \<Rightarrow> broker_block_info_msg \<Rightarrow> bool" where
  "broker_apart cd h b \<longleftrightarrow> (\<forall>tx\<in>set (bi_InnerShardTxs b @ bi_Relay2Txs b). Tx_Hash cd tx \<noteq> Inr h \<and> ROriginalHash tx \<noteq> h)"

lemma broker_record_seen:
  assumes ok: "broker_st_ok w st" and apart: "broker_apart cd h b"
  shows "broker_st_ok w (broker_record cd b st) \<and> broker_seen h (broker_record cd b st) = broker_seen h st + broker_halves h b"
proof -
  obtain r fs where st: "st = (r, fs)" by (rule prod.exhaust)
  let ?a = "(broker_counts b r, fs)" and ?P = "broker_st_ok w"
  have a: "?P ?a" "broker_seen h ?a = broker_seen h st" using ok by (simp_all add: st broker_st_ok_def broker_seen_def broker_counts_def)
  obtain s1 fs1 where b1: "fold (broker_inner cd b) (bi_InnerShardTxs b) ?a = (s1, fs1)" by (rule prod.exhaust)
  have bb: "?P (s1, fs1) \<and> broker_seen h (s1, fs1) = broker_seen h ?a + length (filter (\<lambda>x. None = Some h) (bi_InnerShardTxs b))"
    unfolding b1 [symmetric]
    by (rule fold_seen [where P = ?P and seen = "broker_seen h"])
      (use broker_whole_seen(1) [where cd = cd and h = h and b = b] apart a(1) in \<open>simp_all add: broker_apart_def del: split_paired_All\<close>)
  let ?b = "(s1\<lparr>bs_relayFallbackTxNum := counter_add (bi_Epoch b) (int (length (bi_Relay2Txs b))) (bs_relayFallbackTxNum s1)\<rparr>, fs1)"
  have b2: "?P ?b \<and> broker_seen h ?b = broker_seen h (s1, fs1)" using bb by (simp add: broker_st_ok_def broker_seen_def)
  let ?c = "fold (broker_fallback cd b) (bi_Relay2Txs b) ?b"
  have c: "?P ?c \<and> broker_seen h ?c = broker_seen h ?b + length (filter (\<lambda>x. None = Some h) (bi_Relay2Txs b))"
    by (rule fold_seen [where P = ?P and seen = "broker_seen h"])
      (use broker_whole_seen(2) [where cd = cd and h = h and b = b] apart b2 in \<open>simp_all add: broker_apart_def del: split_paired_All\<close>)
  let ?d = "fold (broker_half (broker1_seen b) (broker1_tcl b)) (bi_Broker1Txs b) ?c"
  have d: "?P ?d \<and> broker_seen h ?d = broker_seen h ?c + length (filter (\<lambda>x. Some (BOriginalHash x) = Some h) (bi_Broker1Txs b))"
    by (rule fold_seen [where P = ?P and seen = "broker_seen h"]) (use broker_half_seen c in \<open>auto simp: broker1_tcl_def\<close>)
  let ?e = "fold (broker_half (broker2_seen b) (broker2_tcl b)) (bi_Broker2Txs b) ?d"
  have e: "?P ?e \<and> broker_seen h ?e = broker_seen h ?d + length (filter (\<lambda>x. Some (BOriginalHash x) = Some h) (bi_Broker2Txs b))"
    by (rule fold_seen [where P = ?P and seen = "broker_seen h"]) (use broker_half_seen d in \<open>auto simp: broker2_tcl_def\<close>)
  have "broker_record cd b st = ?e" by (simp add: broker_record_def st b1)
  then show ?thesis using a bb b2 c d e by (simp add: broker_halves_def)
qed

lemma broker_fold_seen:
  "broker_st_ok w st \<Longrightarrow> \<forall>b\<in>set bs. broker_apart cd h b \<Longrightarrow>
   broker_seen h (fold (broker_record cd) bs st) = broker_seen h st + (\<Sum>b\<leftarrow>bs. broker_halves h b)"
proof (induction bs arbitrary: st)
  case (Cons b bs)
  have "broker_st_ok w (broker_record cd b st) \<and> broker_seen h (broker_record cd b st) = broker_seen h st + broker_halves h b"
    by (rule broker_record_seen [OF Cons.prems(1)]) (use Cons.prems(2) in simp)
  with Cons.IH [of "broker_record cd b st"] Cons.prems(2) show ?case by simp
qed simp

end
