(* ===== verification/Supervisor.thy ===== *)
theory Supervisor
  imports Broker_Money Measure
begin

text \<open>
  \<open>supervisor/supervisor.go\<close>: the process that drives one of the four committees and one of the two
  measures. The interfaces \<open>Committee\<close> and \<open>Measure\<close> are datatypes with one constructor per implementation and the method
  calls are case distinctions. A tick of the main loop brings the drained messages and the answers of the
  environment. The measure subroutine receives every message through a channel, in order, and shares nothing else with the
  main loop, so its work is done when the channel is closed. A panic ends the process: the loop stops with it.

  The locale \<open>committee_api\<close> is the contract of \<open>Committee\<close> that the main loop relies on; its client lemmas follow the loop.
\<close>

section \<open>The interfaces\<close>

datatype ('p, 'f) committee_impl =
    StaticRelay "'p committee"
  | StaticBroker "'p broker_committee"
  | CLPARelay "('p, 'f) clpa_committee"
  | CLPABroker "('p, 'f) clpa_broker"

datatype measure_impl = RelayMeasure relay_stats | BrokerMeasure broker_stats

definition com_Send ::
  "'t codec \<Rightarrow> com_env \<Rightarrow> ('p, 'f) committee_impl \<Rightarrow> (unit result \<times> ('p, 'f) committee_impl) option" where
  "com_Send cd env com =
     (case com of
        StaticRelay c \<Rightarrow> map_option (apsnd StaticRelay) (StaticRelay_SendTxsAndConsensus env c)
      | StaticBroker c \<Rightarrow> map_option (apsnd StaticBroker) (StaticBroker_SendTxsAndConsensus cd env c)
      | CLPARelay c \<Rightarrow> map_option (apsnd CLPARelay) (CLPARelay_SendTxsAndConsensus env c)
      | CLPABroker c \<Rightarrow> map_option (apsnd CLPABroker) (CLPABroker_SendTxsAndConsensus cd env c))"

definition com_HandleMsg ::
  "'t codec \<Rightarrow> (nat \<Rightarrow> nat) \<Rightarrow> 'p wrapped_msg \<Rightarrow> ('p, 'f) committee_impl \<Rightarrow> unit result \<times> ('p, 'f) committee_impl" where
  "com_HandleMsg cd rnd m com =
     (case com of
        StaticRelay c \<Rightarrow> apsnd StaticRelay (StaticRelay_HandleMsg m c)
      | StaticBroker c \<Rightarrow> apsnd StaticBroker (StaticBroker_HandleMsg m c)
      | CLPARelay c \<Rightarrow> apsnd CLPARelay (CLPARelay_HandleMsg m c)
      | CLPABroker c \<Rightarrow> apsnd CLPABroker (CLPABroker_HandleMsg cd rnd m c))"

definition com_ShouldStop :: "('p, 'f) committee_impl \<Rightarrow> bool" where
  "com_ShouldStop com =
     (case com of StaticRelay c \<Rightarrow> ShouldStop c | StaticBroker c \<Rightarrow> StaticBroker_ShouldStop c
      | CLPARelay c \<Rightarrow> ShouldStop c | CLPABroker c \<Rightarrow> ShouldStop c)"

definition com_base :: "('p, 'f) committee_impl \<Rightarrow> 'p committee" where
  "com_base com =
     (case com of StaticRelay c \<Rightarrow> c | StaticBroker c \<Rightarrow> committee.truncate c
      | CLPARelay c \<Rightarrow> committee.truncate c | CLPABroker c \<Rightarrow> committee.truncate c)"

definition ms_Update ::
  "'t codec \<Rightarrow> 'p gob_api \<Rightarrow> 'p wrapped_msg \<Rightarrow> measure_impl \<times> filesys \<Rightarrow> unit result \<times> measure_impl \<times> filesys" where
  "ms_Update cd g m = (\<lambda>(ms, fs).
     case ms of
       RelayMeasure r \<Rightarrow> apsnd (apfst RelayMeasure) (relay_UpdateMeasureRecord cd g m (r, fs))
     | BrokerMeasure b \<Rightarrow> apsnd (apfst BrokerMeasure) (broker_UpdateMeasureRecord cd g m (b, fs)))"

definition ms_Output ::
  "'f float_api \<Rightarrow> ('f \<Rightarrow> string) \<Rightarrow> unit result \<Rightarrow> measure_impl \<Rightarrow> filesys \<Rightarrow> unit result \<times> filesys" where
  "ms_Output fl fmt2f cls ms fs =
     (case ms of RelayMeasure r \<Rightarrow> relay_OutputResultAndClose fl fmt2f cls r fs
      | BrokerMeasure b \<Rightarrow> broker_OutputResultAndClose fl fmt2f cls b fs)"

section \<open>The supervisor\<close>

record ('p, 'f) supervisor =
  sv_committee :: "('p, 'f) committee_impl"
  sv_measure :: measure_impl
  sv_measureMsgBuf :: "'p wrapped_msg list"
  sv_fs :: filesys
  sv_conn :: "'p outbox"

text \<open>What the operating system and the clock answer while the supervisor is created.\<close>

record 'f boot_env =
  bt_Open :: "string \<Rightarrow> string list result list result"
  bt_BrokerFile :: "string \<Rightarrow> (string list \<times> unit result) result"
  bt_fl :: "'f float_api"
  bt_now :: gotime

definition NewSupervisor ::
  "'f boot_env \<Rightarrow> 'p outbox \<Rightarrow> topo_getter \<Rightarrow> 'p gob_api \<Rightarrow> supervisor_cfg \<Rightarrow> filesys \<Rightarrow>
   ('p, 'f) supervisor result \<times> filesys" where
  "NewSupervisor bt out r g scfg fs =
     (let typ = ConsensusType (sv_Sys scfg);
          relay = (\<lambda>fs. case NewRelayStats (ResultOutputDir scfg) fs of
                     (Inl e, fs1) \<Rightarrow> (Inl (Wrapf ''failed to initialize relay stats'' e), fs1)
                   | (Inr s, fs1) \<Rightarrow> (Inr (RelayMeasure s), fs1));
          broker = (\<lambda>fs. case NewBrokerStats (ResultOutputDir scfg) fs of
                     (Inl e, fs1) \<Rightarrow> (Inl (Wrapf ''failed to initialize broker stats'' e), fs1)
                   | (Inr s, fs1) \<Rightarrow> (Inr (BrokerMeasure s), fs1));
          finish = (\<lambda>(ms, fs1) com.
                     case ms of Inl e \<Rightarrow> (Inl e, fs1)
                     | Inr m \<Rightarrow>
                       (case com of Inl e \<Rightarrow> (Inl e, fs1)
                        | Inr c \<Rightarrow>
                          (case os_MkdirAll fs1 (ResultOutputDir scfg) of
                             Inl e \<Rightarrow> (Inl (Wrapf ''failed to create result output directory'' e), fs1)
                           | Inr _ \<Rightarrow> (Inr \<lparr>sv_committee = c, sv_measure = m, sv_measureMsgBuf = [], sv_fs = fs1, sv_conn = out\<rparr>, fs1))))
      in if typ = StaticRelayConsensus then
           finish (relay fs) (wrap_err ''failed to init a StaticRelayCommittee''
             (map_sum id StaticRelay (NewStaticRelayCommittee (bt_Open bt) out r g scfg)))
         else if typ = StaticBrokerConsensus then
           finish (broker fs) (wrap_err ''failed to init a StaticBrokerCommittee''
             (map_sum id StaticBroker (NewStaticBrokerCommittee (bt_Open bt) (bt_BrokerFile bt) out r g scfg)))
         else if typ = CLPARelayConsensus then
           finish (relay fs) (wrap_err ''failed to init a CLPARelayCommittee''
             (map_sum id CLPARelay (NewCLPARelayCommittee (bt_Open bt) (bt_fl bt) (bt_now bt) out r g scfg)))
         else if typ = CLPABrokerConsensus then
           finish (broker fs) (wrap_err ''failed to init a CLPABrokerCommittee''
             (map_sum id CLPABroker (NewCLPABrokerCommittee (bt_Open bt) (bt_BrokerFile bt) (bt_fl bt) (bt_now bt) out r g scfg)))
         else (Inl (Errorf ''undefined consensus type''), fs))"

record 'p sv_tick =
  sk_msgs :: "'p wrapped_msg list"
  sk_rnd :: "nat \<Rightarrow> nat \<Rightarrow> nat"
  sk_env :: com_env

text \<open>The loop over the drained messages: each is handed to the measure first, then to the committee.\<close>

fun handle_drained ::
  "'t codec \<Rightarrow> (nat \<Rightarrow> nat \<Rightarrow> nat) \<Rightarrow> nat \<Rightarrow> 'p wrapped_msg list \<Rightarrow> ('p, 'f) supervisor \<Rightarrow>
   unit result \<times> ('p, 'f) supervisor" where
  "handle_drained cd rnd i [] s = (Inr (), s)"
| "handle_drained cd rnd i (m # ms) s =
     (case com_HandleMsg cd (rnd i) m (sv_committee s) of (r, com) \<Rightarrow>
        (let s1 = s\<lparr>sv_measureMsgBuf := sv_measureMsgBuf s @ [m], sv_committee := com\<rparr> in
         if is_panic r then (r, s1) else handle_drained cd rnd (i + 1) ms s1))"

definition tick_body :: "'t codec \<Rightarrow> 'p sv_tick \<Rightarrow> ('p, 'f) supervisor \<Rightarrow> (unit result \<times> ('p, 'f) supervisor) option" where
  "tick_body cd tk s =
     (case handle_drained cd (sk_rnd tk) 0 (sk_msgs tk) s of
        (Inl e, s1) \<Rightarrow> Some (Inl e, s1)
      | (Inr _, s1) \<Rightarrow>
        (case com_Send cd (sk_env tk) (sv_committee s1) of None \<Rightarrow> None
         | Some (r, com) \<Rightarrow> Some (if is_panic r then r else Inr (), s1\<lparr>sv_committee := com\<rparr>)))"

text \<open>\<open>Inr True\<close>: the loop was left; \<open>Inr False\<close>: it still runs after these ticks; \<open>Inl\<close>: a panic ended it.\<close>

fun sv_loop :: "'t codec \<Rightarrow> 'p sv_tick list \<Rightarrow> ('p, 'f) supervisor \<Rightarrow> (bool result \<times> ('p, 'f) supervisor) option" where
  "sv_loop cd [] s = Some (Inr False, s)"
| "sv_loop cd (tk # tks) s =
     (if com_ShouldStop (sv_committee s) then Some (Inr True, s)
      else (case tick_body cd tk s of None \<Rightarrow> None
            | Some (Inl e, s1) \<Rightarrow> Some (Inl e, s1)
            | Some (Inr _, s1) \<Rightarrow> sv_loop cd tks s1))"

definition measureSubroutine ::
  "'t codec \<Rightarrow> 'p gob_api \<Rightarrow> 'p wrapped_msg list \<Rightarrow> measure_impl \<times> filesys \<Rightarrow> measure_impl \<times> filesys" where
  "measureSubroutine cd g ms st = fold (\<lambda>m st. snd (ms_Update cd g m st)) ms st"

fun collect_nodes :: "topo_getter \<Rightarrow> int list \<Rightarrow> node_info list result" where
  "collect_nodes t [] = Inr []"
| "collect_nodes t (i # is) =
     (case GetNodesInShard t i of Inl e \<Rightarrow> Inl (Wrapf ''get all leaders failed when trying to send stop'' e)
      | Inr ls \<Rightarrow> (case collect_nodes t is of Inl e \<Rightarrow> Inl e | Inr rest \<Rightarrow> Inr (ls @ rest)))"

text \<open>
  After the loop: the measure finishes, writes its results (an error is logged), and every node is told to stop. The
  connection is the one the committee sends through.
\<close>

definition sv_finish ::
  "'t codec \<Rightarrow> ('f float_api \<times> ('f \<Rightarrow> string) \<times> unit result) \<Rightarrow> ('p, 'f) supervisor \<Rightarrow> unit result \<times> ('p, 'f) supervisor" where
  "sv_finish cd out_api s =
     (let b = com_base (sv_committee s);
          (ms, fs1) = measureSubroutine cd (cm_gob b) (sv_measureMsgBuf s) (sv_measure s, sv_fs s);
          fs2 = snd (ms_Output (fst out_api) (fst (snd out_api)) (snd (snd out_api)) ms fs1);
          s1 = s\<lparr>sv_measure := ms, sv_fs := fs2, sv_measureMsgBuf := [], sv_conn := cm_conn b\<rparr>
      in case WrapMsg (cm_gob b) StopConsensusMsg of Inl e \<Rightarrow> (Inl (Wrapf ''failed to wrap stop consensus message'' e), s1)
         | Inr w \<Rightarrow>
           (case collect_nodes (cm_r b) (map int [0..<nat (cm_shards b)]) of Inl e \<Rightarrow> (Inl e, s1)
            | Inr destNodes \<Rightarrow> (Inr (), s1\<lparr>sv_conn := GroupBroadcastMessage destNodes w (sv_conn s1)\<rparr>)))"

definition Start ::
  "'t codec \<Rightarrow> ('f float_api \<times> ('f \<Rightarrow> string) \<times> unit result) \<Rightarrow> 'p sv_tick list \<Rightarrow> ('p, 'f) supervisor \<Rightarrow>
   (bool result \<times> ('p, 'f) supervisor) option" where
  "Start cd out_api tks s =
     (case sv_loop cd tks s of None \<Rightarrow> None
      | Some (Inl e, s1) \<Rightarrow> Some (Inl e, s1)
      | Some (Inr False, s1) \<Rightarrow> Some (Inr False, s1)
      | Some (Inr True, s1) \<Rightarrow> (case sv_finish cd out_api s1 of (Inl e, s2) \<Rightarrow> Some (Inl e, s2) | (Inr _, s2) \<Rightarrow> Some (Inr True, s2)))"

section \<open>The contract of a committee\<close>

text \<open>The states that a sequence of calls of its methods takes a committee to.\<close>

inductive calls ::
  "(com_env \<Rightarrow> 'c \<Rightarrow> (unit result \<times> 'c) option) \<Rightarrow> ((nat \<Rightarrow> nat) \<Rightarrow> 'p wrapped_msg \<Rightarrow> 'c \<Rightarrow> unit result \<times> 'c) \<Rightarrow> 'c \<Rightarrow> 'c \<Rightarrow> bool"
  for send handle where
  calls_refl: "calls send handle c c"
| calls_send: "calls send handle c c1 \<Longrightarrow> send env c1 = Some (r, c2) \<Longrightarrow> calls send handle c c2"
| calls_handle: "calls send handle c c1 \<Longrightarrow> handle rnd m c1 = (r, c2) \<Longrightarrow> calls send handle c c2"

lemma calls_trans: "calls send handle b c \<Longrightarrow> calls send handle a b \<Longrightarrow> calls send handle a c"
  by (induction rule: calls.induct) (auto intro: calls.intros)

locale committee_api =
  fixes send :: "com_env \<Rightarrow> 'c \<Rightarrow> (unit result \<times> 'c) option"
    and handle :: "(nat \<Rightarrow> nat) \<Rightarrow> 'p wrapped_msg \<Rightarrow> 'c \<Rightarrow> unit result \<times> 'c"
    and should_stop :: "'c \<Rightarrow> bool"
    and unsent :: "'c \<Rightarrow> int"
    and com_inv :: "'c \<Rightarrow> bool"
  assumes send_law: "com_inv c \<Longrightarrow> send env c = Some (r, c') \<Longrightarrow> com_inv c' \<and> unsent c' \<le> unsent c"
    and handle_law: "com_inv c \<Longrightarrow> handle rnd m c = (r, c') \<Longrightarrow> com_inv c' \<and> unsent c' = unsent c"
    and unsent_law: "com_inv c \<Longrightarrow> 0 \<le> unsent c"
    and stop_law: "com_inv c \<Longrightarrow> should_stop c \<Longrightarrow> unsent c = 0"
begin

text \<open>Whatever sequence of calls the main loop makes, nothing is taken back and stopping means that everything is sent.\<close>

lemma calls_inv: "calls send handle c c' \<Longrightarrow> com_inv c \<Longrightarrow> com_inv c' \<and> 0 \<le> unsent c' \<and> unsent c' \<le> unsent c"
proof (induction rule: calls.induct)
  case (calls_send c c1 env r c2)
  with send_law [OF _ calls_send.hyps(2)] unsent_law [of c2] show ?case by auto
next
  case (calls_handle c c1 rnd m r c2)
  with handle_law [OF _ calls_handle.hyps(2)] show ?case by auto
qed (use unsent_law in simp)

lemma calls_stop: "calls send handle c c' \<Longrightarrow> com_inv c \<Longrightarrow> should_stop c' \<Longrightarrow> unsent c' = 0"
  using calls_inv stop_law by blast

end

definition com_ok :: "('p, 'f) committee_impl \<Rightarrow> bool" where
  "com_ok com \<longleftrightarrow>
     (case com of StaticRelay c \<Rightarrow> base_ok c | StaticBroker c \<Rightarrow> base_ok c | CLPARelay c \<Rightarrow> base_ok c | CLPABroker c \<Rightarrow> base_ok c)"

definition com_unsent :: "('p, 'f) committee_impl \<Rightarrow> int" where
  "com_unsent com =
     (case com of StaticRelay c \<Rightarrow> cm_unsentTxNum c | StaticBroker c \<Rightarrow> cm_unsentTxNum c
      | CLPARelay c \<Rightarrow> cm_unsentTxNum c | CLPABroker c \<Rightarrow> cm_unsentTxNum c)"

lemma com_Send_ok: "com_ok c \<Longrightarrow> com_Send cd env c = Some (r, c') \<Longrightarrow> com_ok c' \<and> com_unsent c' \<le> com_unsent c"
  by (cases c) (auto simp: com_Send_def com_ok_def com_unsent_def apsnd_def map_prod_def
    dest: StaticRelay_Send_ok StaticBroker_Send_ok CLPARelay_Send_ok CLPABroker_Send_ok)

lemma com_HandleMsg_ok: "com_ok c \<Longrightarrow> com_HandleMsg cd rnd m c = (r, c') \<Longrightarrow> com_ok c' \<and> com_unsent c' = com_unsent c"
  by (cases c; cases "StaticRelay_HandleMsg m (com_base c)")
    (auto simp: com_HandleMsg_def com_ok_def com_unsent_def apsnd_def map_prod_def split: prod.splits
    dest: StaticRelay_HandleMsg_ok StaticBroker_HandleMsg_ok CLPARelay_HandleMsg_ok CLPABroker_HandleMsg_ok)

interpretation com: committee_api "com_Send cd" "com_HandleMsg cd" com_ShouldStop com_unsent com_ok for cd
proof unfold_locales
  fix c r c' rnd m env
  show "com_ok c \<Longrightarrow> com_Send cd env c = Some (r, c') \<Longrightarrow> com_ok c' \<and> com_unsent c' \<le> com_unsent c" by (rule com_Send_ok)
  show "com_ok c \<Longrightarrow> com_HandleMsg cd rnd m c = (r, c') \<Longrightarrow> com_ok c' \<and> com_unsent c' = com_unsent c" by (rule com_HandleMsg_ok)
  show "com_ok c \<Longrightarrow> 0 \<le> com_unsent c" by (cases c) (simp_all add: com_ok_def com_unsent_def base_ok_def)
  show "com_ok c \<Longrightarrow> com_ShouldStop c \<Longrightarrow> com_unsent c = 0"
    by (cases c) (auto simp: com_ok_def com_unsent_def com_ShouldStop_def StaticBroker_ShouldStop_def ShouldStop_def base_ok_def)
qed

section \<open>The main loop\<close>

lemma handle_drained_calls:
  "handle_drained cd rnd i ms s = (r, s') \<Longrightarrow> calls (com_Send cd) (com_HandleMsg cd) (sv_committee s) (sv_committee s') \<and>
     (\<exists>seen rest. ms = seen @ rest \<and> sv_measureMsgBuf s' = sv_measureMsgBuf s @ seen \<and> (is_ok r \<longrightarrow> rest = [])) \<and>
     sv_measure s' = sv_measure s \<and> sv_fs s' = sv_fs s"
proof (induction ms arbitrary: i s)
  case Nil
  then show ?case by (auto intro: calls_refl)
next
  case (Cons m ms)
  obtain q c1 where h: "com_HandleMsg cd (rnd i) m (sv_committee s) = (q, c1)" by (rule prod.exhaust)
  let ?s1 = "s\<lparr>sv_measureMsgBuf := sv_measureMsgBuf s @ [m], sv_committee := c1\<rparr>"
  have c1: "calls (com_Send cd) (com_HandleMsg cd) (sv_committee s) c1" by (rule calls_handle [where handle = "com_HandleMsg cd", OF calls_refl h])
  show ?case
  proof (cases "is_panic q")
    case True
    then have "s' = ?s1" "r = q" "\<not> is_ok q" using Cons.prems h by (auto simp: is_panic_def split: sum.splits)
    then show ?thesis using c1 by auto
  next
    case False
    then have run: "handle_drained cd rnd (i + 1) ms ?s1 = (r, s')" using Cons.prems h by simp
    from Cons.IH [OF run] obtain seen rest where ih: "calls (com_Send cd) (com_HandleMsg cd) c1 (sv_committee s')" "ms = seen @ rest"
      "sv_measureMsgBuf s' = sv_measureMsgBuf s @ m # seen" "is_ok r \<longrightarrow> rest = []" "sv_measure s' = sv_measure s" "sv_fs s' = sv_fs s" by auto
    have "\<exists>a b. m # ms = a @ b \<and> sv_measureMsgBuf s' = sv_measureMsgBuf s @ a \<and> (is_ok r \<longrightarrow> b = [])"
      using ih by (intro exI [of _ "m # seen"] exI [of _ rest]) simp
    then show ?thesis using calls_trans [OF ih(1) c1] ih by blast
  qed
qed

lemma tick_body_calls:
  assumes "tick_body cd tk s = Some (r, s')"
  shows "calls (com_Send cd) (com_HandleMsg cd) (sv_committee s) (sv_committee s')" "is_ok r \<Longrightarrow> sv_measureMsgBuf s' = sv_measureMsgBuf s @ sk_msgs tk"
    "sv_measure s' = sv_measure s" "sv_fs s' = sv_fs s"
proof -
  obtain q s1 where h: "handle_drained cd (sk_rnd tk) 0 (sk_msgs tk) s = (q, s1)" by (rule prod.exhaust)
  note hd = handle_drained_calls [OF h]
  have "calls (com_Send cd) (com_HandleMsg cd) (sv_committee s) (sv_committee s') \<and> (is_ok r \<longrightarrow> sv_measureMsgBuf s' = sv_measureMsgBuf s @ sk_msgs tk) \<and>
    sv_measure s' = sv_measure s \<and> sv_fs s' = sv_fs s"
  proof (cases q)
    case (Inl e)
    then show ?thesis using assms h hd by (auto simp: tick_body_def)
  next
    case (Inr u)
    then obtain p c2 where c2: "com_Send cd (sk_env tk) (sv_committee s1) = Some (p, c2)" "s' = s1\<lparr>sv_committee := c2\<rparr>"
      using assms h by (auto simp: tick_body_def split: option.splits)
    have "calls (com_Send cd) (com_HandleMsg cd) (sv_committee s) c2" using hd by (intro calls_send [where send = "com_Send cd", OF _ c2(1)]) simp
    then show ?thesis using hd Inr c2(2) by auto
  qed
  then show "calls (com_Send cd) (com_HandleMsg cd) (sv_committee s) (sv_committee s')" "is_ok r \<Longrightarrow> sv_measureMsgBuf s' = sv_measureMsgBuf s @ sk_msgs tk"
    "sv_measure s' = sv_measure s" "sv_fs s' = sv_fs s" by blast+
qed

lemma sv_loop_calls:
  "sv_loop cd tks s = Some (r, s') \<Longrightarrow> calls (com_Send cd) (com_HandleMsg cd) (sv_committee s) (sv_committee s') \<and> (r = Inr True \<longrightarrow> com_ShouldStop (sv_committee s')) \<and>
     (is_ok r \<longrightarrow> (\<exists>n. sv_measureMsgBuf s' = sv_measureMsgBuf s @ concat (map sk_msgs (take n tks)))) \<and>
     sv_measure s' = sv_measure s \<and> sv_fs s' = sv_fs s"
proof (induction tks arbitrary: s)
  case Nil
  then show ?case by (auto intro: calls_refl)
next
  case (Cons tk tks)
  show ?case
  proof (cases "com_ShouldStop (sv_committee s)")
    case True
    then show ?thesis using Cons.prems by (auto intro: calls_refl exI [of _ 0])
  next
    case False
    then obtain q s1 where t: "tick_body cd tk s = Some (q, s1)" using Cons.prems by (auto split: option.splits)
    note tb = tick_body_calls [OF t]
    show ?thesis
    proof (cases q)
      case (Inl e)
      then show ?thesis using Cons.prems False t tb by auto
    next
      case (Inr u)
      then have run: "sv_loop cd tks s1 = Some (r, s')" using Cons.prems False t by simp
      note ih = Cons.IH [OF run]
      have "\<exists>n. sv_measureMsgBuf s' = sv_measureMsgBuf s @ concat (map sk_msgs (take n (tk # tks)))" if rok: "is_ok r"
      proof -
        obtain n where "sv_measureMsgBuf s' = sv_measureMsgBuf s1 @ concat (map sk_msgs (take n tks))" using ih rok by blast
        then show ?thesis using tb(2) Inr by (intro exI [of _ "Suc n"]) simp
      qed
      then show ?thesis using ih tb calls_trans [OF conjunct1 [OF ih] tb(1)] by auto
    qed
  qed
qed

end
