(* ===== verification/Statistics.thy ===== *)
theory Statistics
  imports Measure Demo
begin

text \<open>
  What the numbers and lines of the relay statistics mean: the properties of \<open>relaystats.go\<close> over a whole sequence of block
  messages, and those of the transaction sources that the numbers start from.
\<close>

section \<open>Relay statistics\<close>

text \<open>The messages are wrapped block informations, as the leaders send them.\<close>

abbreviation relay_update :: "'t codec \<Rightarrow> 'p gob_api \<Rightarrow> 'p wrapped_msg \<Rightarrow> relay_stats \<times> filesys \<Rightarrow> relay_stats \<times> filesys" where
  "relay_update cd g m st \<equiv> snd (relay_UpdateMeasureRecord cd g m st)"

lemma relay_update_record:
  assumes "gob_ok g" "WrapMsg g (RelayBlockInfoMsg b) = Inr m"
  shows "relay_update cd g m st = relay_record cd b st"
  using assms by (auto simp: relay_UpdateMeasureRecord_def WrapMsg_def getMsgType_def gob_ok_def split: sum.splits)

lemma relay_updates_record:
  assumes "gob_ok g" "list_all2 (\<lambda>m b. WrapMsg g (RelayBlockInfoMsg b) = Inr m) ms bs"
  shows "fold (relay_update cd g) ms st = fold (relay_record cd) bs st"
  using assms(2) by (induction arbitrary: st rule: list_all2_induct) (simp_all add: relay_update_record [OF assms(1)])

lemma not_hex: "hex_EncodeToString h \<noteq> ''OriginalHash''"
proof
  assume "hex_EncodeToString h = ''OriginalHash''"
  moreover have "\<not> is_ok (hex_DecodeString ''OriginalHash'')" by code_simp
  ultimately show False using hex_Decode_Encode [of h] by (simp add: is_ok_def)
qed

lemma NewRelayStats_start:
  assumes "NewRelayStats dir fs0 = (Inr r0, fs1)" "writes_ok fs0"
  shows "relay_st_ok (rs_cs r0) (r0, fs1)" "relay_seen h (r0, fs1) = 0"
    "rs_relay1TxNum r0 = []" "rs_relay2TxNum r0 = []" "rs_innerShardTxNum r0 = []"
  using assms not_hex [of h]
  by (auto simp: NewRelayStats_def NewCSVSeqWriter_def createFileWithDirs_def write_row_def relay_st_ok_def writes_ok_def relay_seen_def
    lines_for_def relay_detailTxInfoMeasures_def map_get_def AList_update_lookup split: sum.splits option.splits prod.splits)

lemma map_get_Nil [simp]: "map_get [] k d = d"
  by (simp add: map_get_def)

lemma relay_counters:
  "map_get (rs_relay1TxNum (fst (fold (relay_record cd) bs st))) e 0 =
     (if \<forall>b\<in>set bs. ri_Epoch b \<noteq> e then map_get (rs_relay1TxNum (fst st)) e 0
      else wrap64 (map_get (rs_relay1TxNum (fst st)) e 0 + (\<Sum>b\<leftarrow>filter (\<lambda>b. ri_Epoch b = e) bs. int (length (ri_Relay1Txs b)))))"
  "map_get (rs_relay2TxNum (fst (fold (relay_record cd) bs st))) e 0 =
     (if \<forall>b\<in>set bs. ri_Epoch b \<noteq> e then map_get (rs_relay2TxNum (fst st)) e 0
      else wrap64 (map_get (rs_relay2TxNum (fst st)) e 0 + (\<Sum>b\<leftarrow>filter (\<lambda>b. ri_Epoch b = e) bs. int (length (ri_Relay2Txs b)))))"
  "map_get (rs_innerShardTxNum (fst (fold (relay_record cd) bs st))) e 0 =
     (if \<forall>b\<in>set bs. ri_Epoch b \<noteq> e then map_get (rs_innerShardTxNum (fst st)) e 0
      else wrap64 (map_get (rs_innerShardTxNum (fst st)) e 0 + (\<Sum>b\<leftarrow>filter (\<lambda>b. ri_Epoch b = e) bs. int (length (ri_InnerShardTxs b)))))"
  by (rule counter_fold [where get = "\<lambda>st. rs_relay1TxNum (fst st)"], rule relay_record_counts)
    (rule counter_fold [where get = "\<lambda>st. rs_relay2TxNum (fst st)"], rule relay_record_counts,
     rule counter_fold [where get = "\<lambda>st. rs_innerShardTxNum (fst st)"], rule relay_record_counts)

text \<open>
  C39. After any sequence of block messages the detail file holds, for the hash of a cross-shard transaction, one line per
  pair of halves that were seen, a life cycle stays open exactly when one half is missing its other, and the transaction counts of
  an epoch are the sums over its messages.
\<close>

theorem relay_pairs_recorded_once:
  assumes "gob_ok g" "NewRelayStats dir fs0 = (Inr r0, fs1)" "writes_ok fs0"
    and "list_all2 (\<lambda>m b. WrapMsg g (RelayBlockInfoMsg b) = Inr m) ms bs"
    and "\<forall>b\<in>set bs. \<forall>tx\<in>set (ri_InnerShardTxs b). Tx_Hash cd tx \<noteq> Inr h"
    and "fold (relay_update cd g) ms (r0, fs1) = (r, fs)"
  shows "(lines_for fs (rs_cs r) h = (\<Sum>b\<leftarrow>bs. relay_halves h b) div 2) \<and>
    (map_of (rs_txLifecycles r) h \<noteq> None \<longleftrightarrow> odd (\<Sum>b\<leftarrow>bs. relay_halves h b)) \<and>
    (map_get (rs_relay1TxNum r) e 0 = wrap64 (\<Sum>b\<leftarrow>filter (\<lambda>b. ri_Epoch b = e) bs. int (length (ri_Relay1Txs b)))) \<and>
    (map_get (rs_relay2TxNum r) e 0 = wrap64 (\<Sum>b\<leftarrow>filter (\<lambda>b. ri_Epoch b = e) bs. int (length (ri_Relay2Txs b)))) \<and>
    (map_get (rs_innerShardTxNum r) e 0 = wrap64 (\<Sum>b\<leftarrow>filter (\<lambda>b. ri_Epoch b = e) bs. int (length (ri_InnerShardTxs b))))"
proof (intro conjI)
  note s0 = NewRelayStats_start [OF assms(2,3)]
  have run: "fold (relay_record cd) bs (r0, fs1) = (r, fs)" using assms(6) unfolding relay_updates_record [OF assms(1,4)] .
  have seen: "relay_seen h (r, fs) = (\<Sum>b\<leftarrow>bs. relay_halves h b)" using relay_fold_seen [OF s0(1) assms(5)] s0(2) run by simp
  show "lines_for fs (rs_cs r) h = (\<Sum>b\<leftarrow>bs. relay_halves h b) div 2"
    "map_of (rs_txLifecycles r) h \<noteq> None \<longleftrightarrow> odd (\<Sum>b\<leftarrow>bs. relay_halves h b)"
    unfolding seen [symmetric] by (simp_all add: relay_seen_def)
  have none: "filter (\<lambda>b. ri_Epoch b = e) bs = []" if "\<forall>b\<in>set bs. ri_Epoch b \<noteq> e" using that by (auto simp: filter_empty_conv)
  note cnt = relay_counters [where bs = bs and st = "(r0, fs1)" and e = e and cd = cd, unfolded run fst_conv s0(3-5) map_get_Nil]
  show "map_get (rs_relay1TxNum r) e 0 = wrap64 (\<Sum>b\<leftarrow>filter (\<lambda>b. ri_Epoch b = e) bs. int (length (ri_Relay1Txs b)))"
    "map_get (rs_relay2TxNum r) e 0 = wrap64 (\<Sum>b\<leftarrow>filter (\<lambda>b. ri_Epoch b = e) bs. int (length (ri_Relay2Txs b)))"
    "map_get (rs_innerShardTxNum r) e 0 = wrap64 (\<Sum>b\<leftarrow>filter (\<lambda>b. ri_Epoch b = e) bs. int (length (ri_InnerShardTxs b)))"
    unfolding cnt using none by (simp_all add: wrap64_def)
qed

definition demo_relay_msg :: "transaction list \<Rightarrow> transaction list \<Rightarrow> transaction list \<Rightarrow> relay_block_info_msg" where
  "demo_relay_msg inner r1 r2 = \<lparr>ri_InnerShardTxs = inner, ri_Relay1Txs = r1, ri_Relay2Txs = r2, ri_Epoch = 0,
     ri_BlockProposeTime = 5, ri_BlockCommitTime = 9, ri_ShardID = 0\<rparr>"

definition demo_stat_msgs :: "relay_block_info_msg list" where
  "demo_stat_msgs = [demo_relay_msg [demo_tx 2 4 7] [(demo_tx 2 5 30)\<lparr>ROriginalHash := [9]\<rparr>] [],
     demo_relay_msg [] [] [(demo_tx 2 5 30)\<lparr>ROriginalHash := [9]\<rparr>]]"

definition demo_stats_run :: "relay_stats \<times> filesys" where
  "demo_stats_run = (case NewRelayStats ''out'' demo_fs of (r0, fs1) \<Rightarrow>
     fold (relay_update demo_codec demo_gob) (map (\<lambda>b. demo_wrap (RelayBlockInfoMsg b)) demo_stat_msgs) (get_ok r0, fs1))"

theorem relay_pairs_recorded_once_witness:
  "(\<Sum>b\<leftarrow>demo_stat_msgs. relay_halves [9] b) = 2 \<and> lines_for (snd demo_stats_run) (rs_cs (fst demo_stats_run)) [9] = 1"
proof -
  obtain r0 fs1 where n: "NewRelayStats ''out'' demo_fs = (Inr r0, fs1)"
    by (auto simp: NewRelayStats_def NewCSVSeqWriter_def createFileWithDirs_def write_row_def demo_fs_def)
  have w: "writes_ok demo_fs" by (simp add: writes_ok_def demo_fs_def)
  have l: "list_all2 (\<lambda>m b. WrapMsg demo_gob (RelayBlockInfoMsg b) = Inr m) (map (\<lambda>b. demo_wrap (RelayBlockInfoMsg b)) demo_stat_msgs) demo_stat_msgs"
    by (simp add: list_all2_map1 list_all2_same demo_wrap_def WrapMsg_def getMsgType_def demo_gob_def)
  have h: "\<forall>b\<in>set demo_stat_msgs. \<forall>tx\<in>set (ri_InnerShardTxs b). Tx_Hash demo_codec tx \<noteq> Inr [9]" by code_simp
  have two: "(\<Sum>b\<leftarrow>demo_stat_msgs. relay_halves [9] b) = 2" by code_simp
  have r: "fold (relay_update demo_codec demo_gob) (map (\<lambda>b. demo_wrap (RelayBlockInfoMsg b)) demo_stat_msgs) (r0, fs1) =
    (fst demo_stats_run, snd demo_stats_run)" by (simp add: demo_stats_run_def n)
  from relay_pairs_recorded_once [OF demo_gob_ok n w l h r] two show ?thesis by simp
qed

section \<open>Transaction sources\<close>

text \<open>What the shards rely on of a transaction that enters the system.\<close>

definition fresh_tx :: "transaction \<Rightarrow> bool" where
  "fresh_tx tx \<longleftrightarrow> valid_addr (Sender tx) \<and> valid_addr (Recipient tx) \<and> TxType tx \<notin> {RelayTxType, BrokerTxType} \<and>
     RelayStage tx = UndeterminedRelayTx \<and> BrokerStage tx = RawTxBrokerStage \<and> Broker tx = EmptyAccountAddr"

definition src_count :: "tx_source \<Rightarrow> int" where
  "src_count ts = (case ts of CSVSource ds \<Rightarrow> cs_count ds | RandomSource r \<Rightarrow> rs_count r | NoOperationTxSource \<Rightarrow> 1)"

text \<open>The nonces count up from \<open>c\<close>, as an \<open>int64\<close> that is converted to \<open>uint64\<close>.\<close>

fun numbered :: "int \<Rightarrow> transaction list \<Rightarrow> bool" where
  "numbered c [] = True"
| "numbered c (tx # txs) = (Nonce tx = word_of_int c \<and> numbered (wrap64 (c + 1)) txs)"

abbreviation goes_on :: "int \<Rightarrow> transaction list \<Rightarrow> int \<Rightarrow> bool" where
  "goes_on c txs c' \<equiv> \<forall>later. numbered c (txs @ later) = numbered c' later"

lemma NewTransaction_fresh:
  "valid_addr a \<Longrightarrow> valid_addr b \<Longrightarrow> fresh_tx (NewTransaction a b v fee n t)"
  by (simp add: fresh_tx_def NewTransaction_def TxType_def)

lemma line2Tx_fresh:
  assumes "line2Tx now line c ex = Inr tx"
  shows "fresh_tx tx \<and> Nonce tx = word_of_int c"
proof -
  have e: "valid_addr EmptyAccountAddr" by (simp add: valid_addr_def EmptyAccountAddr_def)
  have f: "fresh_tx ((NewTransaction a b v fee n t)\<lparr>Data := d\<rparr>)" if "valid_addr a" "valid_addr b" for a b v fee n t d
    using that by (simp add: fresh_tx_def NewTransaction_def TxType_def)
  have n: "Nonce (NewTransaction a b v fee k t) = k" for a b v fee k t by (simp add: NewTransaction_def)
  show ?thesis using assms e f n
    by (auto simp: line2Tx_def Let_def wrap_err_def dest!: Hex2Addr_valid intro: NewTransaction_fresh split: if_splits option.splits sum.splits)
qed

lemma csv_loop_fresh:
  "csv_loop clk sz ret ls ds = (Inr txs, ds') \<Longrightarrow>
   \<exists>new. txs = ret @ new \<and> list_all fresh_tx new \<and> goes_on (cs_count ds) new (cs_count ds')"
proof (induction clk sz ret ls ds rule: csv_loop.induct)
  case (2 clk sz ret l ls ds)
  show ?case
  proof (cases "int (length ret) < sz")
    case True
    then obtain line where l: "l = Inr line" using "2.prems" by (cases l) auto
    show ?thesis
    proof (cases "line2Tx (clk (length ls)) line (cs_count ds) (cs_excludeContractTxs ds)")
      case (Inl e)
      then show ?thesis using "2.IH"(1,2) "2.prems" True l by (cases e) auto
    next
      case (Inr tx)
      let ?ds = "ds\<lparr>cs_count := wrap64 (cs_count ds + 1)\<rparr>"
      obtain new where "txs = (ret @ [tx]) @ new" "list_all fresh_tx new" "goes_on (cs_count ?ds) new (cs_count ds')"
        using "2.IH"(3) [of line tx] "2.prems" True l Inr by auto
      then show ?thesis using line2Tx_fresh [OF Inr] by (intro exI [of _ "tx # new"]) simp
    qed
  qed (use "2.prems" in auto)
qed (auto split: if_splits)

definition random_tx_ok :: "transaction \<Rightarrow> bool" where
  "random_tx_ok tx \<longleftrightarrow> Sender tx \<noteq> Recipient tx \<and> 1 \<le> Value tx \<and> Value tx \<le> 1000 \<and> PriorityFee tx = Value tx div 10"

lemma draw_receiver_other: "draw_receiver rd a i = Some y \<Longrightarrow> fst y \<noteq> a \<and> valid_addr (fst y)"
  by (rule draw_receiver.raw_induct [where P = "\<lambda>_ a _ y. fst y \<noteq> a \<and> valid_addr (fst y)"])
    (auto simp: valid_addr_def rand_addr_def accountPrefixZeroBytes_def split: if_splits)

lemma generate_fresh:
  assumes "generateRandomTransaction env c i k = Some (tx, j)"
  shows "fresh_tx tx \<and> Nonce tx = word_of_int c \<and> random_tx_ok tx"
proof -
  let ?s = "rand_addr (rand_Read env i)" and ?v = "rand_Int env k mod upperBoundTransferAmount + 1"
  obtain b where b: "draw_receiver (rand_Read env) ?s (i + 1) = Some (b, j)"
    and tx: "tx = NewTransaction ?s b ?v (fee_of ?v) (word_of_int c) (src_Now env k)"
    using assms by (auto simp: generateRandomTransaction_def Let_def split: option.splits)
  have v: "0 \<le> ?v" "1 \<le> ?v" "?v \<le> 1000" using pos_mod_bound [of 1000 "rand_Int env k"] by (simp_all add: upperBoundTransferAmount_def)
  have b': "valid_addr ?s" "valid_addr b" "?s \<noteq> b" using draw_receiver_other [OF b] by (auto simp: valid_addr_def rand_addr_def accountPrefixZeroBytes_def)
  from NewTransaction_fresh [OF b'(1,2)] have "fresh_tx tx" by (simp add: tx)
  then show ?thesis using b'(3) v fee_of_tenth [OF v(1,3)] unfolding tx by (simp add: random_tx_ok_def) (simp add: NewTransaction_def)
qed

lemma random_loop_fresh:
  "random_loop env n r = Some (txs, r') \<Longrightarrow> list_all fresh_tx txs \<and> goes_on (rs_count r) txs (rs_count r') \<and> list_all random_tx_ok txs"
proof (induction n arbitrary: r txs)
  case (Suc n)
  then obtain tx i rest where 1: "generateRandomTransaction env (rs_count r) (rs_reads r) (rs_ints r) = Some (tx, i)"
    "random_loop env n (r\<lparr>rs_count := wrap64 (rs_count r + 1), rs_reads := i, rs_ints := rs_ints r + 1\<rparr>) = Some (rest, r')" "txs = tx # rest"
    by (auto split: option.splits)
  from Suc.IH [OF 1(2)] generate_fresh [OF 1(1)] show ?case by (simp add: 1(3))
qed simp

text \<open>
  C40. Every transaction a source delivers is well formed for the shards: two addresses of 20 bytes, no relay or broker stage, and the
  nonces count on from read to read. At most as many as asked for are delivered, and those of the random source move between
  1 and 1000 to another account, with a tenth as the fee.
\<close>

theorem source_txs_well_formed:
  assumes "ReadTxs env n ts = Some (Inr txs, ts')" "0 \<le> n"
  shows "(int (length txs) \<le> n) \<and>
    (list_all fresh_tx txs) \<and>
    (numbered (src_count ts) txs) \<and>
    (numbered (src_count ts') later \<longleftrightarrow> numbered (src_count ts) (txs @ later)) \<and>
    ((\<exists>r. ts = RandomSource r) \<longrightarrow> int (length txs) = n \<and> list_all random_tx_ok txs)"
proof (intro conjI)
  show "int (length txs) \<le> n" by (rule ReadTxs_bound [OF assms])
  have main: "list_all fresh_tx txs \<and> goes_on (src_count ts) txs (src_count ts') \<and>
    ((\<exists>r. ts = RandomSource r) \<longrightarrow> int (length txs) = n \<and> list_all random_tx_ok txs)"
  proof (cases ts)
    case (CSVSource ds)
    then obtain ds' where "CSV_ReadTxs env n ds = (Inr txs, ds')" "ts' = tx_source.CSVSource ds'"
      using assms(1) by (auto simp: ReadTxs_def split: prod.splits)
    then show ?thesis using CSVSource assms(2) csv_loop_fresh [of "src_Now env" n "[]" "cs_cr ds" ds txs ds']
      by (auto simp: CSV_ReadTxs_def src_count_def split: if_splits)
  next
    case (RandomSource r)
    then obtain r' where "random_loop env (nat n) r = Some (txs, r')" "ts' = tx_source.RandomSource r'"
      using assms by (auto simp: ReadTxs_def Random_ReadTxs_def split: option.splits if_splits)
    then show ?thesis using RandomSource random_loop_fresh random_loop_length assms(2) by (auto simp: src_count_def)
  qed (use assms in \<open>auto simp: ReadTxs_def\<close>)
  then show "list_all fresh_tx txs" "numbered (src_count ts') later \<longleftrightarrow> numbered (src_count ts) (txs @ later)"
    "(\<exists>r. ts = RandomSource r) \<longrightarrow> int (length txs) = n \<and> list_all random_tx_ok txs" by blast+
  from main have "numbered (src_count ts) (txs @ []) = numbered (src_count ts') []" by blast
  then show "numbered (src_count ts) txs" by simp
qed

definition demo_src_env :: source_env where
  "demo_src_env = \<lparr>src_Now = (\<lambda>_. 3), rand_Read = (\<lambda>i. (0, of_nat (i div 3))), rand_Int = (\<lambda>k. 1234 * int k)\<rparr>"

theorem source_txs_well_formed_witness:
  "\<exists>txs ts'. ReadTxs demo_src_env 4 (RandomSource NewRandomSource) = Some (Inr txs, ts') \<and> length txs = 4 \<and>
     list_all fresh_tx txs \<and> list_all random_tx_ok txs"
proof -
  have "(case ReadTxs demo_src_env 4 (RandomSource NewRandomSource) of Some (r, _) \<Rightarrow> is_ok r | None \<Rightarrow> False)" by code_simp
  then obtain txs ts' where r: "ReadTxs demo_src_env 4 (RandomSource NewRandomSource) = Some (Inr txs, ts')"
    by (auto simp: is_ok_iff split: option.splits)
  from source_txs_well_formed [OF r] r show ?thesis by auto
qed

end
