(* ===== verification/Supervision.thy ===== *)
theory Supervision
  imports Supervisor Statistics
begin

text \<open>
  The properties of the supervisor's side: the partition algorithm, the broker manager, the committees and the main loop,
  each with a concrete instance. The instances use the demo codec and topology and an exact arithmetic
  of half integers for \<open>float64\<close>.
\<close>

section \<open>An arithmetic of half integers\<close>

text \<open>A number is represented by its double.\<close>

definition half_float :: "int float_api" where
  "half_float = \<lparr>fl_of_int = (\<lambda>n. 2 * n), fl_add = (+), fl_sub = (-), fl_mul = (\<lambda>x y. x * y div 2), fl_div = (\<lambda>x y. x * 2 div y),
     fl_less = (<), fl_min = min\<rparr>"

lemma half_float_ok: "float_ok half_float"
  by (simp add: float_ok_def half_def half_float_def)

section \<open>The partition algorithm\<close>

lemma AddEdge_graph:
  assumes "clpa_inv cs" "AddEdge u v cs = Inr cs'"
  shows "EdgeSet (netGraph cs') = append_edge v u (append_edge u v (EdgeSet (netGraph cs)))"
    "set (VertexSet (netGraph cs')) = {u, v} \<union> set (VertexSet (netGraph cs))"
proof -
  obtain cs1 where 1: "add_missing u cs = Inr cs1" "clpa_inv cs1" "netGraph cs1 = AddVertex u (netGraph cs)"
    using add_missing_inv [OF assms(1)] by blast
  obtain cs2 where 2: "add_missing v cs1 = Inr cs2" "netGraph cs2 = AddVertex v (netGraph cs1)"
    using add_missing_inv [OF 1(2)] by blast
  have "cs' = cs2\<lparr>netGraph := Graph_AddEdge u v (netGraph cs2)\<rparr>" using assms(2) 1(1) 2(1) by (simp add: AddEdge_def)
  then show "EdgeSet (netGraph cs') = append_edge v u (append_edge u v (EdgeSet (netGraph cs)))"
    "set (VertexSet (netGraph cs')) = {u, v} \<union> set (VertexSet (netGraph cs))"
    using 1(3) 2(2) by (auto simp: Graph_AddEdge_def AddVertex_def Let_def)
qed

lemma edge_ends_append: "edge_ends (append_edge u v es) = edge_ends es + 1"
proof -
  have "edge_ends (AList.update u (map_get es u [] @ [v]) es) = edge_ends es + 1"
    by (induction es) (auto simp: edge_ends_def map_get_def)
  then show ?thesis by (simp add: append_edge_def)
qed

lemma add_edges_spec:
  "clpa_inv cs \<Longrightarrow> \<exists>cs'. add_edges txs cs = Inr cs' \<and> clpa_inv cs' \<and> getVertexLocation cs' = getVertexLocation cs \<and>
     cl_shardNum cs' = cl_shardNum cs \<and> edge_ends (EdgeSet (netGraph cs')) = edge_ends (EdgeSet (netGraph cs)) + 2 * int (length txs) \<and>
     set (VertexSet (netGraph cs')) = (\<Union>tx\<in>set txs. {\<lparr>Addr = Sender tx\<rparr>, \<lparr>Addr = Recipient tx\<rparr>}) \<union> set (VertexSet (netGraph cs)) \<and>
     ((\<forall>tx\<in>set txs. Sender tx \<noteq> Recipient tx) \<longrightarrow> loop_free (netGraph cs) \<longrightarrow> loop_free (netGraph cs'))"
proof (induction txs arbitrary: cs)
  case Nil
  then show ?case by (simp add: add_edges_def)
next
  case (Cons tx txs)
  let ?u = "\<lparr>Addr = Sender tx\<rparr>" and ?v = "\<lparr>Addr = Recipient tx\<rparr>"
  obtain cs1 where 1: "AddEdge ?u ?v cs = Inr cs1" "clpa_inv cs1" "getVertexLocation cs1 = getVertexLocation cs" "cl_shardNum cs1 = cl_shardNum cs"
    using AddEdge_inv [OF Cons.prems] by blast
  note g = AddEdge_graph [OF Cons.prems 1(1)]
  have lf: "loop_free (netGraph cs1)" if "Sender tx \<noteq> Recipient tx" "loop_free (netGraph cs)"
    using that by (auto simp: loop_free_def g(1) append_edge_def map_get_update)
  obtain cs' where 2: "add_edges txs cs1 = Inr cs'" "clpa_inv cs'" "getVertexLocation cs' = getVertexLocation cs1" "cl_shardNum cs' = cl_shardNum cs1"
    "edge_ends (EdgeSet (netGraph cs')) = edge_ends (EdgeSet (netGraph cs1)) + 2 * int (length txs)"
    "set (VertexSet (netGraph cs')) = (\<Union>tx\<in>set txs. {\<lparr>Addr = Sender tx\<rparr>, \<lparr>Addr = Recipient tx\<rparr>}) \<union> set (VertexSet (netGraph cs1))"
    "(\<forall>tx\<in>set txs. Sender tx \<noteq> Recipient tx) \<longrightarrow> loop_free (netGraph cs1) \<longrightarrow> loop_free (netGraph cs')"
    using Cons.IH [OF 1(2)] by blast
  have "add_edges (tx # txs) cs = Inr cs'" using 1(1) 2(1) by (simp add: add_edges_def)
  then show ?case using 1 2 lf g by (auto simp: edge_ends_append)
qed

lemma NewCLPAState_graph: "NewCLPAState fl wp mi n = Inr cs \<Longrightarrow> netGraph cs = NewGraph \<and> cl_shardNum cs = n"
  by (auto simp: NewCLPAState_def split: if_splits)

definition demo_txs :: "transaction list" where
  "demo_txs = [demo_tx 2 4 30, demo_tx 4 6 5, demo_tx 3 4 1, demo_tx 3 6 1]"

definition demo_clpa0 :: "int clpa_state" where
  "demo_clpa0 = get_ok (NewCLPAState half_float 1 3 2)"

definition demo_clpa :: "int clpa_state" where
  "demo_clpa = get_ok (add_edges demo_txs demo_clpa0)"

lemma demo_clpa:
  "NewCLPAState half_float 1 3 2 = Inr demo_clpa0" "add_edges demo_txs demo_clpa0 = Inr demo_clpa"
proof -
  show 0: "NewCLPAState half_float 1 3 2 = Inr demo_clpa0" by (simp add: demo_clpa0_def NewCLPAState_def get_ok_def)
  show "add_edges demo_txs demo_clpa0 = Inr demo_clpa"
    using add_edges_spec [OF NewCLPAState_inv [OF _ 0], of demo_txs] by (auto simp: demo_clpa_def get_ok_def)
qed

text \<open>
  C31. The partition algorithm returns, whatever order it visits the vertices in, on the graph of any
  transactions. Each account of its result is an account of the graph that moves to another existing shard, every other account
  keeps its location, and no shard that had accounts of the graph loses all of them.
\<close>

theorem clpa_partition_correct:
  assumes "0 < n" "NewCLPAState fl wp mi n = Inr cs0" "add_edges txs cs0 = Inr cs"
    and "\<forall>i. set (order i) \<subseteq> set (VertexSet (netGraph cs))"
  shows "\<exists>moved cross cs'. CLPAPartition fl order cs = Inr (moved, cross, cs') \<and>
    (\<forall>a. case map_of moved a of
        None \<Rightarrow> getVertexLocation cs' \<lparr>Addr = a\<rparr> = getVertexLocation cs \<lparr>Addr = a\<rparr>
      | Some s \<Rightarrow> (\<exists>tx\<in>set txs. a = Sender tx \<or> a = Recipient tx) \<and> getVertexLocation cs' \<lparr>Addr = a\<rparr> = s \<and>
          s \<noteq> getVertexLocation cs \<lparr>Addr = a\<rparr> \<and> 0 \<le> s \<and> s < n) \<and>
    getVertexLocation cs ` set (VertexSet (netGraph cs)) \<subseteq> getVertexLocation cs' ` set (VertexSet (netGraph cs))"
proof -
  have inv0: "clpa_inv cs0" by (rule NewCLPAState_inv [OF assms(1,2)])
  have inv: "clpa_inv cs" and n: "cl_shardNum cs = n"
    and V: "set (VertexSet (netGraph cs)) = (\<Union>tx\<in>set txs. {\<lparr>Addr = Sender tx\<rparr>, \<lparr>Addr = Recipient tx\<rparr>})"
    using add_edges_spec [OF inv0, of txs] assms(3) NewCLPAState_graph [OF assms(2)] by (auto simp: NewGraph_def)
  obtain ret cross cs' where p: "CLPAPartition fl order cs = Inr (ret, cross, cs')" "clpa_inv cs'" "cl_shardNum cs' = cl_shardNum cs"
    "\<And>v. case map_of ret (Addr v) of None \<Rightarrow> getVertexLocation cs' v = getVertexLocation cs v
      | Some s \<Rightarrow> v \<in> set (VertexSet (netGraph cs)) \<and> getVertexLocation cs' v = s \<and> s \<noteq> getVertexLocation cs v"
    "getVertexLocation cs ` set (VertexSet (netGraph cs)) \<subseteq> getVertexLocation cs' ` set (VertexSet (netGraph cs))"
    using CLPAPartition_spec [OF inv, of order fl] assms(4) by blast
  have "case map_of ret a of None \<Rightarrow> getVertexLocation cs' \<lparr>Addr = a\<rparr> = getVertexLocation cs \<lparr>Addr = a\<rparr>
      | Some s \<Rightarrow> (\<exists>tx\<in>set txs. a = Sender tx \<or> a = Recipient tx) \<and> getVertexLocation cs' \<lparr>Addr = a\<rparr> = s \<and>
          s \<noteq> getVertexLocation cs \<lparr>Addr = a\<rparr> \<and> 0 \<le> s \<and> s < n" for a
    using p(4) [of "\<lparr>Addr = a\<rparr>"] loc_range [OF p(2), of "\<lparr>Addr = a\<rparr>"] p(3) n V by (auto split: option.splits)
  then show ?thesis using p(1,5) by blast
qed

theorem clpa_partition_correct_witness:
  "\<exists>moved cross cs'. CLPAPartition half_float (\<lambda>_. VertexSet (netGraph demo_clpa)) demo_clpa = Inr (moved, cross, cs') \<and>
    (\<forall>a. case map_of moved a of
        None \<Rightarrow> getVertexLocation cs' \<lparr>Addr = a\<rparr> = getVertexLocation demo_clpa \<lparr>Addr = a\<rparr>
      | Some s \<Rightarrow> (\<exists>tx\<in>set demo_txs. a = Sender tx \<or> a = Recipient tx) \<and> getVertexLocation cs' \<lparr>Addr = a\<rparr> = s \<and>
          s \<noteq> getVertexLocation demo_clpa \<lparr>Addr = a\<rparr> \<and> 0 \<le> s \<and> s < 2) \<and>
    getVertexLocation demo_clpa ` set (VertexSet (netGraph demo_clpa)) \<subseteq> getVertexLocation cs' ` set (VertexSet (netGraph demo_clpa))"
  by (rule clpa_partition_correct [OF _ demo_clpa]) simp_all

lemma visit_vertex_weights:
  assumes fl: "float_ok fl" and inv: "clpa_inv cs" and lf: "loop_free (netGraph cs)"
    and few: "4 * edge_ends (EdgeSet (netGraph cs)) + 2 \<le> 2 ^ 52" and cur: "weights_current fl cs"
    and v: "v \<in> set (VertexSet (netGraph cs))"
  shows "\<exists>cs' ret' ut'. visit_vertex fl v (cs, ret, ut) = Inr (cs', ret', ut') \<and> clpa_inv cs' \<and> netGraph cs' = netGraph cs \<and> weights_current fl cs'"
proof -
  obtain d where d: "best_shard fl cs v = Inr d" "0 \<le> d" "d < cl_shardNum cs" using best_shard_total [OF inv] by blast
  show ?thesis
  proof (cases "visit_vertex fl v (cs, ret, ut) = Inr (cs, ret, ut)")
    case False
    then have mv: "visit_vertex fl v (cs, ret, ut) = move_vertex fl v d (cs, ret, ut)" and ne: "getVertexLocation cs v \<noteq> d"
      using d(1) idx_get_ok [OF loc_idx(2) [OF inv, of v]] by (auto simp: visit_vertex_def split: if_splits)
    obtain cs' ret' ut' where m: "move_vertex fl v d (cs, ret, ut) = Inr (cs', ret', ut')" "clpa_inv cs'" "netGraph cs' = netGraph cs"
      using move_vertex_spec [OF inv v d(2,3) ne] by blast
    then show ?thesis using mv move_vertex_weights [OF fl inv lf few cur v d(2,3) ne m(1)] by auto
  qed (use inv cur in auto)
qed

text \<open>
  C32. The weights that the algorithm updates step by step when accounts move are the weights computed from the graph: after
  visiting any sequence of vertices, recomputing them changes nothing. The graph is that of transactions between
  different accounts, of which there are few enough for half integers to be exact in \<open>float64\<close>.
\<close>

theorem clpa_incremental_weights:
  assumes "float_ok fl" "0 < n" "NewCLPAState fl wp mi n = Inr cs0" "add_edges txs cs0 = Inr cs"
    and "\<forall>tx\<in>set txs. Sender tx \<noteq> Recipient tx" "8 * int (length txs) + 2 \<le> 2 ^ 52"
    and "computeEdges2Shard fl cs = Inr cs1" "set vs \<subseteq> set (VertexSet (netGraph cs))"
  shows "\<exists>cs2 ret ut cs3. foldM_res (visit_vertex fl) vs (cs1, [], []) = Inr (cs2, ret, ut) \<and> computeEdges2Shard fl cs2 = Inr cs3 \<and>
    shardWeight cs3 = shardWeight cs2 \<and> minShardWeight cs3 = minShardWeight cs2"
proof -
  have inv0: "clpa_inv cs0" by (rule NewCLPAState_inv [OF assms(2,3)])
  have g0: "netGraph cs0 = NewGraph" using NewCLPAState_graph [OF assms(3)] by simp
  have inv: "clpa_inv cs" and lf: "loop_free (netGraph cs)" and e: "edge_ends (EdgeSet (netGraph cs)) = 2 * int (length txs)"
    using add_edges_spec [OF inv0, of txs] assms(4,5) by (auto simp: g0 NewGraph_def loop_free_def map_get_def edge_ends_def)
  have pl: "same_places cs cs1" using computeEdges2Shard_total [OF inv, of fl] assms(7) by auto
  have inv1: "clpa_inv cs1" and g1: "netGraph cs1 = netGraph cs" using same_places_inv [OF pl inv] pl by (simp_all add: same_places_def)
  have cur1: "weights_current fl cs1" by (rule weights_current_recomputed [OF inv assms(7)])
  let ?P = "\<lambda>(c, ret :: (address, int) gomap, ut :: (vertex, int) gomap). clpa_inv c \<and> netGraph c = netGraph cs \<and> weights_current fl c"
  have "\<exists>z. foldM_res (visit_vertex fl) vs (cs1, [], []) = Inr z \<and> ?P z"
  proof (rule foldM_res_inv)
    fix v z assume v: "v \<in> set vs" and z: "?P z"
    obtain c ret ut where zz: "z = (c, ret, ut)" by (rule prod_cases3)
    have "v \<in> set (VertexSet (netGraph c))" "loop_free (netGraph c)" "4 * edge_ends (EdgeSet (netGraph c)) + 2 \<le> 2 ^ 52"
      using z zz v assms(6,8) lf e by auto
    then show "\<exists>z'. visit_vertex fl v z = Inr z' \<and> ?P z'"
      using visit_vertex_weights [OF assms(1), of c v ret ut] z zz by auto
  qed (use inv1 g1 cur1 in simp)
  then obtain cs2 ret ut where "foldM_res (visit_vertex fl) vs (cs1, [], []) = Inr (cs2, ret, ut)" "weights_current fl cs2" by auto
  then show ?thesis by (auto simp: weights_current_def split: sum.splits)
qed

lemma demo_places: "\<exists>c. computeEdges2Shard half_float demo_clpa = Inr c"
  using add_edges_spec [OF NewCLPAState_inv [OF _ demo_clpa(1)], of demo_txs] computeEdges2Shard_total [of demo_clpa half_float] demo_clpa(2) by auto

theorem clpa_incremental_weights_witness:
  "\<exists>cs1 cs2 ret ut cs3. computeEdges2Shard half_float demo_clpa = Inr cs1 \<and>
    foldM_res (visit_vertex half_float) (VertexSet (netGraph demo_clpa)) (cs1, [], []) = Inr (cs2, ret, ut) \<and>
    computeEdges2Shard half_float cs2 = Inr cs3 \<and> shardWeight cs3 = shardWeight cs2 \<and> minShardWeight cs3 = minShardWeight cs2"
proof -
  obtain c where c: "computeEdges2Shard half_float demo_clpa = Inr c" using demo_places by blast
  have "\<forall>tx\<in>set demo_txs. Sender tx \<noteq> Recipient tx" by (simp add: demo_txs_def demo_tx_def demo_addr_def NewTransaction_def)
  from clpa_incremental_weights [OF half_float_ok _ demo_clpa this _ c, of "VertexSet (netGraph demo_clpa)"] c show ?thesis
    by (auto simp: demo_txs_def)
qed

section \<open>The broker manager\<close>

lemma half_after_half:
  assumes "c = e + r" "c = d + m" "r \<subseteq># m"
  shows "d \<subseteq># (e :: 'a multiset)"
proof -
  obtain k where "m = r + k" using assms(3) by (auto simp: mset_subset_eq_exists_conv)
  then have "e + r = (d + k) + r" using assms(1,2) by (simp add: union_ac)
  then show ?thesis by simp
qed

lemma ready_subset: "distinct xs \<Longrightarrow> set xs \<subseteq> A \<Longrightarrow> finite A \<Longrightarrow> mset xs \<subseteq># mset_set A"
  by (simp add: mset_set_set [symmetric] subset_imp_msubset_mset_set del: mset_set_set)

text \<open>
  C33. The two halves of a raw broker transaction: in every run of the manager in which a half is confirmed only after it was
  emitted, a second half is confirmed only after it was emitted, which is after the first half was confirmed, which is
  after it was emitted, each at most once. When the manager says that it is finished, every raw transaction has
  gone through all four stages exactly once.
\<close>

theorem broker_pairs_complete:
  assumes "NewBrokerManager file num = Inr s" "bm_run cd ops (bm_start s) = Some lg"
  shows "(mset (confirmed2 lg) \<subseteq># mset (emitted2 lg)) \<and>
    (mset (emitted2 lg) \<subseteq># mset (confirmed1 lg)) \<and>
    (mset (confirmed1 lg) \<subseteq># mset (emitted1 lg)) \<and>
    (mset (emitted1 lg) \<subseteq># mset (created lg)) \<and>
    (IsFinished (lg_mgr lg) \<longrightarrow> mset (created lg) = mset (emitted1 lg) \<and> mset (created lg) = mset (confirmed1 lg) \<and>
       mset (created lg) = mset (emitted2 lg) \<and> mset (created lg) = mset (confirmed2 lg))"
proof (intro conjI)
  have li: "log_inv lg" by (rule bm_run_inv [OF bm_start_inv [OF assms(1)] assms(2)])
  note d = log_invD [OF li]
  have r1: "mset (readyBroker1TxHashes (lg_mgr lg)) \<subseteq># mset_set (in_stage (lg_mgr lg) 1)"
    and r2: "mset (readyBroker2TxHashes (lg_mgr lg)) \<subseteq># mset_set (in_stage (lg_mgr lg) 2)"
    using d(1) by (auto simp: bm_inv_def intro: ready_subset)
  show "mset (confirmed2 lg) \<subseteq># mset (emitted2 lg)" by (rule half_after_half [OF d(4,5) r2])
  show "mset (confirmed1 lg) \<subseteq># mset (emitted1 lg)" by (rule half_after_half [OF d(2,3) r1])
  show "mset (emitted2 lg) \<subseteq># mset (confirmed1 lg)" unfolding d(4) by simp
  show "mset (emitted1 lg) \<subseteq># mset (created lg)" unfolding d(2) by simp
  show "IsFinished (lg_mgr lg) \<longrightarrow> mset (created lg) = mset (emitted1 lg) \<and> mset (created lg) = mset (confirmed1 lg) \<and>
       mset (created lg) = mset (emitted2 lg) \<and> mset (created lg) = mset (confirmed2 lg)"
  proof
    assume "IsFinished (lg_mgr lg)"
    then have e: "in_stage (lg_mgr lg) n = {}" "readyBroker1TxHashes (lg_mgr lg) = []" "readyBroker2TxHashes (lg_mgr lg) = []" for n
      by (auto simp: IsFinished_def in_stage_def stage_of_def)
    have "mset (created lg) = mset (emitted1 lg)" "mset (created lg) = mset (confirmed1 lg)"
      "mset (confirmed1 lg) = mset (emitted2 lg)" "mset (confirmed1 lg) = mset (confirmed2 lg)"
      using d(2) e(2) d(3) e(1) [of 1] d(4) e(3) d(5) e(1) [of 2] by (metis add.right_neutral mset.simps(1) mset_set.empty)+
    then show "mset (created lg) = mset (emitted1 lg) \<and> mset (created lg) = mset (confirmed1 lg) \<and>
       mset (created lg) = mset (emitted2 lg) \<and> mset (created lg) = mset (confirmed2 lg)" by metis
  qed
qed

definition demo_broker_file :: "(string list \<times> unit result) result" where
  "demo_broker_file = Inr ([hex_EncodeToString (demo_addr 9)], Inr ())"

definition demo_manager :: manager where
  "demo_manager = get_ok (NewBrokerManager demo_broker_file 1)"

definition demo_half :: "nat \<Rightarrow> transaction" where
  "demo_half n = (demo_tx 2 5 30)\<lparr>BrokerStage := n, Broker := demo_addr 9, BOriginalHash := demo_addr 2 @ demo_addr 5\<rparr>"

definition demo_bm_ops :: "bm_op list" where
  "demo_bm_ops = [BCreate (demo_tx 2 5 30) (demo_addr 9), BEmit (\<lambda>_. 1), BConfirm (demo_half 1), BEmit (\<lambda>_. 2), BConfirm (demo_half 2)]"

lemma demo_manager_eq: "NewBrokerManager demo_broker_file 1 = Inr demo_manager"
  unfolding demo_manager_def by code_simp

theorem broker_pairs_complete_witness:
  "\<exists>lg. bm_run demo_codec demo_bm_ops (bm_start demo_manager) = Some lg \<and> created lg = [demo_addr 2 @ demo_addr 5] \<and>
     mset (created lg) = mset (confirmed2 lg)"
proof -
  have r: "(case bm_run demo_codec demo_bm_ops (bm_start demo_manager) of None \<Rightarrow> False
     | Some lg \<Rightarrow> IsFinished (lg_mgr lg) \<and> created lg = [demo_addr 2 @ demo_addr 5])" by code_simp
  then obtain lg where lg: "bm_run demo_codec demo_bm_ops (bm_start demo_manager) = Some lg" "IsFinished (lg_mgr lg)"
    "created lg = [demo_addr 2 @ demo_addr 5]" by (auto split: option.splits)
  with broker_pairs_complete [OF demo_manager_eq lg(1)] show ?thesis by blast
qed

section \<open>The committees\<close>

text \<open>A data set of two cross-shard transfers and one within a shard.\<close>

definition demo_row :: "byte \<Rightarrow> byte \<Rightarrow> int \<Rightarrow> string list" where
  "demo_row a b v = [[], [], [], hex_EncodeToString (demo_addr a), hex_EncodeToString (demo_addr b), [], ''0'', ''0'', Sprintf_d v,
     [], [], [], []]"

definition demo_open :: "string \<Rightarrow> string list result list result" where
  "demo_open _ = Inr [Inr [''header''], Inr (demo_row 2 5 30), Inr (demo_row 2 4 7), Inr (demo_row 3 6 11)]"

definition demo_scfg :: "string \<Rightarrow> string \<Rightarrow> int \<Rightarrow> supervisor_cfg" where
  "demo_scfg typ src n =
     \<lparr>sv_Sys = \<lparr>ShardNum = 2, NodeNum = 4, ConsensusType = typ, BlockSizeLimit = 10, sys_Log = \<lparr>LogDir = [], LogLevel = ''info''\<rparr>\<rparr>, TxNumber = n, TxInjectionSpeed = 5,
      ResultOutputDir = ''out'', EpochDuration = 10, TxSourceType = src, TxSourceFile = ''txs.csv'', ExcludeContractTxs = True,
      BrokerFilePath = ''brokers'', BrokerNum = 1\<rparr>"

definition demo_env :: com_env where
  "demo_env =
     \<lparr>ce_src = \<lparr>src_Now = (\<lambda>_. 3), rand_Read = (\<lambda>i. (0, of_nat i)), rand_Int = int\<rparr>, ce_mark = 1, ce_now = 2,
      ce_order = (\<lambda>_. []), ce_clk = (\<lambda>_. 4), ce_rnd = (\<lambda>_. 0), ce_shuffle = (\<lambda>_ bs. bs)\<rparr>"


definition demo_sb :: "msg broker_committee" where
  "demo_sb = get_ok (NewStaticBrokerCommittee demo_open (\<lambda>_. demo_broker_file) [] demo_topo demo_gob (demo_scfg ''static_broker'' ''csv_source'' 3))"

lemma demo_sb_eq:
  "NewStaticBrokerCommittee demo_open (\<lambda>_. demo_broker_file) [] demo_topo demo_gob (demo_scfg ''static_broker'' ''csv_source'' 3) = Inr demo_sb"
proof -
  have "is_ok (NewStaticBrokerCommittee demo_open (\<lambda>_. demo_broker_file) [] demo_topo demo_gob (demo_scfg ''static_broker'' ''csv_source'' 3))"
    by code_simp
  then show ?thesis by (auto simp: demo_sb_def is_ok_iff)
qed

text \<open>
  C34. A broker never promises money that it does not have: in every state that the static broker committee can
  reach by sending transactions with non-negative values and by handling honest block reports, in each shard the
  value of the unfinished raw transactions of a broker is promised, and what is promised is covered by its balance.
\<close>

theorem broker_never_overdrawn:
  assumes "NewStaticBrokerCommittee os_Open bf out r g scfg = Inr c0" "(sb_step cd)\<^sup>*\<^sup>* c0 c"
    and "IsBroker (bManager c) b" "0 \<le> s" "s < cm_shards c"
  shows "(0 \<le> held (committee_loc c) (unconfirmedTxInfo (bManager c)) b s) \<and>
    (held (committee_loc c) (unconfirmedTxInfo (bManager c)) b s \<le> cell (pendingDeductions c) b s) \<and>
    (cell (pendingDeductions c) b s \<le> cell (brokerBalances c) b s)"
proof (intro conjI)
  have sol: "solvent c" by (rule sb_run_solvent [OF assms(2) NewStaticBrokerCommittee_solvent(1) [OF assms(1)]])
  then show "0 \<le> held (committee_loc c) (unconfirmedTxInfo (bManager c)) b s"
    by (intro held_nonneg) (simp add: solvent_def mgr_ok_def)
  show "held (committee_loc c) (unconfirmedTxInfo (bManager c)) b s \<le> cell (pendingDeductions c) b s"
    "cell (pendingDeductions c) b s \<le> cell (brokerBalances c) b s"
    using sol assms(3-5) by (simp_all add: solvent_def money_ok_def)
qed

lemma demo_sb_step:
  "\<exists>c. StaticBroker_SendTxsAndConsensus demo_codec demo_env demo_sb = Some (Inr (), c) \<and> IsBroker (bManager c) (demo_addr 9) \<and>
     cm_shards c = 2 \<and> cell (pendingDeductions c) (demo_addr 9) 1 = 30 \<and> sb_step demo_codec demo_sb c"
proof -
  have r: "(case StaticBroker_SendTxsAndConsensus demo_codec demo_env demo_sb of Some (r, c) \<Rightarrow> r = Inr () \<and>
      IsBroker (bManager c) (demo_addr 9) \<and> cm_shards c = 2 \<and> cell (pendingDeductions c) (demo_addr 9) 1 = 30 | None \<Rightarrow> False)" by code_simp
  then obtain c where c: "StaticBroker_SendTxsAndConsensus demo_codec demo_env demo_sb = Some (Inr (), c)"
    "IsBroker (bManager c) (demo_addr 9)" "cm_shards c = 2" "cell (pendingDeductions c) (demo_addr 9) 1 = 30"
    by (auto split: option.splits)
  have "reads_money demo_env demo_sb" by code_simp
  from sb_step.send [OF c(1) this] c show ?thesis by blast
qed

theorem broker_never_overdrawn_witness:
  "\<exists>c. (sb_step demo_codec)\<^sup>*\<^sup>* demo_sb c \<and> cell (pendingDeductions c) (demo_addr 9) 1 = 30 \<and> 30 \<le> cell (brokerBalances c) (demo_addr 9) 1"
proof -
  obtain c where c: "IsBroker (bManager c) (demo_addr 9)" "cm_shards c = 2" "cell (pendingDeductions c) (demo_addr 9) 1 = 30"
    "sb_step demo_codec demo_sb c" using demo_sb_step by blast
  have run: "(sb_step demo_codec)\<^sup>*\<^sup>* demo_sb c" using c(4) by (rule r_into_rtranclp)
  from broker_never_overdrawn [OF demo_sb_eq run c(1), of 1] c run show ?thesis by auto
qed









section \<open>Epochs\<close>

definition epoch_ok :: "('p, 'f, 'x) clpa_committee_scheme \<Rightarrow> bool" where
  "epoch_ok c \<longleftrightarrow> (\<forall>m. is_ok (g_enc (cm_gob c) (CLPARepartitionStartMsg m))) \<and>
     (pr_epochSynced (cm_pr c) \<longrightarrow> (\<forall>e\<in>set (pr_shardEpoch (cm_pr c)). pr_supervisorEpoch (cm_pr c) \<le> e))"

lemma WrapMsg_repartition: "is_ok (g_enc g (CLPARepartitionStartMsg m)) \<Longrightarrow> \<exists>w. WrapMsg g (CLPARepartitionStartMsg m) = Inr w"
  by (auto simp: WrapMsg_def getMsgType_def is_ok_iff)

lemma repartition_epoch:
  assumes ok: "\<forall>m. is_ok (g_enc (cm_gob c) (CLPARepartitionStartMsg m))" and run: "repartition env c = (r, c')"
  shows "c' = c \<or> \<not> pr_epochSynced (cm_pr c') \<and>
    (\<exists>moved w. WrapMsg (cm_gob c) (CLPARepartitionStartMsg \<lparr>rs_Epoch = pr_supervisorEpoch (cm_pr c'), rs_ModifiedMap = moved\<rparr>) = Inr w \<and>
       cm_conn c' = cm_conn c @ map (\<lambda>l. (l, w)) (GetAllLeaders (cm_r c)))"
proof (cases "CLPAPartition (cm_fl c) (ce_order env) (pr_state (cm_pr c))")
  case (Inl e)
  then show ?thesis using run by (simp add: repartition_def)
next
  case (Inr q)
  obtain moved x cs where q: "q = (moved, x, cs)" by (rule prod_cases3)
  let ?ep = "wrap64 (pr_supervisorEpoch (cm_pr c) + 1)"
  let ?m = "\<lparr>rs_Epoch = ?ep, rs_ModifiedMap = transferMapBytes2Addr moved\<rparr>"
  obtain w where w: "WrapMsg (cm_gob c) (CLPARepartitionStartMsg ?m) = Inr w" using WrapMsg_repartition ok by blast
  have c': "\<not> pr_epochSynced (cm_pr c')" "pr_supervisorEpoch (cm_pr c') = ?ep" "cm_conn c' = cm_conn c @ map (\<lambda>l. (l, w)) (GetAllLeaders (cm_r c))"
    using run Inr q w by (auto simp: repartition_def Let_def GroupBroadcastMessage_out)
  then show ?thesis using w by metis
qed

lemma CLPARelay_read_pr:
  assumes "CLPARelay_readTxsAndSend env c = Some (r, c')"
  shows "cm_pr c' = cm_pr c" "cm_gob c' = cm_gob c"
  using assms by (auto simp: CLPARelay_readTxsAndSend_def read_next_def dispatch_def split: option.splits sum.splits prod.splits)

lemma CLPARelay_send_cases:
  assumes "CLPARelay_SendTxsAndConsensus env c = Some (r, c')"
  obtains p b where "CheckEpochSyncAndMark (ce_mark env) (cm_pr c) = (b, p)"
    "cm_pr c' = p \<and> cm_gob c' = cm_gob c \<or> b \<and> (\<exists>q. repartition env (c\<lparr>cm_pr := p\<rparr>) = (q, c'))"
proof -
  obtain b p where p: "CheckEpochSyncAndMark (ce_mark env) (cm_pr c) = (b, p)" by (rule prod.exhaust)
  let ?c1 = "c\<lparr>cm_pr := p\<rparr>"
  consider "c' = ?c1" | q where "b" "repartition env ?c1 = (q, c')" | q where "CLPARelay_readTxsAndSend env ?c1 = Some (q, c')"
    using assms p by (cases "repartition env ?c1")
      (auto simp: CLPARelay_SendTxsAndConsensus_def clpa_turn_def Let_def split: if_splits bool.splits)
  then show ?thesis using that [OF p] CLPARelay_read_pr [of env ?c1 _ c'] by cases auto
qed

lemma CLPARelay_send_epoch:
  assumes ok: "epoch_ok c" and run: "CLPARelay_SendTxsAndConsensus env c = Some (r, c')"
  shows "epoch_ok c'"
    "pr_supervisorEpoch (cm_pr c') \<noteq> pr_supervisorEpoch (cm_pr c) \<Longrightarrow> (\<forall>e\<in>set (pr_shardEpoch (cm_pr c)). pr_supervisorEpoch (cm_pr c) \<le> e) \<and>
      (\<exists>moved w. WrapMsg (cm_gob c) (CLPARepartitionStartMsg \<lparr>rs_Epoch = pr_supervisorEpoch (cm_pr c'), rs_ModifiedMap = moved\<rparr>) = Inr w \<and>
        cm_conn c' = cm_conn c @ map (\<lambda>l. (l, w)) (GetAllLeaders (cm_r c)))"
proof -
  obtain p b where p: "CheckEpochSyncAndMark (ce_mark env) (cm_pr c) = (b, p)"
    and alt: "cm_pr c' = p \<and> cm_gob c' = cm_gob c \<or> b \<and> (\<exists>q. repartition env (c\<lparr>cm_pr := p\<rparr>) = (q, c'))"
    by (rule CLPARelay_send_cases [OF run])
  note ck = CheckEpochSyncAndMark_spec [OF p] and g = conjunct1 [OF ok [unfolded epoch_ok_def]]
  have sync: "\<forall>e\<in>set (pr_shardEpoch (cm_pr c)). pr_supervisorEpoch (cm_pr c) \<le> e" if "b" using ok ck that by (auto simp: epoch_ok_def)
  have okp: "epoch_ok (c\<lparr>cm_pr := p\<rparr>)" using g ck sync by (auto simp: epoch_ok_def)
  have "epoch_ok c' \<and> (pr_supervisorEpoch (cm_pr c') \<noteq> pr_supervisorEpoch (cm_pr c) \<longrightarrow>
    (\<forall>e\<in>set (pr_shardEpoch (cm_pr c)). pr_supervisorEpoch (cm_pr c) \<le> e) \<and>
      (\<exists>moved w. WrapMsg (cm_gob c) (CLPARepartitionStartMsg \<lparr>rs_Epoch = pr_supervisorEpoch (cm_pr c'), rs_ModifiedMap = moved\<rparr>) = Inr w \<and>
        cm_conn c' = cm_conn c @ map (\<lambda>l. (l, w)) (GetAllLeaders (cm_r c))))" using alt
  proof
    assume "cm_pr c' = p \<and> cm_gob c' = cm_gob c"
    then show ?thesis using okp ck by (simp add: epoch_ok_def)
  next
    assume "b \<and> (\<exists>q. repartition env (c\<lparr>cm_pr := p\<rparr>) = (q, c'))"
    then obtain q where b: "b" and rp: "repartition env (c\<lparr>cm_pr := p\<rparr>) = (q, c')" by blast
    have g': "cm_gob c' = cm_gob c" using repartition_fields(3) [OF rp] by simp
    from repartition_epoch [OF _ rp] g have "c' = c\<lparr>cm_pr := p\<rparr> \<or> \<not> pr_epochSynced (cm_pr c') \<and>
      (\<exists>moved w. WrapMsg (cm_gob c) (CLPARepartitionStartMsg \<lparr>rs_Epoch = pr_supervisorEpoch (cm_pr c'), rs_ModifiedMap = moved\<rparr>) = Inr w \<and>
        cm_conn c' = cm_conn c @ map (\<lambda>l. (l, w)) (GetAllLeaders (cm_r c)))" by simp
    then show ?thesis
    proof (elim disjE conjE)
      assume "c' = c\<lparr>cm_pr := p\<rparr>"
      then show ?thesis using okp ck by simp
    qed (use g g' sync [OF b] in \<open>auto simp: epoch_ok_def\<close>)
  qed
  then show "epoch_ok c'" "pr_supervisorEpoch (cm_pr c') \<noteq> pr_supervisorEpoch (cm_pr c) \<Longrightarrow> (\<forall>e\<in>set (pr_shardEpoch (cm_pr c)). pr_supervisorEpoch (cm_pr c) \<le> e) \<and>
      (\<exists>moved w. WrapMsg (cm_gob c) (CLPARepartitionStartMsg \<lparr>rs_Epoch = pr_supervisorEpoch (cm_pr c'), rs_ModifiedMap = moved\<rparr>) = Inr w \<and>
        cm_conn c' = cm_conn c @ map (\<lambda>l. (l, w)) (GetAllLeaders (cm_r c)))" by blast+
qed

lemma count_block_pr [simp]: "cm_pr (count_block n c) = cm_pr c"
  by (simp add: count_block_def)

lemma CLPARelay_handle_epoch:
  assumes ok: "epoch_ok c" and run: "CLPARelay_HandleMsg m c = (r, c')"
  shows "epoch_ok c'"
proof (cases "c' = c")
  case False
  obtain b where b: "g_dec_RelayBlockInfo (cm_gob c) (Payload m) = Inr b"
    using False run by (cases "g_dec_RelayBlockInfo (cm_gob c) (Payload m)") (auto simp: CLPARelay_HandleMsg_def split: if_splits)
  obtain p where see: "see_epoch (ri_ShardID b) (ri_Epoch b) (cm_pr c) = Inr p"
    using False run b by (cases "see_epoch (ri_ShardID b) (ri_Epoch b) (cm_pr c)") (auto simp: CLPARelay_HandleMsg_def split: if_splits)
  have c': "cm_pr c' = p \<or> (\<exists>cs. cm_pr c' = p\<lparr>pr_state := cs\<rparr>)" "cm_gob c' = cm_gob c"
    using False run b see by (auto simp: CLPARelay_HandleMsg_def Let_def split: if_splits sum.splits)
  have "pr_epochSynced p = pr_epochSynced (cm_pr c)" "pr_supervisorEpoch p = pr_supervisorEpoch (cm_pr c)"
    and i: "\<exists>i. pr_shardEpoch p = (pr_shardEpoch (cm_pr c))[i := max (pr_shardEpoch (cm_pr c) ! i) (ri_Epoch b)] \<and> i < length (pr_shardEpoch (cm_pr c))"
    using see by (auto simp: see_epoch_def idx_upd_def idx_ok_def split: sum.splits if_splits intro!: exI [of _ "nat (ri_ShardID b)"])
  moreover have "\<forall>e\<in>set (pr_shardEpoch p). n \<le> e" if all: "\<forall>e\<in>set (pr_shardEpoch (cm_pr c)). n \<le> e" for n
  proof -
    obtain j where j: "pr_shardEpoch p = (pr_shardEpoch (cm_pr c))[j := max (pr_shardEpoch (cm_pr c) ! j) (ri_Epoch b)]"
      "j < length (pr_shardEpoch (cm_pr c))" using i by blast
    have "n \<le> max (pr_shardEpoch (cm_pr c) ! j) (ri_Epoch b)" using all nth_mem [OF j(2)] by (auto simp: le_max_iff_disj)
    then show ?thesis using all set_update_subset_insert [of "pr_shardEpoch (cm_pr c)" j] unfolding j(1) by blast
  qed
  ultimately have "pr_epochSynced p \<longrightarrow> (\<forall>e\<in>set (pr_shardEpoch p). pr_supervisorEpoch p \<le> e)"
    using ok by (simp add: epoch_ok_def)
  then show ?thesis using ok c' by (auto simp: epoch_ok_def)
qed (use ok in simp)

lemma CLPARelay_calls_epoch:
  "calls CLPARelay_SendTxsAndConsensus (\<lambda>_. CLPARelay_HandleMsg) c c' \<Longrightarrow> epoch_ok c \<Longrightarrow> epoch_ok c'"
  by (induction rule: calls.induct) (auto intro: CLPARelay_send_epoch(1) CLPARelay_handle_epoch)

lemma NewCLPARelayCommittee_fields:
  "NewCLPARelayCommittee os_Open fl now out r g scfg = Inr c \<Longrightarrow> cm_gob c = g \<and> \<not> pr_epochSynced (cm_pr c)"
  by (auto simp: NewCLPARelayCommittee_def new_runner_def split: sum.splits)

text \<open>
  C37. The supervisor starts the next repartition only when every shard has reported that it reached the epoch of the last one,
  and then announces the new epoch to the leaders of all shards.
\<close>

theorem repartition_waits_for_shards:
  assumes "NewCLPARelayCommittee os_Open fl now out r g scfg = Inr c0" "\<forall>m. is_ok (g_enc g (CLPARepartitionStartMsg m))"
    and "calls CLPARelay_SendTxsAndConsensus (\<lambda>_. CLPARelay_HandleMsg) c0 c"
    and "CLPARelay_SendTxsAndConsensus env c = Some (res, c')" "pr_supervisorEpoch (cm_pr c') \<noteq> pr_supervisorEpoch (cm_pr c)"
  shows "(\<forall>e\<in>set (pr_shardEpoch (cm_pr c)). pr_supervisorEpoch (cm_pr c) \<le> e) \<and>
    (\<exists>moved w. WrapMsg (cm_gob c) (CLPARepartitionStartMsg \<lparr>rs_Epoch = pr_supervisorEpoch (cm_pr c'), rs_ModifiedMap = moved\<rparr>) = Inr w \<and>
       cm_conn c' = cm_conn c @ map (\<lambda>l. (l, w)) (GetAllLeaders (cm_r c)))"
proof (intro conjI)
  have "epoch_ok c0" using NewCLPARelayCommittee_fields [OF assms(1)] assms(2) by (simp add: epoch_ok_def)
  then have "epoch_ok c" by (rule CLPARelay_calls_epoch [OF assms(3)])
  from CLPARelay_send_epoch(2) [OF this assms(4,5)]
  show "\<forall>e\<in>set (pr_shardEpoch (cm_pr c)). pr_supervisorEpoch (cm_pr c) \<le> e"
    "\<exists>moved w. WrapMsg (cm_gob c) (CLPARepartitionStartMsg \<lparr>rs_Epoch = pr_supervisorEpoch (cm_pr c'), rs_ModifiedMap = moved\<rparr>) = Inr w \<and>
       cm_conn c' = cm_conn c @ map (\<lambda>l. (l, w)) (GetAllLeaders (cm_r c))" by blast+
qed

definition demo_cr :: "(msg, int) clpa_committee" where
  "demo_cr = get_ok (NewCLPARelayCommittee demo_open half_float 0 [] demo_topo demo_gob (demo_scfg ''clpa_relay'' ''csv_source'' 3))"

lemma demo_cr_eq: "NewCLPARelayCommittee demo_open half_float 0 [] demo_topo demo_gob (demo_scfg ''clpa_relay'' ''csv_source'' 3) = Inr demo_cr"
proof -
  have "is_ok (NewCLPARelayCommittee demo_open half_float 0 [] demo_topo demo_gob (demo_scfg ''clpa_relay'' ''csv_source'' 3))" by code_simp
  then show ?thesis by (auto simp: demo_cr_def is_ok_iff)
qed

theorem repartition_waits_for_shards_witness:
  "\<exists>c'. CLPARelay_SendTxsAndConsensus (demo_env\<lparr>ce_now := 20000000000\<rparr>) demo_cr = Some (Inr (), c') \<and>
     pr_supervisorEpoch (cm_pr c') = 1 \<and> (\<forall>e\<in>set (pr_shardEpoch (cm_pr demo_cr)). 0 \<le> e)"
proof -
  let ?env = "demo_env\<lparr>ce_now := 20000000000\<rparr>"
  have "(case CLPARelay_SendTxsAndConsensus ?env demo_cr of Some (res, c') \<Rightarrow> res = Inr () \<and> pr_supervisorEpoch (cm_pr c') = 1 \<and>
     pr_supervisorEpoch (cm_pr demo_cr) = 0 | None \<Rightarrow> False)" by code_simp
  then obtain c' where c': "CLPARelay_SendTxsAndConsensus ?env demo_cr = Some (Inr (), c')" "pr_supervisorEpoch (cm_pr c') = 1"
    "pr_supervisorEpoch (cm_pr demo_cr) = 0" by (auto split: option.splits)
  have "\<forall>m. is_ok (g_enc demo_gob (CLPARepartitionStartMsg m))" by (simp add: demo_gob_def)
  from repartition_waits_for_shards [OF demo_cr_eq this calls_refl c'(1)] c' show ?thesis by auto
qed

section \<open>The main loop\<close>











end
