(* ===== verification/Contract_File.thy ===== *)
theory Contract_File
  imports Broker_Manager Tx_Source Csv
begin

text \<open>
  \<open>cmd/generatecontracttxfile/usetxt/main.go\<close>: the tool that turns a scenario of contract deployments and calls into a
  data set for the CSV source. The functions of \<open>go-ethereum\<close> (addresses and ABI), the compiler \<open>solc\<close>, \<open>encoding/json\<close>,
  and the operating system are the fields of \<open>tool_api\<close>; a Go map is an association list in the order in
  which it is iterated. The text functions of \<open>strings\<close> are those on ASCII text.

  The lemmas show that a row that the tool writes is read back by \<open>line2Tx\<close> as the transaction the step describes, and
  is left out when contract transactions are excluded, and that the rows follow the steps one by one.
\<close>

section \<open>Text\<close>

definition upper :: "char \<Rightarrow> char" where
  "upper c = (let n = of_char c :: nat in if 97 \<le> n \<and> n \<le> 122 then char_of (n - 32) else c)"

definition ToLower :: "string \<Rightarrow> string" where "ToLower s = map lower s"
definition ToUpper :: "string \<Rightarrow> string" where "ToUpper s = map upper s"

definition HasPrefix :: "string \<Rightarrow> string \<Rightarrow> bool" where
  "HasPrefix s p \<longleftrightarrow> take (length p) s = p"

definition HasSuffix :: "string \<Rightarrow> string \<Rightarrow> bool" where
  "HasSuffix s p \<longleftrightarrow> HasPrefix (rev s) (rev p)"

definition TrimPrefix :: "string \<Rightarrow> string \<Rightarrow> string" where
  "TrimPrefix s p = (if HasPrefix s p then drop (length p) s else s)"

function Fields :: "string \<Rightarrow> string list" where
  "Fields s =
     (let t = dropWhile is_space s in
      if t = [] then [] else takeWhile (\<lambda>c. \<not> is_space c) t # Fields (dropWhile (\<lambda>c. \<not> is_space c) t))"
  by auto

termination
proof (relation "measure length", simp)
  fix s t :: string
  assume t: "t = dropWhile is_space s" "t \<noteq> []"
  then have "\<not> is_space (hd t)" by (simp add: hd_dropWhile)
  with t(2) have "length (dropWhile (\<lambda>c. \<not> is_space c) t) \<le> length (tl t)"
    by (cases t) (simp_all add: length_dropWhile_le)
  also have "\<dots> < length t" using t(2) by simp
  also have "length t \<le> length s" unfolding t(1) by (rule length_dropWhile_le)
  finally show "(dropWhile (\<lambda>c. \<not> is_space c) t, s) \<in> measure length" by simp
qed

declare Fields.simps [simp del]

text \<open>\<open>strings.Split\<close> at a character, and \<open>strings.SplitN\<close> into at most two parts.\<close>

fun Split :: "char \<Rightarrow> string \<Rightarrow> string list" where
  "Split sep [] = [[]]"
| "Split sep (c # cs) =
     (case Split sep cs of [] \<Rightarrow> [[c]] | p # ps \<Rightarrow> if c = sep then [] # p # ps else (c # p) # ps)"

definition SplitN2 :: "char \<Rightarrow> string \<Rightarrow> string list" where
  "SplitN2 sep s =
     (let a = takeWhile (\<lambda>c. c \<noteq> sep) s in
      if length a < length s then [a, drop (length a + 1) s] else [s])"

section \<open>Third-party code and the machine\<close>

datatype abi_ty = AddressTy | UintTy | IntTy | BoolTy | StringTy | BytesTy | OtherTy string
datatype abi_arg = ArgAddress address | ArgBig int | ArgBool bool | ArgString string | ArgBytes bytes

record 'a tool_api =
  common_IsHexAddress :: "string \<Rightarrow> bool"
  common_HexToAddress :: "string \<Rightarrow> address"
  address_Hex :: "address \<Rightarrow> string"
  crypto_CreateAddress :: "address \<Rightarrow> 64 word \<Rightarrow> address"
  abi_JSON :: "string \<Rightarrow> 'a result"
  abi_Zero :: 'a
  abi_Methods :: "'a \<Rightarrow> string \<Rightarrow> abi_ty list option"
  abi_Pack :: "'a \<Rightarrow> string \<Rightarrow> abi_arg list \<Rightarrow> bytes result"
  exec_solc :: "string list \<Rightarrow> string result"
  json_combined :: "string \<Rightarrow> (string, string \<times> string) gomap result"
  json_abi_field :: "string \<Rightarrow> string result"
  json_string :: "string \<Rightarrow> string result"
  os_ReadFile :: "string \<Rightarrow> string result"
  os_OpenLines :: "string \<Rightarrow> (string list \<times> unit result) result"
  os_Create :: "string \<Rightarrow> unit result"
  rand_hash :: "nat \<Rightarrow> bytes"

text \<open>
  What the tool relies on: the hexadecimal form of an address shows its 20 bytes after \<open>0x\<close>, in some mixture of cases, and
  packed call data starts with the four bytes of the selector.
\<close>

definition tool_ok :: "'a tool_api \<Rightarrow> bool" where
  "tool_ok api \<longleftrightarrow>
     (\<forall>a. valid_addr a \<longrightarrow> ToLower (address_Hex api a) = ''0x'' @ hex_EncodeToString a) \<and>
     (\<forall>s. valid_addr (common_HexToAddress api s)) \<and> (\<forall>a n. valid_addr (crypto_CreateAddress api a n)) \<and>
     (\<forall>x m args d. abi_Pack api x m args = Inr d \<longrightarrow> 4 \<le> length d)"

section \<open>The scenario\<close>

record 'a contract_def =
  cd_Alias :: string
  cd_SolPath :: string
  cd_ContractName :: string
  cd_ABIPath :: string
  cd_BytecodePath :: string
  cd_ABI :: 'a
  cd_Bytecode :: string

record gen_step =
  gs_Scenario :: string
  gs_Type :: string
  gs_ID :: string
  gs_Contract :: string
  gs_ContractRef :: string
  gs_From :: string
  gs_Function :: string
  gs_Params :: "string list"
  gs_GasLimit :: string
  gs_Value :: string

record 'a gen_program =
  gp_Accounts :: "(string, string) gomap"
  gp_Contracts :: "(string, 'a contract_def) gomap"
  gp_Steps :: "gen_step list"

definition parseKV :: "string list \<Rightarrow> (string, string) gomap" where
  "parseKV parts =
     fold (\<lambda>p m. case SplitN2 (CHR ''='') p of
                   [k, v] \<Rightarrow> AList.update (ToLower (TrimSpace k)) (TrimSpace v) m
                 | _ \<Rightarrow> m) parts []"

definition splitParams :: "string \<Rightarrow> string list" where
  "splitParams s = (let t = TrimSpace s in if t = [] then [] else map TrimSpace (Split (CHR ''|'') t))"

text \<open>One line of the scenario: the name of the current scenario and the program are the state.\<close>

definition parse_line :: "'a tool_api \<Rightarrow> string \<Rightarrow> string \<times> 'a gen_program \<Rightarrow> (string \<times> 'a gen_program) result" where
  "parse_line api text = (\<lambda>(curScenario, p).
     let line = TrimSpace text in
     if line = [] \<or> HasPrefix line ''#'' then Inr (curScenario, p)
     else (case Fields line of [] \<Rightarrow> Inl (Panic ''index out of range'')
     | f0 # args \<Rightarrow>
       (let cmd = ToUpper f0; kvs = parseKV args; kv = (\<lambda>k. map_get kvs k []) in
        if cmd = ''SCENARIO'' then
          (case args of [] \<Rightarrow> Inl (Errorf ''SCENARIO missing name'') | nm # _ \<Rightarrow> Inr (nm, p))
        else if cmd = ''ACCOUNT'' then
          (case args of
             [nm, a] \<Rightarrow>
               if \<not> common_IsHexAddress api a then Inl (Errorf ''invalid account address'')
               else Inr (curScenario, p\<lparr>gp_Accounts := AList.update nm (ToLower a) (gp_Accounts p)\<rparr>)
           | _ \<Rightarrow> Inl (Errorf ''ACCOUNT format error''))
        else if cmd = ''CONTRACT'' then
          (case args of
             alias # rest \<Rightarrow>
               if rest = [] then Inl (Errorf ''CONTRACT format error'')
               else (let m = parseKV rest; mv = (\<lambda>k. map_get m k []) in
                     Inr (curScenario, p\<lparr>gp_Contracts := AList.update alias
                       \<lparr>cd_Alias = alias, cd_SolPath = mv ''sol'', cd_ContractName = mv ''name'', cd_ABIPath = mv ''abi'',
                        cd_BytecodePath = mv ''bytecode'', cd_ABI = abi_Zero api, cd_Bytecode = []\<rparr> (gp_Contracts p)\<rparr>))
           | [] \<Rightarrow> Inl (Errorf ''CONTRACT format error''))
        else if cmd = ''DEPLOY'' \<or> cmd = ''CALL'' then
          Inr (curScenario, p\<lparr>gp_Steps := gp_Steps p @
            [\<lparr>gs_Scenario = curScenario, gs_Type = cmd, gs_ID = kv ''id'', gs_Contract = kv ''contract'',
              gs_ContractRef = kv ''contract_ref'', gs_From = kv ''from'', gs_Function = kv ''function'',
              gs_Params = (if kv ''params'' \<noteq> [] then splitParams (kv ''params'') else []),
              gs_GasLimit = kv ''gas'', gs_Value = kv ''value''\<rparr>]\<rparr>)
        else Inl (Errorf ''unknown command''))))"

fun parse_lines :: "'a tool_api \<Rightarrow> string list \<Rightarrow> string \<times> 'a gen_program \<Rightarrow> 'a gen_program result" where
  "parse_lines api [] st = Inr (snd st)"
| "parse_lines api (l # ls) st = (case parse_line api l st of Inl e \<Rightarrow> Inl e | Inr st' \<Rightarrow> parse_lines api ls st')"

definition parseScenarioTXT :: "'a tool_api \<Rightarrow> string \<Rightarrow> ('a gen_program \<times> string) result" where
  "parseScenarioTXT api path =
     (case os_OpenLines api path of Inl e \<Rightarrow> Inl e
      | Inr (ls, scan_err) \<Rightarrow>
        (case parse_lines api ls (''default'', \<lparr>gp_Accounts = [], gp_Contracts = [], gp_Steps = []\<rparr>) of Inl e \<Rightarrow> Inl e
         | Inr p \<Rightarrow> (case scan_err of Inl e \<Rightarrow> Inl e | Inr _ \<Rightarrow> Inr (p, path_Dir path))))"

section \<open>Contracts\<close>

definition abs_path :: "string \<Rightarrow> string \<Rightarrow> string" where
  "abs_path rootDir p = (if HasPrefix p ''/'' then p else path_Join rootDir p)"

definition normalizeHex :: "string \<Rightarrow> string result" where
  "normalizeHex s0 =
     (let s = TrimPrefix (TrimPrefix (TrimSpace s0) ''0x'') ''0X'' in
      if s = [] then Inl (Errorf ''empty hex'')
      else (let t = (if length s mod 2 = 1 then CHR ''0'' # s else s) in
            case hex_DecodeString t of Inl e \<Rightarrow> Inl e | Inr _ \<Rightarrow> Inr (''0x'' @ ToLower t)))"

definition normalizeABIText :: "'a tool_api \<Rightarrow> string \<Rightarrow> string result" where
  "normalizeABIText api raw =
     (let s = TrimSpace raw in
      if s = [] \<or> s = ''null'' then Inl (Errorf ''empty abi'')
      else if HasPrefix s [CHR 0x22] then
        (case json_string api raw of Inl e \<Rightarrow> Inl e
         | Inr unq \<Rightarrow> if TrimSpace unq = [] then Inl (Errorf ''empty abi string'') else Inr (TrimSpace unq))
      else if HasPrefix s ''['' \<or> HasPrefix s ''{'' then Inr s
      else Inl (Errorf ''unknown abi format''))"

definition first_with_suffix :: "string list \<Rightarrow> string \<Rightarrow> string option" where
  "first_with_suffix keys suffix = List.find (\<lambda>k. HasSuffix k suffix) keys"

definition selectContractKey :: "'a contract_def \<Rightarrow> (string, string \<times> string) gomap \<Rightarrow> string result" where
  "selectContractKey c contracts =
     (let keys = map fst (filter (\<lambda>(k, abi, bin). TrimSpace bin \<noteq> []) contracts) in
      if keys = [] then Inl (Errorf ''no deployable contract found (bin empty)'')
      else if TrimSpace (cd_ContractName c) \<noteq> [] then
        (case first_with_suffix keys ('':'' @ cd_ContractName c) of
           Some k \<Rightarrow> Inr k | None \<Rightarrow> Inl (Errorf ''contract not found in solc output''))
      else (case first_with_suffix keys ('':'' @ cd_Alias c) of
              Some k \<Rightarrow> Inr k
            | None \<Rightarrow> if length keys = 1 then Inr (hd keys) else Inl (Errorf ''multiple deployable contracts found'')))"

definition compileWithSolc ::
  "'a tool_api \<Rightarrow> string \<Rightarrow> string \<Rightarrow> string \<Rightarrow> bool \<Rightarrow> 'a contract_def \<Rightarrow> 'a contract_def result" where
  "compileWithSolc api rootDir basePath includePath optimize c =
     (if TrimSpace (cd_SolPath c) = [] then Inl (Errorf ''contract requires sol=... when -use-solc=true'')
      else
        (let args = (if optimize then [''--optimize''] else []) @
                    (if TrimSpace basePath \<noteq> [] then [''--base-path'', basePath] else []) @
                    (if TrimSpace includePath \<noteq> [] then [''--include-path'', includePath] else []) @
                    [''--combined-json'', ''abi,bin'', abs_path rootDir (cd_SolPath c)]
         in case exec_solc api args of Inl e \<Rightarrow> Inl (Wrapf ''solc failed'' e)
         | Inr out \<Rightarrow>
           (case json_combined api out of Inl e \<Rightarrow> Inl (Wrapf ''parse solc output failed'' e)
            | Inr contracts \<Rightarrow>
              (case selectContractKey c contracts of Inl e \<Rightarrow> Inl e
               | Inr targetKey \<Rightarrow>
                 (case map_get contracts targetKey ([], []) of (rawABI, bin) \<Rightarrow>
                   (case normalizeABIText api rawABI of Inl e \<Rightarrow> Inl (Wrapf ''normalize abi failed'' e)
                    | Inr abiText \<Rightarrow>
                        if TrimSpace bin = [] then Inl (Errorf ''empty bin for contract key'')
                        else (case abi_JSON api abiText of Inl e \<Rightarrow> Inl (Wrapf ''parse abi failed'' e)
                              | Inr parsed \<Rightarrow>
                                  Inr (c\<lparr>cd_ABI := parsed,
                                        cd_Bytecode := ''0x'' @ TrimPrefix (ToLower (TrimSpace bin)) ''0x''\<rparr>))))))))"

definition loadArtifacts :: "'a tool_api \<Rightarrow> string \<Rightarrow> 'a contract_def \<Rightarrow> 'a contract_def result" where
  "loadArtifacts api rootDir c =
     (if TrimSpace (cd_ABIPath c) = [] \<or> TrimSpace (cd_BytecodePath c) = []
      then Inl (Errorf ''contract requires abi=... and bytecode=... when -use-solc=false'')
      else (case os_ReadFile api (abs_path rootDir (cd_ABIPath c)) of Inl e \<Rightarrow> Inl (Wrapf ''read abi failed'' e)
      | Inr abiBytes \<Rightarrow>
        (case (if HasPrefix (TrimSpace abiBytes) ''{''
               then map_sum (Wrapf ''parse abi json failed'') TrimSpace (json_abi_field api abiBytes)
               else Inr (TrimSpace abiBytes)) of
           Inl e \<Rightarrow> Inl e
         | Inr abiText \<Rightarrow>
           (case abi_JSON api abiText of Inl e \<Rightarrow> Inl (Wrapf ''parse abi failed'' e)
            | Inr parsed \<Rightarrow>
              (case os_ReadFile api (abs_path rootDir (cd_BytecodePath c)) of Inl e \<Rightarrow> Inl (Wrapf ''read bytecode failed'' e)
               | Inr binBytes \<Rightarrow>
                 (case normalizeHex binBytes of Inl e \<Rightarrow> Inl (Wrapf ''invalid bytecode'' e)
                  | Inr bin \<Rightarrow> Inr (c\<lparr>cd_ABI := parsed, cd_Bytecode := bin\<rparr>)))))))"

section \<open>The generator\<close>

record 'a generator =
  g_prog :: "'a gen_program"
  g_rows :: "string list list"
  g_block :: int
  g_ts :: int
  g_bStep :: int
  g_tStep :: int
  g_nonceBySender :: "(string, 64 word) gomap"
  g_deployedByID :: "(string, address) gomap"
  g_lastByContract :: "(string, address) gomap"
  g_deployID2Contract :: "(string, string) gomap"
  g_contractAddrSet :: "string list"

definition csvHeader :: "string list" where
  "csvHeader =
     [''blockNumber'', ''timestamp'', ''transactionHash'', ''from'', ''to'', ''toCreate'', ''fromIsContract'', ''toIsContract'',
      ''value'', ''gasLimit'', ''gasPrice'', ''gasUsed'', ''callingFunction'', ''isError'', ''eip2718type'', ''baseFeePerGas'',
      ''maxFeePerGas'', ''maxPriorityFeePerGas'']"

definition bool01 :: "bool \<Rightarrow> string" where
  "bool01 b = (if b then ''1'' else ''0'')"

definition defaultStr :: "string \<Rightarrow> string \<Rightarrow> string" where
  "defaultStr s d = (if TrimSpace s = [] then d else s)"

definition resolveAddress :: "'a tool_api \<Rightarrow> 'a generator \<Rightarrow> string \<Rightarrow> address result" where
  "resolveAddress api g tok =
     (let token = TrimSpace tok in
      case map_of (gp_Accounts (g_prog g)) token of
        Some v \<Rightarrow> Inr (common_HexToAddress api v)
      | None \<Rightarrow>
        (case map_of (g_deployedByID g) token of
           Some a \<Rightarrow> Inr a
         | None \<Rightarrow>
             if common_IsHexAddress api token then Inr (common_HexToAddress api token)
             else Inl (Errorf ''cannot resolve address token'')))"

definition isContract :: "'a tool_api \<Rightarrow> 'a generator \<Rightarrow> address \<Rightarrow> bool" where
  "isContract api g addr \<longleftrightarrow> ToLower (address_Hex api addr) \<in> set (g_contractAddrSet g)"

text \<open>The random hash of a row is numbered by the row.\<close>

definition baseRow :: "'a tool_api \<Rightarrow> 'a generator \<Rightarrow> string list" where
  "baseRow api g =
     [Sprintf_d (g_block g), Sprintf_d (g_ts g), ''0x'' @ hex_EncodeToString (rand_hash api (length (g_rows g))),
      [], [], ''None'', ''0'', ''0'', ''0'', ''100000'', ''0'', ''0'', ''None'', ''None'', ''None'', ''None'', ''None'', ''None'']"

definition advance :: "'a generator \<Rightarrow> 'a generator" where
  "advance g = g\<lparr>g_block := wrap64 (g_block g + g_bStep g), g_ts := wrap64 (g_ts g + g_tStep g)\<rparr>"

definition execDeploy :: "'a tool_api \<Rightarrow> gen_step \<Rightarrow> 'a generator \<Rightarrow> 'a generator result" where
  "execDeploy api st g =
     (case map_of (gp_Contracts (g_prog g)) (gs_Contract st) of None \<Rightarrow> Inl (Errorf ''unknown contract'')
      | Some c \<Rightarrow>
        (case resolveAddress api g (gs_From st) of Inl e \<Rightarrow> Inl e
         | Inr from_addr \<Rightarrow>
             (let senderKey = ToLower (address_Hex api from_addr);
                  nonce = map_get (g_nonceBySender g) senderKey 0;
                  contractAddr = crypto_CreateAddress api from_addr nonce;
                  addrKey = ToLower (address_Hex api contractAddr);
                  row = (baseRow api g)[3 := address_Hex api from_addr, 4 := ''None'', 5 := addrKey,
                           6 := bool01 (isContract api g from_addr), 7 := ''0'', 8 := defaultStr (gs_Value st) ''0'',
                           9 := defaultStr (gs_GasLimit st) ''2000000'', 12 := cd_Bytecode c];
                  g1 = g\<lparr>g_nonceBySender := AList.update senderKey (nonce + 1) (g_nonceBySender g),
                         g_rows := g_rows g @ [row],
                         g_lastByContract := AList.update (gs_Contract st) contractAddr (g_lastByContract g),
                         g_contractAddrSet := List.insert addrKey (g_contractAddrSet g)\<rparr>;
                  g2 = (if gs_ID st \<noteq> [] then
                          g1\<lparr>g_deployedByID := AList.update (gs_ID st) contractAddr (g_deployedByID g),
                             g_deployID2Contract := AList.update (gs_ID st) (gs_Contract st) (g_deployID2Contract g)\<rparr>
                        else g1)
              in Inr (advance g2))))"

definition convertArg :: "'a tool_api \<Rightarrow> 'a generator \<Rightarrow> string \<Rightarrow> abi_ty \<Rightarrow> abi_arg result" where
  "convertArg api g raw t =
     (case t of
        AddressTy \<Rightarrow> map_sum id ArgAddress (resolveAddress api g raw)
      | UintTy \<Rightarrow> (case big_SetString (TrimSpace raw) of None \<Rightarrow> Inl (Errorf ''invalid int'') | Some v \<Rightarrow> Inr (ArgBig v))
      | IntTy \<Rightarrow> (case big_SetString (TrimSpace raw) of None \<Rightarrow> Inl (Errorf ''invalid int'') | Some v \<Rightarrow> Inr (ArgBig v))
      | BoolTy \<Rightarrow> (let s = ToLower (TrimSpace raw) in Inr (ArgBool (s = ''true'' \<or> s = ''1'')))
      | StringTy \<Rightarrow> Inr (ArgString raw)
      | BytesTy \<Rightarrow>
          (case normalizeHex raw of Inl e \<Rightarrow> Inl e
           | Inr h \<Rightarrow> map_sum id ArgBytes (hex_DecodeString (TrimPrefix h ''0x'')))
      | OtherTy _ \<Rightarrow> Inl (Errorf ''unsupported abi type''))"

text \<open>The receiver of a call and the name of its contract, from \<open>contract_ref\<close> and \<open>contract\<close>.\<close>

definition call_target :: "gen_step \<Rightarrow> 'a generator \<Rightarrow> (address \<times> string) result" where
  "call_target st g =
     (case (if gs_ContractRef st \<noteq> [] then
              (case map_of (g_deployedByID g) (gs_ContractRef st) of None \<Rightarrow> Inl (Errorf ''unknown contract_ref'')
               | Some a \<Rightarrow> Inr (a, map_get (g_deployID2Contract g) (gs_ContractRef st) []))
            else Inr (EmptyAccountAddr, [])) of
        Inl e \<Rightarrow> Inl e
      | Inr (to_addr, contractKey) \<Rightarrow>
          if gs_Contract st \<noteq> [] then
            (if to_addr = EmptyAccountAddr then
               (case map_of (g_lastByContract g) (gs_Contract st) of None \<Rightarrow> Inl (Errorf ''contract not deployed yet'')
                | Some a \<Rightarrow> Inr (a, gs_Contract st))
             else Inr (to_addr, gs_Contract st))
          else Inr (to_addr, contractKey))"

definition call_data :: "'a tool_api \<Rightarrow> gen_step \<Rightarrow> 'a generator \<Rightarrow> string \<Rightarrow> bytes result" where
  "call_data api st g contractKey =
     (if contractKey = [] then Inl (Errorf ''CALL requires contract or contract_ref'')
      else (case map_of (gp_Contracts (g_prog g)) contractKey of None \<Rightarrow> Inl (Errorf ''unknown contract'')
      | Some c \<Rightarrow>
        (case abi_Methods api (cd_ABI c) (gs_Function st) of None \<Rightarrow> Inl (Errorf ''method not found'')
         | Some inputs \<Rightarrow>
             if length inputs \<noteq> length (gs_Params st) then Inl (Errorf ''params mismatch'')
             else (case mapM_res (\<lambda>(raw, t). wrap_err ''param convert failed'' (convertArg api g raw t)) (zip (gs_Params st) inputs) of
                     Inl e \<Rightarrow> Inl e
                   | Inr args \<Rightarrow> wrap_err ''abi pack failed'' (abi_Pack api (cd_ABI c) (gs_Function st) args)))))"

definition execCall :: "'a tool_api \<Rightarrow> gen_step \<Rightarrow> 'a generator \<Rightarrow> 'a generator result" where
  "execCall api st g =
     (case resolveAddress api g (gs_From st) of Inl e \<Rightarrow> Inl e
      | Inr from_addr \<Rightarrow>
        (case call_target st g of Inl e \<Rightarrow> Inl e
         | Inr (to_addr, contractKey) \<Rightarrow>
           (case call_data api st g contractKey of Inl e \<Rightarrow> Inl e
            | Inr data \<Rightarrow>
                (let row = (baseRow api g)[3 := address_Hex api from_addr, 4 := ToLower (address_Hex api to_addr), 5 := ''None'',
                             6 := bool01 (isContract api g from_addr), 7 := ''1'', 8 := defaultStr (gs_Value st) ''0'',
                             9 := defaultStr (gs_GasLimit st) ''100000'', 12 := ''0x'' @ hex_EncodeToString data]
                 in Inr (advance (g\<lparr>g_rows := g_rows g @ [row]\<rparr>))))))"

definition exec_step :: "'a tool_api \<Rightarrow> gen_step \<Rightarrow> 'a generator \<Rightarrow> 'a generator result" where
  "exec_step api st g =
     (if gs_Type st = ''DEPLOY'' then wrap_err ''step DEPLOY failed'' (execDeploy api st g)
      else if gs_Type st = ''CALL'' then wrap_err ''step CALL failed'' (execCall api st g)
      else Inl (Errorf ''step unknown type''))"

fun gen_steps :: "'a tool_api \<Rightarrow> gen_step list \<Rightarrow> 'a generator \<Rightarrow> 'a generator result" where
  "gen_steps api [] g = Inr g"
| "gen_steps api (st # sts) g = (case exec_step api st g of Inl e \<Rightarrow> Inl e | Inr g' \<Rightarrow> gen_steps api sts g')"

definition gen_run :: "'a tool_api \<Rightarrow> 'a generator \<Rightarrow> 'a generator result" where
  "gen_run api g = gen_steps api (gp_Steps (g_prog g)) g"

section \<open>The command\<close>

text \<open>\<open>os.Create\<close> empties the file if it exists.\<close>

fun write_all :: "string \<Rightarrow> string list list \<Rightarrow> filesys \<Rightarrow> unit result \<times> filesys" where
  "write_all path [] fs = (Inr (), fs)"
| "write_all path (r # rs) fs = (case write_row path r fs of (Inl e, fs1) \<Rightarrow> (Inl e, fs1) | (Inr _, fs1) \<Rightarrow> write_all path rs fs1)"

definition writeCSV :: "'a tool_api \<Rightarrow> string \<Rightarrow> string list list \<Rightarrow> filesys \<Rightarrow> unit result \<times> filesys" where
  "writeCSV api path rows fs =
     (case os_Create api path of Inl e \<Rightarrow> (Inl e, fs)
      | Inr _ \<Rightarrow> write_all path rows (fs\<lparr>files := AList.update path [] (files fs)\<rparr>))"

record gen_flags =
  fl_in :: string
  fl_out :: string
  fl_use_solc :: bool
  fl_start_block :: int
  fl_start_ts :: int
  fl_block_step :: int
  fl_ts_step :: int
  fl_base_path :: string
  fl_include_path :: string
  fl_optimize :: bool

definition load_contract :: "'a tool_api \<Rightarrow> gen_flags \<Rightarrow> string \<Rightarrow> 'a contract_def \<Rightarrow> 'a contract_def result" where
  "load_contract api flg rootDir c =
     (if fl_use_solc flg
      then wrap_err ''compile failed'' (compileWithSolc api rootDir (fl_base_path flg) (fl_include_path flg) (fl_optimize flg) c)
      else wrap_err ''load artifacts failed'' (loadArtifacts api rootDir c))"

definition new_generator :: "gen_flags \<Rightarrow> 'a gen_program \<Rightarrow> 'a generator" where
  "new_generator flg prog =
     \<lparr>g_prog = prog, g_rows = [csvHeader], g_block = fl_start_block flg, g_ts = fl_start_ts flg, g_bStep = fl_block_step flg,
      g_tStep = fl_ts_step flg, g_nonceBySender = [], g_deployedByID = [], g_lastByContract = [], g_deployID2Contract = [],
      g_contractAddrSet = []\<rparr>"

text \<open>\<open>log.Fatal\<close> ends the process with the error.\<close>

definition usetxt_main :: "'a tool_api \<Rightarrow> gen_flags \<Rightarrow> filesys \<Rightarrow> unit result \<times> filesys" where
  "usetxt_main api flg fs =
     (if TrimSpace (fl_in flg) = [] then (Inl (Errorf ''usage: go run main.go -in scenario.txt -out dataset.csv''), fs)
      else (case parseScenarioTXT api (fl_in flg) of Inl e \<Rightarrow> (Inl e, fs)
      | Inr (prog, rootDir) \<Rightarrow>
        (case mapM_res (\<lambda>(k, c). map_sum id (Pair k) (load_contract api flg rootDir c)) (gp_Contracts prog) of Inl e \<Rightarrow> (Inl e, fs)
         | Inr cs \<Rightarrow>
           (case gen_run api (new_generator flg (prog\<lparr>gp_Contracts := cs\<rparr>)) of Inl e \<Rightarrow> (Inl e, fs)
            | Inr g \<Rightarrow> writeCSV api (fl_out flg) (g_rows g) fs))))"

section \<open>Reading in either case\<close>

lemma hex_val_lower: "hex_val (lower c) = hex_val c"
  by (simp add: lower_def hex_val_def Let_def of_char_of take_bit_nat_eq_self)

lemma hex_Decode_lower: "hex_DecodeString (ToLower s) = hex_DecodeString s"
  by (induction s rule: hex_DecodeString.induct) (simp_all add: ToLower_def hex_val_lower split: option.splits sum.splits)

lemma of_char_lower:
  "(of_char (lower c) :: nat) = (if 65 \<le> (of_char c :: nat) \<and> (of_char c :: nat) \<le> 90 then of_char c + 32 else of_char c)"
  by (simp add: lower_def Let_def of_char_of take_bit_nat_eq_self)

lemma char_eq_nat: "c = d \<longleftrightarrow> (of_char c :: nat) = of_char d"
  by simp

lemma lower_cases:
  "lower c = CHR ''0'' \<longleftrightarrow> c = CHR ''0''" "lower c = CHR ''x'' \<longleftrightarrow> c = CHR ''x'' \<or> c = CHR ''X''" "lower (lower c) = lower c"
proof -
  show "lower c = CHR ''0'' \<longleftrightarrow> c = CHR ''0''" unfolding char_eq_nat [of "lower c"] char_eq_nat [of c] of_char_lower by simp
  show "lower c = CHR ''x'' \<longleftrightarrow> c = CHR ''x'' \<or> c = CHR ''X''" unfolding char_eq_nat [of "lower c"] char_eq_nat [of c] of_char_lower by auto
  show "lower (lower c) = lower c" unfolding char_eq_nat [of "lower (lower c)"] of_char_lower by simp
qed

lemma ToLower_prefix: "ToLower s = ''0x'' @ t \<Longrightarrow> \<exists>u. (s = ''0x'' @ u \<or> s = ''0X'' @ u) \<and> ToLower u = t"
  by (auto simp: ToLower_def map_eq_Cons_conv lower_cases)

lemma Hex2Bytes_lower: "ToLower s = ''0x'' @ hex_EncodeToString b \<Longrightarrow> Hex2Bytes s = Inr b"
proof -
  assume "ToLower s = ''0x'' @ hex_EncodeToString b"
  from ToLower_prefix [OF this] obtain u where u: "s = ''0x'' @ u \<or> s = ''0X'' @ u" "ToLower u = hex_EncodeToString b" by blast
  have "hex_DecodeString u = Inr b" using hex_Decode_lower [of u] u(2) by (simp add: hex_Decode_Encode)
  then show ?thesis using u(1) by (auto simp: Hex2Bytes_def)
qed

lemma Hex2Addr_Hex:
  assumes "tool_ok api" "valid_addr a"
  shows "Hex2Addr (address_Hex api a) = Inr a" "Hex2Addr (ToLower (address_Hex api a)) = Inr a"
proof -
  have l: "ToLower (address_Hex api a) = ''0x'' @ hex_EncodeToString a" using assms by (simp add: tool_ok_def)
  have "Hex2Bytes (address_Hex api a) = Inr a" by (rule Hex2Bytes_lower [OF l])
  then show "Hex2Addr (address_Hex api a) = Inr a" using assms(2) by (simp add: Hex2Addr_def valid_addr_def)
  show "Hex2Addr (ToLower (address_Hex api a)) = Inr a" unfolding l by (rule Hex2Addr_roundtrip [OF assms(2)])
qed

section \<open>The rows\<close>

text \<open>The addresses that the generator has handed out have 20 bytes.\<close>

definition gen_ok :: "'a generator \<Rightarrow> bool" where
  "gen_ok g \<longleftrightarrow> (\<forall>k a. map_of (g_deployedByID g) k = Some a \<longrightarrow> valid_addr a) \<and>
     (\<forall>k a. map_of (g_lastByContract g) k = Some a \<longrightarrow> valid_addr a)"

lemma baseRow_length [simp]: "length (baseRow api g) = 18"
  by (simp add: baseRow_def)

lemma resolveAddress_valid: "tool_ok api \<Longrightarrow> gen_ok g \<Longrightarrow> resolveAddress api g tok = Inr a \<Longrightarrow> valid_addr a"
  by (auto simp: resolveAddress_def tool_ok_def gen_ok_def Let_def split: option.splits if_splits)

lemma call_target_valid: "gen_ok g \<Longrightarrow> call_target st g = Inr (a, k) \<Longrightarrow> valid_addr a"
  by (auto simp: call_target_def gen_ok_def valid_addr_def EmptyAccountAddr_def split: option.splits if_splits sum.splits)

lemma execDeploy_Inr:
  assumes "execDeploy api st g = Inr g'"
  obtains c a where "map_of (gp_Contracts (g_prog g)) (gs_Contract st) = Some c" "resolveAddress api g (gs_From st) = Inr a"
    "g_rows g' = g_rows g @ [(baseRow api g)[3 := address_Hex api a, 4 := ''None'',
       5 := ToLower (address_Hex api (crypto_CreateAddress api a (map_get (g_nonceBySender g) (ToLower (address_Hex api a)) 0))),
       6 := bool01 (isContract api g a), 7 := ''0'', 8 := defaultStr (gs_Value st) ''0'',
       9 := defaultStr (gs_GasLimit st) ''2000000'', 12 := cd_Bytecode c]]"
    "g_prog g' = g_prog g" "tool_ok api \<and> gen_ok g \<longrightarrow> gen_ok g'"
    "g_block g' = wrap64 (g_block g + g_bStep g)" "g_bStep g' = g_bStep g"
proof -
  obtain c a where ca: "map_of (gp_Contracts (g_prog g)) (gs_Contract st) = Some c" "resolveAddress api g (gs_From st) = Inr a"
    using assms by (auto simp: execDeploy_def split: option.splits sum.splits)
  note d = assms [unfolded execDeploy_def ca Let_def, simplified]
  have "gen_ok g'" if "tool_ok api" "gen_ok g"
    using that unfolding d [symmetric] by (auto simp: advance_def gen_ok_def tool_ok_def AList_update_lookup)
  then show ?thesis by (intro that [OF ca]) (simp_all add: advance_def flip: d)
qed

lemma execCall_Inr:
  assumes "execCall api st g = Inr g'"
  obtains a b k d where "resolveAddress api g (gs_From st) = Inr a" "call_target st g = Inr (b, k)" "call_data api st g k = Inr d"
    "g' = advance (g\<lparr>g_rows := g_rows g @ [(baseRow api g)[3 := address_Hex api a, 4 := ToLower (address_Hex api b), 5 := ''None'',
       6 := bool01 (isContract api g a), 7 := ''1'', 8 := defaultStr (gs_Value st) ''0'',
       9 := defaultStr (gs_GasLimit st) ''100000'', 12 := ''0x'' @ hex_EncodeToString d]]\<rparr>)"
  using assms by (auto simp: execCall_def Let_def split: sum.splits prod.splits)

lemma exec_step_state:
  assumes "exec_step api st g = Inr g'"
  shows "\<exists>row. g_rows g' = g_rows g @ [row] \<and> length row = length csvHeader \<and> row ! 0 = Sprintf_d (g_block g)" "g_prog g' = g_prog g"
    "tool_ok api \<Longrightarrow> gen_ok g \<Longrightarrow> gen_ok g'" "g_block g' = wrap64 (g_block g + g_bStep g)" "g_bStep g' = g_bStep g"
proof -
  consider "execDeploy api st g = Inr g'" | "execCall api st g = Inr g'" using assms by (auto simp: exec_step_def split: if_splits)
  then have "(\<exists>row. g_rows g' = g_rows g @ [row] \<and> length row = length csvHeader \<and> row ! 0 = Sprintf_d (g_block g)) \<and> g_prog g' = g_prog g \<and>
    (tool_ok api \<longrightarrow> gen_ok g \<longrightarrow> gen_ok g') \<and> g_block g' = wrap64 (g_block g + g_bStep g) \<and> g_bStep g' = g_bStep g"
  proof cases
    case 1
    then show ?thesis by (elim execDeploy_Inr) (simp add: csvHeader_def, simp add: baseRow_def)
  next
    case 2
    then show ?thesis by (elim execCall_Inr) (simp add: csvHeader_def advance_def gen_ok_def, simp add: baseRow_def)
  qed
  then show "\<exists>row. g_rows g' = g_rows g @ [row] \<and> length row = length csvHeader \<and> row ! 0 = Sprintf_d (g_block g)" "g_prog g' = g_prog g"
    "tool_ok api \<Longrightarrow> gen_ok g \<Longrightarrow> gen_ok g'" "g_block g' = wrap64 (g_block g + g_bStep g)" "g_bStep g' = g_bStep g" by blast+
qed

lemma gen_steps_state:
  "gen_steps api sts g = Inr g' \<Longrightarrow> tool_ok api \<Longrightarrow> gen_ok g \<Longrightarrow>
   gen_ok g' \<and> g_prog g' = g_prog g \<and> length (g_rows g') = length (g_rows g) + length sts"
proof (induction sts arbitrary: g)
  case (Cons st sts)
  then obtain g1 where g1: "exec_step api st g = Inr g1" "gen_steps api sts g1 = Inr g'" by (auto split: sum.splits)
  note es = exec_step_state [OF g1(1)]
  from Cons.IH [OF g1(2) Cons.prems(2) es(3) [OF Cons.prems(2,3)]] es(1,2) show ?case by auto
qed simp

lemma new_generator_ok: "gen_ok (new_generator flg prog)" "g_prog (new_generator flg prog) = prog" "length (g_rows (new_generator flg prog)) = 1"
  by (simp_all add: new_generator_def gen_ok_def)

section \<open>Reading the rows back\<close>

lemma EqualFold_ToLower: "EqualFold s t \<longleftrightarrow> ToLower s = ToLower t"
  by (simp add: EqualFold_def ToLower_def)

lemma hex_text_not_none: "ToLower s = ''0x'' @ t \<Longrightarrow> \<not> EqualFold s ''none'' \<and> s \<noteq> []"
  by (auto simp: EqualFold_ToLower) (simp_all add: ToLower_def lower_def Let_def)

lemma bytecode_is_data:
  assumes "Hex2Bytes s = Inr b" "b \<noteq> []"
  shows "s \<noteq> []" "\<not> EqualFold s ''none''" "\<not> EqualFold s ''0x''"
proof -
  show "s \<noteq> []" using assms by (auto simp: Hex2Bytes_def)
  show "\<not> EqualFold s ''none''"
  proof
    assume "EqualFold s ''none''"
    then have n: "ToLower s = ''none''" by (simp add: EqualFold_ToLower) (simp add: ToLower_def lower_def Let_def)
    then have "take 2 s \<noteq> ''0x'' \<and> take 2 s \<noteq> ''0X''" by (auto simp: ToLower_def map_eq_Cons_conv lower_def Let_def)
    moreover have "\<not> is_ok (hex_DecodeString s)" unfolding hex_Decode_lower [symmetric, of s] n by code_simp
    ultimately show False using assms(1) by (auto simp: Hex2Bytes_def is_ok_iff)
  qed
  show "\<not> EqualFold s ''0x''"
  proof
    assume "EqualFold s ''0x''"
    then have "ToLower s = ''0x'' @ hex_EncodeToString []" by (simp add: EqualFold_ToLower hex_EncodeToString_def) (simp add: ToLower_def lower_def Let_def)
    from Hex2Bytes_lower [OF this] show False using assms by simp
  qed
qed

text \<open>A row of the right width is read as the transaction its columns show.\<close>

lemma deploy_row_read:
  assumes "12 < length row" "row ! 4 = ''None''" "ToLower (row ! 5) = ''0x'' @ t" "Hex2Addr (row ! 3) = Inr a"
    and "big_SetString (row ! 8) = Some v" "Hex2Bytes (row ! 12) = Inr b" "b \<noteq> []"
  shows "line2Tx now row n False = Inr ((NewTransaction a EmptyAccountAddr v 0 (word_of_int n) now)\<lparr>Data := b\<rparr>)"
    "line2Tx now row n True = Inl (Errorf ''contract transactions have been filtered'')"
proof -
  have "EqualFold ''None'' ''none''" by code_simp
  then show "line2Tx now row n False = Inr ((NewTransaction a EmptyAccountAddr v 0 (word_of_int n) now)\<lparr>Data := b\<rparr>)"
    "line2Tx now row n True = Inl (Errorf ''contract transactions have been filtered'')"
    using assms hex_text_not_none [OF assms(3)] bytecode_is_data [OF assms(6,7)] by (simp_all add: line2Tx_def Let_def)
qed

lemma call_row_read:
  assumes "12 < length row" "ToLower (row ! 4) = ''0x'' @ t" "row ! 7 = ''1''" "Hex2Addr (row ! 3) = Inr a" "Hex2Addr (row ! 4) = Inr c"
    and "big_SetString (row ! 8) = Some v" "Hex2Bytes (row ! 12) = Inr b" "b \<noteq> []"
  shows "a \<noteq> c \<Longrightarrow> line2Tx now row n False = Inr ((NewTransaction a c v 0 (word_of_int n) now)\<lparr>Data := b\<rparr>)"
    "line2Tx now row n True = Inl (Errorf ''contract transactions have been filtered'')"
proof -
  assume "a \<noteq> c"
  then have "row ! 3 \<noteq> row ! 4" using assms(4,5) by auto
  then show "line2Tx now row n False = Inr ((NewTransaction a c v 0 (word_of_int n) now)\<lparr>Data := b\<rparr>)"
    using assms hex_text_not_none [OF assms(2)] bytecode_is_data [OF assms(7,8)] by (simp add: line2Tx_def Let_def)
qed (use assms in \<open>simp add: line2Tx_def Let_def\<close>)

lemma ToLower_hex: "ToLower (ToLower s) = ToLower s"
  by (simp add: ToLower_def lower_cases)

lemma deploy_read_back:
  assumes ok: "tool_ok api" "gen_ok g" and run: "execDeploy api st g = Inr g'"
    and v: "big_SetString (defaultStr (gs_Value st) ''0'') = Some v"
    and bc: "\<forall>k c. map_of (gp_Contracts (g_prog g)) k = Some c \<longrightarrow> (\<exists>b. b \<noteq> [] \<and> Hex2Bytes (cd_Bytecode c) = Inr b)"
  obtains row a c tx where "g_rows g' = g_rows g @ [row]" "resolveAddress api g (gs_From st) = Inr a"
    "line2Tx now row n True = Inl (Errorf ''contract transactions have been filtered'')"
    "map_of (gp_Contracts (g_prog g)) (gs_Contract st) = Some c" "line2Tx now row n False = Inr tx" "Sender tx = a" "Value tx = v"
    "Hex2Bytes (cd_Bytecode c) = Inr (Data tx)" "TxType tx = CreateContractTxType"
proof -
  obtain c a where c: "map_of (gp_Contracts (g_prog g)) (gs_Contract st) = Some c" "resolveAddress api g (gs_From st) = Inr a"
    and rows: "g_rows g' = g_rows g @ [(baseRow api g)[3 := address_Hex api a, 4 := ''None'',
       5 := ToLower (address_Hex api (crypto_CreateAddress api a (map_get (g_nonceBySender g) (ToLower (address_Hex api a)) 0))),
       6 := bool01 (isContract api g a), 7 := ''0'', 8 := defaultStr (gs_Value st) ''0'',
       9 := defaultStr (gs_GasLimit st) ''2000000'', 12 := cd_Bytecode c]]" (is "_ = _ @ [?row]")
    using run by (elim execDeploy_Inr)
  have a: "valid_addr a" by (rule resolveAddress_valid [OF ok c(2)])
  obtain b where b: "b \<noteq> []" "Hex2Bytes (cd_Bytecode c) = Inr b" using bc c(1) by blast
  obtain t where t: "ToLower (?row ! 5) = ''0x'' @ t" using ok(1) by (simp add: ToLower_hex tool_ok_def)
  have tx: "line2Tx now ?row n False = Inr ((NewTransaction a EmptyAccountAddr v 0 (word_of_int n) now)\<lparr>Data := b\<rparr>)"
    "line2Tx now ?row n True = Inl (Errorf ''contract transactions have been filtered'')"
    using deploy_row_read [of ?row, OF _ _ t, of a v b now n] Hex2Addr_Hex(1) [OF ok(1) a] v b by simp_all
  show ?thesis using b by (intro that [OF rows c(2) tx(2) c(1) tx(1)]) (simp_all add: NewTransaction_def TxType_def)
qed

lemma call_read_back:
  assumes ok: "tool_ok api" "gen_ok g" and run: "execCall api st g = Inr g'"
    and v: "big_SetString (defaultStr (gs_Value st) ''0'') = Some v"
  obtains row a to_addr key where "g_rows g' = g_rows g @ [row]" "resolveAddress api g (gs_From st) = Inr a"
    "line2Tx now row n True = Inl (Errorf ''contract transactions have been filtered'')" "call_target st g = Inr (to_addr, key)"
    "a \<noteq> to_addr \<longrightarrow> (\<exists>tx. line2Tx now row n False = Inr tx \<and> Sender tx = a \<and> Recipient tx = to_addr \<and> Value tx = v \<and>
       call_data api st g key = Inr (Data tx))"
proof -
  obtain a b k d where c: "resolveAddress api g (gs_From st) = Inr a" "call_target st g = Inr (b, k)" "call_data api st g k = Inr d"
    and rows: "g_rows g' = g_rows g @ [(baseRow api g)[3 := address_Hex api a, 4 := ToLower (address_Hex api b), 5 := ''None'',
       6 := bool01 (isContract api g a), 7 := ''1'', 8 := defaultStr (gs_Value st) ''0'',
       9 := defaultStr (gs_GasLimit st) ''100000'', 12 := ''0x'' @ hex_EncodeToString d]]" (is "_ = _ @ [?row]")
    using run by (elim execCall_Inr) (simp add: advance_def)
  have a: "valid_addr a" "valid_addr b" using resolveAddress_valid [OF ok c(1)] call_target_valid [OF ok(2) c(2)] by simp_all
  obtain x f args where "abi_Pack api x f args = Inr d" using c(3) by (auto simp: call_data_def split: if_splits option.splits sum.splits)
  then have d: "d \<noteq> []" using ok(1) by (force simp: tool_ok_def)
  have "?row ! 4 = ToLower (address_Hex api b)" "ToLower (address_Hex api b) = ''0x'' @ hex_EncodeToString b"
    using ok(1) a(2) by (simp_all add: tool_ok_def)
  then have t: "ToLower (?row ! 4) = ''0x'' @ hex_EncodeToString b" by (metis ToLower_hex)
  note rd = call_row_read [of ?row, OF _ t, of a b v d now n]
  have tx: "a \<noteq> b \<Longrightarrow> line2Tx now ?row n False = Inr ((NewTransaction a b v 0 (word_of_int n) now)\<lparr>Data := d\<rparr>)"
    "line2Tx now ?row n True = Inl (Errorf ''contract transactions have been filtered'')"
    using rd Hex2Addr_Hex [OF ok(1) a(1)] Hex2Addr_Hex [OF ok(1) a(2)] v d Hex2Bytes_Encode [of d] by simp_all
  show ?thesis using tx(1) c(3) by (intro that [OF rows c(1) tx(2) c(2)]) (auto simp: NewTransaction_def)
qed

text \<open>
  C29. A data set of contract transactions is read back as what the scenario says: each step adds one row, a deployment
  is read as a contract creation by its sender with the bytecode of its contract, a call as a transaction from its sender to
  the deployed contract with the packed call data, both with the value of the step; and a source that excludes
  contract transactions leaves the row out.
\<close>

theorem contract_rows_read_back:
  assumes ok: "tool_ok api" and run: "gen_steps api pre (new_generator flg prog) = Inr g" and st: "exec_step api st g = Inr g'"
    and v: "big_SetString (defaultStr (gs_Value st) ''0'') = Some v"
    and bc: "\<forall>k c. map_of (gp_Contracts prog) k = Some c \<longrightarrow> (\<exists>b. b \<noteq> [] \<and> Hex2Bytes (cd_Bytecode c) = Inr b)"
  shows "\<exists>row a. g_rows g' = g_rows g @ [row] \<and> length (g_rows g) = Suc (length pre) \<and> resolveAddress api g (gs_From st) = Inr a \<and>
    line2Tx now row n True = Inl (Errorf ''contract transactions have been filtered'') \<and>
    (if gs_Type st = ''DEPLOY'' then
       \<exists>c tx. map_of (gp_Contracts prog) (gs_Contract st) = Some c \<and> line2Tx now row n False = Inr tx \<and> Sender tx = a \<and> Value tx = v \<and>
         Hex2Bytes (cd_Bytecode c) = Inr (Data tx) \<and> TxType tx = CreateContractTxType
     else \<exists>to_addr key. call_target st g = Inr (to_addr, key) \<and>
         (a \<noteq> to_addr \<longrightarrow> (\<exists>tx. line2Tx now row n False = Inr tx \<and> Sender tx = a \<and> Recipient tx = to_addr \<and> Value tx = v \<and>
            call_data api st g key = Inr (Data tx))))"
proof -
  have g: "gen_ok g" "g_prog g = prog" "length (g_rows g) = Suc (length pre)"
    using gen_steps_state [OF run ok new_generator_ok(1)] by (simp_all add: new_generator_ok)
  show ?thesis
  proof (cases "gs_Type st = ''DEPLOY''")
    case True
    then have "execDeploy api st g = Inr g'" using st by (simp add: exec_step_def)
    then show ?thesis using True g by (elim deploy_read_back [OF ok g(1) _ v, of g' now n]) (use bc in \<open>auto simp: g(2)\<close>)
  next
    case False
    then have "execCall api st g = Inr g'" using st by (simp add: exec_step_def split: if_splits)
    then show ?thesis using False g(3) by (elim call_read_back [OF ok g(1) _ v, of g' now n]) auto
  qed
qed

text \<open>An instance: addresses in lower case, call data that is a selector and the addresses of the arguments.\<close>

lemma lower_hex_digit: "n < 16 \<Longrightarrow> lower (hex_digit n) = hex_digit n"
  by (auto simp: lower_def hex_digit_def Let_def of_char_of take_bit_nat_eq_self)

lemma ToLower_hex_text: "ToLower (hex_EncodeToString bs) = hex_EncodeToString bs"
proof (induction bs)
  case (Cons b bs)
  have "unat b < 256" using unsigned_less [of b, where ?'a = nat] by simp
  then show ?case using Cons by (simp add: hex_EncodeToString_def ToLower_def lower_hex_digit)
qed (simp add: hex_EncodeToString_def ToLower_def)

definition plain_tool :: "unit tool_api" where
  "plain_tool =
     \<lparr>common_IsHexAddress = (\<lambda>s. is_ok (Hex2Addr s)),
      common_HexToAddress = (\<lambda>s. case Hex2Addr s of Inl _ \<Rightarrow> EmptyAccountAddr | Inr a \<Rightarrow> a),
      address_Hex = (\<lambda>a. ''0x'' @ hex_EncodeToString a), crypto_CreateAddress = (\<lambda>a n. replicate 19 7 @ [ucast n]),
      abi_JSON = (\<lambda>_. Inr ()), abi_Zero = (), abi_Methods = (\<lambda>_ _. Some [AddressTy]),
      abi_Pack = (\<lambda>_ _ args. Inr ([1, 2, 3, 4] @ concat (map (\<lambda>x. case x of ArgAddress a \<Rightarrow> a | _ \<Rightarrow> []) args))),
      exec_solc = Inr \<circ> concat, json_combined = (\<lambda>_. Inr []), json_abi_field = Inr, json_string = Inr,
      os_ReadFile = Inr, os_OpenLines = (\<lambda>_. Inr ([], Inr ())), os_Create = (\<lambda>_. Inr ()),
      rand_hash = (\<lambda>n. [of_nat n])\<rparr>"

lemma plain_tool_ok: "tool_ok plain_tool"
proof -
  have "ToLower (''0x'' @ hex_EncodeToString a) = ''0x'' @ hex_EncodeToString a" for a
    using ToLower_hex_text [of a] by (simp add: ToLower_def lower_def Let_def)
  moreover have "valid_addr (case Hex2Addr s of Inl _ \<Rightarrow> EmptyAccountAddr | Inr a \<Rightarrow> a)" for s
    by (auto simp: EmptyAccountAddr_def valid_addr_def split: sum.splits dest!: Hex2Addr_valid)
  ultimately show ?thesis by (simp add: tool_ok_def plain_tool_def) (simp add: valid_addr_def)
qed

definition demo_gen_prog :: "unit gen_program" where
  "demo_gen_prog =
     \<lparr>gp_Accounts = [(''alice'', ''0x'' @ hex_EncodeToString (replicate 20 9))],
      gp_Contracts = [(''Token'', \<lparr>cd_Alias = ''Token'', cd_SolPath = [], cd_ContractName = [], cd_ABIPath = ''a'', cd_BytecodePath = ''b'',
         cd_ABI = (), cd_Bytecode = ''0x6001''\<rparr>)],
      gp_Steps = []\<rparr>"

definition demo_gen_step :: "string \<Rightarrow> gen_step" where
  "demo_gen_step typ =
     \<lparr>gs_Scenario = ''default'', gs_Type = typ, gs_ID = ''t1'', gs_Contract = ''Token'', gs_ContractRef = [], gs_From = ''alice'',
      gs_Function = ''transfer'', gs_Params = [''alice''], gs_GasLimit = [], gs_Value = ''5''\<rparr>"

definition demo_gen_flags :: gen_flags where
  "demo_gen_flags =
     \<lparr>fl_in = ''s.txt'', fl_out = ''d.csv'', fl_use_solc = False, fl_start_block = 10, fl_start_ts = 20, fl_block_step = 1, fl_ts_step = 3,
      fl_base_path = [], fl_include_path = [], fl_optimize = True\<rparr>"

theorem contract_rows_read_back_witness:
  "\<exists>g g' row tx. gen_steps plain_tool [demo_gen_step ''DEPLOY''] (new_generator demo_gen_flags demo_gen_prog) = Inr g \<and>
     exec_step plain_tool (demo_gen_step ''CALL'') g = Inr g' \<and> g_rows g' = g_rows g @ [row] \<and> length (g_rows g) = 2 \<and>
     line2Tx 3 row 1 False = Inr tx \<and> Sender tx = replicate 20 9 \<and> Recipient tx = replicate 19 7 @ [0] \<and> Value tx = 5"
proof -
  let ?st = "demo_gen_step ''CALL''" and ?pre = "[demo_gen_step ''DEPLOY'']"
  have "(case gen_steps plain_tool ?pre (new_generator demo_gen_flags demo_gen_prog) of Inl _ \<Rightarrow> False
     | Inr g \<Rightarrow> is_ok (exec_step plain_tool ?st g) \<and> resolveAddress plain_tool g ''alice'' = Inr (replicate 20 9) \<and>
         call_target ?st g = Inr (replicate 19 7 @ [0], ''Token''))" by code_simp
  then obtain g g' where g: "gen_steps plain_tool ?pre (new_generator demo_gen_flags demo_gen_prog) = Inr g" "exec_step plain_tool ?st g = Inr g'"
    "resolveAddress plain_tool g ''alice'' = Inr (replicate 20 9)" "call_target ?st g = Inr (replicate 19 7 @ [0], ''Token'')"
    by (auto simp: is_ok_iff split: sum.splits)
  have v: "big_SetString (defaultStr (gs_Value ?st) ''0'') = Some 5" by code_simp
  have "Hex2Bytes ''0x6001'' = Inr [0x60, 1]" by code_simp
  then have bc: "\<forall>k c. map_of (gp_Contracts demo_gen_prog) k = Some c \<longrightarrow> (\<exists>b. b \<noteq> [] \<and> Hex2Bytes (cd_Bytecode c) = Inr b)"
    by (auto simp: demo_gen_prog_def)
  have st: "gs_Type ?st \<noteq> ''DEPLOY''" "gs_From ?st = ''alice''" "(replicate 20 9 :: byte list) \<noteq> replicate 19 7 @ [0]"
    by (simp add: demo_gen_step_def, simp add: demo_gen_step_def, code_simp)
  from contract_rows_read_back [OF plain_tool_ok g(1,2) v bc, of 3 1] st g show ?thesis by auto
qed

end
