(* ===== verification/Contract_Exec.thy ===== *)
theory Contract_Exec
  imports Tx_Execute
begin

text \<open>
  \<open>pkg/contractexec/contractexec.go\<close> and \<open>pkg/chain/evmcontractexecutor.go\<close>: executing contract transactions on a state
  database without a chain. Transactions are grouped into blocks of \<open>txCommitBatch\<close>; at the end of a block the state is
  committed and a fresh executor is opened on the new root. The state store, the empty root and the clock are parameters.
  \<open>curVMExec\<close> is an option because a failed reopening leaves a nil pointer behind.

  The lemmas show that the block number and the position in the block count the executed transactions, and that a failed
  transaction does not count.
\<close>

section \<open>pkg/chain/evmcontractexecutor.go\<close>

definition CreateContractTxExecute ::
  "('s, 'd) vm_api \<Rightarrow> block_ctx \<Rightarrow> transaction \<Rightarrow> 's \<Rightarrow> (address \<times> 64 word) result \<times> 's" where
  "CreateContractTxExecute v ctx tx s = DeployContract v ctx tx s"

definition CallContractTxExecute ::
  "('s, 'd) vm_api \<Rightarrow> block_ctx \<Rightarrow> transaction \<Rightarrow> 's \<Rightarrow> (bytes \<times> 64 word) result \<times> 's" where
  "CallContractTxExecute v ctx tx s = CallContract v ctx tx s"

section \<open>pkg/contractexec/contractexec.go\<close>

definition cx_blockNumberBias :: "64 word" where "cx_blockNumberBias = 20000000"
definition cx_blockGasLimit :: "64 word" where "cx_blockGasLimit = 1000000"
definition txCommitBatch :: int where "txCommitBatch = 200"

record ('s, 'd) contract_exec =
  cx_stateStore :: 'd
  cx_root :: bytes
  cx_curVMExec :: "'s option"
  cx_curBlockCtx :: block_ctx
  cx_txCommitCnt :: int

definition cx_block_ctx :: "64 word \<Rightarrow> gotime \<Rightarrow> block_ctx" where
  "cx_block_ctx num now = \<lparr>Coinbase = EmptyAccountAddr, CtxBlockNumber = num, CtxTime = now, CtxGasLimit = cx_blockGasLimit\<rparr>"

definition NewContractExec :: "('s, 'd) vm_api \<Rightarrow> 'd result \<Rightarrow> bytes \<Rightarrow> gotime \<Rightarrow> ('s, 'd) contract_exec result" where
  "NewContractExec v newStore emptyRoot now =
     (case newStore of Inl e \<Rightarrow> Inl (Wrapf ''new state store failed'' e)
      | Inr store \<Rightarrow>
        (case NewExecutor v store emptyRoot of Inl e \<Rightarrow> Inl (Wrapf ''new an vm executor failed'' e)
         | Inr e \<Rightarrow> Inr \<lparr>cx_stateStore = store, cx_root = emptyRoot, cx_curVMExec = Some e,
                        cx_curBlockCtx = cx_block_ctx cx_blockNumberBias now, cx_txCommitCnt = 0\<rparr>))"

definition tryResetVMExecAndBlockCtx ::
  "('s, 'd) vm_api \<Rightarrow> gotime \<Rightarrow> 's \<Rightarrow> ('s, 'd) contract_exec \<Rightarrow> unit result \<times> ('s, 'd) contract_exec" where
  "tryResetVMExecAndBlockCtx v now s c =
     (let cnt = wrap64 (cx_txCommitCnt c + 1) in
      if cnt < txCommitBatch then (Inr (), c\<lparr>cx_txCommitCnt := cnt\<rparr>)
      else
        (let c1 = c\<lparr>cx_txCommitCnt := 0\<rparr>; num = CtxBlockNumber (cx_curBlockCtx c) in
         case Executor_Commit v num s (cx_stateStore c) of Inl e \<Rightarrow> (Inl (Wrapf ''vm executor commit failed'' e), c1)
         | Inr (root, store) \<Rightarrow>
           (case trieDB_Commit v root store of
              Inl e \<Rightarrow> (Inl (Wrapf ''trie db commit failed'' e), c1\<lparr>cx_stateStore := store\<rparr>)
            | Inr store' \<Rightarrow>
              (case NewExecutor v store' root of
                 Inl e \<Rightarrow> (Inl (Wrapf ''new vm executor failed'' e), c1\<lparr>cx_stateStore := store', cx_curVMExec := None\<rparr>)
               | Inr e \<Rightarrow> (Inr (), c1\<lparr>cx_stateStore := store', cx_curVMExec := Some e, cx_curBlockCtx := cx_block_ctx (num + 1) now\<rparr>)))))"

text \<open>The executor is looked at only after the value is converted, so a nil executor panics there.\<close>

definition on_executor ::
  "('s, 'd) vm_api \<Rightarrow> transaction \<Rightarrow> ('s \<Rightarrow> 'r result \<times> 's) \<Rightarrow> 's option \<Rightarrow> unit result \<times> 's option" where
  "on_executor v tx run vme =
     (case vme of
        Some s \<Rightarrow> (case run s of (r, s') \<Rightarrow> (map_sum id (\<lambda>_. ()) r, Some s'))
      | None \<Rightarrow>
        (case BigToUInt256 v (Value tx) of
           Inl e \<Rightarrow> (Inl (Wrapf ''failed to convert value to uint256'' e), None)
         | Inr _ \<Rightarrow> (Inl (Panic ''nil pointer dereference''), None)))"

definition ContractTxExec ::
  "('s, 'd) vm_api \<Rightarrow> gotime \<Rightarrow> transaction \<Rightarrow> ('s, 'd) contract_exec \<Rightarrow> unit result \<times> ('s, 'd) contract_exec" where
  "ContractTxExec v now tx c =
     (let ctx = cx_curBlockCtx c;
          (r, vme) = (if TxType tx = CreateContractTxType then
                        apfst (wrap_err ''deploy contract in vm executor failed'') (on_executor v tx (DeployContract v ctx tx) (cx_curVMExec c))
                      else if TxType tx = CallContractTxType then
                        apfst (wrap_err ''call contract in vm executor failed'') (on_executor v tx (CallContract v ctx tx) (cx_curVMExec c))
                      else (Inl (Errorf ''not a contract tx''), cx_curVMExec c));
          c1 = c\<lparr>cx_curVMExec := vme\<rparr>
      in case r of Inl e \<Rightarrow> (Inl e, c1)
         | Inr _ \<Rightarrow>
           (case vme of None \<Rightarrow> (Inl (Panic ''nil pointer dereference''), c1)
            | Some s \<Rightarrow> apfst (wrap_err ''reset vm executor and block context failed'') (tryResetVMExecAndBlockCtx v now s c1)))"

section \<open>Counting\<close>

text \<open>A list of transactions, each with the time at which it is executed.\<close>

fun contract_run ::
  "('s, 'd) vm_api \<Rightarrow> (gotime \<times> transaction) list \<Rightarrow> ('s, 'd) contract_exec \<Rightarrow> unit result list \<times> ('s, 'd) contract_exec" where
  "contract_run v [] c = ([], c)"
| "contract_run v ((now, tx) # txs) c =
     (case ContractTxExec v now tx c of (r, c1) \<Rightarrow> (case contract_run v txs c1 of (rs, c2) \<Rightarrow> (r # rs, c2)))"

abbreviation cx_executed :: "('s, 'd) contract_exec \<Rightarrow> int" where
  "cx_executed c \<equiv> 200 * (uint (CtxBlockNumber (cx_curBlockCtx c)) - 20000000) + cx_txCommitCnt c"

lemma ContractTxExec_counts:
  assumes run: "ContractTxExec v now tx c = (Inr (), c')" and cnt: "0 \<le> cx_txCommitCnt c" "cx_txCommitCnt c < 200"
    and few: "uint (CtxBlockNumber (cx_curBlockCtx c)) < 2 ^ 64 - 1"
  shows "0 \<le> cx_txCommitCnt c' \<and> cx_txCommitCnt c' < 200 \<and> cx_executed c' = cx_executed c + 1 \<and> cx_curVMExec c' \<noteq> None"
proof -
  obtain s c1 where s: "tryResetVMExecAndBlockCtx v now s c1 = (Inr (), c')" "cx_txCommitCnt c1 = cx_txCommitCnt c"
    "cx_curBlockCtx c1 = cx_curBlockCtx c" "cx_curVMExec c1 = Some s"
    using run by (auto simp: ContractTxExec_def Let_def apfst_def map_prod_def split: prod.splits sum.splits option.splits if_splits)
  have w: "wrap64 (cx_txCommitCnt c + 1) = cx_txCommitCnt c + 1" using cnt by (intro wrap64_id) (simp add: in_int64_def)
  have u: "uint (CtxBlockNumber (cx_curBlockCtx c) + 1) = uint (CtxBlockNumber (cx_curBlockCtx c)) + 1"
    using few by (simp add: uint_plus_if')
  show ?thesis
  proof (cases "cx_txCommitCnt c + 1 < 200")
    case True
    then show ?thesis using s w cnt by (auto simp: tryResetVMExecAndBlockCtx_def Let_def txCommitBatch_def)
  next
    case False
    then show ?thesis using s w u cnt
      by (auto simp: tryResetVMExecAndBlockCtx_def Let_def txCommitBatch_def cx_block_ctx_def split: sum.splits prod.splits)
  qed
qed

lemma contract_run_counts:
  "contract_run v txs c = (rs, c') \<Longrightarrow> list_all is_ok rs \<Longrightarrow> 0 \<le> cx_txCommitCnt c \<Longrightarrow> cx_txCommitCnt c < 200 \<Longrightarrow>
   uint (CtxBlockNumber (cx_curBlockCtx c)) + int (length txs) < 2 ^ 64 - 1 \<Longrightarrow>
   0 \<le> cx_txCommitCnt c' \<and> cx_txCommitCnt c' < 200 \<and> cx_executed c' = cx_executed c + int (length txs)"
proof (induction txs arbitrary: c rs)
  case (Cons p txs)
  obtain now tx where p: "p = (now, tx)" by (rule prod.exhaust)
  obtain r c1 rest where r: "ContractTxExec v now tx c = (r, c1)" "contract_run v txs c1 = (rest, c')" "rs = r # rest"
    using Cons.prems(1) p by (auto split: prod.splits)
  have "r = Inr ()" using Cons.prems(2) r(3) by (auto simp: is_ok_iff)
  from ContractTxExec_counts [OF r(1) [unfolded this] Cons.prems(3,4)] Cons.prems(5)
  have c1: "0 \<le> cx_txCommitCnt c1" "cx_txCommitCnt c1 < 200" "cx_executed c1 = cx_executed c + 1" by simp_all
  then have "uint (CtxBlockNumber (cx_curBlockCtx c1)) \<le> uint (CtxBlockNumber (cx_curBlockCtx c)) + 1" using Cons.prems(3,4) by simp
  with Cons.IH [OF r(2) _ c1(1,2)] Cons.prems(2,5) r(3) c1(3) show ?case by auto
qed simp

text \<open>The position in the block and the number of the block after \<open>n\<close> executed transactions.\<close>

lemma contract_batches:
  assumes "NewContractExec v newStore emptyRoot now = Inr c0" "contract_run v txs c0 = (rs, c)" "list_all is_ok rs"
    and "int (length txs) < 2 ^ 63"
  shows "cx_txCommitCnt c = int (length txs) mod 200" "uint (CtxBlockNumber (cx_curBlockCtx c)) = 20000000 + int (length txs) div 200"
proof -
  have c0: "cx_txCommitCnt c0 = 0" "CtxBlockNumber (cx_curBlockCtx c0) = 20000000"
    using assms(1) by (auto simp: NewContractExec_def cx_block_ctx_def cx_blockNumberBias_def split: sum.splits)
  define b where "b = uint (CtxBlockNumber (cx_curBlockCtx c)) - 20000000"
  have cnt: "0 \<le> cx_txCommitCnt c" "cx_txCommitCnt c < 200" and n: "int (length txs) = cx_txCommitCnt c + b * 200"
    using contract_run_counts [OF assms(2,3)] c0 assms(4) by (simp_all add: b_def)
  show "cx_txCommitCnt c = int (length txs) mod 200" unfolding n using cnt by simp
  have "int (length txs) div 200 = b" unfolding n using cnt by simp
  then show "uint (CtxBlockNumber (cx_curBlockCtx c)) = 20000000 + int (length txs) div 200" by (simp add: b_def)
qed

lemma failed_contract_tx:
  "TxType tx \<noteq> CreateContractTxType \<Longrightarrow> TxType tx \<noteq> CallContractTxType \<Longrightarrow> ContractTxExec v now tx c = (Inl (Errorf ''not a contract tx''), c)"
  by (simp add: ContractTxExec_def)

end
