(* ===== verification/Node_Chain.thy ===== *)
theory Node_Chain
  imports Pbft_Node
begin

text \<open>
  The chain of a running node. Whatever messages arrive and whatever fails, a node changes its chain only by
  \<open>AddBlock\<close> and by the epoch of a migration block. The locale \<open>chain_invariant\<close> states this once: a predicate that
  these two keep holds through every tick of the main loop. It is interpreted on the consistency of the head with the
  block store, on the identity of the chain and on the persistence of stored blocks.
\<close>

section \<open>Operations that leave the chain alone\<close>

lemma BuildProposal_bc: "BuildProposal md now sh = Some (r, sh') \<Longrightarrow> bc sh' = bc sh"
  by (cases md) (auto simp: BuildProposal_def dest: Dynamic_BuildProposal_bc Static_BuildProposal_bc)

lemma HandleMsgOutsideShard_bc [simp]:
  fixes sh :: "('a, 'b, 'c, 'd, 'e, 'f, 'g) shard"
  shows "bc (snd (HandleMsgOutsideShard md m sh)) = bc sh"
proof -
  have if_bc: "bc (snd (if b then x else y)) = bc sh" if "bc (snd x) = bc sh" "bc (snd y) = bc sh"
    for b and x y :: "unit result \<times> ('a, 'b, 'c, 'd, 'e, 'f, 'g) shard" using that by simp
  have r: "bc (snd (handleReceiveTxs p sh)) = bc sh" for p by (simp add: handleReceiveTxs_def split: sum.split)
  have "bc (snd (Static_HandleMsgOutsideShard m sh)) = bc sh"
    unfolding Static_HandleMsgOutsideShard_def by (intro if_bc r) simp
  moreover have "bc (snd (CLPA_HandleMsgOutsideShard m sh)) = bc sh"
    unfolding CLPA_HandleMsgOutsideShard_def
    by (intro if_bc r; cases "g_dec_RepartitionStart (gob sh) (Payload m)"; cases "g_dec_AccountMigration (gob sh) (Payload m)")
      (simp_all split: prod.split sum.split)
  ultimately show ?thesis by (cases md) (simp_all add: HandleMsgOutsideShard_def)
qed

lemma broadcast_bc [simp]:
  "bc (nd_shard (snd (broadcastMsgInnerShard m n))) = bc (nd_shard n)"
  "bc (nd_shard (snd (prepareBroadcast n))) = bc (nd_shard n)"
  "bc (nd_shard (snd (commitBroadcast n))) = bc (nd_shard n)"
  by (simp_all add: prepareBroadcast_def commitBroadcast_def broadcastMsgInnerShard_def split: sum.splits option.splits)

lemma catchUpStart_bc [simp]: "bc (nd_shard (snd (catchUpStart n))) = bc (nd_shard n)"
  by (simp add: catchUpStart_def split: sum.splits)

lemma propose_bc:
  assumes "propose now now' n = Some (r, n')"
  shows "bc (nd_shard n') = bc (nd_shard n)"
proof -
  have b: "bc (nd_shard n2) = bc (nd_shard n1)" if "broadcastMsgInnerShard m n1 = (x, n2)" for m n1 n2 x
    using broadcast_bc(1) [of m n1] that by simp
  from assms show ?thesis
    by (auto simp: propose_def Let_def split: if_splits option.splits sum.splits prod.splits dest!: BuildProposal_bc b)
qed

section \<open>Invariants of the chain of a node\<close>

locale chain_invariant =
  fixes P :: "('s, 'd, 'db, 't, 'n, 'td) chain \<Rightarrow> bool"
  assumes add_block: "P c \<Longrightarrow> P (snd (AddBlock c b))"
    and update_epoch: "P c \<Longrightarrow> P (UpdateEpoch e c)"
begin

lemma block_commit: "P (bc sh) \<Longrightarrow> P (bc (snd (BlockCommitAndDeliver t now ldr b sh)))"
  using same_coreD [OF commit_then_deliver_core [of "Relay_deliver now b" sh b ldr, OF Relay_deliver_core]]
    same_coreD [OF commit_then_deliver_core [of "Broker_deliver now b" sh b ldr, OF Broker_deliver_core]]
  by (cases t) (simp_all add: BlockCommitAndDeliver_def Relay_BlockCommitAndDeliver_def Broker_BlockCommitAndDeliver_def add_block)

lemma migration_commit: "P (bc sh) \<Longrightarrow> P (bc (snd (MigrationBlockCommit b sh)))"
  using add_block [of "bc sh" b] update_epoch
  by (auto simp: MigrationBlockCommit_def split: prod.splits sum.splits)

lemma proposal_commit: "P (bc sh) \<Longrightarrow> P (bc (snd (ProposalCommitAndDeliver md now ldr p sh)))"
  by (cases md) (auto simp: ProposalCommitAndDeliver_def Static_ProposalCommitAndDeliver_def Dynamic_ProposalCommitAndDeliver_def
    block_commit migration_commit)

lemma add_proposals: "P c \<Longrightarrow> add_proposals ps c = (r, c') \<Longrightarrow> P c'"
proof (induction ps arbitrary: c)
  case (Cons p ps)
  then show ?case using add_block [of c "Block p"] by (auto split: prod.splits sum.splits)
qed simp

lemma handle_message: "P (bc (nd_shard n)) \<Longrightarrow> P (bc (nd_shard (snd (handleMessage w n))))"
proof (cases rule: handleMessage_cases [of w n])
  case resp
  assume "P (bc (nd_shard n))"
  then show ?thesis
    unfolding resp(2) by (auto simp: handleCatchupResp_def split: prod.splits sum.splits dest: add_proposals)
qed (auto simp: handleStopConsensus_def handlePreprepare_def handlePrepare_def handleCommit_def handleCatchupReq_def
  split: sum.splits)

lemma handle_messages: "P (bc (nd_shard n)) \<Longrightarrow> P (bc (nd_shard (handleMessages ms n)))"
  unfolding handleMessages_def by (induction ms arbitrary: n) (simp_all add: handle_message)

lemma deliver: "P (bc (nd_shard n)) \<Longrightarrow> P (bc (nd_shard (snd (deliverProposal now n))))"
proof (cases "lastProposal (pbftMeta n)")
  case (Some p)
  assume "P (bc (nd_shard n))"
  then have "P (bc sh)" if "ProposalCommitAndDeliver (nd_mode n) now ldr p (nd_shard n) = (r, sh)" for ldr r sh
    using proposal_commit [of "nd_shard n" "nd_mode n" now ldr p] that by simp
  then show ?thesis using Some by (auto simp: deliverProposal_def Let_def split: prod.splits sum.splits)
qed (simp add: deliverProposal_def)

lemma stages: "P (bc (nd_shard n)) \<Longrightarrow> P (bc (nd_shard (snd (step2NextStage now n))))"
proof (induction now n rule: step2NextStage.induct)
  case (1 now n)
  obtain r m where s: "step2Next (pbftMeta n) = (r, m)" by (rule prod.exhaust)
  let ?n1 = "n\<lparr>pbftMeta := m\<rparr>"
  have n1: "P (bc (nd_shard ?n1))" using 1(3) by simp
  show ?case
  proof (cases r)
    case (Inl e)
    then show ?thesis using 1(3) s by (simp add: step2NextStage.simps [of now n])
  next
    case (Inr on)
    obtain old new where on: "on = (old, new)" by (cases on)
    obtain x2 n2 where p: "prepareBroadcast ?n1 = (x2, n2)" by (rule prod.exhaust)
    obtain x3 n3 where c: "commitBroadcast ?n1 = (x3, n3)" by (rule prod.exhaust)
    have n23: "P (bc (nd_shard n2))" "P (bc (nd_shard n3))"
      using n1 broadcast_bc(2,3) [of ?n1] by (simp_all add: p c)
    show ?thesis
      using deliver [OF n1, of now] n1 n23 1(1,2) [OF s [symmetric] Inr on [symmetric]] p c
      by (auto simp: step2NextStage.simps [of now n] s Inr on Let_def split: sum.splits)
  qed
qed

lemma tick: "P (bc (nd_shard n)) \<Longrightarrow> run_tick tk n = Some n' \<Longrightarrow> P (bc (nd_shard n'))"
proof -
  assume n: "P (bc (nd_shard n))" and run: "run_tick tk n = Some n'"
  let ?n3 = "snd (step2NextStage (tk_now tk) (upd_meta curateMsg (handleMessages (tk_msgs tk) n)))"
  have "P (bc (nd_shard ?n3))" by (rule stages) (simp add: handle_messages n)
  moreover have "n' = n \<or> bc (nd_shard n') = bc (nd_shard ?n3)"
    using run propose_bc [of "tk_now tk" "tk_now' tk" ?n3] by (auto simp: run_tick_def Let_def split: if_splits)
  ultimately show ?thesis using n by auto
qed

lemma run_keeps: "P (bc (nd_shard n)) \<Longrightarrow> run tks n = Some n' \<Longrightarrow> P (bc (nd_shard n'))"
  by (induction tks arbitrary: n) (auto split: if_splits option.splits dest: tick)

end

section \<open>The head and the block store\<close>

text \<open>
  The header a node works on is that of a stored block, which is the newest one of the store; the store itself is well-formed.
\<close>

definition head_ok :: "('s, 'd, 'db, 't, 'n, 'td) chain \<Rightarrow> bool" where
  "head_ok c \<longleftrightarrow> bolt_wf (BlockStorage c) \<and> codec_ok (codec c) \<and>
     (\<exists>b h. Header b = curHeader c \<and> blk_stored c b \<and> Header_Hash (codec c) (curHeader c) = Inr h \<and>
        GetNewestBlockHash (BlockStorage c) = Inr h)"

text \<open>The tries may change even when the update fails, the rest of the chain does not.\<close>

lemma updateTrieByBlock_keeps:
  "BlockStorage (snd (updateTrieByBlock c b)) = BlockStorage c" "curHeader (snd (updateTrieByBlock c b)) = curHeader c"
  "codec (snd (updateTrieByBlock c b)) = codec c" "shardID (snd (updateTrieByBlock c b)) = shardID c"
  "vmi (snd (updateTrieByBlock c b)) = vmi c" "chain_cfg (snd (updateTrieByBlock c b)) = chain_cfg c"
  by (simp_all add: updateTrieByBlock_def Let_def split: sum.split prod.split)

lemma AddBlock_cases:
  obtains (failed) e where "fst (AddBlock c b) = Inl e" "BlockStorage (snd (AddBlock c b)) = BlockStorage c"
      "curHeader (snd (AddBlock c b)) = curHeader c" "codec (snd (AddBlock c b)) = codec c"
  | (added) h x y where "Header_Hash (codec c) (Header b) = Inr h" "blk_Encode (codec c) b = Inr x"
      "Store_AddBlock h x y (BlockStorage c) = (Inr (), BlockStorage (snd (AddBlock c b)))"
      "curHeader (snd (AddBlock c b)) = Header b" "codec (snd (AddBlock c b)) = codec c" "fst (AddBlock c b) = Inr ()"
proof -
  obtain r c1 where u: "updateTrieByBlock c b = (r, c1)" by (rule prod.exhaust)
  note keeps = updateTrieByBlock_keeps [of c b, unfolded u snd_conv]
  show thesis
  proof (cases "Header_Hash (codec c) (Header b)")
    case (Inl e)
    then show thesis by (intro failed) (simp_all add: AddBlock_def)
  next
    case h: (Inr h)
    show thesis
    proof (cases "blk_Encode (codec c) b")
      case (Inl e)
      then show thesis by (intro failed) (simp_all add: AddBlock_def h)
    next
      case x: (Inr x)
      show thesis
      proof (cases "hdr_Encode (codec c) (Header b)")
        case (Inl e)
        then show thesis by (intro failed) (simp_all add: AddBlock_def h x)
      next
        case y: (Inr y)
        obtain q s1 where st: "Store_AddBlock h x y (BlockStorage c) = (q, s1)" by (rule prod.exhaust)
        show thesis
        proof (cases r)
          case (Inl e)
          then show thesis by (intro failed) (simp_all add: AddBlock_def h x y u keeps)
        next
          case r: (Inr rt)
          show thesis
          proof (cases q)
            case (Inl e)
            moreover have "s1 = BlockStorage c" using bolt_block.add_atomic st Inl by blast
            ultimately show thesis using st r by (intro failed) (simp_all add: AddBlock_def h x y u keeps)
          next
            case (Inr z)
            then show thesis using st r h x by (intro added [of h x y]) (simp_all add: AddBlock_def y u keeps)
          qed
        qed
      qed
    qed
  qed
qed

lemma AddBlock_head:
  assumes "head_ok c"
  shows "head_ok (snd (AddBlock c b))"
proof (cases rule: AddBlock_cases [of c b])
  case failed
  with assms show ?thesis by (simp add: head_ok_def blk_stored_def)
next
  case (added h x y)
  note st = Store_AddBlock_Inr [OF _ added(3)]
  have "bolt_wf (BlockStorage c)" "codec_ok (codec c)" using assms by (simp_all add: head_ok_def)
  then show ?thesis
    using added(1,2,4,5) st blk_roundtrip [of "codec c" b x] by (auto simp: head_ok_def blk_stored_def)
qed

lemma UpdateEpoch_head: "head_ok (UpdateEpoch e c) = head_ok c"
  by (simp add: UpdateEpoch_def head_ok_def blk_stored_def)

interpretation head_inv: chain_invariant head_ok
  by unfold_locales (simp_all add: AddBlock_head UpdateEpoch_head)

section \<open>Blocks that stay\<close>

text \<open>A block of the store \<open>s0\<close> is found again later: additions replace a block only by one with the same header hash.\<close>

definition blocks_kept :: "'db bolt_store \<Rightarrow> ('s, 'd, 'db, 't, 'n, 'td) chain \<Rightarrow> bool" where
  "blocks_kept s0 c \<longleftrightarrow> bolt_wf (BlockStorage c) \<and> (\<forall>h. is_ok (GetBlockByHash s0 h) \<longrightarrow> is_ok (GetBlockByHash (BlockStorage c) h))"

lemma AddBlock_kept: "blocks_kept s0 c \<Longrightarrow> blocks_kept s0 (snd (AddBlock c b))"
proof (cases rule: AddBlock_cases [of c b])
  case failed
  assume "blocks_kept s0 c"
  with failed show ?thesis by (simp add: blocks_kept_def)
next
  case (added h x y)
  assume "blocks_kept s0 c"
  with Store_AddBlock_Inr [OF _ added(3)] show ?thesis by (auto simp: blocks_kept_def)
qed

lemma UpdateEpoch_kept: "blocks_kept s0 (UpdateEpoch e c) = blocks_kept s0 c"
  by (simp add: UpdateEpoch_def blocks_kept_def)

interpretation kept_inv: chain_invariant "blocks_kept s0" for s0
  by unfold_locales (simp_all add: AddBlock_kept UpdateEpoch_kept)

section \<open>A new node\<close>

lemma NewChain_head:
  assumes "NewChain v cd (Inr (d, bs, lt)) cf l now = Inr c" "bolt_wf bs" "codec_ok cd"
  shows "head_ok c"
proof -
  let ?c = "\<lparr>vmi = v, codec = cd, StateStorage = d, BlockStorage = bs, LocStorage = lt,
      curHeader = \<lparr>ParentBlockHash = [], StateRoot = EmptyRootHash (eth lt), Number = 0, BlockType = 0,
        Miner = EmptyAccountAddr, BlockCreateTime = 0, LocationRoot = [], TxRoot = [],
        Bloom = zero_bloom, MigratedAccountsRoot = []\<rparr>,
      shardID = lp_ShardID l, epochID = 0, chain_cfg = cf\<rparr>"
  obtain g c1 where add: "AddBlock ?c g = (Inr (), c1)" and c: "c = c1\<lparr>curHeader := Header g\<rparr>"
    using assms(1) by (auto simp: NewChain_def initWithGenesisBlock_def Let_def split: sum.splits prod.splits)
  show ?thesis
  proof (cases rule: AddBlock_cases [of ?c g])
    case failed
    then show ?thesis using add by simp
  next
    case (added h x y)
    note st = Store_AddBlock_Inr [OF _ added(3)]
    show ?thesis using added(1,2,5) st assms(2,3) add blk_roundtrip [of cd g x] by (auto simp: head_ok_def blk_stored_def c)
  qed
qed

lemma NewPBFTNode_chain:
  assumes "NewPBFTNode v cd storage g out r cf l now fs = (Inr n, fs')"
  shows "NewChain v cd storage cf l now = Inr (bc (nd_shard n))"
    "0 < ShardNum (cn_Sys cf)" "lp_ShardID l < ShardNum (cn_Sys cf)" "lp_NodeID l < NodeNum (cn_Sys cf)"
    "lp (pbftMeta n) = l" "resolver (nd_shard n) = r"
  using assms by (auto simp: NewPBFTNode_def Let_def newConsensusMeta_def split: if_splits sum.splits prod.splits)

text \<open>The consistency of the head, from the opened stores through any run.\<close>

lemma run_head_ok:
  assumes "NewPBFTNode v cd (Inr (d, bs, lt)) g out r cf l now fs = (Inr n, fs')" "bolt_wf bs" "codec_ok cd" "run tks n = Some n'"
  shows "head_ok (bc (nd_shard n'))" "blocks_kept (BlockStorage (bc (nd_shard n))) (bc (nd_shard n'))"
proof -
  have h: "head_ok (bc (nd_shard n))" by (rule NewChain_head [OF NewPBFTNode_chain(1) [OF assms(1)] assms(2,3)])
  then show "head_ok (bc (nd_shard n'))" using assms(4) by (rule head_inv.run_keeps)
  have "blocks_kept (BlockStorage (bc (nd_shard n))) (bc (nd_shard n))" using h by (simp add: blocks_kept_def head_ok_def)
  then show "blocks_kept (BlockStorage (bc (nd_shard n))) (bc (nd_shard n'))" using assms(4) by (rule kept_inv.run_keeps)
qed

end
