(* ===== verification/Libp2p.thy ===== *)
theory Libp2p
  imports Config Csv
begin

text \<open>
  \<open>pkg/network/connlibp2p\<close>, the connection over libp2p, and the part of \<open>cmd/loadnetwork\<close> that chooses between it
  and the direct connection. The supervisor is the bootstrap node: consensus nodes register their shard, node and
  peer id with it, and it broadcasts the map of all of them, from which every node fills its topology.

  The libp2p library, protobuf, JSON and the key functions are the parameters \<open>p2p_api\<close> and \<open>boot_api\<close>; a stream
  carries the answers of its calls and collects what is written to it. \<open>retry.Do\<close> is a parameter too, specified by
  \<open>retry_ok\<close>. Logs, the periodic connection report, NAT options and mDNS discovery are left out.

  The lemmas show what a registration does, that the registered network passes the readiness check on every node
  that receives the broadcast map, which peer a message goes to, and that the bootstrap key survives a restart.
\<close>

section \<open>Streams and the libp2p parameters\<close>

type_synonym peer_id = bytes
type_synonym id_map = "(int, (int, string) gomap) gomap"

abbreviation (input) "consensusMsgProtocol \<equiv> ''/blockemulator/consensus/0.0.1''"
abbreviation (input) "registerProtocol \<equiv> ''/blockemulator/register/0.0.1''"
abbreviation (input) "broadcastIdMapProtocol \<equiv> ''/blockemulator/peer-id-map/0.0.1''"

text \<open>\<open>s_ReadAll\<close> is what \<open>io.ReadAll\<close> returns: the bytes read so far, and the error if reading failed.\<close>

record p2p_stream =
  RemotePeer :: peer_id
  s_ReadAll :: "bytes \<times> goerror option"
  s_Write :: "bytes \<Rightarrow> unit result"
  s_CloseWrite :: "unit result"
  s_written :: "bytes list"
  s_reset :: bool
  s_closed :: bool

record node_register_msg =
  rm_ShardID :: int
  rm_NodeID :: int
  rm_PeerID :: string

record 'p p2p_api =
  peer_Decode :: "string \<Rightarrow> peer_id result"
  peer_String :: "peer_id \<Rightarrow> string"
  NewStream :: "peer_id \<Rightarrow> string \<Rightarrow> p2p_stream result"
  proto_Marshal :: "'p wrapped_msg \<Rightarrow> bytes result"
  proto_Unmarshal :: "bytes \<Rightarrow> 'p wrapped_msg result"
  json_reg_Marshal :: "node_register_msg \<Rightarrow> bytes result"
  json_reg_Unmarshal :: "bytes \<Rightarrow> node_register_msg result"
  json_map_Marshal :: "id_map \<Rightarrow> bytes result"
  json_map_Unmarshal :: "bytes \<Rightarrow> id_map result"

definition s_Close :: "p2p_stream \<Rightarrow> p2p_stream" where
  "s_Close s = s\<lparr>s_closed := True\<rparr>"

definition writeStream :: "bytes \<Rightarrow> p2p_stream \<Rightarrow> unit result \<times> p2p_stream" where
  "writeStream msg s =
     (case s_Write s msg of Inl e \<Rightarrow> (Inl (Wrapf ''p2pDial write failed'' e), s)
      | Inr _ \<Rightarrow>
        (let s1 = s\<lparr>s_written := s_written s @ [msg]\<rparr> in
         case s_CloseWrite s1 of
           Inl e \<Rightarrow> (Inl (Wrapf ''failed to close write failed'' e), s1\<lparr>s_reset := True\<rparr>)
         | Inr _ \<Rightarrow> (Inr (), s1)))"

section \<open>The connection\<close>

datatype stream_handler = H_handleRegisterStream | H_handleMessage | H_handleIdMapMessage

record p2p_host =
  host_ID :: peer_id
  host_handlers :: "(string, stream_handler) gomap"

text \<open>
  \<open>l_streams\<close> collects the streams the node opened, with peer and protocol; \<open>l_updates\<close> counts the signals sent on
  \<open>idMapUpdateChan\<close>.
\<close>

record 'p libp2p_conn =
  l_nodeM :: topo_getter
  l_me :: node_info
  l_info2PeerID :: id_map
  l_msgBuffer :: "'p wrapped_msg list"
  l_hostInst :: "p2p_host option"
  l_kadInst :: bool
  l_cfg :: network_cfg
  l_streams :: "(peer_id \<times> string \<times> p2p_stream) list"
  l_updates :: nat

definition NewLibP2PConn :: "network_cfg \<Rightarrow> node_info \<Rightarrow> topo_getter \<Rightarrow> 'p libp2p_conn" where
  "NewLibP2PConn cfg self nodeM =
     \<lparr>l_nodeM = nodeM, l_me = self,
      l_info2PeerID = [(SupervisorShardID, [(0, BootstrapPeer (LibP2PCfg cfg))])], l_msgBuffer = [],
      l_hostInst = None, l_kadInst = False, l_cfg = cfg, l_streams = [], l_updates = 0\<rparr>"

definition Lib_DrainMsgBuffer :: "'p libp2p_conn \<Rightarrow> 'p wrapped_msg list \<times> 'p libp2p_conn" where
  "Lib_DrainMsgBuffer l = (l_msgBuffer l, l\<lparr>l_msgBuffer := []\<rparr>)"

definition lib_msgBufferSize :: nat where "lib_msgBufferSize = 2 ^ 20"

definition Lib_add2LocalBuffer :: "'p wrapped_msg \<Rightarrow> 'p libp2p_conn \<Rightarrow> 'p libp2p_conn result" where
  "Lib_add2LocalBuffer m l =
     (if length (l_msgBuffer l) < lib_msgBufferSize then Inr (l\<lparr>l_msgBuffer := l_msgBuffer l @ [m]\<rparr>)
      else Inl (Errorf ''message buffer is full or closed''))"

definition log_stream :: "peer_id \<Rightarrow> string \<Rightarrow> p2p_stream \<Rightarrow> 'p libp2p_conn \<Rightarrow> 'p libp2p_conn" where
  "log_stream pid protocol s l = l\<lparr>l_streams := l_streams l @ [(pid, protocol, s_Close s)]\<rparr>"

definition Lib_sendMessage ::
  "'p p2p_api \<Rightarrow> node_info \<Rightarrow> 'p wrapped_msg \<Rightarrow> 'p libp2p_conn \<Rightarrow> unit result \<times> 'p libp2p_conn" where
  "Lib_sendMessage api dest m l =
     (if l_me l = dest then
        (case Lib_add2LocalBuffer m l of Inl e \<Rightarrow> (Inl e, l) | Inr l' \<Rightarrow> (Inr (), l'))
      else
        (let peerID = map_get (map_get (l_info2PeerID l) (ShardID dest) []) (NodeID dest) [] in
         case peer_Decode api peerID of Inl e \<Rightarrow> (Inl (Wrapf ''invalid peer ID'' e), l)
         | Inr targetID \<Rightarrow>
           (case l_hostInst l of None \<Rightarrow> (Inl (Panic ''nil pointer dereference''), l)
            | Some _ \<Rightarrow>
              (case NewStream api targetID consensusMsgProtocol of
                 Inl e \<Rightarrow> (Inl (Wrapf ''p2pDial failed to open stream'' e), l)
               | Inr s \<Rightarrow>
                 (case proto_Marshal api m of
                    Inl e \<Rightarrow> (Inl (Wrapf ''failed to marshal message'' e), log_stream targetID consensusMsgProtocol s l)
                  | Inr data \<Rightarrow>
                    (case writeStream data s of (r, s1) \<Rightarrow>
                       (wrap_err ''write message to stream failed'' r, log_stream targetID consensusMsgProtocol s1 l)))))))"

definition Lib_SendMsg2Dest ::
  "'p p2p_api \<Rightarrow> node_info \<Rightarrow> 'p wrapped_msg \<Rightarrow> 'p libp2p_conn \<Rightarrow> 'p libp2p_conn" where
  "Lib_SendMsg2Dest api dest m l = snd (Lib_sendMessage api dest m l)"

text \<open>A failed read is logged and the bytes read so far are used all the same.\<close>

definition Lib_handleMessage ::
  "'p p2p_api \<Rightarrow> p2p_stream \<Rightarrow> 'p libp2p_conn \<Rightarrow> p2p_stream \<times> 'p libp2p_conn" where
  "Lib_handleMessage api s l =
     (case proto_Unmarshal api (fst (s_ReadAll s)) of Inl _ \<Rightarrow> (s_Close s, l)
      | Inr m \<Rightarrow>
        (case Lib_add2LocalBuffer m l of Inl _ \<Rightarrow> (s_Close s, l) | Inr l' \<Rightarrow> (s_Close s, l')))"

definition handleIdMapMessage ::
  "'p p2p_api \<Rightarrow> p2p_stream \<Rightarrow> 'p libp2p_conn \<Rightarrow> p2p_stream \<times> 'p libp2p_conn" where
  "handleIdMapMessage api s l =
     (case s_ReadAll s of
        (_, Some _) \<Rightarrow> (s_Close s, l)
      | (data, None) \<Rightarrow>
        (case json_map_Unmarshal api data of Inl _ \<Rightarrow> (s_Close s, l)
         | Inr npm \<Rightarrow> (s_Close s, l\<lparr>l_info2PeerID := npm, l_nodeM := SetTopoGetter npm (l_nodeM l)\<rparr>)))"

section \<open>The bootstrap node\<close>

definition registerOKACK :: bytes where "registerOKACK = string_bytes ''registered succeed''"
definition registerErrACK :: bytes where "registerErrACK = string_bytes ''registered failed''"

definition store_peer :: "node_register_msg \<Rightarrow> id_map \<Rightarrow> id_map" where
  "store_peer info m =
     AList.update (rm_ShardID info)
       (AList.update (rm_NodeID info) (rm_PeerID info) (map_get m (rm_ShardID info) [])) m"

definition handleRegisterStream ::
  "'p p2p_api \<Rightarrow> p2p_stream \<Rightarrow> 'p libp2p_conn \<Rightarrow> p2p_stream \<times> 'p libp2p_conn" where
  "handleRegisterStream api s l =
     (case s_ReadAll s of
        (_, Some _) \<Rightarrow> (s_Close s, l)
      | (data, None) \<Rightarrow>
        (case json_reg_Unmarshal api data of Inl _ \<Rightarrow> (s_Close s, l)
         | Inr info \<Rightarrow>
           if rm_PeerID info \<noteq> peer_String api (RemotePeer s)
           then (s_Close (snd (writeStream registerErrACK s)), l)
           else
             (let l1 = l\<lparr>l_info2PeerID := store_peer info (l_info2PeerID l)\<rparr>;
                  l2 = l1\<lparr>l_nodeM := SetTopoGetter (l_info2PeerID l1) (l_nodeM l1)\<rparr>
              in (s_Close (snd (writeStream registerOKACK s)), l2\<lparr>l_updates := l_updates l2 + 1\<rparr>))))"

text \<open>The goroutines of the broadcast, one per connection; \<open>conns\<close> are the remote peers of the open connections.\<close>

definition broadcast_one :: "'p p2p_api \<Rightarrow> bytes \<Rightarrow> peer_id \<Rightarrow> 'p libp2p_conn \<Rightarrow> 'p libp2p_conn" where
  "broadcast_one api data pid l =
     (case NewStream api pid broadcastIdMapProtocol of Inl _ \<Rightarrow> l
      | Inr s \<Rightarrow> log_stream pid broadcastIdMapProtocol (snd (writeStream data s)) l)"

definition broadcastNode2PeerIdMap ::
  "'p p2p_api \<Rightarrow> peer_id list \<Rightarrow> 'p libp2p_conn \<Rightarrow> unit result \<times> 'p libp2p_conn" where
  "broadcastNode2PeerIdMap api conns l =
     (case json_map_Marshal api (l_info2PeerID l) of
        Inl e \<Rightarrow> (Inl (Wrapf ''failed to marshal node-to-Peer Msg'' e), l)
      | Inr data \<Rightarrow>
        (case l_hostInst l of None \<Rightarrow> (Inl (Panic ''nil pointer dereference''), l)
         | Some h \<Rightarrow> (Inr (), fold (broadcast_one api data) (filter (\<lambda>pid. pid \<noteq> host_ID h) conns) l)))"

text \<open>The two cases of the select loop of \<open>throttledSender\<close>, with its local \<open>hasNewMsg\<close>.\<close>

datatype throttle_event = IdMapUpdated | TickerFired "peer_id list"

fun throttledSender ::
  "'p p2p_api \<Rightarrow> throttle_event list \<Rightarrow> bool \<Rightarrow> 'p libp2p_conn \<Rightarrow> bool \<times> 'p libp2p_conn" where
  "throttledSender api [] hasNewMsg l = (hasNewMsg, l)"
| "throttledSender api (IdMapUpdated # evs) hasNewMsg l = throttledSender api evs True l"
| "throttledSender api (TickerFired conns # evs) hasNewMsg l =
     (if hasNewMsg then throttledSender api evs False (snd (broadcastNode2PeerIdMap api conns l))
      else throttledSender api evs hasNewMsg l)"

section \<open>The bootstrap key\<close>

type_synonym priv_key = bytes
type_synonym file_tree = "(string, bytes) gomap"

text \<open>
  \<open>b_Read\<close>, \<open>b_MkdirAll\<close> and \<open>b_WriteFile\<close> are the answers of the operating system for a path. \<open>b_Connect i\<close> is the
  answer of the attempt \<open>i\<close> to connect to the bootstrap node.
\<close>

record boot_api =
  b_Read :: "string \<Rightarrow> unit result"
  b_MkdirAll :: "string \<Rightarrow> unit result"
  b_WriteFile :: "string \<Rightarrow> unit result"
  UnmarshalPrivateKey :: "bytes \<Rightarrow> priv_key result"
  MarshalPrivateKey :: "priv_key \<Rightarrow> bytes result"
  GenerateKeyPair :: "priv_key result"
  NewMultiaddr :: "string \<Rightarrow> bytes result"
  AddrInfoFromP2pAddr :: "bytes \<Rightarrow> peer_id result"
  libp2p_New :: "priv_key option \<Rightarrow> peer_id result"
  relay_New :: "unit result"
  dht_New :: "unit result"
  kad_Bootstrap :: "unit result"
  mdns_Start :: "unit result"
  b_Connect :: "nat \<Rightarrow> peer_id \<Rightarrow> unit result"

definition loadBootstrapKey :: "boot_api \<Rightarrow> string \<Rightarrow> file_tree \<Rightarrow> priv_key result" where
  "loadBootstrapKey ba fp fs =
     (case (case map_of fs fp of None \<Rightarrow> Inl (Errorf ''no such file or directory'')
            | Some data \<Rightarrow> (case b_Read ba fp of Inl e \<Rightarrow> Inl e | Inr _ \<Rightarrow> Inr data)) of
        Inl e \<Rightarrow> Inl (Wrapf ''failed to read file for getting the private key'' e)
      | Inr data \<Rightarrow> wrap_err ''failed to unmarshal private key'' (UnmarshalPrivateKey ba data))"

definition generateBootstrapKey :: "boot_api \<Rightarrow> string \<Rightarrow> file_tree \<Rightarrow> priv_key result \<times> file_tree" where
  "generateBootstrapKey ba fp fs =
     (case GenerateKeyPair ba of Inl e \<Rightarrow> (Inl (Wrapf ''failed to generate key'' e), fs)
      | Inr sk \<Rightarrow>
        (case MarshalPrivateKey ba sk of Inl e \<Rightarrow> (Inl (Wrapf ''failed to marshal key'' e), fs)
         | Inr data \<Rightarrow>
           (case b_MkdirAll ba (path_Dir fp) of Inl e \<Rightarrow> (Inl (Wrapf ''failed to create key dir'' e), fs)
            | Inr _ \<Rightarrow>
              (case b_WriteFile ba fp of Inl e \<Rightarrow> (Inl (Wrapf ''failed to save private key'' e), fs)
               | Inr _ \<Rightarrow> (Inr sk, AList.update fp data fs)))))"

definition loadOrInitBootstrapKey :: "boot_api \<Rightarrow> string \<Rightarrow> file_tree \<Rightarrow> priv_key result \<times> file_tree" where
  "loadOrInitBootstrapKey ba fp fs =
     (case loadBootstrapKey ba fp fs of Inr sk \<Rightarrow> (Inr sk, fs)
      | Inl _ \<Rightarrow>
        (case generateBootstrapKey ba fp fs of (r, fs') \<Rightarrow>
           (wrap_err ''failed to generate bootstrap key'' r, fs')))"

section \<open>Starting to listen\<close>

text \<open>
  A service that a failed start closes again. The deferred function runs the collected cleanups in reverse order; the
  starts below return the ones that were run.
\<close>

datatype cleanup = CloseRelay | CloseKad | CloseMdns

definition initBootstrap ::
  "boot_api \<Rightarrow> file_tree \<Rightarrow> 'p libp2p_conn \<Rightarrow> unit result \<times> cleanup list \<times> file_tree \<times> 'p libp2p_conn" where
  "initBootstrap ba fs l =
     (case loadOrInitBootstrapKey ba (BootstrapKeyFp (LibP2PCfg (l_cfg l))) fs of
        (Inl e, fs1) \<Rightarrow> (Inl (Wrapf ''failed to get private key for libp2p communication'' e), [], fs1, l)
      | (Inr sk, fs1) \<Rightarrow>
        (case libp2p_New ba (Some sk) of
           Inl e \<Rightarrow> (Inl (Wrapf ''failed to start libp2p'' e), [], fs1, l)
         | Inr hid \<Rightarrow>
           (case relay_New ba of
              Inl e \<Rightarrow> (Inl (Wrapf ''failed to start relay service'' e), [], fs1, l)
            | Inr _ \<Rightarrow>
              (case dht_New ba of
                 Inl e \<Rightarrow> (Inl (Wrapf ''failed to start DHT service'' e), [CloseRelay], fs1, l)
               | Inr _ \<Rightarrow>
                 (case kad_Bootstrap ba of
                    Inl e \<Rightarrow> (Inl (Wrapf ''failed to start bootstrap service'' e), [CloseKad, CloseRelay], fs1, l)
                  | Inr _ \<Rightarrow>
                    (Inr (), [], fs1,
                     l\<lparr>l_hostInst := Some \<lparr>host_ID = hid,
                          host_handlers = [(registerProtocol, H_handleRegisterStream),
                                           (consensusMsgProtocol, H_handleMessage)]\<rparr>,
                       l_kadInst := True\<rparr>))))))"

definition registerNodeInfo :: "'p p2p_api \<Rightarrow> node_info \<Rightarrow> 'p libp2p_conn \<Rightarrow> unit result \<times> 'p libp2p_conn" where
  "registerNodeInfo api self l =
     (case l_hostInst l of None \<Rightarrow> (Inl (Errorf ''libp2p not initialized''), l)
      | Some h \<Rightarrow>
        if \<not> l_kadInst l then (Inl (Errorf ''libp2p not initialized''), l)
        else
          (case peer_Decode api (BootstrapPeer (LibP2PCfg (l_cfg l))) of
             Inl e \<Rightarrow> (Inl (Wrapf ''invalid relay peer ID'' e), l)
           | Inr relayPeerID \<Rightarrow>
             (case json_reg_Marshal api \<lparr>rm_ShardID = ShardID self, rm_NodeID = NodeID self,
                                          rm_PeerID = peer_String api (host_ID h)\<rparr> of
                Inl e \<Rightarrow> (Inl (Wrapf ''marshal node info failed'' e), l)
              | Inr data \<Rightarrow>
                (case NewStream api relayPeerID registerProtocol of
                   Inl e \<Rightarrow> (Inl (Wrapf ''failed to open register stream'' e), l)
                 | Inr s \<Rightarrow>
                   (case writeStream data s of
                      (Inl e, s1) \<Rightarrow> (Inl (Wrapf ''failed to write stream'' e), log_stream relayPeerID registerProtocol s1 l)
                    | (Inr _, s1) \<Rightarrow>
                      (case snd (s_ReadAll s1) of
                         Some e \<Rightarrow> (Inl (Wrapf ''failed to read ACK'' e), log_stream relayPeerID registerProtocol s1 l)
                       | None \<Rightarrow> (Inr (), log_stream relayPeerID registerProtocol s1 l)))))))"

text \<open>
  \<open>retry.Do\<close> with a limit of attempts, on a function of the number of the attempt and the state. \<open>attempts\<close> is its
  documented behaviour: call until the first success, at most the given number of times.
\<close>

type_synonym 'c retry_fun = "nat \<Rightarrow> (nat \<Rightarrow> 'c \<Rightarrow> unit result \<times> 'c) \<Rightarrow> 'c \<Rightarrow> unit result \<times> 'c"

fun attempts :: "nat \<Rightarrow> nat \<Rightarrow> (nat \<Rightarrow> 'c \<Rightarrow> unit result \<times> 'c) \<Rightarrow> 'c \<Rightarrow> bool \<times> 'c" where
  "attempts 0 i f c = (False, c)"
| "attempts (Suc n) i f c = (case f i c of (Inr _, c') \<Rightarrow> (True, c') | (Inl _, c') \<Rightarrow> attempts n (i + 1) f c')"

definition retry_ok :: "'c retry_fun \<Rightarrow> bool" where
  "retry_ok retry \<longleftrightarrow>
     (\<forall>n f c. 0 < n \<longrightarrow> is_ok (fst (retry n f c)) = fst (attempts n 0 f c) \<and> snd (retry n f c) = snd (attempts n 0 f c))"

definition maxRetries :: nat where "maxRetries = 30"

definition hostAddr :: "network_cfg \<Rightarrow> string" where
  "hostAddr cfg =
     ''/ip4/'' @ BootstrapIP (LibP2PCfg cfg) @ ''/tcp/'' @ Sprintf_d (BootstrapPort (LibP2PCfg cfg)) @
     ''/p2p/'' @ BootstrapPeer (LibP2PCfg cfg)"

text \<open>\<open>api i\<close> gives the answers during the attempt \<open>i\<close> to register.\<close>

definition initLibP2PConnect ::
  "'p libp2p_conn retry_fun \<Rightarrow> boot_api \<Rightarrow> (nat \<Rightarrow> 'p p2p_api) \<Rightarrow> 'p libp2p_conn \<Rightarrow>
   unit result \<times> cleanup list \<times> 'p libp2p_conn" where
  "initLibP2PConnect retry ba api l =
     (case NewMultiaddr ba (hostAddr (l_cfg l)) of
        Inl e \<Rightarrow> (Inl (Wrapf ''invalid bootstrap addr'' e), [], l)
      | Inr bootAddr \<Rightarrow>
        (case AddrInfoFromP2pAddr ba bootAddr of
           Inl e \<Rightarrow> (Inl (Wrapf ''parse p2p addr failed'' e), [], l)
         | Inr bootInfo \<Rightarrow>
           (case libp2p_New ba None of
              Inl e \<Rightarrow> (Inl (Wrapf ''libp2p.New failed'' e), [], l)
            | Inr hid \<Rightarrow>
              (case retry maxRetries (\<lambda>i l. (b_Connect ba i bootInfo, l)) l of
                 (Inl e, l) \<Rightarrow> (Inl (Wrapf ''failed to connect to bootstrap relay after'' e), [], l)
               | (Inr _, l) \<Rightarrow>
                 (case dht_New ba of
                    Inl e \<Rightarrow> (Inl (Wrapf ''DHT new failed'' e), [], l)
                  | Inr _ \<Rightarrow>
                    (case kad_Bootstrap ba of
                       Inl e \<Rightarrow> (Inl (Wrapf ''DHT bootstrap failed'' e), [CloseKad], l)
                     | Inr _ \<Rightarrow>
                       (case mdns_Start ba of
                          Inl e \<Rightarrow> (Inl (Wrapf ''mDNS start failed (non-fatal)'' e), [CloseMdns, CloseKad], l)
                        | Inr _ \<Rightarrow>
                          (let l1 = l\<lparr>l_hostInst := Some \<lparr>host_ID = hid,
                                        host_handlers = [(consensusMsgProtocol, H_handleMessage),
                                                         (broadcastIdMapProtocol, H_handleIdMapMessage)]\<rparr>,
                                      l_kadInst := True\<rparr>
                           in (case retry maxRetries (\<lambda>i l. registerNodeInfo (api i) (l_me l) l) l1 of
                                 (Inl e, l2) \<Rightarrow> (Inl (Wrapf ''failed to register node info'' e), [CloseMdns, CloseKad], l2)
                               | (Inr _, l2) \<Rightarrow> (Inr (), [], l2))))))))))"

text \<open>\<open>ListenStart\<close> of a supervisor does not return after a successful start: it reports the connections forever.\<close>

datatype listening = Returned "unit result" | Reporting

definition Lib_ListenStart ::
  "'p libp2p_conn retry_fun \<Rightarrow> boot_api \<Rightarrow> (nat \<Rightarrow> 'p p2p_api) \<Rightarrow> file_tree \<Rightarrow> 'p libp2p_conn \<Rightarrow>
   listening \<times> file_tree \<times> 'p libp2p_conn" where
  "Lib_ListenStart retry ba api fs l =
     (if ShardID (l_me l) \<noteq> SupervisorShardID then
        (case initLibP2PConnect retry ba api l of (r, _, l') \<Rightarrow>
           (Returned (wrap_err ''failed to init LibP2P connect'' r), fs, l'))
      else
        (case initBootstrap ba fs l of
           (Inl e, _, fs', l') \<Rightarrow> (Returned (Inl (Wrapf ''failed to init bootstrap'' e)), fs', l')
         | (Inr _, _, fs', l') \<Rightarrow> (Reporting, fs', l')))"

section \<open>Preparing the network\<close>

datatype 'p p2p_network = DirectNetwork "'p rpc_conn" | LibP2PNetwork "'p libp2p_conn"

definition initLibP2PNetwork :: "network_cfg \<Rightarrow> local_params \<Rightarrow> 'p libp2p_conn \<times> topo_getter" where
  "initLibP2PNetwork cfg lp =
     (let m = NewTopoGetter [] []
      in (NewLibP2PConn cfg \<lparr>NodeID = lp_NodeID lp, ShardID = lp_ShardID lp\<rparr> m, m))"

definition nodeMapperCheckTimes :: nat where "nodeMapperCheckTimes = 30"

text \<open>
  \<open>mapper i\<close> is the topology, which the stream handlers fill in the meantime, at the check \<open>i\<close>. The state of the retries is
  the topology as it was seen last.
\<close>

definition waitForNodeMapperReady ::
  "topo_getter retry_fun \<Rightarrow> (nat \<Rightarrow> topo_getter) \<Rightarrow> system_cfg \<Rightarrow> topo_getter \<Rightarrow> unit result \<times> topo_getter" where
  "waitForNodeMapperReady retry mapper cfg nodeM =
     retry nodeMapperCheckTimes (\<lambda>i _. (checkNodeMapperReady (mapper i) cfg, mapper i)) nodeM"

text \<open>The connection is returned as it was made; \<open>ListenStart\<close> runs in a goroutine of its own.\<close>

definition PrepareNetworkByCfg ::
  "topo_getter retry_fun \<Rightarrow> (nat \<Rightarrow> topo_getter) \<Rightarrow> bytes result \<Rightarrow> (bytes \<Rightarrow> id_map result) \<Rightarrow> config \<Rightarrow> local_params \<Rightarrow>
   ('p p2p_network \<times> topo_getter) result" where
  "PrepareNetworkByCfg retry mapper file json_Unmarshal cfg lp =
     (if CommunicationMode (NetworkCfg cfg) = DirectConnMode then
        (case loadDirectNetwork file json_Unmarshal (GlobalSys cfg) lp of
           Inl e \<Rightarrow> Inl (Wrapf ''load direct network'' e)
         | Inr (p2p, nodeM) \<Rightarrow> Inr (DirectNetwork p2p, nodeM))
      else if CommunicationMode (NetworkCfg cfg) = LibP2PConnMode then
        (case initLibP2PNetwork (NetworkCfg cfg) lp of (p2p, nodeM) \<Rightarrow>
           (case waitForNodeMapperReady retry mapper (GlobalSys cfg) nodeM of
              (Inl e, _) \<Rightarrow> Inl (Wrapf ''wait for node mapper ready failed'' e)
            | (Inr _, nodeM') \<Rightarrow> Inr (LibP2PNetwork p2p, nodeM')))
      else Inl (Errorf ''unknown communication Mode''))"

section \<open>Lemmas: messages\<close>

interpretation lib: p2p_conn Lib_add2LocalBuffer Lib_DrainMsgBuffer l_msgBuffer
  by unfold_locales (auto simp: Lib_add2LocalBuffer_def Lib_DrainMsgBuffer_def split: if_splits)

lemma Lib_handleMessage_bound:
  "length (l_msgBuffer l) \<le> lib_msgBufferSize \<Longrightarrow>
   length (l_msgBuffer (snd (Lib_handleMessage api s l))) \<le> lib_msgBufferSize"
  by (auto simp: Lib_handleMessage_def Lib_add2LocalBuffer_def split: sum.splits)

text \<open>A send to oneself goes to the own buffer; a successful send to another node opens one stream to the peer of the map.\<close>

lemma Lib_sendMessage_ok:
  assumes "Lib_sendMessage api dest m l = (Inr (), l')"
  shows "if dest = l_me l then l' = l\<lparr>l_msgBuffer := l_msgBuffer l @ [m]\<rparr>
         else \<exists>pid data s. peer_Decode api (map_get (map_get (l_info2PeerID l) (ShardID dest) []) (NodeID dest) []) = Inr pid \<and>
           proto_Marshal api m = Inr data \<and> data \<in> set (s_written s) \<and>
           l' = l\<lparr>l_streams := l_streams l @ [(pid, consensusMsgProtocol, s)]\<rparr>"
  using assms
  by (auto simp: Lib_sendMessage_def Lib_add2LocalBuffer_def Let_def writeStream_def log_stream_def s_Close_def
      split: if_splits sum.splits option.splits prod.splits) (rule exI, rule conjI [rotated], rule refl, simp)

section \<open>Lemmas: registration\<close>

text \<open>The peer registered for a node of a shard.\<close>

definition peer_of :: "id_map \<Rightarrow> int \<Rightarrow> int \<Rightarrow> string option" where
  "peer_of m shard node = map_of (map_get m shard []) node"

definition id_map_wf :: "id_map \<Rightarrow> bool" where
  "id_map_wf m \<longleftrightarrow> distinct (map fst m) \<and> (\<forall>s im. map_of m s = Some im \<longrightarrow> distinct (map fst im))"

lemma peer_of_store_peer:
  "peer_of (store_peer c m) s n =
    (if s = rm_ShardID c \<and> n = rm_NodeID c then Some (rm_PeerID c) else peer_of m s n)"
  by (simp add: peer_of_def store_peer_def go_simps)

lemma id_map_wf_store_peer:
  assumes "id_map_wf m"
  shows "id_map_wf (store_peer c m)"
proof -
  have "distinct (map fst (map_get m (rm_ShardID c) []))"
    using assms by (auto simp: id_map_wf_def map_get_def split: option.splits)
  with assms show ?thesis
    by (auto simp: id_map_wf_def store_peer_def AList_update_lookup distinct_update split: if_splits)
qed

text \<open>A register stream is accepted when it can be read and claims the peer id it comes from.\<close>

definition claim :: "'p p2p_api \<Rightarrow> p2p_stream \<Rightarrow> node_register_msg option" where
  "claim api s =
     (case s_ReadAll s of (_, Some _) \<Rightarrow> None
      | (data, None) \<Rightarrow>
        (case json_reg_Unmarshal api data of Inl _ \<Rightarrow> None
         | Inr info \<Rightarrow> if rm_PeerID info = peer_String api (RemotePeer s) then Some info else None))"

lemma handleRegisterStream_claim:
  "snd (handleRegisterStream api s l) =
    (case claim api s of None \<Rightarrow> l
     | Some c \<Rightarrow> l\<lparr>l_info2PeerID := store_peer c (l_info2PeerID l),
                   l_nodeM := SetTopoGetter (store_peer c (l_info2PeerID l)) (l_nodeM l), l_updates := l_updates l + 1\<rparr>)"
  by (auto simp: handleRegisterStream_def claim_def Let_def split: prod.splits option.splits sum.splits)

definition register_all :: "'p p2p_api \<Rightarrow> p2p_stream list \<Rightarrow> 'p libp2p_conn \<Rightarrow> 'p libp2p_conn" where
  "register_all api = fold (\<lambda>s l. snd (handleRegisterStream api s l))"

definition claims :: "'p p2p_api \<Rightarrow> p2p_stream list \<Rightarrow> node_register_msg list" where
  "claims api = List.map_filter (claim api)"

lemma register_all_state:
  "l_info2PeerID (register_all api ss l) = fold store_peer (claims api ss) (l_info2PeerID l)"
  "l_hostInst (register_all api ss l) = l_hostInst l"
  "l_streams (register_all api ss l) = l_streams l"
  by (induction ss arbitrary: l)
    (simp_all add: register_all_def claims_def List.map_filter_simps handleRegisterStream_claim split: option.splits)

lemma claims_set: "c \<in> set (claims api ss) \<longleftrightarrow> (\<exists>s \<in> set ss. claim api s = Some c)"
  by (force simp: claims_def List.map_filter_def)

lemma claim_peer: "claim api s = Some c \<Longrightarrow> rm_PeerID c = peer_String api (RemotePeer s)"
  by (auto simp: claim_def split: prod.splits option.splits sum.splits if_splits)

lemma fold_store_peer_wf: "id_map_wf m \<Longrightarrow> id_map_wf (fold store_peer cs m)"
  by (induction cs arbitrary: m) (simp_all add: id_map_wf_store_peer)

text \<open>The last accepted claim of a node holds.\<close>

lemma fold_store_peer_of:
  "peer_of (fold store_peer cs m) s n =
    (case filter (\<lambda>c. rm_ShardID c = s \<and> rm_NodeID c = n) (rev cs) of [] \<Rightarrow> peer_of m s n | c # _ \<Rightarrow> Some (rm_PeerID c))"
  by (induction cs rule: rev_induct) (auto simp: peer_of_store_peer)

lemma NewLibP2PConn_map:
  "id_map_wf (l_info2PeerID (NewLibP2PConn cfg self t))"
  "s \<noteq> SupervisorShardID \<Longrightarrow> peer_of (l_info2PeerID (NewLibP2PConn cfg self t)) s n = None"
  by (auto simp: NewLibP2PConn_def id_map_wf_def peer_of_def map_get_def)

section \<open>Lemmas: readiness\<close>

lemma ready_loop_total:
  assumes "\<And>s. s \<in> set ss \<Longrightarrow> is_ok (GetLeader t s) \<and> (\<exists>ns. GetNodesInShard t s = Inr ns \<and> int (length ns) = n)"
  shows "ready_loop t n ss = Inr ()"
  using assms by (induction ss) (fastforce simp: is_ok_iff)+

text \<open>The map of leaders has one entry per shard, under the shard of the leader.\<close>

definition keyed :: "(int, node_info) gomap \<Rightarrow> bool" where
  "keyed m \<longleftrightarrow> distinct (map fst m) \<and> (\<forall>s i. (s, i) \<in> set m \<longrightarrow> ShardID i = s)"

lemma keyed_update: "keyed m \<Longrightarrow> keyed (AList.update s \<lparr>NodeID = n, ShardID = s\<rparr> m)"
  by (auto simp: keyed_def distinct_update dest!: update_set_cases)

lemma keyed_topo_add_node: "keyed (leaders t) \<Longrightarrow> keyed (leaders (topo_add_node s n t))"
  by (simp add: topo_add_node_def Let_def keyed_update)

lemma keyed_fold: "(\<And>x t. keyed (leaders t) \<Longrightarrow> keyed (leaders (h x t))) \<Longrightarrow> keyed (leaders t) \<Longrightarrow> keyed (leaders (fold h xs t))"
  by (induction xs arbitrary: t) simp_all

lemma SetTopoGetter_keyed: "keyed (leaders (SetTopoGetter m t))"
proof -
  have "keyed (leaders (fold (\<lambda>(s, im). fold (\<lambda>(n, _). topo_add_node s n) im) m (t\<lparr>leaders := [], shard2nodes := []\<rparr>)))"
  proof (rule keyed_fold)
    show "keyed (leaders u) \<Longrightarrow> keyed (leaders ((\<lambda>(s, im). fold (\<lambda>(n, _). topo_add_node s n) im) x u))" for x u
      by (cases x) (auto intro!: keyed_fold keyed_topo_add_node)
  qed (simp add: keyed_def)
  then show ?thesis by (simp add: SetTopoGetter_def Let_def keyed_update)
qed

lemma GetAllLeaders_length:
  assumes "keyed (leaders t)"
  shows "length (GetAllLeaders t) = card {s. is_ok (GetLeader t s) \<and> s \<noteq> SupervisorShardID}"
proof -
  have d: "distinct (map fst (filter (\<lambda>(s, i). s \<noteq> SupervisorShardID) (leaders t)))"
    using assms by (auto simp: keyed_def distinct_map intro: inj_on_subset)
  have "map snd (filter (\<lambda>(s, i). s \<noteq> SupervisorShardID) (leaders t)) = GetAllLeaders t"
    using assms unfolding GetAllLeaders_def keyed_def filter_map
    by (intro arg_cong [where f = "map snd"] filter_cong) auto
  then have "length (GetAllLeaders t) = length (map fst (filter (\<lambda>(s, i). s \<noteq> SupervisorShardID) (leaders t)))"
    by (metis length_map)
  also have "\<dots> = card (fst ` set (filter (\<lambda>(s, i). s \<noteq> SupervisorShardID) (leaders t)))"
    using distinct_card [OF d] by simp
  also have "fst ` set (filter (\<lambda>(s, i). s \<noteq> SupervisorShardID) (leaders t)) =
      {s. is_ok (GetLeader t s) \<and> s \<noteq> SupervisorShardID}"
    by (auto simp: GetLeader_def is_ok_iff map_of_eq_None_iff split: option.splits)
      (force dest: map_of_SomeD)+
  finally show ?thesis .
qed

lemma SetTopoGetter_known:
  assumes "id_map_wf m" "s \<noteq> SupervisorShardID"
  shows "is_ok (GetLeader (SetTopoGetter m t) s) \<longleftrightarrow> peer_of m s 0 \<noteq> None"
proof -
  have "distinct (map fst m)" using assms(1) by (simp add: id_map_wf_def)
  then have l: "map_of (leaders (SetTopoGetter m t)) s =
      (case map_of m s of Some im \<Rightarrow> if 0 \<in> fst ` set im then Some \<lparr>NodeID = 0, ShardID = s\<rparr> else None | None \<Rightarrow> None)"
    using assms(2) by (simp add: SetTopoGetter_def Let_def go_simps topo_fold_all_leader split: option.splits)
  show ?thesis
  proof (cases "map_of m s")
    case (Some im)
    then show ?thesis
      by (simp add: GetLeader_def l peer_of_def map_get_def map_of_eq_None_iff del: not_None_eq)
  qed (simp add: GetLeader_def l peer_of_def map_get_def)
qed

text \<open>A map that holds exactly the configured nodes makes a topology that is ready.\<close>

lemma complete_map_ready:
  assumes wf: "id_map_wf m" and S: "0 \<le> ShardNum cfg" "ShardNum cfg \<le> SupervisorShardID" and N: "0 < NodeNum cfg"
    and reg: "\<And>s n. s \<noteq> SupervisorShardID \<Longrightarrow>
      peer_of m s n \<noteq> None \<longleftrightarrow> 0 \<le> s \<and> s < ShardNum cfg \<and> 0 \<le> n \<and> n < NodeNum cfg"
  shows "checkNodeMapperReady (SetTopoGetter m t) cfg = Inr ()"
proof -
  let ?t = "SetTopoGetter m t"
  have "{s. is_ok (GetLeader ?t s) \<and> s \<noteq> SupervisorShardID} = {0 ..< ShardNum cfg}"
    using SetTopoGetter_known [OF wf] reg [of _ 0] S N by auto
  with GetAllLeaders_length [OF SetTopoGetter_keyed, of m t] have "int (length (GetAllLeaders ?t)) = ShardNum cfg"
    using S by simp
  moreover have "ready_loop ?t (NodeNum cfg) (map int [0 ..< nat (ShardNum cfg)]) = Inr ()"
  proof (rule ready_loop_total)
    fix s assume "s \<in> set (map int [0 ..< nat (ShardNum cfg)])"
    then have s: "0 \<le> s" "s < ShardNum cfg" "s \<noteq> SupervisorShardID" using S by auto
    with reg [of s 0] N have "peer_of m s 0 \<noteq> None" by simp
    then obtain im where im: "map_of m s = Some im" "im \<noteq> []"
      by (cases "map_of m s") (force simp: peer_of_def map_get_def)+
    have "fst ` set im = {0 ..< NodeNum cfg}"
      using reg [OF s(3)] s im by (force simp: peer_of_def map_get_def map_of_eq_None_iff)
    moreover have "distinct (map fst im)" using wf im by (auto simp: id_map_wf_def)
    ultimately have "int (length im) = NodeNum cfg" using N distinct_card [of "map fst im"] by simp
    with SetTopoGetter_nodes [of m s im t] wf im s SetTopoGetter_known [OF wf s(3), of t] \<open>peer_of m s 0 \<noteq> None\<close>
    show "is_ok (GetLeader ?t s) \<and> (\<exists>ns. GetNodesInShard ?t s = Inr ns \<and> int (length ns) = NodeNum cfg)"
      by (simp add: id_map_wf_def)
  qed
  ultimately show ?thesis by (simp add: checkNodeMapperReady_def)
qed

section \<open>Lemmas: start-up\<close>

lemma initBootstrap_ok:
  assumes "initBootstrap ba fs l = (Inr (), cs, fs', l')"
  shows "\<exists>h. l' = l\<lparr>l_hostInst := Some h, l_kadInst := True\<rparr>" "cs = []"
  using assms by (auto simp: initBootstrap_def split: prod.splits sum.splits)

text \<open>Each broadcast stream carries the encoded map, and none goes to the node itself.\<close>

lemma broadcast_streams:
  assumes "broadcastNode2PeerIdMap api conns l = (Inr (), l')" "(pid, pr, s) \<in> set (l_streams l')" "(pid, pr, s) \<notin> set (l_streams l)"
    and "\<And>pid s. NewStream api pid broadcastIdMapProtocol = Inr s \<Longrightarrow> s_written s = []"
  shows "set (s_written s) \<subseteq> {data. json_map_Marshal api (l_info2PeerID l) = Inr data}" "pid \<in> set conns"
    "pr = broadcastIdMapProtocol"
proof -
  obtain data where data: "json_map_Marshal api (l_info2PeerID l) = Inr data"
    using assms(1) by (cases "json_map_Marshal api (l_info2PeerID l)") (simp_all add: broadcastNode2PeerIdMap_def)
  obtain h where "l_hostInst l = Some h"
    using assms(1) data by (cases "l_hostInst l") (simp_all add: broadcastNode2PeerIdMap_def)
  then have l': "l' = fold (broadcast_one api data) (filter (\<lambda>pid. pid \<noteq> host_ID h) conns) l"
    using assms(1) data by (simp add: broadcastNode2PeerIdMap_def)
  have "x \<in> set (l_streams l) \<or> fst x \<in> set ps \<and> fst (snd x) = broadcastIdMapProtocol \<and> set (s_written (snd (snd x))) \<subseteq> {data}"
    if "x \<in> set (l_streams (fold (broadcast_one api data) ps l))" for x ps
    using that
  proof (induction ps rule: rev_induct)
    case (snoc p ps)
    then show ?case
      by (auto simp: broadcast_one_def log_stream_def s_Close_def writeStream_def Let_def assms(4) split: sum.splits)
  qed simp
  from this [OF assms(2) [unfolded l']] assms(3) data
  show "set (s_written s) \<subseteq> {data. json_map_Marshal api (l_info2PeerID l) = Inr data}" "pid \<in> set conns"
    "pr = broadcastIdMapProtocol" by auto
qed

lemma handleIdMapMessage_ok:
  "s_ReadAll s = (data, None) \<Longrightarrow> json_map_Unmarshal api data = Inr m \<Longrightarrow>
   snd (handleIdMapMessage api s l) = l\<lparr>l_info2PeerID := m, l_nodeM := SetTopoGetter m (l_nodeM l)\<rparr>"
  by (simp add: handleIdMapMessage_def)

text \<open>A registration counts as successful whatever the acknowledgement says.\<close>

lemma registerNodeInfo_ignores_ack:
  assumes "registerNodeInfo api self l = (Inr (), l')"
  shows "\<exists>pid s ack. l_streams l' = l_streams l @ [(pid, registerProtocol, s)] \<and> s_ReadAll s = (ack, None)"
  using assms
  by (auto simp: registerNodeInfo_def log_stream_def s_Close_def writeStream_def Let_def prod_eq_iff
      split: option.splits if_splits sum.splits prod.splits)

text \<open>The signals of the registrations since the last broadcast are merged into one broadcast.\<close>

lemma throttled_once:
  assumes "evs \<noteq> []" "set evs = {IdMapUpdated}"
  shows "throttledSender api (evs @ [TickerFired conns, TickerFired conns']) b l =
    (False, snd (broadcastNode2PeerIdMap api conns l))"
proof -
  have "throttledSender api (es @ rest) True l = throttledSender api rest True l" if "set es \<subseteq> {IdMapUpdated}" for es rest
    using that by (induction es) auto
  with assms show ?thesis by (cases evs) auto
qed

text \<open>A key that was loaded or saved is found again by the next start.\<close>

lemma bootstrap_key_stable:
  assumes "loadOrInitBootstrapKey ba fp fs = (Inr sk, fs')" "b_Read ba fp = Inr ()"
    and "\<And>k d. MarshalPrivateKey ba k = Inr d \<Longrightarrow> UnmarshalPrivateKey ba d = Inr k"
  shows "loadOrInitBootstrapKey ba fp fs' = (Inr sk, fs')"
proof (cases "loadBootstrapKey ba fp fs")
  case (Inl e)
  with assms(1) obtain d where "MarshalPrivateKey ba sk = Inr d" "fs' = AList.update fp d fs"
    by (auto simp: loadOrInitBootstrapKey_def generateBootstrapKey_def split: prod.splits sum.splits)
  with assms(2,3) show ?thesis by (simp add: loadOrInitBootstrapKey_def loadBootstrapKey_def AList_update_lookup)
next
  case (Inr k)
  with assms(1) show ?thesis by (simp add: loadOrInitBootstrapKey_def)
qed

lemma attempts_ok:
  "fst (attempts n i (\<lambda>i _. (r i, t i)) c) \<longleftrightarrow> (\<exists>j. i \<le> j \<and> j < i + n \<and> is_ok (r j))"
proof (induction n arbitrary: i c)
  case (Suc n)
  have "(\<exists>j. i \<le> j \<and> j < i + Suc n \<and> is_ok (r j)) \<longleftrightarrow> is_ok (r i) \<or> (\<exists>j. Suc i \<le> j \<and> j < Suc i + n \<and> is_ok (r j))"
    by (metis Suc_leI add_Suc_right add_Suc le_eq_less_or_eq less_add_Suc1 order_refl Suc_leD)
  with Suc show ?case by (auto simp: is_ok_iff split: sum.splits)
qed auto

lemma attempts_last: "attempts n i (\<lambda>i _. (r i, t i)) c = (True, c') \<Longrightarrow> \<exists>j. is_ok (r j) \<and> c' = t j"
  by (induction n arbitrary: i c) (auto simp: is_ok_iff split: sum.splits)

text \<open>
  Over libp2p the start-up goes on exactly when one of the thirty checks found the topology ready, and then with a topology
  that is ready.
\<close>

lemma PrepareNetworkByCfg_libp2p:
  assumes "retry_ok retry" "CommunicationMode (NetworkCfg cfg) = LibP2PConnMode"
  shows "is_ok (PrepareNetworkByCfg retry mapper file js cfg lp) \<longleftrightarrow>
      (\<exists>i < nodeMapperCheckTimes. checkNodeMapperReady (mapper i) (GlobalSys cfg) = Inr ())"
    "PrepareNetworkByCfg retry mapper file js cfg lp = Inr (net, nodeM) \<Longrightarrow> checkNodeMapperReady nodeM (GlobalSys cfg) = Inr ()"
proof -
  let ?c = "\<lambda>i. checkNodeMapperReady (mapper i) (GlobalSys cfg)"
  let ?w = "waitForNodeMapperReady retry mapper (GlobalSys cfg) (snd (initLibP2PNetwork (NetworkCfg cfg) lp :: 'a libp2p_conn \<times> topo_getter))"
  obtain ok m where att: "attempts nodeMapperCheckTimes 0 (\<lambda>i _. (?c i, mapper i))
      (snd (initLibP2PNetwork (NetworkCfg cfg) lp :: 'a libp2p_conn \<times> topo_getter)) = (ok, m)" by (rule prod.exhaust)
  have "0 < nodeMapperCheckTimes" by (simp add: nodeMapperCheckTimes_def)
  then have eq: "is_ok (fst ?w) = ok" "snd ?w = m"
    using assms(1) att unfolding retry_ok_def waitForNodeMapperReady_def by simp_all
  have w: "is_ok (fst ?w) \<longleftrightarrow> (\<exists>i < nodeMapperCheckTimes. is_ok (?c i))"
    using attempts_ok [of nodeMapperCheckTimes 0 ?c mapper "snd (initLibP2PNetwork (NetworkCfg cfg) lp :: 'a libp2p_conn \<times> topo_getter)"] att
    by (simp add: eq)
  have w2: "\<exists>j. is_ok (?c j) \<and> snd ?w = mapper j" if "is_ok (fst ?w)"
    using attempts_last [of nodeMapperCheckTimes 0 ?c mapper] att that by (simp add: eq)
  show "is_ok (PrepareNetworkByCfg retry mapper file js cfg lp) \<longleftrightarrow>
      (\<exists>i < nodeMapperCheckTimes. checkNodeMapperReady (mapper i) (GlobalSys cfg) = Inr ())"
    using w assms(2)
    by (auto simp: PrepareNetworkByCfg_def is_ok_iff initLibP2PNetwork_def Let_def split: prod.splits sum.splits)
  show "checkNodeMapperReady nodeM (GlobalSys cfg) = Inr ()" if "PrepareNetworkByCfg retry mapper file js cfg lp = Inr (net, nodeM)"
    using w2 that assms(2)
    by (auto simp: PrepareNetworkByCfg_def is_ok_iff initLibP2PNetwork_def Let_def split: prod.splits sum.splits)
qed

section \<open>From registration to a ready network\<close>

text \<open>
  What the code relies on: JSON gives back a map with the same entries, \<open>peer.Decode\<close> inverts \<open>ID.String\<close>, and a
  new stream has nothing written to it.
\<close>

definition p2p_ok :: "'p p2p_api \<Rightarrow> bool" where
  "p2p_ok api \<longleftrightarrow>
     (\<forall>m data. id_map_wf m \<and> json_map_Marshal api m = Inr data \<longrightarrow>
        (\<exists>m'. json_map_Unmarshal api data = Inr m' \<and> id_map_wf m' \<and> peer_of m' = peer_of m)) \<and>
     (\<forall>i. peer_Decode api (peer_String api i) = Inr i) \<and>
     (\<forall>pid pr s. NewStream api pid pr = Inr s \<longrightarrow> s_written s = [])"

lemma fold_store_peer_known:
  "peer_of (fold store_peer cs m) s n =
    (if \<exists>c \<in> set cs. rm_ShardID c = s \<and> rm_NodeID c = n
     then Some (rm_PeerID (hd (filter (\<lambda>c. rm_ShardID c = s \<and> rm_NodeID c = n) (rev cs)))) else peer_of m s n)"
  unfolding fold_store_peer_of
  by (cases "filter (\<lambda>c. rm_ShardID c = s \<and> rm_NodeID c = n) (rev cs)") (auto simp: filter_empty_conv dest: Cons_eq_filterD)

text \<open>What a node that receives the broadcast map knows.\<close>

lemma received_map:
  fixes api :: "'p p2p_api"
  assumes api: "p2p_ok api" and boot: "initBootstrap ba fs (NewLibP2PConn ncfg self t0) = (Inr (), cs, fs', l0)"
    and bc: "broadcastNode2PeerIdMap api conns (register_all api regs l0) = (Inr (), l)" "(pid, pr, st) \<in> set (l_streams l)"
    and recv: "data \<in> set (s_written st)" "s_ReadAll s = (data, None)"
  shows "\<exists>m. snd (handleIdMapMessage api s node) = node\<lparr>l_info2PeerID := m, l_nodeM := SetTopoGetter m (l_nodeM node)\<rparr> \<and>
    id_map_wf m \<and> peer_of m = peer_of (fold store_peer (claims api regs) (l_info2PeerID (NewLibP2PConn ncfg self t0 :: 'p libp2p_conn)))"
proof -
  obtain h where l0: "l0 = (NewLibP2PConn ncfg self t0)\<lparr>l_hostInst := Some h, l_kadInst := True\<rparr>"
    using initBootstrap_ok [OF boot] by blast
  let ?m = "fold store_peer (claims api regs) (l_info2PeerID l0)"
  have reg: "l_info2PeerID (register_all api regs l0) = ?m" "l_streams (register_all api regs l0) = []"
    by (simp_all add: register_all_state l0 NewLibP2PConn_def)
  have "json_map_Marshal api ?m = Inr data"
    using broadcast_streams(1) [OF bc] recv(1) api by (auto simp: reg p2p_ok_def)
  moreover have "id_map_wf ?m" by (simp add: l0 fold_store_peer_wf NewLibP2PConn_map(1))
  ultimately obtain m where "json_map_Unmarshal api data = Inr m" "id_map_wf m" "peer_of m = peer_of ?m"
    using api unfolding p2p_ok_def by blast
  with handleIdMapMessage_ok [OF recv(2)] show ?thesis by (auto simp: l0)
qed

text \<open>
  C27. The bootstrap node starts, the configured nodes register, each from its own peer, and the map is broadcast: a node
  that receives it passes the readiness check, and each message it then sends to a configured node goes over a stream to a peer that
  registered as that node.
\<close>

theorem registered_network_ready:
  fixes api :: "'p p2p_api"
  assumes "p2p_ok api" "initBootstrap ba fs (NewLibP2PConn ncfg self t0) = (Inr (), cs, fs', l0)"
    and "{(rm_ShardID c, rm_NodeID c) | c. c \<in> set (claims api regs)} = {0 ..< ShardNum cfg} \<times> {0 ..< NodeNum cfg}"
    and "0 \<le> ShardNum cfg" "ShardNum cfg \<le> SupervisorShardID" "0 < NodeNum cfg"
    and "broadcastNode2PeerIdMap api conns (register_all api regs l0) = (Inr (), l)" "(pid, pr, st) \<in> set (l_streams l)"
    and "data \<in> set (s_written st)" "s_ReadAll s = (data, None)" "node' = snd (handleIdMapMessage api s node)"
  shows "checkNodeMapperReady (l_nodeM node') cfg = Inr () \<and>
    (\<forall>dest m node''. dest \<noteq> l_me node \<and> (ShardID dest, NodeID dest) \<in> {0 ..< ShardNum cfg} \<times> {0 ..< NodeNum cfg} \<and>
       Lib_sendMessage api dest m node' = (Inr (), node'') \<longrightarrow>
       (\<exists>r c st'. r \<in> set regs \<and> claim api r = Some c \<and> rm_ShardID c = ShardID dest \<and> rm_NodeID c = NodeID dest \<and>
          l_streams node'' = l_streams node' @ [(RemotePeer r, consensusMsgProtocol, st')]))"
proof -
  let ?m0 = "l_info2PeerID (NewLibP2PConn ncfg self t0 :: 'p libp2p_conn)"
  obtain m where node': "node' = node\<lparr>l_info2PeerID := m, l_nodeM := SetTopoGetter m (l_nodeM node)\<rparr>"
    and m: "id_map_wf m" "peer_of m = peer_of (fold store_peer (claims api regs) ?m0)"
    using received_map [OF assms(1,2,7-10)] assms(11) by blast
  have claimed: "(\<exists>c \<in> set (claims api regs). rm_ShardID c = sh \<and> rm_NodeID c = n) \<longleftrightarrow>
      0 \<le> sh \<and> sh < ShardNum cfg \<and> 0 \<le> n \<and> n < NodeNum cfg" for sh n
    using assms(3) by (auto simp: set_eq_iff) metis
  have "checkNodeMapperReady (l_nodeM node') cfg = Inr ()"
  proof -
    have "peer_of m sh n \<noteq> None \<longleftrightarrow> 0 \<le> sh \<and> sh < ShardNum cfg \<and> 0 \<le> n \<and> n < NodeNum cfg"
      if "sh \<noteq> SupervisorShardID" for sh n
      unfolding m(2) fold_store_peer_known claimed by (simp add: NewLibP2PConn_map(2) [OF that])
    then show ?thesis using complete_map_ready [OF m(1) assms(4-6)] by (simp add: node')
  qed
  moreover have "\<exists>r c st'. r \<in> set regs \<and> claim api r = Some c \<and> rm_ShardID c = ShardID dest \<and> rm_NodeID c = NodeID dest \<and>
      l_streams node'' = l_streams node' @ [(RemotePeer r, consensusMsgProtocol, st')]"
    if "dest \<noteq> l_me node" "(ShardID dest, NodeID dest) \<in> {0 ..< ShardNum cfg} \<times> {0 ..< NodeNum cfg}"
      "Lib_sendMessage api dest msg node' = (Inr (), node'')" for dest msg node''
  proof -
    let ?here = "\<lambda>c. rm_ShardID c = ShardID dest \<and> rm_NodeID c = NodeID dest"
    define c where "c = hd (filter ?here (rev (claims api regs)))"
    have ex: "\<exists>c \<in> set (claims api regs). ?here c" using claimed that(2) by auto
    then have "c \<in> set (filter ?here (rev (claims api regs)))"
      unfolding c_def by (intro hd_in_set) (auto simp: filter_empty_conv)
    then obtain r where r: "r \<in> set regs" "claim api r = Some c" "?here c" by (auto simp: claims_set)
    have "peer_of m (ShardID dest) (NodeID dest) = Some (peer_String api (RemotePeer r))"
      using ex claim_peer [OF r(2)] by (simp add: m(2) fold_store_peer_known c_def)
    then have "map_get (map_get m (ShardID dest) []) (NodeID dest) [] = peer_String api (RemotePeer r)"
      by (simp add: peer_of_def map_get_def [of _ "NodeID dest"])
    with Lib_sendMessage_ok [OF that(3)] that(1) assms(1) r show ?thesis
      by (auto simp: node' p2p_ok_def)
  qed
  ultimately show ?thesis by blast
qed

text \<open>A network of one shard with two nodes: peer ids are their own strings, and the JSON codec knows one map.\<close>

definition plain_stream :: "peer_id \<Rightarrow> bytes \<Rightarrow> p2p_stream" where
  "plain_stream pid incoming =
     \<lparr>RemotePeer = pid, s_ReadAll = (incoming, None), s_Write = (\<lambda>_. Inr ()), s_CloseWrite = Inr (), s_written = [],
      s_reset = False, s_closed = False\<rparr>"

definition plain_id_map :: id_map where
  "plain_id_map = [(SupervisorShardID, [(0, ''boot'')]), (0, [(1, ''p''), (0, ''q'')])]"

definition plain_p2p :: "unit p2p_api" where
  "plain_p2p =
     \<lparr>peer_Decode = (\<lambda>s. Inr (map (\<lambda>c. of_nat (of_char c)) s)), peer_String = map (\<lambda>b. char_of (unat b)),
      NewStream = (\<lambda>pid _. Inr (plain_stream pid [])), proto_Marshal = (\<lambda>_. Inr [0]),
      proto_Unmarshal = (\<lambda>_. Inr \<lparr>MsgType = [], Payload = ()\<rparr>),
      json_reg_Marshal = (\<lambda>r. Inr []),
      json_reg_Unmarshal = (\<lambda>d. case d of [n, b] \<Rightarrow> Inr \<lparr>rm_ShardID = 0, rm_NodeID = uint n, rm_PeerID = [char_of (unat b)]\<rparr>
                                  | _ \<Rightarrow> Inl (Errorf ''invalid'')),
      json_map_Marshal = (\<lambda>m. if m = plain_id_map then Inr [1] else Inl (Errorf ''unsupported'')),
      json_map_Unmarshal = (\<lambda>_. Inr plain_id_map)\<rparr>"

definition plain_boot :: boot_api where
  "plain_boot =
     \<lparr>b_Read = (\<lambda>_. Inr ()), b_MkdirAll = (\<lambda>_. Inr ()), b_WriteFile = (\<lambda>_. Inr ()), UnmarshalPrivateKey = Inr,
      MarshalPrivateKey = Inr, GenerateKeyPair = Inr [5], NewMultiaddr = (\<lambda>_. Inr []), AddrInfoFromP2pAddr = Inr,
      libp2p_New = (\<lambda>_. Inr [9]), relay_New = Inr (), dht_New = Inr (), kad_Bootstrap = Inr (), mdns_Start = Inr (),
      b_Connect = (\<lambda>_ _. Inr ())\<rparr>"

definition plain_ncfg :: network_cfg where
  "plain_ncfg = \<lparr>Bandwidth = 0, Latency = 0, CommunicationMode = LibP2PConnMode,
     LibP2PCfg = \<lparr>BootstrapKeyFp = ''k'', BootstrapPeer = ''boot'', BootstrapIP = ''127.0.0.1'', BootstrapPort = 12345\<rparr>\<rparr>"

definition plain_sys :: system_cfg where
  "plain_sys = \<lparr>ShardNum = 1, NodeNum = 2, ConsensusType = StaticRelayConsensus, BlockSizeLimit = 10, sys_Log = \<lparr>LogDir = [], LogLevel = ''info''\<rparr>\<rparr>"

definition plain_conn :: "int \<Rightarrow> int \<Rightarrow> unit libp2p_conn" where
  "plain_conn shard node = NewLibP2PConn plain_ncfg \<lparr>NodeID = node, ShardID = shard\<rparr> (NewTopoGetter [] [])"

text \<open>The second registration claims the peer id of the first and is refused.\<close>

definition plain_regs :: "p2p_stream list" where
  "plain_regs = [plain_stream [112] [1, 112], plain_stream [113] [1, 112], plain_stream [113] [0, 113]]"

definition plain_supervisor :: "unit libp2p_conn" where
  "plain_supervisor = (plain_conn SupervisorShardID 0)\<lparr>l_hostInst := Some \<lparr>host_ID = [9],
     host_handlers = [(registerProtocol, H_handleRegisterStream), (consensusMsgProtocol, H_handleMessage)]\<rparr>, l_kadInst := True\<rparr>"

definition plain_node :: "unit libp2p_conn" where
  "plain_node = snd (handleIdMapMessage plain_p2p (plain_stream [9] [1])
     ((plain_conn 0 0)\<lparr>l_hostInst := Some \<lparr>host_ID = [113], host_handlers = []\<rparr>\<rparr>))"

lemmas plain_defs = plain_p2p_def plain_stream_def plain_boot_def plain_ncfg_def plain_conn_def plain_supervisor_def

lemma plain_peer: "peer_Decode plain_p2p (peer_String plain_p2p i) = Inr i"
  by (induction i) (simp_all add: plain_p2p_def of_char_of take_bit_nat_eq_self unsigned_less [where 'b = 8, simplified])

lemma plain_p2p_ok: "p2p_ok plain_p2p"
  unfolding p2p_ok_def
  by (intro conjI allI) (auto simp: plain_peer, auto simp: plain_defs plain_id_map_def SupervisorShardID_def id_map_wf_def split: if_splits)

lemma plain_start: "initBootstrap plain_boot [] (plain_conn SupervisorShardID 0) = (Inr (), [], [(''k'', [5])], plain_supervisor)"
  by (simp add: initBootstrap_def loadOrInitBootstrapKey_def loadBootstrapKey_def generateBootstrapKey_def plain_defs
      NewLibP2PConn_def)

lemma plain_claims:
  "claims plain_p2p plain_regs = [\<lparr>rm_ShardID = 0, rm_NodeID = 1, rm_PeerID = ''p''\<rparr>, \<lparr>rm_ShardID = 0, rm_NodeID = 0, rm_PeerID = ''q''\<rparr>]"
  by code_simp

definition plain_broadcast :: "unit result \<times> unit libp2p_conn" where
  "plain_broadcast = broadcastNode2PeerIdMap plain_p2p [[9], [113]] (register_all plain_p2p plain_regs plain_supervisor)"

lemma plain_broadcast_ok:
  "fst plain_broadcast = Inr ()" "map fst (l_streams (snd plain_broadcast)) = [[113]]"
  "map (\<lambda>(_, _, st). s_written st) (l_streams (snd plain_broadcast)) = [[[1]]]"
  by code_simp+

lemma plain_send_ok:
  "fst (Lib_sendMessage plain_p2p \<lparr>NodeID = 1, ShardID = 0\<rparr> \<lparr>MsgType = ''Prepare'', Payload = ()\<rparr> plain_node) = Inr ()"
  "map fst (l_streams plain_node) = []" "l_me plain_node = \<lparr>NodeID = 0, ShardID = 0\<rparr>"
  by code_simp+

theorem registered_network_ready_witness:
  "checkNodeMapperReady (l_nodeM plain_node) plain_sys = Inr () \<and>
   (\<exists>st. l_streams (Lib_SendMsg2Dest plain_p2p \<lparr>NodeID = 1, ShardID = 0\<rparr> \<lparr>MsgType = ''Prepare'', Payload = ()\<rparr> plain_node) =
      [([112], consensusMsgProtocol, st)])"
proof -
  let ?node = "(plain_conn 0 0)\<lparr>l_hostInst := Some \<lparr>host_ID = [113], host_handlers = []\<rparr>\<rparr>"
  obtain pr st where st: "l_streams (snd plain_broadcast) = [([113], pr, st)]" "s_written st = [[1]]"
    using plain_broadcast_ok(2,3) by auto
  have bc: "broadcastNode2PeerIdMap plain_p2p [[9], [113]] (register_all plain_p2p plain_regs plain_supervisor) =
      (Inr (), snd plain_broadcast)"
    using plain_broadcast_ok(1) by (simp add: plain_broadcast_def prod_eq_iff)
  have all: "{(rm_ShardID c, rm_NodeID c) | c. c \<in> set (claims plain_p2p plain_regs)} =
      {0 ..< ShardNum plain_sys} \<times> {0 ..< NodeNum plain_sys}"
  proof -
    have "{0 ..< ShardNum plain_sys} \<times> {0 ..< NodeNum plain_sys} = {(0, 0), (0, 1)}" by (auto simp: plain_sys_def)
    then show ?thesis unfolding Setcompr_eq_image plain_claims by (simp add: insert_commute)
  qed
  have size: "0 \<le> ShardNum plain_sys" "ShardNum plain_sys \<le> SupervisorShardID" "0 < NodeNum plain_sys"
    by (simp_all add: plain_sys_def SupervisorShardID_def)
  have read: "([113], pr, st) \<in> set (l_streams (snd plain_broadcast))" "[1] \<in> set (s_written st)"
      "s_ReadAll (plain_stream [9] [1]) = ([1], None)"
    by (simp_all add: st plain_stream_def)
  note ready = registered_network_ready [OF plain_p2p_ok plain_start [unfolded plain_conn_def] all size bc read plain_node_def]
  have me: "l_me ?node = \<lparr>NodeID = 0, ShardID = 0\<rparr>" by (simp add: plain_conn_def NewLibP2PConn_def)
  have sent: "Lib_sendMessage plain_p2p \<lparr>NodeID = 1, ShardID = 0\<rparr> \<lparr>MsgType = ''Prepare'', Payload = ()\<rparr> plain_node =
      (Inr (), Lib_SendMsg2Dest plain_p2p \<lparr>NodeID = 1, ShardID = 0\<rparr> \<lparr>MsgType = ''Prepare'', Payload = ()\<rparr> plain_node)"
    using plain_send_ok(1) by (simp add: Lib_SendMsg2Dest_def prod_eq_iff)
  from ready [THEN conjunct2, THEN spec, THEN spec, THEN spec, THEN mp, OF conjI [OF _ conjI [OF _ sent]]]
  have "\<exists>r c st'. r \<in> set plain_regs \<and> claim plain_p2p r = Some c \<and> rm_ShardID c = 0 \<and> rm_NodeID c = 1 \<and>
      l_streams (Lib_SendMsg2Dest plain_p2p \<lparr>NodeID = 1, ShardID = 0\<rparr> \<lparr>MsgType = ''Prepare'', Payload = ()\<rparr> plain_node) =
        l_streams plain_node @ [(RemotePeer r, consensusMsgProtocol, st')]"
    unfolding me by (simp add: plain_sys_def)
  then obtain r c st' where r: "r \<in> set plain_regs" "claim plain_p2p r = Some c" "rm_NodeID c = 1"
    "l_streams (Lib_SendMsg2Dest plain_p2p \<lparr>NodeID = 1, ShardID = 0\<rparr> \<lparr>MsgType = ''Prepare'', Payload = ()\<rparr> plain_node) =
        l_streams plain_node @ [(RemotePeer r, consensusMsgProtocol, st')]" by blast
  have "RemotePeer r = [112]"
    using r(1-3) by (auto simp: plain_regs_def claim_def plain_stream_def plain_p2p_def split: if_splits)
  with ready r(4) plain_send_ok(2) show ?thesis by auto
qed

end
