(* ===== verification/Startup.thy ===== *)
theory Startup
  imports Node_Chain Supervisor Libp2p Demo
begin

text \<open>
  The two processes: \<open>cmd/consensusnode/main.go\<close> and \<open>cmd/supervisor/main.go\<close>, with \<open>pkg/logger\<close> and the start of the
  direct connection (\<open>ListenStart\<close> of \<open>pkg/network/clientconnrpc\<close>). Command-line flags, the answers of the
  operating system and the decoders of the configuration are inputs; \<open>log.Fatal\<close> is the outcome \<open>Fatal\<close> of a start.
  Waiting, profiling and the periodic resource log have no effect on the state and are left out.
\<close>

section \<open>Logger\<close>

datatype slog_level = LevelDebug | LevelInfo | LevelWarn | LevelError

definition getSlogLevel :: "log_cfg \<Rightarrow> slog_level" where
  "getSlogLevel conf =
     (if LogLevel conf = ''debug'' then LevelDebug
      else if LogLevel conf = ''info'' then LevelInfo
      else if LogLevel conf = ''warn'' then LevelWarn
      else if LogLevel conf = ''error'' then LevelError
      else LevelInfo)"

datatype log_writer = Stdout | LogFile string

record slogger =
  sl_writers :: "log_writer list"
  sl_level :: slog_level
  sl_NodeInfo :: string

definition logFilePath :: "local_params \<Rightarrow> string \<Rightarrow> string" where
  "logFilePath l level =
     ''logs/shard='' @ Sprintf_d (lp_ShardID l) @ ''_node='' @ Sprintf_d (lp_NodeID l) @ ''/'' @ level @ ''.log''"

text \<open>The result is the new value of the variable \<open>logFile\<close>; an existing file is truncated.\<close>

definition setLogFile :: "local_params \<Rightarrow> log_cfg \<Rightarrow> filesys \<Rightarrow> string option result \<times> filesys" where
  "setLogFile l conf fs =
     (if LogDir conf = [] then (Inr None, fs)
      else
        (let logFp = path_Join (LogDir conf) (logFilePath l (LogLevel conf)) in
         case os_MkdirAll fs (path_Dir logFp) of Inl e \<Rightarrow> (Inl (Wrapf ''failed to create log directory'' e), fs)
         | Inr _ \<Rightarrow>
           (case os_OpenFile fs logFp of Inl e \<Rightarrow> (Inl (Wrapf ''open file'' e), fs)
            | Inr _ \<Rightarrow> (Inr (Some logFp), fs\<lparr>files := AList.update logFp [] (files fs)\<rparr>))))"

definition InitLogger :: "local_params \<Rightarrow> log_cfg \<Rightarrow> filesys \<Rightarrow> slogger result \<times> filesys" where
  "InitLogger l conf fs =
     (case setLogFile l conf fs of
        (Inl e, fs1) \<Rightarrow> (Inl (Wrapf ''set the logger file failed'' e), fs1)
      | (Inr logFile, fs1) \<Rightarrow>
        (Inr \<lparr>sl_writers = Stdout # (case logFile of None \<Rightarrow> [] | Some p \<Rightarrow> [LogFile p]),
              sl_level = getSlogLevel conf,
              sl_NodeInfo = ''S{'' @ Sprintf_d (lp_ShardID l) @ ''}_N{'' @ Sprintf_d (lp_NodeID l) @ ''}''\<rparr>, fs1))"

section \<open>Listening on the direct connection\<close>

text \<open>\<open>net.Listen\<close> and \<open>Serve\<close> of gRPC are answers; \<open>Serve\<close> returns only when the server stops.\<close>

definition RPC_ListenStart :: "(string \<Rightarrow> unit result) \<Rightarrow> unit result \<Rightarrow> 'p rpc_conn \<Rightarrow> unit result" where
  "RPC_ListenStart net_Listen serve r =
     (let listenAddr = map_get (info2Host r) (me r) [] in
      case net_Listen listenAddr of Inl e \<Rightarrow> Inl (Wrapf ''failed to listen'' e)
      | Inr _ \<Rightarrow> serve)"

section \<open>The processes\<close>

record flags =
  node_id :: int
  shard_id :: int
  account_addr :: string
  config_path :: string

text \<open>The environment of a start: the file system, the decoders, the retries and what the network fills into the topology.\<close>

record start_env =
  e_ReadFile :: "string \<Rightarrow> bytes result"
  e_json :: "bytes \<Rightarrow> config result"
  e_yaml :: "bytes \<Rightarrow> config result"
  e_retry :: "topo_getter retry_fun"
  e_mapper :: "nat \<Rightarrow> topo_getter"
  e_ipTable :: "bytes result"
  e_ipJson :: "bytes \<Rightarrow> id_map result"

datatype 'a started = Fatal goerror | Started 'a

text \<open>
  The common part of both \<open>main\<close> functions: parameters, configuration, logger and network. \<open>cfg.LogCfg\<close> is promoted from
  the system section of the supervisor configuration. The two differ in one text of an error.
\<close>

definition prepare ::
  "string \<Rightarrow> start_env \<Rightarrow> flags \<Rightarrow> filesys \<Rightarrow> (config \<times> local_params \<times> 'p p2p_network \<times> topo_getter) started \<times> filesys" where
  "prepare load_err env fl fs =
     (case LoadLocalParams (node_id fl) (shard_id fl) (account_addr fl) of
        Inl e \<Rightarrow> (Fatal (Wrapf ''load local parameters failed'' e), fs)
      | Inr l \<Rightarrow>
        (case LoadConfig (e_ReadFile env) (e_json env) (e_yaml env) (config_path fl) of
           Inl e \<Rightarrow> (Fatal (Wrapf load_err e), fs)
         | Inr conf \<Rightarrow>
           (case InitLogger l (sys_Log (sv_Sys (SupervisorCfg conf))) fs of
              (Inl e, fs1) \<Rightarrow> (Fatal (Wrapf ''init logger failed'' e), fs1)
            | (Inr _, fs1) \<Rightarrow>
              (case PrepareNetworkByCfg (e_retry env) (e_mapper env) (e_ipTable env) (e_ipJson env) conf l of
                 Inl e \<Rightarrow> (Fatal (Wrapf ''prepare network'' e), fs1)
               | Inr (p2p, nodeM) \<Rightarrow> (Started (conf, l, p2p, nodeM), fs1)))))"

definition consensus_create ::
  "start_env \<Rightarrow> flags \<Rightarrow> ('s, 'd) vm_api \<Rightarrow> 't codec \<Rightarrow> ('d, 'db, 't, 'n, 'td) open_api \<Rightarrow> 'p gob_api \<Rightarrow> gotime \<Rightarrow> filesys \<Rightarrow>
   (config \<times> local_params \<times> 'p p2p_network \<times> topo_getter \<times> ('s, 'd, 'db, 't, 'n, 'td, 'p) node) started \<times> filesys" where
  "consensus_create env fl v cd op g now fs =
     (case prepare ''load config'' env fl fs of
        (Fatal e, fs1) \<Rightarrow> (Fatal e, fs1)
      | (Started (conf, l, p2p, nodeM), fs1) \<Rightarrow>
        (case NewPBFTNode v cd (NewStorage op (cn_Storage (ConsensusNodeCfg conf)) l) g [] nodeM (ConsensusNodeCfg conf) l now fs1 of
           (Inl e, fs2) \<Rightarrow> (Fatal (Wrapf ''failed to create a PBFT node'' e), fs2)
         | (Inr n, fs2) \<Rightarrow> (Started (conf, l, p2p, nodeM, n), fs2)))"

text \<open>The process after the given ticks of its loop; \<open>None\<close> only when the loop that packs a block does not return.\<close>

definition consensus_main ::
  "start_env \<Rightarrow> flags \<Rightarrow> ('s, 'd) vm_api \<Rightarrow> 't codec \<Rightarrow> ('d, 'db, 't, 'n, 'td) open_api \<Rightarrow> 'p gob_api \<Rightarrow> gotime \<Rightarrow> 'p tick list \<Rightarrow> filesys \<Rightarrow>
   ('s, 'd, 'db, 't, 'n, 'td, 'p) node started option" where
  "consensus_main env fl v cd op g now tks fs =
     (case consensus_create env fl v cd op g now fs of
        (Fatal e, _) \<Rightarrow> Some (Fatal e)
      | (Started (_, _, _, _, n), _) \<Rightarrow> map_option Started (run tks n))"

definition supervisor_create ::
  "start_env \<Rightarrow> flags \<Rightarrow> 'f boot_env \<Rightarrow> 'p gob_api \<Rightarrow> filesys \<Rightarrow>
   (config \<times> local_params \<times> 'p p2p_network \<times> topo_getter \<times> ('p, 'f) supervisor) started \<times> filesys" where
  "supervisor_create env fl bt g fs =
     (case prepare ''load config failed'' env fl fs of
        (Fatal e, fs1) \<Rightarrow> (Fatal e, fs1)
      | (Started (conf, l, p2p, nodeM), fs1) \<Rightarrow>
        (case NewSupervisor bt [] nodeM g (SupervisorCfg conf) fs1 of
           (Inl e, fs2) \<Rightarrow> (Fatal (Wrapf ''new a supervisor failed'' e), fs2)
         | (Inr s, fs2) \<Rightarrow> (Started (conf, l, p2p, nodeM, s), fs2)))"

text \<open>A panic ends the process as it is; an error that \<open>Start\<close> returns is wrapped.\<close>

definition supervisor_main ::
  "start_env \<Rightarrow> flags \<Rightarrow> 'f boot_env \<Rightarrow> 'p gob_api \<Rightarrow> 't codec \<Rightarrow> ('f float_api \<times> ('f \<Rightarrow> string) \<times> unit result) \<Rightarrow> 'p sv_tick list \<Rightarrow>
   filesys \<Rightarrow> (bool \<times> ('p, 'f) supervisor) started option" where
  "supervisor_main env fl bt g cd out_api tks fs =
     (case supervisor_create env fl bt g fs of
        (Fatal e, _) \<Rightarrow> Some (Fatal e)
      | (Started (_, _, _, _, s), _) \<Rightarrow>
        (case Start cd out_api tks s of None \<Rightarrow> None
         | Some (Inl e, _) \<Rightarrow> Some (Fatal (if panics e then e else Wrapf ''failed to start supervisor node'' e))
         | Some (Inr done, s1) \<Rightarrow> Some (Started (done, s1))))"

section \<open>Lemmas\<close>

lemma InitLogger_writers: "InitLogger l conf fs = (Inr lg, fs') \<Longrightarrow> Stdout \<in> set (sl_writers lg)"
  by (auto simp: InitLogger_def split: prod.splits sum.splits)

text \<open>A process that has been prepared has parameters in range of its types, a uniform configuration and, over libp2p, a ready topology.\<close>

lemma prepare_Started:
  assumes "prepare err env fl fs = (Started (conf, l, p2p, nodeM), fs')"
  shows "0 \<le> lp_NodeID l" "0 \<le> lp_ShardID l" "sv_Sys (SupervisorCfg conf) = GlobalSys conf" "cn_Sys (ConsensusNodeCfg conf) = GlobalSys conf"
    "retry_ok (e_retry env) \<Longrightarrow> CommunicationMode (NetworkCfg conf) = LibP2PConnMode \<Longrightarrow> checkNodeMapperReady nodeM (GlobalSys conf) = Inr ()"
proof -
  have l: "LoadLocalParams (node_id fl) (shard_id fl) (account_addr fl) = Inr l"
    and c: "LoadConfig (e_ReadFile env) (e_json env) (e_yaml env) (config_path fl) = Inr conf"
    and p: "PrepareNetworkByCfg (e_retry env) (e_mapper env) (e_ipTable env) (e_ipJson env) conf l = Inr (p2p, nodeM)"
    using assms by (auto simp: prepare_def split: sum.splits prod.splits)
  show "0 \<le> lp_NodeID l" "0 \<le> lp_ShardID l" using LoadLocalParams_ok [OF l] by simp_all
  show "sv_Sys (SupervisorCfg conf) = GlobalSys conf" "cn_Sys (ConsensusNodeCfg conf) = GlobalSys conf" using LoadConfig_sys [OF c] by simp_all
  show "checkNodeMapperReady nodeM (GlobalSys conf) = Inr ()"
    if "retry_ok (e_retry env)" "CommunicationMode (NetworkCfg conf) = LibP2PConnMode"
    by (rule PrepareNetworkByCfg_libp2p(2) [OF that p])
qed

lemma consensus_create_Started:
  assumes "consensus_create env fl v cd op g now fs = (Started (conf, l, p2p, nodeM, n), fs')"
  obtains fs1 stores where "prepare ''load config'' env fl fs = (Started (conf, l, p2p, nodeM), fs1)"
    "NewStorage op (cn_Storage (ConsensusNodeCfg conf)) l = Inr stores"
    "NewPBFTNode v cd (Inr stores) g [] nodeM (ConsensusNodeCfg conf) l now fs1 = (Inr n, fs')"
proof -
  obtain fs1 where p: "prepare ''load config'' env fl fs = (Started (conf, l, p2p, nodeM), fs1)"
    and n: "NewPBFTNode v cd (NewStorage op (cn_Storage (ConsensusNodeCfg conf)) l) g [] nodeM (ConsensusNodeCfg conf) l now fs1 = (Inr n, fs')"
    using assms by (auto simp: consensus_create_def split: prod.splits started.splits sum.splits)
  obtain st where st: "NewStorage op (cn_Storage (ConsensusNodeCfg conf)) l = Inr st"
    using NewPBFTNode_chain(1) [OF n] by (auto simp: NewChain_def split: sum.splits)
  show thesis by (rule that [OF p st n [unfolded st]])
qed

text \<open>A supervisor that starts over libp2p can address the stop message to the nodes of all shards.\<close>

lemma collect_nodes_ok: "(\<And>i. i \<in> set is \<Longrightarrow> is_ok (GetNodesInShard t i)) \<Longrightarrow> is_ok (collect_nodes t is)"
  by (induction "is") (fastforce simp: is_ok_iff split: sum.splits)+

lemma supervisor_create_nodes:
  assumes "supervisor_create env fl bt g fs = (Started (conf, l, p2p, nodeM, s), fs')" "retry_ok (e_retry env)"
    and "CommunicationMode (NetworkCfg conf) = LibP2PConnMode"
  shows "is_ok (collect_nodes nodeM (map int [0..<nat (ShardNum (sv_Sys (SupervisorCfg conf)))]))"
proof (rule collect_nodes_ok)
  obtain fs1 where p: "prepare ''load config failed'' env fl fs = (Started (conf, l, p2p, nodeM), fs1)"
    using assms(1) by (auto simp: supervisor_create_def split: prod.splits started.splits sum.splits)
  note pr = prepare_Started [OF p]
  fix i assume "i \<in> set (map int [0..<nat (ShardNum (sv_Sys (SupervisorCfg conf)))])"
  then have "0 \<le> i" "i < ShardNum (GlobalSys conf)" using pr(3) by auto
  from checkNodeMapperReady_ok [OF pr(5) [OF assms(2,3)] this] show "is_ok (GetNodesInShard nodeM i)" by (auto simp: is_ok_iff)
qed

section \<open>A running consensus process\<close>

text \<open>
  C6. A consensus process that gets through its start runs under identifiers in the configured ranges and, over libp2p, with a
  leader and all nodes known in every shard. Whatever messages it receives then and whatever fails, its replica keeps its invariant, the
  header it builds on is that of the newest block of its block store, and no block that was stored is lost.
\<close>

theorem consensus_process_invariant:
  assumes "bolt_ok (op_bolt op)" "codec_ok cd" "retry_ok (e_retry env)"
    and "consensus_create env fl v cd op g now fs = (Started (conf, l, p2p, nodeM, n), fs')" "consensus_main env fl v cd op g now tks fs = Some (Started n')"
  shows "0 \<le> lp_ShardID l \<and> lp_ShardID l < ShardNum (GlobalSys conf) \<and> 0 \<le> lp_NodeID l \<and> lp_NodeID l < NodeNum (GlobalSys conf) \<and>
    (CommunicationMode (NetworkCfg conf) = LibP2PConnMode \<longrightarrow>
       (\<forall>s. 0 \<le> s \<and> s < ShardNum (GlobalSys conf) \<longrightarrow>
          is_ok (GetLeader nodeM s) \<and> (\<exists>ns. GetNodesInShard nodeM s = Inr ns \<and> int (length ns) = NodeNum (GlobalSys conf)))) \<and>
    meta_inv (pbftMeta n') \<and> head_ok (bc (nd_shard n')) \<and>
    blocks_kept (BlockStorage (bc (nd_shard n))) (bc (nd_shard n'))"
proof -
  have run: "run tks n = Some n'" using assms(4,5) by (simp add: consensus_main_def)
  obtain fs1 d bs lt where p: "prepare ''load config'' env fl fs = (Started (conf, l, p2p, nodeM), fs1)"
    and st: "NewStorage op (cn_Storage (ConsensusNodeCfg conf)) l = Inr (d, bs, lt)"
    and new: "NewPBFTNode v cd (Inr (d, bs, lt)) g [] nodeM (ConsensusNodeCfg conf) l now fs1 = (Inr n, fs')"
    using consensus_create_Started [OF assms(4)] by (metis prod.collapse)
  note pr = prepare_Started [OF p] and nc = NewPBFTNode_chain [OF new]
  have "bolt_wf bs" using st NewBoltStore_wf [OF assms(1)] by (auto simp: NewStorage_def split: sum.splits)
  note chain = run_head_ok [OF new this assms(2) run]
  have "meta_inv (pbftMeta n')" using run_inv [OF NewPBFTNode_inv [OF new] run] by (simp add: node_inv_def)
  moreover have "is_ok (GetLeader nodeM s) \<and> (\<exists>ns. GetNodesInShard nodeM s = Inr ns \<and> int (length ns) = NodeNum (GlobalSys conf))"
    if "CommunicationMode (NetworkCfg conf) = LibP2PConnMode" "0 \<le> s" "s < ShardNum (GlobalSys conf)" for s
    by (rule checkNodeMapperReady_ok [OF pr(5) [OF assms(3) that(1)] that(2,3)])
  ultimately show ?thesis using chain pr(1,2,4) nc(3,4) by simp
qed

text \<open>
  A node that starts over libp2p in a network of two shards, whose topology is complete at the second check, and then receives a
  preprepare.
\<close>

definition plain_full :: topo_getter where
  "plain_full = SetTopoGetter (map (\<lambda>s. (s, map (\<lambda>n. (n, ''p'')) [0, 1, 2, 3])) [0, 1]) (NewTopoGetter [] [])"

definition plain_env :: start_env where
  "plain_env =
     \<lparr>e_ReadFile = (\<lambda>_. Inr []),
      e_json = (\<lambda>_. Inr \<lparr>GlobalSys = demo_sys, ConsensusNodeCfg = demo_cfg,
        SupervisorCfg = \<lparr>sv_Sys = demo_sys, TxNumber = 3, TxInjectionSpeed = 5, ResultOutputDir = ''out'', EpochDuration = 10,
          TxSourceType = ''csv_source'', TxSourceFile = ''txs.csv'', ExcludeContractTxs = True, BrokerFilePath = ''brokers'', BrokerNum = 1\<rparr>,
        NetworkCfg = plain_ncfg\<rparr>),
      e_yaml = (\<lambda>_. Inl (Errorf ''yaml'')),
      e_retry = (\<lambda>n f c. case attempts n 0 f c of (ok, c') \<Rightarrow> (if ok then Inr () else Inl (Errorf ''retry''), c')),
      e_mapper = (\<lambda>i. if i = 0 then NewTopoGetter [] [] else plain_full),
      e_ipTable = Inl (Errorf ''no file''), e_ipJson = (\<lambda>_. Inl (Errorf ''json''))\<rparr>"

definition plain_flags :: flags where
  "plain_flags = \<lparr>node_id = 1, shard_id = 0, account_addr = ''0x'' @ replicate 40 CHR ''0'', config_path = ''c.json''\<rparr>"

definition plain_open :: "(demo_db, demo_buckets, demo_trie, demo_trie, demo_triedb) open_api" where
  "plain_open =
     \<lparr>vs_Memory = [], vs_Level = (\<lambda>_. Inr []), vs_Snapshot = (\<lambda>_. Inr ()), op_MkdirAll = (\<lambda>_. Inr ()), bbolt_Open = (\<lambda>_. Inr []),
      op_bolt = demo_bolt, td_Memory = [], td_Level = (\<lambda>_. Inr []), op_trie = demo_eth\<rparr>"

definition plain_tks :: "msg tick list" where
  "plain_tks = [\<lparr>tk_msgs = [demo_wrap (PreprepareMsg demo_pp)], tk_now = 9, tk_now' = 9\<rparr>]"

lemma plain_env_retry: "retry_ok (e_retry plain_env)"
  by (auto simp: retry_ok_def plain_env_def is_ok_iff split: prod.splits)

lemma plain_open_bolt: "bolt_ok (op_bolt plain_open)"
  by (simp add: plain_open_def demo_bolt_ok)

theorem consensus_process_invariant_witness:
  "\<exists>n'. consensus_main plain_env plain_flags demo_vm demo_codec plain_open demo_gob 7 plain_tks demo_fs = Some (Started n') \<and>
     meta_inv (pbftMeta n') \<and> head_ok (bc (nd_shard n'))"
proof -
  have "(case consensus_main plain_env plain_flags demo_vm demo_codec plain_open demo_gob 7 plain_tks demo_fs of
      Some (Started n) \<Rightarrow> True | _ \<Rightarrow> False)"
    by code_simp
  then obtain n' where n': "consensus_main plain_env plain_flags demo_vm demo_codec plain_open demo_gob 7 plain_tks demo_fs = Some (Started n')"
    by (auto split: option.splits started.splits)
  then obtain conf l p2p nodeM n fs' where
    "consensus_create plain_env plain_flags demo_vm demo_codec plain_open demo_gob 7 demo_fs = (Started (conf, l, p2p, nodeM, n), fs')"
    by (auto simp: consensus_main_def split: prod.splits started.splits)
  from consensus_process_invariant [OF plain_open_bolt demo_codec_ok plain_env_retry this n'] n' show ?thesis by blast
qed

end
