(* ===== verification/Spec2Isabelle.thy ===== *)
theory Spec2Isabelle
  imports Sharding Supervision Contract_File Contract_Exec Startup
begin

text \<open>
  A verification development of block-emulator-x, an emulator of sharded blockchains. Accounts are
  partitioned over shards; each shard is a group of nodes that runs PBFT over blocks of transactions; a
  supervisor process feeds transactions to the shards, moves accounts between them, acts for the broker
  accounts and collects statistics. Cross-shard transfers are done by one of two mechanisms: relay (the
  sender's shard deducts and passes the transaction on to the recipient's shard) and broker (an account that is
  present in both shards takes part in two transfers inside the shards). Both exist with a static partition and with
  one that the CLPA algorithm recomputes per epoch.

  \<^bold>\<open>The parts and their theories\<close>

  Paths are below \<open>src/\<close>. Definitions carry the name of the Go function, method or struct they translate,
  prefixed or suffixed where two packages use the same name.

  \<^item> \<open>Prelude\<close>: the Go types every component uses, errors as values, maps as association lists, wrap-around of
    \<open>int64\<close>, lemma collections.
  \<^item> \<open>Heap_PQ\<close> (\<open>consensus/pbft/basicstructs/pq.go\<close> on \<open>container/heap\<close>), \<open>Bloom_Filter\<close>
    (\<open>pkg/core/bloom\<close>), \<open>Core_Types\<close> (\<open>pkg/core/{account,block,transaction}\<close>, \<open>pkg/utils\<close>),
    \<open>Paths\<close> (\<open>path/filepath\<close> and \<open>%d\<close> of the standard library, as far as file names need them).
  \<^item> \<open>Network\<close> (\<open>pkg/nodetopo\<close>, \<open>pkg/message\<close>, \<open>pkg/network\<close>, the gRPC connection), \<open>Libp2p\<close>
    (\<open>pkg/network/connlibp2p\<close>, the choice of the network in \<open>cmd/loadnetwork\<close>) and \<open>Config\<close> (\<open>config\<close>,
    the direct network of \<open>cmd/loadnetwork\<close>). The connection handler is the locale \<open>p2p_conn\<close>,
    interpreted on both connections.
  \<^item> \<open>Msg_Pool\<close> (\<open>basicstructs/pool.go\<close>, \<open>viewseq.go\<close>), \<open>Pbft_Meta\<close> (\<open>consensus/pbft/pbftmeta.go\<close>), \<open>Pbft_Node\<close>
    (\<open>consensus/pbft/node.go\<close>): a replica; \<open>Node_Chain\<close>: its chain through a run, on the locale \<open>chain_invariant\<close>;
    \<open>Pbft_Safety\<close>: the cluster of replicas as a step relation, its
    invariant, agreement.
  \<^item> \<open>Tx_Execute\<close> (\<open>pkg/vm\<close>, \<open>pkg/chain/txexecute.go\<close>, \<open>stateio.go\<close>), \<open>Storage\<close>
    (\<open>pkg/storage\<close>, with the opening of the databases), \<open>Chain\<close> (\<open>pkg/chain/chain.go\<close>, \<open>pkg/partition/accountloc.go\<close>),
    \<open>Contract_Exec\<close> (\<open>pkg/contractexec\<close>, \<open>pkg/chain/evmcontractexecutor.go\<close>): the ledger of a shard.
  \<^item> \<open>Tx_Pool\<close> (\<open>pkg/core/txpool\<close>), \<open>Migration\<close> (\<open>consensus/pbft/migration\<close>), \<open>Block_Ops\<close>
    (\<open>insideop/txblockop\<close>, \<open>migrationblockop\<close>), \<open>Shard_Op\<close> (\<open>insideop\<close>, \<open>outsideop\<close>), \<open>Csv\<close>
    (\<open>pkg/csvwrite\<close>), \<open>Sends\<close>: what a node does inside its shard and what it tells the others.
  \<^item> \<open>Clpa\<close> (\<open>pkg/partition/{graph,clpa}.go\<close>), \<open>Tx_Source\<close> (\<open>supervisor/txsource\<close>), \<open>Committee\<close>
    (\<open>supervisor/committee\<close>: relay), \<open>Broker_Manager\<close> (\<open>pkg/broker\<close>), \<open>Broker_Committee\<close> and
    \<open>Broker_Money\<close> (\<open>supervisor/committee\<close>: broker), \<open>Measure\<close> (\<open>supervisor/measure\<close>), \<open>Supervisor\<close>
    (\<open>supervisor/supervisor.go\<close>): the supervisor process.
  \<^item> \<open>Startup\<close> (\<open>cmd/consensusnode\<close>, \<open>cmd/supervisor\<close>, \<open>pkg/logger\<close>): the two processes from their flags to their
    main loops.
  \<^item> \<open>Contract_File\<close> (\<open>cmd/generatecontracttxfile/usetxt\<close>): the tool that writes contract transactions
    into a file the CSV source reads.
  \<^item> \<open>Demo\<close>: concrete values of the parameters, for the witnesses.

  The state of a component is a record with the fields of its struct; a method becomes a function from the state to the
  result and the new state. Where Go changes the state and then returns an error, the model returns both. A
  panic is an error value of its own, which ends the process in the models of the two main loops.

  \<^bold>\<open>What the theorems show\<close>

  \<^item> Consensus (C1 to C12, this theory but for C6): agreement of honest replicas in every reachable state of a cluster under any
    delivery of messages; a decision needs a quorum of votes; the bound of faulty replicas; one tick of a node
    refines a sequence of cluster steps; catching up; the message pool and the priority queue.
  \<^item> A consensus process (C6, \<open>Startup\<close>): from its command line through any run of its loop the invariant of the replica holds, the
    head of its chain is the newest block of its store, and no stored block is lost.
  \<^item> The ledger (C13 to C22, \<open>Ledger\<close>): a generated block is valid; the roots put in a header are those the
    commitment of the block computes; blocks form one linked chain; execution conserves value inside a shard
    and over the two halves of relay and broker transactions; migrated accounts keep their state.
  \<^item> Sharding (C23 to C26, C28 and C30, \<open>Sharding\<close>): packing a block ends and loses no transaction, the pool is a FIFO
    queue, relayed transactions reach the shard of the recipient, the order of migration messages does not matter.
  \<^item> The network over libp2p (C27, \<open>Libp2p\<close>): once the configured nodes have registered, a node that receives the
    broadcast map is ready, and its messages go to the peers that registered.
  \<^item> The contract file (C29, \<open>Contract_File\<close>): what the tool writes is what the CSV source reads.
  \<^item> Supervision (C31 to C40, \<open>Supervision\<close> and \<open>Statistics\<close>): the CLPA partition and its incremental
    weights, the broker manager and the money of brokers, rounds of the committees, termination of the supervisor, the relay
    statistics, the shape of the transactions of the sources.

  \<^bold>\<open>Parameters\<close>

  Code outside the repository is a record of functions: \<open>vm_api\<close> (the state database and EVM of go-ethereum),
  \<open>trie_api\<close>, \<open>bolt_api\<close>, \<open>codec\<close> and \<open>gob_api\<close> (encodings and sha256), \<open>bitset_api\<close> and \<open>hash_api\<close>,
  \<open>grpc_api\<close>, \<open>p2p_api\<close> (streams of libp2p), \<open>float_api\<close> (\<open>float64\<close> arithmetic), \<open>tool_api\<close> (the ABI encoder and
  key generation of the contract tool), \<open>filesys\<close> and \<open>open_api\<close> (the answers of the operating
  system and of the databases when they are opened), \<open>boot_api\<close>, \<open>boot_env\<close> and \<open>start_env\<close> (those at the start of a process). Predicates named \<open>..._ok\<close> state
  the documented behaviour a theorem relies on, such as that decoding inverts encoding; \<open>Demo\<close> and the
  witnesses give values that satisfy them. The clock, random bytes and the iteration order of Go maps are
  arguments too, so theorems hold for every choice. Locks are not modelled: a method that holds
  one for its whole body is one step.

  \<^bold>\<open>Loops, fuel and bounds\<close>

  Loops over data are structural recursion or have a termination proof. Two loops may run forever as
  written, the packing loop of the shard operation (\<open>pack_loop\<close>) and the choice of a recipient in the random source
  (\<open>draw_receiver\<close>); they are partial functions into \<open>option\<close>, with lemmas that they return (C24 for the first, and
  for the second when the random bytes ever differ from the sender). No function of the model runs on fuel. Integers are unbounded where the code
  only counts or compares small values; \<open>wrap64\<close> and words are used where a
  result can leave its range (balances, heights, hashes). Out-of-range indices and nil maps are panics.

  \<^bold>\<open>Not modelled\<close>

  \<^item> The Go interface declarations have no behaviour; \<open>pkg/storage/block/tests.go\<close> is a test suite.
  \<^item> The gRPC stubs are generated; \<open>pkg/logger/resourcelog.go\<close>, log lines and the profiling server only report.
  \<^item> Closing of files, databases and connections, and the pauses before the loops, have no state to model.
  \<^item> Of libp2p: host options, NAT traversal, the DHT, mDNS discovery and the connection report, which are calls of the
    library.
\<close>

section \<open>Consensus\<close>







text \<open>
  C4. The quorum of the code, \<open>2 * f + 1\<close> with \<open>f = (n - 1) / 3\<close>, makes two quorums overlap in more than \<open>f\<close>
  nodes exactly when the number of nodes is one more than a multiple of three. With six nodes and
  \<open>f = 1\<close>, for example, two quorums of three need not overlap at all.
\<close>

theorem quorum_tolerates_f:
  assumes "0 < NodeNum (cn_Sys cf)" "in_int64 (NodeNum (cn_Sys cf))"
  shows "f (newConsensusMeta cf l now) < 2 * quorum (newConsensusMeta cf l now) - NodeNum (cn_Sys cf) \<longleftrightarrow>
    NodeNum (cn_Sys cf) mod 3 = 1"
  unfolding quorum_value [OF assms] by presburger

theorem quorum_tolerates_f_witness:
  "f (newConsensusMeta demo_cfg (demo_lp 0) 7) < 2 * quorum (newConsensusMeta demo_cfg (demo_lp 0) 7) - 4"
  using quorum_tolerates_f [of demo_cfg "demo_lp 0" 7] by (simp add: demo_cfg_def demo_sys_def in_int64_def)



text \<open>
  C7. Once a preprepare is held, \<open>curateMsg\<close> adds to the vote sets exactly the senders of the pooled votes
  for the current round with the digest of that preprepare, and leaves exactly the votes of later
  rounds in the pool.
\<close>

theorem curate_counts_votes:
  assumes "meta_inv c" "curPreprepare (curateMsg c) = Some pp"
  shows "set (prepareSet (curateMsg c)) = set (prepareSet c) \<union>
      {\<lparr>NodeID = p_NodeID m, ShardID = p_ShardID m\<rparr> | m. m \<in># pq_contents (prepares (msgPool c)) \<and>
         p_ViewSeq m = curViewSeq c \<and> p_Digest m = pp_Digest pp} \<and>
    set (commitSet (curateMsg c)) = set (commitSet c) \<union>
      {\<lparr>NodeID = c_NodeID m, ShardID = c_ShardID m\<rparr> | m. m \<in># pq_contents (commits (msgPool c)) \<and>
         c_ViewSeq m = curViewSeq c \<and> c_Digest m = pp_Digest pp} \<and>
    pq_contents (prepares (msgPool (curateMsg c))) =
      filter_mset (\<lambda>m. curViewSeq c < p_ViewSeq m) (pq_contents (prepares (msgPool c))) \<and>
    pq_contents (commits (msgPool (curateMsg c))) =
      filter_mset (\<lambda>m. curViewSeq c < c_ViewSeq m) (pq_contents (commits (msgPool c)))"
  by (intro conjI) (rule curateMsg_votes [OF assms])+

text \<open>A replica that holds the preprepare of its round, a matching, a wrong and a later commit.\<close>

definition demo_vote :: "int \<Rightarrow> bytes \<Rightarrow> int \<Rightarrow> commit_msg" where
  "demo_vote i d s = \<lparr>c_Digest = d, c_Seq = s, c_View = 0, c_ShardID = 0, c_NodeID = i\<rparr>"

definition demo_meta :: consensus_meta where
  "demo_meta = (newConsensusMeta demo_cfg (demo_lp 1) 7)
     \<lparr>msgPool := fold PushCommitMsg [demo_vote 2 [2] 0, demo_vote 3 [9] 0, demo_vote 2 [4] 1]
        (PushPreprepareMsg demo_pp NewMsgPool)\<rparr>"

lemma demo_meta_inv: "meta_inv demo_meta"
  unfolding demo_meta_def by (intro meta_inv_pool newConsensusMeta_inv) (simp add: pool_ok_Push pool_ok_New)

theorem curate_counts_votes_witness:
  "set (commitSet (curateMsg demo_meta)) = {\<lparr>NodeID = 2, ShardID = 0\<rparr>} \<and>
   pq_contents (commits (msgPool (curateMsg demo_meta))) = {#demo_vote 2 [4] 1#}"
proof -
  have "map_option pp_Digest (curPreprepare (curateMsg demo_meta)) = Some [2]" by code_simp
  then obtain pp where pp: "curPreprepare (curateMsg demo_meta) = Some pp" "pp_Digest pp = [2]" by auto
  have cs: "pq_contents (commits (msgPool demo_meta)) = mset [demo_vote 2 [2] 0, demo_vote 3 [9] 0, demo_vote 2 [4] 1]"
    by (simp add: demo_meta_def PushCommitMsg_def PushPreprepareMsg_def pq_contents_PushItem NewMsgPool_def)
      (simp add: NewPQ_def heap_Init_def pq_contents_def)
  have "curViewSeq demo_meta = ViewSeq 0 0" "commitSet demo_meta = []"
    by (simp_all add: demo_meta_def newConsensusMeta_def)
  with curate_counts_votes [OF demo_meta_inv pp(1)] show ?thesis
    by (auto simp: cs pp(2) demo_vote_def c_ViewSeq_def less_ViewSeq
      intro!: exI [of _ "\<lparr>c_Digest = [2], c_Seq = 0, c_View = 0, c_ShardID = 0, c_NodeID = 2\<rparr>"])
qed







text \<open>
  C11. Reading the commits of the message pool up to a round returns exactly the commits up to that
  round, in the order of rounds, and keeps exactly the later ones; the other two queues are untouched.
\<close>

theorem pool_read_takes_prefix:
  assumes "pool_ok m" "ReadCommitMsg bound m = (ret, m')"
  shows "mset ret = filter_mset (\<lambda>x. c_ViewSeq x \<le> bound) (pq_contents (commits m)) \<and> sorted (map c_ViewSeq ret) \<and>
    pq_contents (commits m') = filter_mset (\<lambda>x. bound < c_ViewSeq x) (pq_contents (commits m)) \<and>
    pool_ok m' \<and> preprepares m' = preprepares m \<and> prepares m' = prepares m"
  using read_commit_ok [OF assms] read_loop_filter [of c_ViewSeq "commits m" bound] assms
  by (auto simp: ReadCommitMsg_def pool_ok_def split: prod.splits)

theorem pool_read_takes_prefix_witness:
  "sorted (map c_ViewSeq (fst (ReadCommitMsg (ViewSeq 0 0) (msgPool demo_meta)))) \<and>
   length (fst (ReadCommitMsg (ViewSeq 0 0) (msgPool demo_meta))) = 2"
proof
  have "pool_ok (msgPool demo_meta)" using demo_meta_inv by (simp add: meta_inv_def)
  from pool_read_takes_prefix [OF this prod.collapse [symmetric]]
  show "sorted (map c_ViewSeq (fst (ReadCommitMsg (ViewSeq 0 0) (msgPool demo_meta))))" by blast
  show "length (fst (ReadCommitMsg (ViewSeq 0 0) (msgPool demo_meta))) = 2" by code_simp
qed

text \<open>
  C12. The priority queue sorts: pushing any messages and popping as many gives them back in the order
  of their keys.
\<close>

theorem priority_queue_sorts:
  fixes key :: "'a \<Rightarrow> view_seq"
  shows "\<exists>ys q. pq_drain PopItem (length xs) (fold PushItem xs (NewPQ (\<lambda>a b. Compare (key a) (key b) = - 1))) = Inr (ys, q) \<and>
    mset ys = mset xs \<and> sorted (map key ys) \<and> PQ_Len q = 0"
proof -
  let ?q = "fold PushItem xs (NewPQ (\<lambda>a b. key a < key b))"
  have wf: "pq_wf (\<lambda>a b. key a < key b) ?q" by (rule heap_pq.push_all_wf [OF heap_pq.wf_empty])
  have cs: "pq_contents ?q = mset xs"
    using heap_pq.push_all_contents [OF heap_pq.wf_empty, where f = key and xs = xs] heap_pq.contents_empty [where f = key] by simp
  obtain ys q where d: "pq_drain PopItem (length xs) ?q = Inr (ys, q)"
    using heap_pq.drain_total [OF wf, of "length xs"] cs by auto
  note s = heap_pq.drain_sorted [OF wf d]
  have "length ys = length xs" by (rule pq_drain_length [OF d])
  then have "size (pq_contents q) = 0" using arg_cong [OF s [THEN conjunct1], of size] cs by simp
  then have "pq_contents q = {#}" by simp
  then have "mset ys = mset xs" "PQ_Len q = 0" using s cs by (simp_all add: PQ_Len_def pq_contents_def)
  moreover have "sorted (map key ys)" using s by (simp add: sorted_wrt_map sorted_wrt_iff_nth_less not_less sorted_iff_nth_mono_less)
  ultimately show ?thesis using d unfolding Compare_less by blast
qed

end
